(* ===== verification/Prelude.thy ===== *)
theory Prelude
  imports Main
begin

text \<open>
  The vocabulary every other theory uses: the result type of a fallible Go function, the
  instants of package time, and the generic facts about lists that the tables of the store
  need. A Go function returning (T, error) is modelled as a value of type 'e + 'a with Inl
  for the error; one that also writes state returns a pair of that value and the new state.
\<close>

named_theorems wf_intros \<open>operations preserve the invariants of the tables\<close>
named_theorems sql_simps \<open>how the SQL statements change and read the tables\<close>
named_theorems go_simps \<open>evaluation of the string functions of the Go library\<close>

section \<open>Results\<close>

fun is_ok :: "'e + 'a \<Rightarrow> bool" where
  "is_ok (Inr _) = True"
| "is_ok (Inl _) = False"

lemma is_ok_iff: "is_ok r \<longleftrightarrow> (\<exists>x. r = Inr x)"
  by (cases r) auto

lemma not_is_ok_iff: "\<not> is_ok r \<longleftrightarrow> (\<exists>e. r = Inl e)"
  by (cases r) auto

section \<open>Instants\<close>

text \<open>
  A time.Time of a caller is a number of nanoseconds since the Unix epoch. An instant the
  store has rounded is a number of milliseconds: every time.Time the store returns is a whole
  number of them, because now() and instant() round, so the milliseconds are the value.
\<close>

type_synonym nanos = int
type_synonym msec = int

section \<open>Lists used as tables\<close>

lemma filter_True_conv: "(\<forall>x \<in> set xs. P x) \<Longrightarrow> filter P xs = xs"
  by (induction xs) auto

lemma distinct_map_filter [intro]: "distinct (map f xs) \<Longrightarrow> distinct (map f (filter P xs))"
  by (induction xs) auto

lemma inj_on_set_conv:
  "distinct (map f xs) \<Longrightarrow> x \<in> set xs \<Longrightarrow> y \<in> set xs \<Longrightarrow> f x = f y \<Longrightarrow> x = y"
  by (induction xs) (auto simp: image_iff)

lemma filter_eq_singleton:
  assumes "distinct (map f xs)" "x \<in> set xs"
  shows "filter (\<lambda>y. f y = f x) xs = [x]"
  using assms
  by (induction xs) (auto simp: filter_empty_conv image_iff)

lemma length_filter_le_one:
  assumes "distinct (map f xs)"
  shows "length (filter (\<lambda>y. f y = k) xs) \<le> 1"
  using assms
proof (induction xs)
  case (Cons a xs)
  then show ?case
    by (cases "f a = k") (auto simp: filter_empty_conv image_iff)
qed simp

lemma length_filter_filter_le: "length (filter Q (filter P xs)) \<le> length (filter Q xs)"
  by (induction xs) auto

lemma find_filter: "List.find P xs = (case filter P xs of [] \<Rightarrow> None | x # _ \<Rightarrow> Some x)"
  by (induction xs) auto

lemma find_SomeD: "List.find P xs = Some x \<Longrightarrow> x \<in> set xs \<and> P x"
  by (induction xs) (auto split: if_splits)

lemma find_Some_unique:
  assumes "distinct (map f xs)"
  shows "List.find (\<lambda>y. f y = k) xs = Some x \<longleftrightarrow> x \<in> set xs \<and> f x = k"
  using assms
  by (induction xs) (auto split: if_splits simp: image_iff)

lemma find_None_iff2: "List.find P xs = None \<longleftrightarrow> (\<forall>x \<in> set xs. \<not> P x)"
  by (induction xs) auto

lemma find_append: "List.find P (xs @ ys) =
    (case List.find P xs of None \<Rightarrow> List.find P ys | Some x \<Rightarrow> Some x)"
  by (induction xs) auto

lemma find_map_upd:
  assumes "\<And>x. P (f x) = P x"
  shows "List.find P (map f xs) = map_option f (List.find P xs)"
  using assms by (induction xs) auto

section \<open>Machines driven by operations\<close>

text \<open>
  A component whose operations each take it from one state to the next. What every operation
  keeps, every run keeps; and a relation every operation stands in (the trail only grows, the
  owner stays) relates the two ends of a run.
\<close>

locale machine =
  fixes step :: "'o \<Rightarrow> 's \<Rightarrow> 's"
    and inv :: "'s \<Rightarrow> bool"
  assumes inv_step: "inv s \<Longrightarrow> inv (step x s)"
begin

lemma inv_run: "inv s \<Longrightarrow> inv (fold step xs s)"
  by (induction xs arbitrary: s) (auto intro: inv_step)

end

locale monotone_machine = machine +
  fixes rel :: "'s \<Rightarrow> 's \<Rightarrow> bool"
  assumes rel_refl: "rel s s"
    and rel_trans: "rel s t \<Longrightarrow> rel t u \<Longrightarrow> rel s u"
    and rel_step: "inv s \<Longrightarrow> rel s (step x s)"
begin

lemma rel_run: "inv s \<Longrightarrow> rel s (fold step xs s)"
proof (induction xs arbitrary: s)
  case (Cons x xs)
  from Cons.prems have "rel (step x s) (fold step xs (step x s))"
    by (intro Cons.IH inv_step)
  then show ?case using rel_trans [OF rel_step [OF Cons.prems]] by simp
qed (simp add: rel_refl)

end

end
