(* ===== verification/Store_Schema.thy ===== *)
theory Store_Schema
  imports Go_Strings
begin

text \<open>
  The database of internal/store: its tables as the migrations of migrate.go create them, the
  statements the package sends, and the invariant the schema and those statements keep.

  SQLite itself is not in the repository. What the package relies on is here as the meaning of
  its statements on the tables: UNIQUE and partial UNIQUE indexes, PRIMARY KEY, FOREIGN KEY
  with ON DELETE CASCADE and ON DELETE SET NULL (foreign_keys is on for every connection, see
  dsn in store.go), rowids as one more than the largest in the table, and transactions. Two
  things it does not promise are inputs of every operation, in the record sqlite: which calls
  fail (a full disk, a cancelled context), and which of two violated indexes an insert names.
\<close>

section \<open>Tables\<close>

record operator =
  op_id :: int
  op_email :: string
  op_name :: string
  op_password_hash :: string
  op_is_owner :: bool
  op_created_at :: msec
  op_updated_at :: msec

record session =
  ses_token_hash :: string
  ses_operator_id :: int
  ses_created_at :: msec
  ses_expires_at :: msec

record setup_token =
  tok_token_hash :: string
  tok_created_at :: msec
  tok_expires_at :: msec

record audit_row =
  aud_id :: int
  aud_operator_id :: "int option"
  aud_operator_email :: string
  aud_action :: string
  aud_target :: string
  aud_config_key :: string
  aud_recorded_at :: msec

record db =
  operators :: "operator list"
  sessions :: "session list"
  audit_entries :: "audit_row list"
  setup_tokens :: "setup_token list"

definition empty_db :: db where
  "empty_db = \<lparr>operators = [], sessions = [], audit_entries = [], setup_tokens = []\<rparr>"

section \<open>The clock\<close>

text \<open>now() and millis(): the reading of the host's clock, rounded down to milliseconds.\<close>

definition millis :: "nanos \<Rightarrow> msec" where
  "millis t = t div 1000000"

definition instant :: "msec \<Rightarrow> nanos" where
  "instant ms = ms * 1000000"

definition now :: "nanos \<Rightarrow> msec" where
  "now clk = millis clk"

lemma millis_instant [simp]: "millis (instant ms) = ms"
  by (simp add: millis_def instant_def)

lemma instant_millis_le: "instant (millis t) \<le> t"
  by (simp add: millis_def instant_def minus_mod_eq_div_mult [symmetric])

section \<open>Errors of the driver\<close>

datatype dberr =
    SqliteError int string   \<comment> \<open>an extended result code and its message\<close>
  | NoRows                   \<comment> \<open>sql.ErrNoRows\<close>
  | DriverError              \<comment> \<open>anything else: the disk, the connection, the context\<close>

definition SQLITE_CONSTRAINT_UNIQUE :: int where "SQLITE_CONSTRAINT_UNIQUE = 2067"
definition SQLITE_CONSTRAINT_PRIMARYKEY :: int where "SQLITE_CONSTRAINT_PRIMARYKEY = 1555"
definition SQLITE_CONSTRAINT_FOREIGNKEY :: int where "SQLITE_CONSTRAINT_FOREIGNKEY = 787"

lemmas code_defs = SQLITE_CONSTRAINT_UNIQUE_def SQLITE_CONSTRAINT_PRIMARYKEY_def
  SQLITE_CONSTRAINT_FOREIGNKEY_def

definition email_violation :: dberr where
  "email_violation = SqliteError SQLITE_CONSTRAINT_UNIQUE
     ''UNIQUE constraint failed: operators.email (2067)''"

definition owner_violation :: dberr where
  "owner_violation = SqliteError SQLITE_CONSTRAINT_UNIQUE
     ''UNIQUE constraint failed: operators.is_owner (2067)''"

definition session_violation :: dberr where
  "session_violation = SqliteError SQLITE_CONSTRAINT_PRIMARYKEY
     ''UNIQUE constraint failed: sessions.token_hash (1555)''"

definition setup_token_violation :: dberr where
  "setup_token_violation = SqliteError SQLITE_CONSTRAINT_PRIMARYKEY
     ''UNIQUE constraint failed: setup_tokens.token_hash (1555)''"

definition foreign_key_violation :: dberr where
  "foreign_key_violation = SqliteError SQLITE_CONSTRAINT_FOREIGNKEY
     ''FOREIGN KEY constraint failed (787)''"

definition constraint :: "dberr \<Rightarrow> int list \<Rightarrow> bool" where
  "constraint err codes = (case err of SqliteError code _ \<Rightarrow> code \<in> set codes | _ \<Rightarrow> False)"

definition isUniqueViolation :: "dberr \<Rightarrow> bool" where
  "isUniqueViolation err =
     constraint err [SQLITE_CONSTRAINT_UNIQUE, SQLITE_CONSTRAINT_PRIMARYKEY]"

definition isForeignKeyViolation :: "dberr \<Rightarrow> bool" where
  "isForeignKeyViolation err = constraint err [SQLITE_CONSTRAINT_FOREIGNKEY]"

fun err_text :: "dberr \<Rightarrow> string" where
  "err_text (SqliteError _ message) = message"
| "err_text NoRows = ''sql: no rows in result set''"
| "err_text DriverError = ''''"

definition names_is_owner :: "dberr \<Rightarrow> bool" where
  "names_is_owner err = Contains (err_text err) ''is_owner''"

lemma violation_simps [simp]:
  "isUniqueViolation email_violation" "isUniqueViolation owner_violation"
  "isUniqueViolation session_violation" "isUniqueViolation setup_token_violation"
  "\<not> isUniqueViolation foreign_key_violation" "\<not> isUniqueViolation DriverError"
  "\<not> isUniqueViolation NoRows"
  "isForeignKeyViolation foreign_key_violation" "\<not> isForeignKeyViolation session_violation"
  "\<not> isForeignKeyViolation DriverError" "\<not> isForeignKeyViolation NoRows"
  by (simp_all add: isUniqueViolation_def isForeignKeyViolation_def constraint_def code_defs
      email_violation_def owner_violation_def session_violation_def setup_token_violation_def
      foreign_key_violation_def)

lemma names_is_owner_simps [simp]:
  "names_is_owner owner_violation" "\<not> names_is_owner email_violation"
  by (simp_all add: names_is_owner_def owner_violation_def email_violation_def HasPrefix_def)

section \<open>What the environment decides\<close>

record sqlite =
  fails :: "nat \<Rightarrow> bool"       \<comment> \<open>whether the k-th call an operation makes returns an error\<close>
  owner_index_first :: bool     \<comment> \<open>which index an insert violating both is reported under\<close>

definition healthy :: sqlite where
  "healthy = \<lparr>fails = (\<lambda>_. False), owner_index_first = True\<rparr>"

definition call :: "sqlite \<Rightarrow> nat \<Rightarrow> (dberr + 'a) \<Rightarrow> dberr + 'a" where
  "call q k r = (if fails q k then Inl DriverError else r)"

lemma healthy_simps [simp]: "fails healthy k = False" "owner_index_first healthy"
  by (simp_all add: healthy_def)

lemma call_healthy [simp]: "call healthy k r = r"
  by (simp add: call_def)

lemma call_Inr_iff [simp]: "call q k r = Inr x \<longleftrightarrow> \<not> fails q k \<and> r = Inr x"
  by (simp add: call_def)

lemma call_ok: "\<not> fails q k \<Longrightarrow> call q k r = r"
  by (simp add: call_def)

section \<open>Statements\<close>

definition next_rowid :: "int list \<Rightarrow> int" where
  "next_rowid ids = (if ids = [] then 1 else Max (set ids) + 1)"

definition sql_insert_operator :: "sqlite \<Rightarrow> operator \<Rightarrow> db \<Rightarrow> dberr + int \<times> db" where
  "sql_insert_operator q opr d =
     (let dup = (\<exists>r \<in> set (operators d). op_email r = op_email opr);
          two = (op_is_owner opr \<and> (\<exists>r \<in> set (operators d). op_is_owner r));
          i = next_rowid (map op_id (operators d))
      in if two \<and> (owner_index_first q \<or> \<not> dup) then Inl owner_violation
         else if dup then Inl email_violation
         else Inr (i, d\<lparr>operators := operators d @ [opr\<lparr>op_id := i\<rparr>]\<rparr>))"

definition sql_update_operators ::
    "(operator \<Rightarrow> bool) \<Rightarrow> (operator \<Rightarrow> operator) \<Rightarrow> db \<Rightarrow> nat \<times> db" where
  "sql_update_operators P f d =
     (length (filter P (operators d)),
      d\<lparr>operators := map (\<lambda>r. if P r then f r else r) (operators d)\<rparr>)"

text \<open>
  Deleting operators takes their sessions (ON DELETE CASCADE) and clears their id in the trail
  (ON DELETE SET NULL).
\<close>

definition set_null :: "int set \<Rightarrow> audit_row \<Rightarrow> audit_row" where
  "set_null gone a = (case aud_operator_id a of
       None \<Rightarrow> a
     | Some i \<Rightarrow> if i \<in> gone then a\<lparr>aud_operator_id := None\<rparr> else a)"

lemma set_null_simps [simp]:
  "aud_id (set_null gone a) = aud_id a"
  "aud_operator_email (set_null gone a) = aud_operator_email a"
  "aud_action (set_null gone a) = aud_action a" "aud_target (set_null gone a) = aud_target a"
  "aud_config_key (set_null gone a) = aud_config_key a"
  "aud_recorded_at (set_null gone a) = aud_recorded_at a"
  "aud_operator_id (set_null gone a) = Some i \<longleftrightarrow> aud_operator_id a = Some i \<and> i \<notin> gone"
  by (auto simp: set_null_def split: option.splits)

definition sql_delete_operators :: "(operator \<Rightarrow> bool) \<Rightarrow> db \<Rightarrow> nat \<times> db" where
  "sql_delete_operators P d =
     (let gone = map op_id (filter P (operators d))
      in (length gone,
          d\<lparr>operators := filter (\<lambda>r. \<not> P r) (operators d),
            sessions := filter (\<lambda>s. ses_operator_id s \<notin> set gone) (sessions d),
            audit_entries := map (set_null (set gone)) (audit_entries d)\<rparr>))"

definition sql_insert_session :: "session \<Rightarrow> db \<Rightarrow> dberr + db" where
  "sql_insert_session s d =
     (if \<exists>r \<in> set (sessions d). ses_token_hash r = ses_token_hash s then Inl session_violation
      else if \<not> (\<exists>r \<in> set (operators d). op_id r = ses_operator_id s)
      then Inl foreign_key_violation
      else Inr (d\<lparr>sessions := sessions d @ [s]\<rparr>))"

definition sql_delete_sessions :: "(session \<Rightarrow> bool) \<Rightarrow> db \<Rightarrow> nat \<times> db" where
  "sql_delete_sessions P d =
     (length (filter P (sessions d)), d\<lparr>sessions := filter (\<lambda>s. \<not> P s) (sessions d)\<rparr>)"

definition sql_insert_setup_token :: "setup_token \<Rightarrow> db \<Rightarrow> dberr + db" where
  "sql_insert_setup_token t d =
     (if \<exists>r \<in> set (setup_tokens d). tok_token_hash r = tok_token_hash t
      then Inl setup_token_violation
      else Inr (d\<lparr>setup_tokens := setup_tokens d @ [t]\<rparr>))"

definition sql_delete_setup_tokens :: "(setup_token \<Rightarrow> bool) \<Rightarrow> db \<Rightarrow> nat \<times> db" where
  "sql_delete_setup_tokens P d =
     (length (filter P (setup_tokens d)),
      d\<lparr>setup_tokens := filter (\<lambda>t. \<not> P t) (setup_tokens d)\<rparr>)"

definition sql_insert_audit :: "audit_row \<Rightarrow> db \<Rightarrow> db" where
  "sql_insert_audit a d =
     d\<lparr>audit_entries := audit_entries d
         @ [a\<lparr>aud_id := next_rowid (map aud_id (audit_entries d))\<rparr>]\<rparr>"

section \<open>The invariant of the tables\<close>

text \<open>normaliseEmail of operator.go: the form addresses are stored and looked up in.\<close>

definition normaliseEmail :: "string \<Rightarrow> string" where
  "normaliseEmail email = ToLower (TrimSpace email)"

definition operator_ids :: "db \<Rightarrow> int set" where
  "operator_ids d = op_id ` set (operators d)"

definition operators_wf :: "operator list \<Rightarrow> bool" where
  "operators_wf ops \<longleftrightarrow>
     distinct (map op_id ops) \<and> distinct (map op_email ops) \<and>
     length (filter op_is_owner ops) \<le> 1 \<and>
     (\<forall>x \<in> set ops. 1 \<le> op_id x \<and> op_email x \<noteq> [] \<and>
        normaliseEmail (op_email x) = op_email x \<and> op_password_hash x \<noteq> [])"

definition sessions_wf :: "db \<Rightarrow> bool" where
  "sessions_wf d \<longleftrightarrow>
     distinct (map ses_token_hash (sessions d)) \<and>
     (\<forall>s \<in> set (sessions d). ses_token_hash s \<noteq> [] \<and> ses_operator_id s \<in> operator_ids d)"

text \<open>
  The trail: an entry that still names an operator names one that exists, by the address that
  operator has, so a rowid used again is never the id of an old entry.
\<close>

definition audit_wf :: "db \<Rightarrow> bool" where
  "audit_wf d \<longleftrightarrow>
     distinct (map aud_id (audit_entries d)) \<and>
     (\<forall>a \<in> set (audit_entries d). 1 \<le> aud_id a \<and> aud_action a \<noteq> [] \<and>
        (\<forall>i. aud_operator_id a = Some i \<longrightarrow>
           (\<exists>x \<in> set (operators d). op_id x = i \<and> op_email x = aud_operator_email a)))"

definition tokens_wf :: "db \<Rightarrow> bool" where
  "tokens_wf d \<longleftrightarrow>
     length (setup_tokens d) \<le> 1 \<and> (\<forall>t \<in> set (setup_tokens d). tok_token_hash t \<noteq> [])"

definition wf_db :: "db \<Rightarrow> bool" where
  "wf_db d \<longleftrightarrow> operators_wf (operators d) \<and> sessions_wf d \<and> audit_wf d \<and> tokens_wf d"

lemmas wf_defs = wf_db_def operators_wf_def sessions_wf_def audit_wf_def tokens_wf_def

lemma normaliseEmail_idem [simp]: "normaliseEmail (normaliseEmail e) = normaliseEmail e"
  by (simp add: normaliseEmail_def TrimSpace_ToLower)

lemma wf_empty_db [wf_intros]: "wf_db empty_db"
  by (simp add: wf_defs empty_db_def)

lemma next_rowid_fresh: "next_rowid ids \<notin> set ids"
proof
  assume a: "next_rowid ids \<in> set ids"
  then have "next_rowid ids \<le> Max (set ids)" by (intro Max_ge) auto
  moreover have "ids \<noteq> []" using a by auto
  ultimately show False by (simp add: next_rowid_def)
qed

lemma next_rowid_pos:
  assumes "\<forall>i \<in> set ids. 1 \<le> i"
  shows "1 \<le> next_rowid ids"
proof (cases "ids = []")
  case False
  then have "Max (set ids) \<in> set ids" by (intro Max_in) auto
  then have "1 \<le> Max (set ids)" using assms by blast
  with False show ?thesis by (simp add: next_rowid_def)
qed (simp add: next_rowid_def)

lemma next_rowid_map_fresh: "x \<in> set xs \<Longrightarrow> f x \<noteq> next_rowid (map f xs)"
  by (metis imageI next_rowid_fresh set_map)

subsection \<open>Statements keep it\<close>

lemma wf_insert_operator [wf_intros]:
  assumes "wf_db d" "sql_insert_operator q opr d = Inr (i, d')"
    and "op_email opr \<noteq> []" "normaliseEmail (op_email opr) = op_email opr"
    and "op_password_hash opr \<noteq> []"
  shows "wf_db d'"
proof -
  let ?new = "opr\<lparr>op_id := i\<rparr>"
  have i: "i = next_rowid (map op_id (operators d))"
    and d': "d' = d\<lparr>operators := operators d @ [?new]\<rparr>"
    and e: "op_email opr \<notin> op_email ` set (operators d)"
    and o: "op_is_owner opr \<longrightarrow> filter op_is_owner (operators d) = []"
    using assms(2) by (auto simp: sql_insert_operator_def Let_def filter_empty_conv split: if_splits)
  have "operators_wf (operators d @ [?new])"
    using assms(1,3-) e o i next_rowid_fresh [of "map op_id (operators d)"]
      next_rowid_pos [of "map op_id (operators d)"]
    by (auto simp: wf_db_def operators_wf_def)
  moreover have "sessions_wf d'" "audit_wf d'" "tokens_wf d'"
    using assms(1) by (auto simp: wf_defs d' operator_ids_def)
  ultimately show ?thesis by (simp add: wf_db_def d')
qed

text \<open>An update that leaves id, address and ownership alone, as every one the package sends does.\<close>

lemma wf_update_operators [wf_intros]:
  assumes "wf_db d"
    and "\<And>x. op_id (f x) = op_id x" "\<And>x. op_email (f x) = op_email x"
    and "\<And>x. op_is_owner (f x) = op_is_owner x"
    and "\<And>x. op_password_hash x \<noteq> [] \<Longrightarrow> op_password_hash (f x) \<noteq> []"
  shows "wf_db (snd (sql_update_operators P f d))"
proof -
  let ?g = "\<lambda>r. if P r then f r else r"
  have maps: "map op_id (map ?g xs) = map op_id xs" "map op_email (map ?g xs) = map op_email xs"
    "length (filter op_is_owner (map ?g xs)) = length (filter op_is_owner xs)" for xs
    using assms(2-4) by (induction xs) auto
  have ids: "op_id ` set (map ?g xs) = op_id ` set xs" for xs
    by (metis maps(1) set_map)
  have "operators_wf (map ?g (operators d))"
    using assms unfolding wf_db_def operators_wf_def maps by auto
  moreover have "\<exists>y \<in> set (map ?g xs). op_id y = op_id x \<and> op_email y = op_email x"
    if "x \<in> set xs" for x xs
    using that assms(2,3) by (intro bexI [of _ "?g x"]) auto
  ultimately show ?thesis
    using assms(1)
    by (force simp: wf_db_def sessions_wf_def audit_wf_def tokens_wf_def sql_update_operators_def
        operator_ids_def ids simp del: set_map image_image)
qed

lemma wf_delete_operators [wf_intros]:
  assumes "wf_db d"
  shows "wf_db (snd (sql_delete_operators P d))"
proof -
  let ?gone = "set (map op_id (filter P (operators d)))"
  let ?d = "snd (sql_delete_operators P d)"
  have d: "operators ?d = filter (\<lambda>r. \<not> P r) (operators d)"
    "sessions ?d = filter (\<lambda>s. ses_operator_id s \<notin> ?gone) (sessions d)"
    "audit_entries ?d = map (set_null ?gone) (audit_entries d)" "setup_tokens ?d = setup_tokens d"
    by (simp_all add: sql_delete_operators_def Let_def)
  have keep: "x \<in> set (operators ?d)" if "x \<in> set (operators d)" "op_id x \<notin> ?gone" for x
    using that d(1) by auto
  have "operators_wf (operators ?d)"
    using assms length_filter_filter_le [of op_is_owner "\<lambda>r. \<not> P r" "operators d"]
    by (auto simp: d(1) wf_db_def operators_wf_def simp del: filter_filter)
  moreover have "sessions_wf ?d"
    using assms keep by (auto simp: d(2) wf_db_def sessions_wf_def operator_ids_def)
  moreover have "audit_wf ?d"
    using assms keep by (fastforce simp: d(3) wf_db_def audit_wf_def comp_def)
  moreover have "tokens_wf ?d"
    using assms by (auto simp: d(4) wf_db_def tokens_wf_def)
  ultimately show ?thesis by (simp add: wf_db_def)
qed

lemma sql_insert_session_Inr:
  "sql_insert_session s d = Inr d' \<Longrightarrow>
     d' = d\<lparr>sessions := sessions d @ [s]\<rparr> \<and>
     ses_token_hash s \<notin> ses_token_hash ` set (sessions d) \<and> ses_operator_id s \<in> operator_ids d"
  by (force simp: sql_insert_session_def operator_ids_def split: if_splits)

lemma wf_insert_session [wf_intros]:
  assumes "wf_db d" "sql_insert_session s d = Inr d'" "ses_token_hash s \<noteq> []"
  shows "wf_db d'"
  using assms(1,3) sql_insert_session_Inr [OF assms(2)]
  by (auto simp: wf_defs operator_ids_def)

lemma wf_delete_sessions [wf_intros]: "wf_db d \<Longrightarrow> wf_db (snd (sql_delete_sessions P d))"
  by (auto simp: wf_defs sql_delete_sessions_def operator_ids_def)

lemma wf_delete_setup_tokens [wf_intros]:
  assumes "wf_db d" shows "wf_db (snd (sql_delete_setup_tokens P d))"
proof -
  have "length (filter (\<lambda>t. \<not> P t) (setup_tokens d)) \<le> 1"
    using assms order_trans [OF length_filter_le [of "\<lambda>t. \<not> P t" "setup_tokens d"]]
    unfolding wf_db_def tokens_wf_def by blast
  with assms show ?thesis by (auto simp: wf_defs sql_delete_setup_tokens_def operator_ids_def)
qed

lemma wf_insert_setup_token [wf_intros]:
  "wf_db d \<Longrightarrow> setup_tokens d = [] \<Longrightarrow> tok_token_hash t \<noteq> [] \<Longrightarrow>
   sql_insert_setup_token t d = Inr d' \<Longrightarrow> wf_db d'"
  by (auto simp: wf_defs sql_insert_setup_token_def operator_ids_def)

lemma wf_insert_audit [wf_intros]:
  assumes "wf_db d" "aud_action a \<noteq> []"
    and "\<And>i. aud_operator_id a = Some i \<Longrightarrow>
           \<exists>x \<in> set (operators d). op_id x = i \<and> op_email x = aud_operator_email a"
  shows "wf_db (sql_insert_audit a d)"
proof -
  have "1 \<le> next_rowid (map aud_id (audit_entries d))"
    using assms(1) by (intro next_rowid_pos) (auto simp: wf_db_def audit_wf_def)
  then have "audit_wf (sql_insert_audit a d)"
    using assms next_rowid_fresh [of "map aud_id (audit_entries d)"]
    by (auto simp: wf_db_def audit_wf_def sql_insert_audit_def)
  then show ?thesis
    using assms(1) by (auto simp: wf_db_def sql_insert_audit_def sessions_wf_def tokens_wf_def operator_ids_def)
qed

subsection \<open>What a statement leaves alone\<close>

lemma sql_frame [sql_simps]:
  "sessions (snd (sql_update_operators P f d)) = sessions d"
  "audit_entries (snd (sql_update_operators P f d)) = audit_entries d"
  "setup_tokens (snd (sql_update_operators P f d)) = setup_tokens d"
  "operators (snd (sql_delete_sessions R d)) = operators d"
  "audit_entries (snd (sql_delete_sessions R d)) = audit_entries d"
  "setup_tokens (snd (sql_delete_sessions R d)) = setup_tokens d"
  "operators (snd (sql_delete_setup_tokens S d)) = operators d"
  "sessions (snd (sql_delete_setup_tokens S d)) = sessions d"
  "audit_entries (snd (sql_delete_setup_tokens S d)) = audit_entries d"
  "operators (sql_insert_audit a d) = operators d"
  "sessions (sql_insert_audit a d) = sessions d"
  "setup_tokens (sql_insert_audit a d) = setup_tokens d"
  "setup_tokens (snd (sql_delete_operators P d)) = setup_tokens d"
  by (simp_all add: sql_update_operators_def sql_delete_sessions_def sql_delete_setup_tokens_def
      sql_insert_audit_def sql_delete_operators_def Let_def)

lemma sql_rows [sql_simps]:
  "fst (sql_update_operators P f d) = length (filter P (operators d))"
  "operators (snd (sql_update_operators P f d)) = map (\<lambda>r. if P r then f r else r) (operators d)"
  "fst (sql_delete_operators P d) = length (filter P (operators d))"
  "operators (snd (sql_delete_operators P d)) = filter (\<lambda>r. \<not> P r) (operators d)"
  "fst (sql_delete_sessions R d) = length (filter R (sessions d))"
  "sessions (snd (sql_delete_sessions R d)) = filter (\<lambda>s. \<not> R s) (sessions d)"
  "fst (sql_delete_setup_tokens S d) = length (filter S (setup_tokens d))"
  "setup_tokens (snd (sql_delete_setup_tokens S d)) = filter (\<lambda>t. \<not> S t) (setup_tokens d)"
  by (simp_all add: sql_update_operators_def sql_delete_sessions_def sql_delete_setup_tokens_def
      sql_delete_operators_def Let_def)

lemma sql_insert_operator_Inr:
  "sql_insert_operator q opr d = Inr (i, d') \<Longrightarrow>
     i = next_rowid (map op_id (operators d)) \<and>
     d' = d\<lparr>operators := operators d @ [opr\<lparr>op_id := i\<rparr>]\<rparr> \<and>
     (\<forall>r \<in> set (operators d). op_email r \<noteq> op_email opr) \<and>
     (op_is_owner opr \<longrightarrow> (\<forall>r \<in> set (operators d). \<not> op_is_owner r))"
  by (auto simp: sql_insert_operator_def Let_def split: if_splits)

lemma sql_insert_operator_Inl:
  "sql_insert_operator q opr d = Inl e \<Longrightarrow>
     isUniqueViolation e \<and>
     (if names_is_owner e then op_is_owner opr \<and> (\<exists>r \<in> set (operators d). op_is_owner r)
      else \<exists>r \<in> set (operators d). op_email r = op_email opr)"
  by (auto simp: sql_insert_operator_def Let_def split: if_splits)

end
