(* ===== verification/Store_Operator.thy ===== *)
theory Store_Operator
  imports Store_Schema
begin

text \<open>
  internal/store/operator.go: the accounts. Each exported method of Store is one definition over
  the tables, with the sentinel errors of store.go as constructors. Calls an operation makes to
  the driver are numbered from 0 in the order of the source, for the faults of the environment.
\<close>

section \<open>Errors of the package\<close>

datatype store_error =
    ErrNotFound
  | ErrExists
  | ErrOwnerExists
  | ErrOwnerProtected
  | ErrRefused string     \<comment> \<open>an argument the operation refuses, with its reason\<close>
  | ErrDriver dberr       \<comment> \<open>any other error of the driver, wrapped\<close>

definition notFound :: "dberr \<Rightarrow> store_error" where
  "notFound err = (if err = NoRows then ErrNotFound else ErrDriver err)"

text \<open>QueryRow(...).Scan(...): the first row, or sql.ErrNoRows.\<close>

definition query_row :: "sqlite \<Rightarrow> nat \<Rightarrow> 'a list \<Rightarrow> dberr + 'a" where
  "query_row q k rows = call q k (case rows of [] \<Rightarrow> Inl NoRows | r # _ \<Rightarrow> Inr r)"

definition scanOperator :: "dberr + operator \<Rightarrow> store_error + operator" where
  "scanOperator row = (case row of Inl err \<Rightarrow> Inl (notFound err) | Inr opr \<Rightarrow> Inr opr)"

section \<open>Creating\<close>

definition createOperator ::
    "sqlite \<Rightarrow> nanos \<Rightarrow> string \<Rightarrow> string \<Rightarrow> string \<Rightarrow> bool \<Rightarrow> db
      \<Rightarrow> (store_error + operator) \<times> db" where
  "createOperator q clk email name passwordHash owner d =
     (let email = normaliseEmail email in
      if email = [] then (Inl (ErrRefused ''no email address to sign in with''), d)
      else if passwordHash = [] then (Inl (ErrRefused ''no password hash to store''), d)
      else
        let stamp = now clk;
            opr = \<lparr>op_id = 0, op_email = email, op_name = name, op_password_hash = passwordHash,
                   op_is_owner = owner, op_created_at = stamp, op_updated_at = stamp\<rparr>
        in case call q 0 (sql_insert_operator q opr d) of
             Inl err \<Rightarrow>
               (if isUniqueViolation err then
                  (if owner \<and> names_is_owner err then Inl ErrOwnerExists else Inl ErrExists)
                else Inl (ErrDriver err), d)
           | Inr (i, d') \<Rightarrow>
               (case call q 1 (Inr i) of
                  Inl err \<Rightarrow> (Inl (ErrDriver err), d')
                | Inr i \<Rightarrow> (Inr (opr\<lparr>op_id := i\<rparr>), d')))"

definition CreateOwner ::
    "sqlite \<Rightarrow> nanos \<Rightarrow> string \<Rightarrow> string \<Rightarrow> string \<Rightarrow> db \<Rightarrow> (store_error + operator) \<times> db" where
  "CreateOwner q clk email name passwordHash d = createOperator q clk email name passwordHash True d"

definition CreateOperator ::
    "sqlite \<Rightarrow> nanos \<Rightarrow> string \<Rightarrow> string \<Rightarrow> string \<Rightarrow> db \<Rightarrow> (store_error + operator) \<times> db" where
  "CreateOperator q clk email name passwordHash d = createOperator q clk email name passwordHash False d"

section \<open>Reading\<close>

definition Operator :: "sqlite \<Rightarrow> int \<Rightarrow> db \<Rightarrow> store_error + operator" where
  "Operator q i d = scanOperator (query_row q 0 (filter (\<lambda>r. op_id r = i) (operators d)))"

definition OperatorByEmail :: "sqlite \<Rightarrow> string \<Rightarrow> db \<Rightarrow> store_error + operator" where
  "OperatorByEmail q email d =
     (let email = normaliseEmail email
      in scanOperator (query_row q 0 (filter (\<lambda>r. op_email r = email) (operators d))))"

definition Owner :: "sqlite \<Rightarrow> db \<Rightarrow> store_error + operator" where
  "Owner q d = scanOperator (query_row q 0 (filter op_is_owner (operators d)))"

text \<open>ORDER BY is_owner DESC, id.\<close>

definition owner_first :: "operator list \<Rightarrow> operator list" where
  "owner_first ops = sort_key (\<lambda>r. if op_is_owner r then 0 else 1 :: nat) (sort_key op_id ops)"

definition Operators :: "sqlite \<Rightarrow> db \<Rightarrow> store_error + operator list" where
  "Operators q d = (case call q 0 (Inr (owner_first (operators d))) of
       Inl err \<Rightarrow> Inl (ErrDriver err)
     | Inr rows \<Rightarrow> (case call q 1 (Inr rows) of Inl err \<Rightarrow> Inl (ErrDriver err) | Inr rows \<Rightarrow> Inr rows))"

section \<open>Changing\<close>

text \<open>
  One transaction: a failure after BeginTx leaves the tables as they were, because the deferred
  Rollback takes back what the transaction wrote.
\<close>

definition SetPassword ::
    "sqlite \<Rightarrow> nanos \<Rightarrow> int \<Rightarrow> string \<Rightarrow> db \<Rightarrow> (store_error + nat) \<times> db" where
  "SetPassword q clk i passwordHash d =
     (if passwordHash = [] then (Inl (ErrRefused ''no password hash to store''), d)
      else case call q 0 (Inr ()) of Inl err \<Rightarrow> (Inl (ErrDriver err), d)
      | Inr _ \<Rightarrow>
        (case call q 1 (Inr (sql_update_operators (\<lambda>r. op_id r = i)
               (\<lambda>r. r\<lparr>op_password_hash := passwordHash, op_updated_at := now clk\<rparr>) d)) of
           Inl err \<Rightarrow> (Inl (ErrDriver err), d)
         | Inr (changed, d1) \<Rightarrow>
           (case call q 2 (Inr changed) of Inl err \<Rightarrow> (Inl (ErrDriver err), d)
            | Inr changed \<Rightarrow>
              if changed = 0 then (Inl ErrNotFound, d)
              else case call q 3 (Inr (sql_delete_sessions (\<lambda>s. ses_operator_id s = i) d1)) of
                     Inl err \<Rightarrow> (Inl (ErrDriver err), d)
                   | Inr (revoked, d2) \<Rightarrow>
                     (case call q 4 (Inr revoked) of Inl err \<Rightarrow> (Inl (ErrDriver err), d)
                      | Inr revoked \<Rightarrow>
                        (case call q 5 (Inr ()) of Inl err \<Rightarrow> (Inl (ErrDriver err), d)
                         | Inr _ \<Rightarrow> (Inr revoked, d2))))))"

definition Rename :: "sqlite \<Rightarrow> nanos \<Rightarrow> int \<Rightarrow> string \<Rightarrow> db \<Rightarrow> (store_error + unit) \<times> db" where
  "Rename q clk i name d =
     (case call q 0 (Inr (sql_update_operators (\<lambda>r. op_id r = i)
             (\<lambda>r. r\<lparr>op_name := name, op_updated_at := now clk\<rparr>) d)) of
        Inl err \<Rightarrow> (Inl (ErrDriver err), d)
      | Inr (changed, d1) \<Rightarrow>
        (case call q 1 (Inr changed) of
           Inl err \<Rightarrow> (Inl (ErrDriver err), d1)
         | Inr changed \<Rightarrow> if changed = 0 then (Inl ErrNotFound, d1) else (Inr (), d1)))"

definition RemoveOperator :: "sqlite \<Rightarrow> int \<Rightarrow> db \<Rightarrow> (store_error + unit) \<times> db" where
  "RemoveOperator q i d =
     (case call q 0 (Inr (sql_delete_operators (\<lambda>r. op_id r = i \<and> \<not> op_is_owner r) d)) of
        Inl err \<Rightarrow> (Inl (ErrDriver err), d)
      | Inr (removed, d1) \<Rightarrow>
        (case call q 1 (Inr removed) of
           Inl err \<Rightarrow> (Inl (ErrDriver err), d1)
         | Inr removed \<Rightarrow>
           if removed > 0 then (Inr (), d1)
           else (case query_row q 2 (filter (\<lambda>r. op_id r = i) (operators d1)) of
                   Inl err \<Rightarrow> (Inl (notFound err), d1)
                 | Inr _ \<Rightarrow> (Inl ErrOwnerProtected, d1))))"

section \<open>Every operation keeps the invariant\<close>

lemma wf_createOperator [wf_intros]:
  assumes "wf_db d"
  shows "wf_db (snd (createOperator q clk email name ph owner d))"
  using assms
  by (auto simp: createOperator_def Let_def split: sum.splits prod.splits
      intro!: wf_insert_operator [OF assms])

lemma wf_CreateOwner [wf_intros]: "wf_db d \<Longrightarrow> wf_db (snd (CreateOwner q clk email name ph d))"
  by (simp add: CreateOwner_def wf_createOperator)

lemma wf_CreateOperator [wf_intros]: "wf_db d \<Longrightarrow> wf_db (snd (CreateOperator q clk email name ph d))"
  by (simp add: CreateOperator_def wf_createOperator)

lemma snd_eqI: "f = (a, b) \<Longrightarrow> b = snd f"
  by simp

lemma wf_SetPassword [wf_intros]:
  assumes "wf_db d"
  shows "wf_db (snd (SetPassword q clk i ph d))"
proof (cases "ph = []")
  case False
  let ?u = "sql_update_operators (\<lambda>r. op_id r = i)
    (\<lambda>r. r\<lparr>op_password_hash := ph, op_updated_at := now clk\<rparr>) d"
  have "wf_db (snd ?u)" using False assms by (intro wf_update_operators) auto
  then have "wf_db (snd (sql_delete_sessions P (snd ?u)))" for P by (rule wf_delete_sessions)
  with assms show ?thesis
    by (auto simp: SetPassword_def split: sum.splits prod.splits dest!: snd_eqI)
qed (simp add: SetPassword_def assms)

lemma wf_Rename [wf_intros]:
  assumes "wf_db d"
  shows "wf_db (snd (Rename q clk i name d))"
proof -
  have "wf_db (snd (sql_update_operators (\<lambda>r. op_id r = i)
      (\<lambda>r. r\<lparr>op_name := name, op_updated_at := now clk\<rparr>) d))"
    using assms by (intro wf_update_operators) auto
  with assms show ?thesis
    by (auto simp: Rename_def split: sum.splits prod.splits dest!: snd_eqI)
qed

lemma RemoveOperator_db:
  "snd (RemoveOperator q i d) =
     (if fails q 0 then d else snd (sql_delete_operators (\<lambda>r. op_id r = i \<and> \<not> op_is_owner r) d))"
  by (auto simp: RemoveOperator_def call_def split: sum.splits prod.splits dest!: snd_eqI)

lemma wf_RemoveOperator [wf_intros]: "wf_db d \<Longrightarrow> wf_db (snd (RemoveOperator q i d))"
  by (simp add: RemoveOperator_db wf_delete_operators)

section \<open>What each operation does\<close>

text \<open>The outcome of creating an operator when the driver does not fail, on every branch.\<close>

lemma createOperator_outcome:
  assumes "\<not> fails q 0" "\<not> fails q 1"
  shows "createOperator q clk email name ph owner d =
    (let e = normaliseEmail email;
         taken = (\<exists>r \<in> set (operators d). op_email r = e);
         owned = (\<exists>r \<in> set (operators d). op_is_owner r);
         opr = \<lparr>op_id = next_rowid (map op_id (operators d)), op_email = e, op_name = name,
                op_password_hash = ph, op_is_owner = owner, op_created_at = now clk,
                op_updated_at = now clk\<rparr>
     in if e = [] then (Inl (ErrRefused ''no email address to sign in with''), d)
        else if ph = [] then (Inl (ErrRefused ''no password hash to store''), d)
        else if owner \<and> owned \<and> (owner_index_first q \<or> \<not> taken) then (Inl ErrOwnerExists, d)
        else if taken then (Inl ErrExists, d)
        else (Inr opr, d\<lparr>operators := operators d @ [opr]\<rparr>))"
  using assms
  by (auto simp: createOperator_def Let_def call_ok sql_insert_operator_def)

lemma createOperator_db:
  "snd (createOperator q clk email name ph owner d) = d \<or>
   (\<exists>opr. snd (createOperator q clk email name ph owner d) =
        d\<lparr>operators := operators d @ [opr]\<rparr> \<and>
      op_id opr = next_rowid (map op_id (operators d)) \<and>
      op_email opr = normaliseEmail email \<and> op_is_owner opr = owner \<and>
      op_password_hash opr = ph \<and>
      (owner \<longrightarrow> (\<forall>r \<in> set (operators d). \<not> op_is_owner r)))"
  by (auto simp: createOperator_def Let_def split: sum.splits prod.splits
      dest!: sql_insert_operator_Inr)

lemma SetPassword_error: "fst (SetPassword q clk i ph d) = Inl e \<Longrightarrow> snd (SetPassword q clk i ph d) = d"
  by (auto simp: SetPassword_def call_def Let_def split: sum.splits prod.splits if_splits)

lemma SetPassword_ok:
  assumes "fst (SetPassword q clk i ph d) = Inr n"
  shows "snd (SetPassword q clk i ph d) =
      d\<lparr>operators := map (\<lambda>r. if op_id r = i
            then r\<lparr>op_password_hash := ph, op_updated_at := now clk\<rparr> else r) (operators d),
        sessions := filter (\<lambda>s. ses_operator_id s \<noteq> i) (sessions d)\<rparr>"
    and "n = length (filter (\<lambda>s. ses_operator_id s = i) (sessions d))"
    and "i \<in> operator_ids d"
  using assms
  by (auto simp: SetPassword_def call_def sql_update_operators_def sql_delete_sessions_def
      operator_ids_def filter_empty_conv split: sum.splits prod.splits if_splits)

lemma SetPassword_outcome:
  assumes "\<forall>k < 6. \<not> fails q k"
  shows "fst (SetPassword q clk i ph d) =
    (if ph = [] then Inl (ErrRefused ''no password hash to store'')
     else if i \<notin> operator_ids d then Inl ErrNotFound
     else Inr (length (filter (\<lambda>s. ses_operator_id s = i) (sessions d))))"
  using assms
  by (auto simp: SetPassword_def call_ok sql_update_operators_def sql_delete_sessions_def
      operator_ids_def filter_empty_conv Let_def)

lemma RemoveOperator_outcome:
  assumes "\<forall>k < 3. \<not> fails q k" "wf_db d"
  shows "fst (RemoveOperator q i d) =
    (case Operator healthy i d of
       Inl _ \<Rightarrow> Inl ErrNotFound
     | Inr r \<Rightarrow> if op_is_owner r then Inl ErrOwnerProtected else Inr ())"
proof (cases "\<exists>r \<in> set (operators d). op_id r = i")
  case True
  then obtain r where r: "r \<in> set (operators d)" "op_id r = i" by blast
  then have one: "filter (\<lambda>r. op_id r = i) (operators d) = [r]"
    using assms(2) filter_eq_singleton [of op_id "operators d" r] by (simp add: wf_db_def operators_wf_def)
  have uniq: "s = r" if "s \<in> set (operators d)" "op_id s = i" for s
  proof -
    have "s \<in> set (filter (\<lambda>r. op_id r = i) (operators d))" using that by simp
    then show ?thesis using one by simp
  qed
  show ?thesis
  proof (cases "op_is_owner r")
    case True
    then have "filter (\<lambda>r. op_id r = i \<and> \<not> op_is_owner r) (operators d) = []"
      using uniq by (auto simp: filter_empty_conv)
    moreover have "filter (\<lambda>r. op_id r = i \<longrightarrow> op_is_owner r) (operators d) = operators d"
      using uniq True by (auto intro!: filter_True_conv)
    ultimately show ?thesis using assms(1) True one
      by (simp add: RemoveOperator_def Operator_def scanOperator_def query_row_def call_ok
          sql_delete_operators_def Let_def)
  next
    case False
    then have "filter (\<lambda>r. op_id r = i \<and> \<not> op_is_owner r) (operators d) \<noteq> []"
      using r by (auto simp: filter_empty_conv)
    then show ?thesis using assms(1) False one
      by (simp add: RemoveOperator_def Operator_def scanOperator_def query_row_def call_ok
          sql_delete_operators_def Let_def)
  qed
next
  case False
  then have "filter (\<lambda>r. op_id r = i \<and> \<not> op_is_owner r) (operators d) = []"
    "filter (\<lambda>r. op_id r = i) (operators d) = []"
    "filter (\<lambda>r. (op_id r = i \<longrightarrow> op_is_owner r) \<and> op_id r = i) (operators d) = []"
    by (auto simp: filter_empty_conv)
  then show ?thesis using assms(1)
    by (simp add: RemoveOperator_def Operator_def scanOperator_def query_row_def call_ok
        sql_delete_operators_def Let_def notFound_def)
qed

end
