(* ===== verification/Store_Session.thy ===== *)
theory Store_Session
  imports Store_Operator
begin

text \<open>
  internal/store/session.go: the sessions, and what the rest of the program may rely on when it
  starts, looks up and ends them.
\<close>

section \<open>Operations\<close>

definition StartSession ::
    "sqlite \<Rightarrow> nanos \<Rightarrow> int \<Rightarrow> string \<Rightarrow> nanos \<Rightarrow> db \<Rightarrow> (store_error + session) \<times> db" where
  "StartSession q clk operatorID tokenHash expiresAt d =
     (if tokenHash = [] then (Inl (ErrRefused ''no token hash to store''), d)
      else
        let created = now clk in
        if \<not> expiresAt > instant created then (Inl (ErrRefused ''it has already expired''), d)
        else
          let s = \<lparr>ses_token_hash = tokenHash, ses_operator_id = operatorID,
                   ses_created_at = created, ses_expires_at = millis expiresAt\<rparr>
          in case call q 0 (sql_insert_session s d) of
               Inl err \<Rightarrow>
                 (Inl (if isForeignKeyViolation err then ErrNotFound
                       else if isUniqueViolation err then ErrExists
                       else ErrDriver err), d)
             | Inr d' \<Rightarrow> (Inr s, d'))"

text \<open>The join of sessions and operators on a live session with this hash.\<close>

definition session_operator_rows :: "msec \<Rightarrow> string \<Rightarrow> db \<Rightarrow> operator list" where
  "session_operator_rows t tokenHash d =
     concat (map (\<lambda>s. filter (\<lambda>r. op_id r = ses_operator_id s) (operators d))
       (filter (\<lambda>s. ses_token_hash s = tokenHash \<and> ses_expires_at s > t) (sessions d)))"

definition SessionOperator :: "sqlite \<Rightarrow> nanos \<Rightarrow> string \<Rightarrow> db \<Rightarrow> store_error + operator" where
  "SessionOperator q clk tokenHash d =
     scanOperator (query_row q 0 (session_operator_rows (now clk) tokenHash d))"

definition Session :: "sqlite \<Rightarrow> nanos \<Rightarrow> string \<Rightarrow> db \<Rightarrow> store_error + session" where
  "Session q clk tokenHash d =
     (case query_row q 0 (filter (\<lambda>s. ses_token_hash s = tokenHash \<and> ses_expires_at s > now clk)
             (sessions d)) of
        Inl err \<Rightarrow> Inl (notFound err) | Inr s \<Rightarrow> Inr s)"

definition RevokeSession :: "sqlite \<Rightarrow> string \<Rightarrow> db \<Rightarrow> (store_error + unit) \<times> db" where
  "RevokeSession q tokenHash d =
     (case call q 0 (Inr (sql_delete_sessions (\<lambda>s. ses_token_hash s = tokenHash) d)) of
        Inl err \<Rightarrow> (Inl (ErrDriver err), d)
      | Inr (ended, d') \<Rightarrow>
        (case call q 1 (Inr ended) of
           Inl err \<Rightarrow> (Inl (ErrDriver err), d')
         | Inr ended \<Rightarrow> if ended = 0 then (Inl ErrNotFound, d') else (Inr (), d')))"

definition RevokeOperatorSessions :: "sqlite \<Rightarrow> int \<Rightarrow> db \<Rightarrow> (store_error + nat) \<times> db" where
  "RevokeOperatorSessions q operatorID d =
     (case call q 0 (Inr (sql_delete_sessions (\<lambda>s. ses_operator_id s = operatorID) d)) of
        Inl err \<Rightarrow> (Inl (ErrDriver err), d)
      | Inr (ended, d') \<Rightarrow>
        (case call q 1 (Inr ended) of
           Inl err \<Rightarrow> (Inl (ErrDriver err), d') | Inr ended \<Rightarrow> (Inr ended, d')))"

definition DropExpiredSessions :: "sqlite \<Rightarrow> nanos \<Rightarrow> db \<Rightarrow> (store_error + nat) \<times> db" where
  "DropExpiredSessions q clk d =
     (case call q 0 (Inr (sql_delete_sessions (\<lambda>s. ses_expires_at s \<le> now clk) d)) of
        Inl err \<Rightarrow> (Inl (ErrDriver err), d)
      | Inr (dropped, d') \<Rightarrow>
        (case call q 1 (Inr dropped) of
           Inl err \<Rightarrow> (Inl (ErrDriver err), d') | Inr dropped \<Rightarrow> (Inr dropped, d')))"

section \<open>The invariant\<close>

lemma wf_StartSession [wf_intros]:
  "wf_db d \<Longrightarrow> wf_db (snd (StartSession q clk i h e d))"
  by (auto simp: StartSession_def Let_def split: sum.splits intro: wf_insert_session)

lemma RevokeSession_db:
  "snd (RevokeSession q h d) =
     (if fails q 0 then d else snd (sql_delete_sessions (\<lambda>s. ses_token_hash s = h) d))"
  by (auto simp: RevokeSession_def call_def split: sum.splits prod.splits dest!: snd_eqI)

lemma RevokeOperatorSessions_db:
  "snd (RevokeOperatorSessions q i d) =
     (if fails q 0 then d else snd (sql_delete_sessions (\<lambda>s. ses_operator_id s = i) d))"
  by (auto simp: RevokeOperatorSessions_def call_def split: sum.splits prod.splits dest!: snd_eqI)

lemma DropExpiredSessions_db:
  "snd (DropExpiredSessions q clk d) =
     (if fails q 0 then d else snd (sql_delete_sessions (\<lambda>s. ses_expires_at s \<le> now clk) d))"
  by (auto simp: DropExpiredSessions_def call_def split: sum.splits prod.splits dest!: snd_eqI)

lemma wf_revoking [wf_intros]:
  assumes "wf_db d"
  shows "wf_db (snd (RevokeSession q h d))" "wf_db (snd (RevokeOperatorSessions q i d))"
    "wf_db (snd (DropExpiredSessions q clk d))"
  using assms
  by (simp_all add: RevokeSession_db RevokeOperatorSessions_db DropExpiredSessions_db
      wf_delete_sessions)

section \<open>The contract: live sessions as a map\<close>

text \<open>
  What a caller sees of the table at an instant: the operator a token hash is signed in as. The
  operations change that map, and this is all the server relies on.
\<close>

definition live :: "nanos \<Rightarrow> db \<Rightarrow> string \<rightharpoonup> int" where
  "live clk d = (\<lambda>h. map_option ses_operator_id
     (List.find (\<lambda>s. ses_token_hash s = h \<and> ses_expires_at s > now clk) (sessions d)))"

lemma live_Some_iff:
  assumes "wf_db d"
  shows "live clk d h = Some i \<longleftrightarrow>
    (\<exists>s \<in> set (sessions d). ses_token_hash s = h \<and> ses_expires_at s > now clk \<and>
       ses_operator_id s = i)"
proof
  assume "live clk d h = Some i"
  then show "\<exists>s \<in> set (sessions d). ses_token_hash s = h \<and> ses_expires_at s > now clk \<and>
      ses_operator_id s = i"
    by (auto simp: live_def dest: find_SomeD)
next
  assume "\<exists>s \<in> set (sessions d). ses_token_hash s = h \<and> ses_expires_at s > now clk \<and>
      ses_operator_id s = i"
  then obtain s where s: "s \<in> set (sessions d)" "ses_token_hash s = h"
    "ses_expires_at s > now clk" "ses_operator_id s = i" by blast
  then obtain t where t: "List.find (\<lambda>s. ses_token_hash s = h \<and> ses_expires_at s > now clk)
      (sessions d) = Some t"
    by (cases "List.find (\<lambda>s. ses_token_hash s = h \<and> ses_expires_at s > now clk) (sessions d)")
       (auto simp: find_None_iff2)
  have "t \<in> set (sessions d)" "ses_token_hash t = h" using find_SomeD [OF t] by auto
  then have "t = s"
    using assms s inj_on_set_conv [of ses_token_hash "sessions d" t s]
    by (simp add: wf_db_def sessions_wf_def)
  with t s show "live clk d h = Some i" by (simp add: live_def)
qed

lemma live_None_iff:
  assumes "wf_db d"
  shows "live clk d h = None \<longleftrightarrow>
    (\<forall>s \<in> set (sessions d). ses_token_hash s = h \<longrightarrow> ses_expires_at s \<le> now clk)"
  by (auto simp: live_def find_None_iff2 not_less)

lemma live_eqI:
  assumes "wf_db d'" "\<And>i. (\<exists>s \<in> set (sessions d'). ses_token_hash s = h \<and> ses_expires_at s > now clk \<and>
      ses_operator_id s = i) \<longleftrightarrow> m = Some i"
  shows "live clk d' h = m"
  using live_Some_iff [OF assms(1)] assms(2) by (metis not_None_eq)

text \<open>Starting, on every branch.\<close>

lemma StartSession_ok:
  assumes "StartSession q clk i h e d = (Inr s, d')"
  shows "s = \<lparr>ses_token_hash = h, ses_operator_id = i, ses_created_at = now clk,
             ses_expires_at = millis e\<rparr>"
    and "d' = d\<lparr>sessions := sessions d @ [s]\<rparr>"
    and "h \<noteq> []" and "instant (now clk) < e" and "i \<in> operator_ids d"
    and "h \<notin> ses_token_hash ` set (sessions d)"
  using assms
  by (auto simp: StartSession_def Let_def split: if_splits sum.splits
      dest!: sql_insert_session_Inr)

lemma StartSession_error: "StartSession q clk i h e d = (Inl err, d') \<Longrightarrow> d' = d"
  by (auto simp: StartSession_def Let_def split: if_splits sum.splits)

lemma StartSession_outcome:
  assumes "\<not> fails q 0"
  shows "fst (StartSession q clk i h e d) =
    (if h = [] then Inl (ErrRefused ''no token hash to store'')
     else if e \<le> instant (now clk) then Inl (ErrRefused ''it has already expired'')
     else if h \<in> ses_token_hash ` set (sessions d) then Inl ErrExists
     else if i \<notin> operator_ids d then Inl ErrNotFound
     else Inr \<lparr>ses_token_hash = h, ses_operator_id = i, ses_created_at = now clk,
               ses_expires_at = millis e\<rparr>)"
  using assms
  by (auto simp: StartSession_def Let_def call_ok sql_insert_session_def operator_ids_def image_iff
      not_less)

lemma live_StartSession:
  assumes "wf_db d" "StartSession q clk i h e d = (Inr s, d')"
  shows "live t d' = (live t d)(h := if now t < millis e then Some i else None)"
proof
  fix k
  have w: "wf_db d'" using wf_StartSession [OF assms(1), of q clk i h e] assms(2) by simp
  have fresh: "live t d h = None"
    using StartSession_ok(6) [OF assms(2)] by (auto simp: live_None_iff [OF assms(1)])
  show "live t d' k = ((live t d)(h := if now t < millis e then Some i else None)) k"
  proof (rule live_eqI [OF w])
    fix j
    show "(\<exists>x \<in> set (sessions d'). ses_token_hash x = k \<and> ses_expires_at x > now t \<and>
        ses_operator_id x = j) \<longleftrightarrow>
      ((live t d)(h := if now t < millis e then Some i else None)) k = Some j"
      using live_Some_iff [OF assms(1), of t k j] fresh StartSession_ok(1,2,6) [OF assms(2)]
      by (auto simp: live_None_iff [OF assms(1)])
  qed
qed

lemma live_filter_sessions:
  assumes "wf_db d" "wf_db d'" "sessions d' = filter P (sessions d)"
  shows "live t d' h = Some i \<longleftrightarrow> (\<exists>s \<in> set (sessions d). P s \<and> ses_token_hash s = h \<and>
      ses_expires_at s > now t \<and> ses_operator_id s = i)"
  unfolding live_Some_iff [OF assms(2)] assms(3) by auto

lemma live_delete_sessions:
  assumes "wf_db d"
    and "\<And>s. s \<in> set (sessions d) \<Longrightarrow> ses_expires_at s > now t \<Longrightarrow>
           P s \<longleftrightarrow> Q (ses_token_hash s) (ses_operator_id s)"
  shows "live t (snd (sql_delete_sessions P d)) h =
    (case live t d h of None \<Rightarrow> None | Some i \<Rightarrow> if Q h i then None else Some i)"
proof (rule live_eqI [OF wf_delete_sessions [OF assms(1)]])
  fix i
  have "(\<exists>s \<in> set (sessions (snd (sql_delete_sessions P d))). ses_token_hash s = h \<and>
      ses_expires_at s > now t \<and> ses_operator_id s = i) \<longleftrightarrow> live t d h = Some i \<and> \<not> Q h i"
    using assms(2) by (fastforce simp: sql_simps live_Some_iff [OF assms(1)])
  then show "(\<exists>s \<in> set (sessions (snd (sql_delete_sessions P d))). ses_token_hash s = h \<and>
      ses_expires_at s > now t \<and> ses_operator_id s = i) \<longleftrightarrow>
    (case live t d h of None \<Rightarrow> None | Some i \<Rightarrow> if Q h i then None else Some i) = Some i"
    by (auto split: option.splits)
qed

lemma live_RevokeSession:
  assumes "wf_db d" "\<not> fails q 0"
  shows "live t (snd (RevokeSession q h d)) = (live t d)(h := None)"
proof
  fix k
  have "live t (snd (sql_delete_sessions (\<lambda>s. ses_token_hash s = h) d)) k =
      (case live t d k of None \<Rightarrow> None | Some i \<Rightarrow> if k = h then None else Some i)"
    by (rule live_delete_sessions [OF assms(1), where Q = "\<lambda>k i. k = h"]) simp
  then show "live t (snd (RevokeSession q h d)) k = ((live t d)(h := None)) k"
    using assms(2) by (simp add: RevokeSession_db split: option.splits)
qed

lemma live_RevokeOperatorSessions:
  assumes "wf_db d" "\<not> fails q 0"
  shows "live t (snd (RevokeOperatorSessions q i d)) h = (if live t d h = Some i then None else live t d h)"
proof -
  have "live t (snd (sql_delete_sessions (\<lambda>s. ses_operator_id s = i) d)) h =
      (case live t d h of None \<Rightarrow> None | Some j \<Rightarrow> if j = i then None else Some j)"
    by (rule live_delete_sessions [OF assms(1), where Q = "\<lambda>k j. j = i"]) simp
  then show ?thesis
    using assms(2) by (simp add: RevokeOperatorSessions_db split: option.splits)
qed

text \<open>Dropping what has expired changes nothing a later lookup can see.\<close>

lemma live_DropExpiredSessions:
  assumes "wf_db d" "now clk \<le> now t"
  shows "live t (snd (DropExpiredSessions q clk d)) = live t d"
proof
  fix h
  have "live t (snd (sql_delete_sessions (\<lambda>s. ses_expires_at s \<le> now clk) d)) h =
      (case live t d h of None \<Rightarrow> None | Some j \<Rightarrow> if False then None else Some j)"
    by (rule live_delete_sessions [OF assms(1), where Q = "\<lambda>k j. False"]) (use assms(2) in auto)
  then show "live t (snd (DropExpiredSessions q clk d)) h = live t d h"
    by (simp add: DropExpiredSessions_db split: option.splits)
qed

lemma SessionOperator_live:
  assumes "wf_db d" "\<not> fails q 0"
  shows "SessionOperator q clk h d = Inr r \<longleftrightarrow> r \<in> set (operators d) \<and> live clk d h = Some (op_id r)"
    and "SessionOperator q clk h d = Inl ErrNotFound \<longleftrightarrow> live clk d h = None"
proof -
  let ?rows = "session_operator_rows (now clk) h d"
  have q: "SessionOperator q clk h d = (case ?rows of [] \<Rightarrow> Inl ErrNotFound | r # _ \<Rightarrow> Inr r)"
    using assms(2) by (auto simp: SessionOperator_def scanOperator_def query_row_def call_ok
        notFound_def split: list.splits)
  have mem: "x \<in> set ?rows \<longleftrightarrow> x \<in> set (operators d) \<and> live clk d h = Some (op_id x)" for x
    by (auto simp: session_operator_rows_def live_Some_iff [OF assms(1)])
  have uniq: "x = y" if "x \<in> set ?rows" "y \<in> set ?rows" for x y
    using that assms(1) inj_on_set_conv [of op_id "operators d" x y]
    by (auto simp: mem wf_db_def operators_wf_def)
  have ne: "?rows = [] \<longleftrightarrow> live clk d h = None"
  proof
    assume e: "?rows = []"
    show "live clk d h = None"
    proof (rule ccontr)
      assume "live clk d h \<noteq> None"
      then obtain i where i: "live clk d h = Some i" by blast
      then obtain s where "s \<in> set (sessions d)" "ses_operator_id s = i"
        by (auto simp: live_Some_iff [OF assms(1)])
      then obtain x where "x \<in> set (operators d)" "op_id x = i"
        using assms(1) by (auto simp: wf_db_def sessions_wf_def operator_ids_def)
      with i mem e show False by auto
    qed
  next
    assume "live clk d h = None"
    then show "?rows = []" using mem by (metis list.set_intros(1) neq_Nil_conv option.distinct(1))
  qed
  show "SessionOperator q clk h d = Inr r \<longleftrightarrow> r \<in> set (operators d) \<and> live clk d h = Some (op_id r)"
    using q mem uniq ne by (cases ?rows) (auto, metis list.set_intros(1))
  show "SessionOperator q clk h d = Inl ErrNotFound \<longleftrightarrow> live clk d h = None"
    using q ne by (cases ?rows) auto
qed

lemma live_SetPassword:
  assumes "wf_db d" "fst (SetPassword q clk i ph d) = Inr n"
  shows "live t (snd (SetPassword q clk i ph d)) h =
    (if live t d h = Some i then None else live t d h)"
proof (rule live_eqI [OF wf_SetPassword [OF assms(1)]])
  fix j
  have "(\<exists>s \<in> set (sessions (snd (SetPassword q clk i ph d))). ses_token_hash s = h \<and>
      ses_expires_at s > now t \<and> ses_operator_id s = j) \<longleftrightarrow> live t d h = Some j \<and> j \<noteq> i"
    using SetPassword_ok(1) [OF assms(2)] by (auto simp: live_Some_iff [OF assms(1)])
  then show "(\<exists>s \<in> set (sessions (snd (SetPassword q clk i ph d))). ses_token_hash s = h \<and>
      ses_expires_at s > now t \<and> ses_operator_id s = j) \<longleftrightarrow>
    (if live t d h = Some i then None else live t d h) = Some j"
    by auto
qed

lemma live_RemoveOperator:
  assumes "wf_db d" "fst (RemoveOperator q i d) = Inr ()"
  shows "live t (snd (RemoveOperator q i d)) h = (if live t d h = Some i then None else live t d h)"
proof (rule live_eqI [OF wf_RemoveOperator [OF assms(1)]])
  fix j
  let ?gone = "filter (\<lambda>r. op_id r = i \<and> \<not> op_is_owner r) (operators d)"
  have f: "\<not> fails q 0" "?gone \<noteq> []"
    using assms(2) by (auto simp: RemoveOperator_def call_def sql_delete_operators_def Let_def
        split: sum.splits prod.splits if_splits)
  have g: "op_id ` set ?gone = {i}"
  proof -
    obtain r where "r \<in> set ?gone" using f(2) by (cases ?gone) auto
    then show ?thesis by auto
  qed
  have "sessions (snd (RemoveOperator q i d)) = filter (\<lambda>s. ses_operator_id s \<noteq> i) (sessions d)"
    using f(1) g by (simp add: RemoveOperator_db sql_delete_operators_def Let_def)
  then have "(\<exists>s \<in> set (sessions (snd (RemoveOperator q i d))). ses_token_hash s = h \<and>
      ses_expires_at s > now t \<and> ses_operator_id s = j) \<longleftrightarrow> live t d h = Some j \<and> j \<noteq> i"
    by (auto simp: live_Some_iff [OF assms(1)])
  then show "(\<exists>s \<in> set (sessions (snd (RemoveOperator q i d))). ses_token_hash s = h \<and>
      ses_expires_at s > now t \<and> ses_operator_id s = j) \<longleftrightarrow>
    (if live t d h = Some i then None else live t d h) = Some j"
    by auto
qed

section \<open>The interface of a session authority\<close>

text \<open>
  What signing in and signing out rely on, whoever provides it: who a token hash is signed in as,
  and how starting, revoking, and revoking everything an operator holds change that. The client's
  facts follow from those laws alone.
\<close>

datatype session_call = Start int string nanos nanos | Revoke string | RevokeAll int

locale session_authority =
  fixes inv :: "'d \<Rightarrow> bool"
    and holder :: "nanos \<Rightarrow> 'd \<Rightarrow> string \<rightharpoonup> int"
    and start :: "int \<Rightarrow> string \<Rightarrow> nanos \<Rightarrow> nanos \<Rightarrow> 'd \<Rightarrow> 'd"
    and revoke :: "string \<Rightarrow> 'd \<Rightarrow> 'd"
    and revoke_all :: "int \<Rightarrow> 'd \<Rightarrow> 'd"
  assumes inv_start: "inv d \<Longrightarrow> inv (start i h e clk d)"
    and inv_revoke: "inv d \<Longrightarrow> inv (revoke h d)"
    and inv_revoke_all: "inv d \<Longrightarrow> inv (revoke_all i d)"
    and holder_start: "inv d \<Longrightarrow> holder t (start i h e clk d) k = Some j \<Longrightarrow>
          holder t d k = Some j \<or> k = h \<and> j = i"
    and holder_revoke: "inv d \<Longrightarrow> holder t (revoke h d) = (holder t d)(h := None)"
    and holder_revoke_all: "inv d \<Longrightarrow> holder t (revoke_all i d) k =
          (if holder t d k = Some i then None else holder t d k)"
begin

fun do_call :: "session_call \<Rightarrow> 'd \<Rightarrow> 'd" where
  "do_call (Start i h e clk) d = start i h e clk d"
| "do_call (Revoke h) d = revoke h d"
| "do_call (RevokeAll i) d = revoke_all i d"

lemma inv_do_call: "inv d \<Longrightarrow> inv (do_call c d)"
  by (cases c) (auto intro: inv_start inv_revoke inv_revoke_all)

lemma inv_calls: "inv d \<Longrightarrow> inv (fold do_call cs d)"
  by (induction cs arbitrary: d) (auto intro: inv_do_call)

lemma no_new_holder:
  assumes "inv d" "\<forall>e clk. c \<noteq> Start i h e clk"
    and "holder t (do_call c d) h = Some i"
  shows "holder t d h = Some i"
  using assms
  by (cases c) (auto simp: holder_revoke holder_revoke_all split: if_splits dest: holder_start)

text \<open>
  A token an operator does not hold is one they never hold again, however the other calls are
  interleaved, unless a session is started for them with that very token.
\<close>

lemma signed_out_stays_out:
  assumes "inv d" "holder t d h \<noteq> Some i" "\<forall>e clk. Start i h e clk \<notin> set cs"
  shows "holder t (fold do_call cs d) h \<noteq> Some i"
  using assms
proof (induction cs arbitrary: d)
  case (Cons c cs)
  have "holder t (do_call c d) h \<noteq> Some i"
    using no_new_holder [OF Cons.prems(1), of c i h] Cons.prems by auto
  with Cons show ?case by (simp add: inv_do_call)
qed simp

lemma revoked_holds_nothing: "inv d \<Longrightarrow> holder t (revoke h d) h = None"
  by (simp add: holder_revoke)

lemma revoke_all_holds_nothing: "inv d \<Longrightarrow> holder t (revoke_all i d) h \<noteq> Some i"
  by (simp add: holder_revoke_all)

end

lemma live_start:
  assumes "wf_db d" "live t (snd (StartSession q clk i h e d)) k = Some j"
  shows "live t d k = Some j \<or> k = h \<and> j = i"
proof (cases "StartSession q clk i h e d")
  case (Pair r d')
  then show ?thesis
    using assms live_StartSession [OF assms(1), of q clk i h e] StartSession_error [of q clk i h e d]
    by (cases r) (auto split: if_splits)
qed

interpretation ses: session_authority wf_db live
  "\<lambda>i h e clk d. snd (StartSession healthy clk i h e d)"
  "\<lambda>h d. snd (RevokeSession healthy h d)"
  "\<lambda>i d. snd (RevokeOperatorSessions healthy i d)"
  by unfold_locales
    (auto intro: wf_intros simp: live_RevokeSession live_RevokeOperatorSessions dest: live_start)

end
