(* ===== verification/Store_SetupToken.thy ===== *)
theory Store_SetupToken
  imports Store_Session
begin

text \<open>
  internal/store/setuptoken.go: the single-use credential that creates the Owner. Issuing and
  redeeming are one transaction each; a failure at any call leaves the tables as they were.
\<close>

section \<open>Operations\<close>

definition IssueSetupToken ::
    "sqlite \<Rightarrow> nanos \<Rightarrow> string \<Rightarrow> nanos \<Rightarrow> db \<Rightarrow> (store_error + setup_token) \<times> db" where
  "IssueSetupToken q clk tokenHash expiresAt d =
     (if tokenHash = [] then (Inl (ErrRefused ''no token hash to store''), d)
      else
        let created = now clk in
        if \<not> expiresAt > instant created then (Inl (ErrRefused ''it has already expired''), d)
        else
          let token = \<lparr>tok_token_hash = tokenHash, tok_created_at = created,
                       tok_expires_at = millis expiresAt\<rparr>
          in case call q 0 (Inr ()) of Inl err \<Rightarrow> (Inl (ErrDriver err), d)
             | Inr _ \<Rightarrow>
               (case call q 1 (Inr (snd (sql_delete_setup_tokens (\<lambda>_. True) d))) of
                  Inl err \<Rightarrow> (Inl (ErrDriver err), d)
                | Inr d1 \<Rightarrow>
                  (case call q 2 (if \<exists>r \<in> set (operators d1). op_is_owner r then Inr (0, d1)
                        else map_sum id (Pair 1) (sql_insert_setup_token token d1)) of
                     Inl err \<Rightarrow> (Inl (ErrDriver err), d)
                   | Inr (issued, d2) \<Rightarrow>
                     (case call q 3 (Inr issued) of Inl err \<Rightarrow> (Inl (ErrDriver err), d)
                      | Inr issued \<Rightarrow>
                        if issued = (0::nat) then (Inl ErrOwnerExists, d)
                        else (case call q 4 (Inr ()) of
                                Inl err \<Rightarrow> (Inl (ErrDriver err), d)
                              | Inr _ \<Rightarrow> (Inr token, d2))))))"

definition RedeemSetupToken ::
    "sqlite \<Rightarrow> nanos \<Rightarrow> nanos \<Rightarrow> string \<Rightarrow> string \<Rightarrow> string \<Rightarrow> string \<Rightarrow> db
      \<Rightarrow> (store_error + operator) \<times> db" where
  "RedeemSetupToken q clk clk' tokenHash email name passwordHash d =
     (let email = normaliseEmail email in
      if tokenHash = [] then (Inl (ErrRefused ''no token hash to look up''), d)
      else if email = [] then (Inl (ErrRefused ''no email address to sign in with''), d)
      else if passwordHash = [] then (Inl (ErrRefused ''no password hash to store''), d)
      else case call q 0 (Inr ()) of Inl err \<Rightarrow> (Inl (ErrDriver err), d)
      | Inr _ \<Rightarrow>
        (case call q 1 (Inr (sql_delete_setup_tokens
                (\<lambda>t. tok_token_hash t = tokenHash \<and> tok_expires_at t > now clk) d)) of
           Inl err \<Rightarrow> (Inl (ErrDriver err), d)
         | Inr (spent, d1) \<Rightarrow>
           (case call q 2 (Inr spent) of Inl err \<Rightarrow> (Inl (ErrDriver err), d)
            | Inr tokens \<Rightarrow>
              if tokens = 0 then (Inl ErrNotFound, d)
              else
                let stamp = now clk';
                    owner = \<lparr>op_id = 0, op_email = email, op_name = name,
                             op_password_hash = passwordHash, op_is_owner = True,
                             op_created_at = stamp, op_updated_at = stamp\<rparr>
                in case call q 3 (sql_insert_operator q owner d1) of
                     Inl err \<Rightarrow>
                       (if isUniqueViolation err
                        then (if names_is_owner err then Inl ErrOwnerExists else Inl ErrExists)
                        else Inl (ErrDriver err), d)
                   | Inr (i, d2) \<Rightarrow>
                     (case call q 4 (Inr i) of Inl err \<Rightarrow> (Inl (ErrDriver err), d)
                      | Inr i \<Rightarrow>
                        (case call q 5 (Inr ()) of Inl err \<Rightarrow> (Inl (ErrDriver err), d)
                         | Inr _ \<Rightarrow> (Inr (owner\<lparr>op_id := i\<rparr>), d2))))))"

definition HasOwner :: "sqlite \<Rightarrow> db \<Rightarrow> store_error + bool" where
  "HasOwner q d = (case call q 0 (Inr (\<exists>r \<in> set (operators d). op_is_owner r)) of
       Inl err \<Rightarrow> Inl (ErrDriver err) | Inr owned \<Rightarrow> Inr owned)"

definition DropExpiredSetupTokens :: "sqlite \<Rightarrow> nanos \<Rightarrow> db \<Rightarrow> (store_error + nat) \<times> db" where
  "DropExpiredSetupTokens q clk d =
     (case call q 0 (Inr (sql_delete_setup_tokens (\<lambda>t. tok_expires_at t \<le> now clk) d)) of
        Inl err \<Rightarrow> (Inl (ErrDriver err), d)
      | Inr (dropped, d') \<Rightarrow>
        (case call q 1 (Inr dropped) of
           Inl err \<Rightarrow> (Inl (ErrDriver err), d') | Inr dropped \<Rightarrow> (Inr dropped, d')))"

section \<open>What each operation does\<close>

definition has_owner :: "db \<Rightarrow> bool" where
  "has_owner d \<longleftrightarrow> (\<exists>r \<in> set (operators d). op_is_owner r)"

definition live_token :: "nanos \<Rightarrow> string \<Rightarrow> db \<Rightarrow> bool" where
  "live_token clk h d \<longleftrightarrow>
     (\<exists>t \<in> set (setup_tokens d). tok_token_hash t = h \<and> tok_expires_at t > now clk)"

lemma IssueSetupToken_error:
  "fst (IssueSetupToken q clk h e d) = Inl err \<Longrightarrow> snd (IssueSetupToken q clk h e d) = d"
  by (auto simp: IssueSetupToken_def call_def Let_def split: sum.splits prod.splits if_splits)

lemma IssueSetupToken_ok:
  assumes "fst (IssueSetupToken q clk h e d) = Inr tok"
  shows "tok = \<lparr>tok_token_hash = h, tok_created_at = now clk, tok_expires_at = millis e\<rparr>"
    and "snd (IssueSetupToken q clk h e d) = d\<lparr>setup_tokens := [tok]\<rparr>"
    and "h \<noteq> []" "instant (now clk) < e" "\<not> has_owner d"
  using assms
  by (auto simp: IssueSetupToken_def call_def Let_def sql_delete_setup_tokens_def
      sql_insert_setup_token_def has_owner_def split: sum.splits prod.splits if_splits)

lemma RedeemSetupToken_error:
  "fst (RedeemSetupToken q clk clk' h email name ph d) = Inl err \<Longrightarrow>
   snd (RedeemSetupToken q clk clk' h email name ph d) = d"
  by (auto simp: RedeemSetupToken_def call_def Let_def split: sum.splits prod.splits if_splits)

lemma RedeemSetupToken_ok:
  assumes "fst (RedeemSetupToken q clk clk' h email name ph d) = Inr r"
  shows "r = \<lparr>op_id = next_rowid (map op_id (operators d)), op_email = normaliseEmail email,
             op_name = name, op_password_hash = ph, op_is_owner = True,
             op_created_at = now clk', op_updated_at = now clk'\<rparr>"
    and "snd (RedeemSetupToken q clk clk' h email name ph d) =
         d\<lparr>operators := operators d @ [r],
           setup_tokens := filter (\<lambda>t. \<not> (tok_token_hash t = h \<and> tok_expires_at t > now clk))
             (setup_tokens d)\<rparr>"
    and "live_token clk h d" "\<not> has_owner d"
    and "normaliseEmail email \<notin> op_email ` set (operators d)"
    and "h \<noteq> []" "normaliseEmail email \<noteq> []" "ph \<noteq> []"
proof -
  let ?P = "\<lambda>t. tok_token_hash t = h \<and> tok_expires_at t > now clk"
  let ?d1 = "d\<lparr>setup_tokens := filter (\<lambda>t. \<not> ?P t) (setup_tokens d)\<rparr>"
  let ?o = "\<lparr>op_id = 0, op_email = normaliseEmail email, op_name = name, op_password_hash = ph,
             op_is_owner = True, op_created_at = now clk', op_updated_at = now clk'\<rparr>"
  obtain i d2 where ins: "sql_insert_operator q ?o ?d1 = Inr (i, d2)"
    and r: "r = ?o\<lparr>op_id := i\<rparr>" "snd (RedeemSetupToken q clk clk' h email name ph d) = d2"
    and t: "filter ?P (setup_tokens d) \<noteq> []"
    and n: "h \<noteq> []" "normaliseEmail email \<noteq> []" "ph \<noteq> []"
    using assms
    by (auto simp: RedeemSetupToken_def call_def Let_def sql_delete_setup_tokens_def
        split: sum.splits prod.splits if_splits)
  note ins = sql_insert_operator_Inr [OF ins]
  show "r = \<lparr>op_id = next_rowid (map op_id (operators d)), op_email = normaliseEmail email,
             op_name = name, op_password_hash = ph, op_is_owner = True,
             op_created_at = now clk', op_updated_at = now clk'\<rparr>"
    using ins r(1) by simp
  show "snd (RedeemSetupToken q clk clk' h email name ph d) =
         d\<lparr>operators := operators d @ [r],
           setup_tokens := filter (\<lambda>t. \<not> ?P t) (setup_tokens d)\<rparr>"
    using ins r by simp
  show "live_token clk h d" using t by (auto simp: live_token_def filter_empty_conv)
  show "\<not> has_owner d" "normaliseEmail email \<notin> op_email ` set (operators d)"
    using ins by (auto simp: has_owner_def)
  show "h \<noteq> []" "normaliseEmail email \<noteq> []" "ph \<noteq> []" by (fact n)+
qed

text \<open>The answers, on every branch, when the driver does not fail.\<close>

lemma RedeemSetupToken_outcome:
  assumes "\<forall>k < 6. \<not> fails q k"
  shows "fst (RedeemSetupToken q clk clk' h email name ph d) =
    (let e = normaliseEmail email; taken = (\<exists>r \<in> set (operators d). op_email r = e) in
     if h = [] then Inl (ErrRefused ''no token hash to look up'')
     else if e = [] then Inl (ErrRefused ''no email address to sign in with'')
     else if ph = [] then Inl (ErrRefused ''no password hash to store'')
     else if \<not> live_token clk h d then Inl ErrNotFound
     else if has_owner d \<and> (owner_index_first q \<or> \<not> taken) then Inl ErrOwnerExists
     else if taken then Inl ErrExists
     else Inr \<lparr>op_id = next_rowid (map op_id (operators d)), op_email = e, op_name = name,
               op_password_hash = ph, op_is_owner = True, op_created_at = now clk',
               op_updated_at = now clk'\<rparr>)"
proof -
  have c: "\<not> fails q 0" "\<not> fails q (Suc 0)" "\<not> fails q 2" "\<not> fails q 3" "\<not> fails q 4"
    "\<not> fails q 5"
    using assms by simp_all
  have l: "live_token clk h d \<longleftrightarrow>
      filter (\<lambda>t. tok_token_hash t = h \<and> tok_expires_at t > now clk) (setup_tokens d) \<noteq> []"
    by (auto simp: live_token_def filter_empty_conv)
  show ?thesis
    by (simp add: RedeemSetupToken_def call_ok c l Let_def sql_insert_operator_def
        sql_delete_setup_tokens_def has_owner_def)
qed

lemma IssueSetupToken_outcome:
  assumes "\<forall>k < 5. \<not> fails q k"
  shows "fst (IssueSetupToken q clk h e d) =
    (if h = [] then Inl (ErrRefused ''no token hash to store'')
     else if e \<le> instant (now clk) then Inl (ErrRefused ''it has already expired'')
     else if has_owner d then Inl ErrOwnerExists
     else Inr \<lparr>tok_token_hash = h, tok_created_at = now clk, tok_expires_at = millis e\<rparr>)"
  using assms
  by (simp add: IssueSetupToken_def call_ok Let_def sql_delete_setup_tokens_def
      sql_insert_setup_token_def has_owner_def not_less)

section \<open>The invariant\<close>

lemma wf_IssueSetupToken [wf_intros]:
  assumes "wf_db d"
  shows "wf_db (snd (IssueSetupToken q clk h e d))"
proof (cases "fst (IssueSetupToken q clk h e d)")
  case (Inl err)
  with assms show ?thesis by (simp add: IssueSetupToken_error)
next
  case (Inr tok)
  from IssueSetupToken_ok [OF this] assms show ?thesis
    by (simp add: wf_defs operator_ids_def)
qed

lemma wf_RedeemSetupToken [wf_intros]:
  assumes "wf_db d"
  shows "wf_db (snd (RedeemSetupToken q clk clk' h email name ph d))"
proof (cases "fst (RedeemSetupToken q clk clk' h email name ph d)")
  case (Inl err)
  with assms show ?thesis by (simp add: RedeemSetupToken_error)
next
  case (Inr r)
  note ok = RedeemSetupToken_ok [OF this]
  let ?P = "\<lambda>t. tok_token_hash t = h \<and> tok_expires_at t > now clk"
  let ?d1 = "snd (sql_delete_setup_tokens ?P d)"
  have "sql_insert_operator q r ?d1 =
      Inr (op_id r, snd (RedeemSetupToken q clk clk' h email name ph d))"
    using ok(1,2,4,5)
    by (auto simp: sql_insert_operator_def sql_delete_setup_tokens_def has_owner_def Let_def
        image_iff)
  then show ?thesis
    using ok by (intro wf_insert_operator [OF wf_delete_setup_tokens [OF assms]]) auto
qed

lemma DropExpiredSetupTokens_db:
  "snd (DropExpiredSetupTokens q clk d) =
     (if fails q 0 then d else snd (sql_delete_setup_tokens (\<lambda>t. tok_expires_at t \<le> now clk) d))"
  by (auto simp: DropExpiredSetupTokens_def call_def split: sum.splits prod.splits dest!: snd_eqI)

lemma wf_DropExpiredSetupTokens [wf_intros]:
  "wf_db d \<Longrightarrow> wf_db (snd (DropExpiredSetupTokens q clk d))"
  by (simp add: DropExpiredSetupTokens_db wf_delete_setup_tokens)

end
