(* ===== verification/Store_Audit.thy ===== *)
theory Store_Audit
  imports Store_Operator
begin

text \<open>
  internal/store/audit.go: the trail. An entry is written once; nothing in the package removes
  or rewrites one, and the only change it can undergo is losing its link to an operator who is
  removed, which \<open>same_entry\<close> names.
\<close>

section \<open>Operations\<close>

record Audited =
  req_operator_id :: int
  req_action :: string
  req_target :: string
  req_config_key :: string

record AuditEntry =
  ent_id :: int
  ent_operator_id :: int       \<comment> \<open>zero when the operator has since been removed\<close>
  ent_operator_email :: string
  ent_action :: string
  ent_target :: string
  ent_config_key :: string
  ent_recorded_at :: msec

definition audit_row_of :: "int option \<Rightarrow> string \<Rightarrow> Audited \<Rightarrow> msec \<Rightarrow> audit_row" where
  "audit_row_of i email entry t =
     \<lparr>aud_id = 0, aud_operator_id = i, aud_operator_email = email, aud_action = req_action entry,
      aud_target = req_target entry, aud_config_key = req_config_key entry, aud_recorded_at = t\<rparr>"

text \<open>
  INSERT ... SELECT id, email, ... FROM operators WHERE id = ?: one row for each operator with
  that id, so none when there is no such operator.
\<close>

definition Record :: "sqlite \<Rightarrow> nanos \<Rightarrow> Audited \<Rightarrow> db \<Rightarrow> (store_error + unit) \<times> db" where
  "Record q clk entry d =
     (if req_action entry = [] then (Inl (ErrRefused ''it names no action''), d)
      else
        let who = filter (\<lambda>r. op_id r = req_operator_id entry) (operators d);
            rows = map (\<lambda>r. audit_row_of (Some (op_id r)) (op_email r) entry (now clk)) who
        in case call q 0 (Inr (length rows, fold sql_insert_audit rows d)) of
             Inl err \<Rightarrow> (Inl (ErrDriver err), d)
           | Inr (written, d') \<Rightarrow>
             (case call q 1 (Inr written) of
                Inl err \<Rightarrow> (Inl (ErrDriver err), d')
              | Inr written \<Rightarrow> if written = 0 then (Inl ErrNotFound, d') else (Inr (), d')))"

definition RecordUnauthenticated ::
    "sqlite \<Rightarrow> nanos \<Rightarrow> Audited \<Rightarrow> db \<Rightarrow> (store_error + unit) \<times> db" where
  "RecordUnauthenticated q clk entry d =
     (if req_action entry = [] then (Inl (ErrRefused ''it names no action''), d)
      else if req_operator_id entry \<noteq> 0 then (Inl (ErrRefused ''it names an operator''), d)
      else case call q 0 (Inr (sql_insert_audit (audit_row_of None [] entry (now clk)) d)) of
             Inl err \<Rightarrow> (Inl (ErrDriver err), d)
           | Inr d' \<Rightarrow> (Inr (), d'))"

text \<open>The rows as the reads return them: ORDER BY recorded_at DESC, id DESC LIMIT ?.\<close>

definition newest_first :: "audit_row list \<Rightarrow> audit_row list" where
  "newest_first rows = rev (sort_key aud_recorded_at (sort_key aud_id rows))"

definition limited :: "int \<Rightarrow> 'a list \<Rightarrow> 'a list" where
  "limited limit rows = (if limit < 0 then rows else take (nat limit) rows)"

definition scan_entry :: "audit_row \<Rightarrow> AuditEntry" where
  "scan_entry a =
     \<lparr>ent_id = aud_id a,
      ent_operator_id = (case aud_operator_id a of None \<Rightarrow> 0 | Some i \<Rightarrow> i),
      ent_operator_email = aud_operator_email a, ent_action = aud_action a,
      ent_target = aud_target a, ent_config_key = aud_config_key a,
      ent_recorded_at = aud_recorded_at a\<rparr>"

definition auditEntries :: "sqlite \<Rightarrow> audit_row list \<Rightarrow> store_error + AuditEntry list" where
  "auditEntries q rows =
     (case call q 0 (Inr rows) of Inl err \<Rightarrow> Inl (ErrDriver err)
      | Inr rows \<Rightarrow> (case call q 1 (Inr (map scan_entry rows)) of
           Inl err \<Rightarrow> Inl (ErrDriver err) | Inr entries \<Rightarrow> Inr entries))"

definition AuditEntries :: "sqlite \<Rightarrow> int \<Rightarrow> db \<Rightarrow> store_error + AuditEntry list" where
  "AuditEntries q limit d =
     (let limit = (if limit \<le> 0 then -1 else limit)
      in auditEntries q (limited limit (newest_first (audit_entries d))))"

definition OperatorAuditEntries ::
    "sqlite \<Rightarrow> string \<Rightarrow> int \<Rightarrow> db \<Rightarrow> store_error + AuditEntry list" where
  "OperatorAuditEntries q email limit d =
     (let limit = (if limit \<le> 0 then -1 else limit)
      in auditEntries q (limited limit (newest_first
           (filter (\<lambda>a. aud_operator_email a = normaliseEmail email) (audit_entries d)))))"

section \<open>The invariant\<close>

lemma operators_filter_id:
  assumes "wf_db d"
  shows "filter (\<lambda>r. op_id r = i) (operators d) =
    (case List.find (\<lambda>r. op_id r = i) (operators d) of None \<Rightarrow> [] | Some r \<Rightarrow> [r])"
proof (cases "List.find (\<lambda>r. op_id r = i) (operators d)")
  case None
  then have "filter (\<lambda>r. op_id r = i) (operators d) = []"
    unfolding find_None_iff2 by (simp add: filter_empty_conv)
  with None show ?thesis by simp
next
  case (Some r)
  then have "r \<in> set (operators d)" "op_id r = i" using find_SomeD by fastforce+
  with Some assms filter_eq_singleton [of op_id "operators d" r] show ?thesis
    by (simp add: wf_db_def operators_wf_def)
qed

lemma Record_db:
  assumes "wf_db d"
  shows "snd (Record q clk entry d) = d \<or>
    (\<exists>r \<in> set (operators d). op_id r = req_operator_id entry \<and> req_action entry \<noteq> [] \<and>
       snd (Record q clk entry d) =
         sql_insert_audit (audit_row_of (Some (op_id r)) (op_email r) entry (now clk)) d)"
  by (auto simp: Record_def Let_def call_def operators_filter_id [OF assms]
      split: sum.splits prod.splits option.splits dest: find_SomeD)

lemma Record_ok:
  assumes "wf_db d" "fst (Record q clk entry d) = Inr ()"
  obtains r where "r \<in> set (operators d)" "op_id r = req_operator_id entry" "req_action entry \<noteq> []"
    "snd (Record q clk entry d) =
       sql_insert_audit (audit_row_of (Some (op_id r)) (op_email r) entry (now clk)) d"
  using assms(2)
  by (auto simp: Record_def Let_def call_def operators_filter_id [OF assms(1)]
      split: sum.splits prod.splits option.splits if_splits dest: find_SomeD)

lemma wf_Record [wf_intros]:
  assumes "wf_db d"
  shows "wf_db (snd (Record q clk entry d))"
  using Record_db [OF assms, of q clk entry] assms
  by (auto simp: audit_row_of_def intro!: wf_insert_audit bexI)

lemma RecordUnauthenticated_db:
  "snd (RecordUnauthenticated q clk entry d) =
     (if req_action entry = [] \<or> req_operator_id entry \<noteq> 0 \<or> fails q 0 then d
      else sql_insert_audit (audit_row_of None [] entry (now clk)) d)"
  by (auto simp: RecordUnauthenticated_def call_def)

lemma wf_RecordUnauthenticated [wf_intros]:
  "wf_db d \<Longrightarrow> wf_db (snd (RecordUnauthenticated q clk entry d))"
  by (auto simp: RecordUnauthenticated_db audit_row_of_def intro!: wf_insert_audit)

section \<open>Reading\<close>

lemma sorted_newest_first:
  "sorted_wrt (\<lambda>a b. aud_recorded_at b \<le> aud_recorded_at a) (newest_first rows)"
proof -
  have "sorted_wrt (\<le>) (map aud_recorded_at (sort_key aud_recorded_at (sort_key aud_id rows)))"
    by simp
  then show ?thesis
    by (simp add: newest_first_def sorted_wrt_rev sorted_wrt_map)
qed

lemma set_newest_first [simp]: "set (newest_first rows) = set rows"
  by (simp add: newest_first_def)

lemma length_newest_first [simp]: "length (newest_first rows) = length rows"
  by (simp add: newest_first_def)

section \<open>Entries do not change\<close>

definition same_entry :: "audit_row \<Rightarrow> audit_row \<Rightarrow> bool" where
  "same_entry a b \<longleftrightarrow> (b = a \<or> b = a\<lparr>aud_operator_id := None\<rparr>)"

lemma same_entry_refl [simp]: "same_entry a a"
  by (simp add: same_entry_def)

lemma same_entry_trans: "same_entry a b \<Longrightarrow> same_entry b c \<Longrightarrow> same_entry a c"
  by (auto simp: same_entry_def)

lemma same_entry_set_null [simp]: "same_entry a (set_null gone a)"
  by (auto simp: same_entry_def set_null_def split: option.splits)

definition trail_extends :: "db \<Rightarrow> db \<Rightarrow> bool" where
  "trail_extends d d' \<longleftrightarrow>
     (\<exists>kept new. audit_entries d' = kept @ new \<and> list_all2 same_entry (audit_entries d) kept)"

lemma trail_extends_refl [simp]: "trail_extends d d"
  unfolding trail_extends_def by (intro exI [of _ "audit_entries d"] exI [of _ "[]"])
    (simp add: list.rel_refl)

lemma trail_extends_trans:
  assumes "trail_extends d d'" "trail_extends d' d''"
  shows "trail_extends d d''"
proof -
  from assms obtain k n k' n' where
    k: "audit_entries d' = k @ n" "list_all2 same_entry (audit_entries d) k" and
    k': "audit_entries d'' = k' @ n'" "list_all2 same_entry (audit_entries d') k'"
    by (auto simp: trail_extends_def)
  obtain a b where ab: "k' = a @ b" "list_all2 same_entry k a"
    using k'(2) unfolding k(1) list_all2_append1 by blast
  have "list_all2 same_entry (audit_entries d) a"
    by (rule list_all2_trans [OF same_entry_trans k(2) ab(2)])
  with k'(1) ab(1) show ?thesis
    unfolding trail_extends_def by (intro exI [of _ a] exI [of _ "b @ n'"]) simp
qed

lemma trail_extends_same: "audit_entries d' = audit_entries d \<Longrightarrow> trail_extends d d'"
  using trail_extends_refl [of d] unfolding trail_extends_def by metis

lemma trail_extends_insert: "trail_extends d (sql_insert_audit a d)"
  unfolding trail_extends_def sql_insert_audit_def
  by (intro exI [of _ "audit_entries d"] exI) (auto simp: list.rel_refl)

lemma trail_extends_delete_operators: "trail_extends d (snd (sql_delete_operators P d))"
  unfolding trail_extends_def sql_delete_operators_def Let_def
  by (intro exI [of _ "map (set_null (set (map op_id (filter P (operators d))))) (audit_entries d)"]
      exI [of _ "[]"])
    (simp add: list_all2_conv_all_nth)

end
