(* ===== verification/Store_Migrate.thy ===== *)
theory Store_Migrate
  imports Store_Operator
begin

text \<open>
  internal/store/migrate.go: bringing the schema up to date at startup. The schema is the tables
  and indexes there are and the rows of schema_migrations; every migration is one transaction
  that also records its version.
\<close>

section \<open>The schema and its statements\<close>

datatype ddl = CreateTable string | CreateIndex string string

record migration =
  mig_version :: int
  mig_name :: string
  mig_statements :: "ddl list"

record schema =
  tables :: "string list"
  indexes :: "string list"
  schema_migrations :: "(int \<times> msec) list option"   \<comment> \<open>None before the table exists\<close>

definition no_schema :: schema where
  "no_schema = \<lparr>tables = [], indexes = [], schema_migrations = None\<rparr>"

definition migrations :: "migration list" where
  "migrations =
     [\<lparr>mig_version = 1, mig_name = ''operators, sessions and audit entries'',
       mig_statements =
         [CreateTable ''operators'',
          CreateIndex ''operators_email'' ''operators'',
          CreateIndex ''operators_single_owner'' ''operators'',
          CreateTable ''sessions'',
          CreateIndex ''sessions_operator'' ''sessions'',
          CreateIndex ''sessions_expires_at'' ''sessions'',
          CreateTable ''audit_entries'',
          CreateIndex ''audit_entries_recorded_at'' ''audit_entries'']\<rparr>,
      \<lparr>mig_version = 2, mig_name = ''setup tokens'',
       mig_statements = [CreateTable ''setup_tokens'']\<rparr>]"

text \<open>A statement creating what is already there, or an index on no table, is refused.\<close>

fun exec_ddl :: "ddl \<Rightarrow> schema \<Rightarrow> dberr + schema" where
  "exec_ddl (CreateTable t) s =
     (if t \<in> set (tables s) then Inl (SqliteError 1 ''table already exists'')
      else Inr (s\<lparr>tables := tables s @ [t]\<rparr>))"
| "exec_ddl (CreateIndex i t) s =
     (if i \<in> set (indexes s) then Inl (SqliteError 1 ''index already exists'')
      else if t \<notin> set (tables s) then Inl (SqliteError 1 ''no such table'')
      else Inr (s\<lparr>indexes := indexes s @ [i]\<rparr>))"

section \<open>The operations\<close>

fun exec_statements :: "sqlite \<Rightarrow> nat \<Rightarrow> ddl list \<Rightarrow> schema \<Rightarrow> dberr + schema" where
  "exec_statements q k [] s = Inr s"
| "exec_statements q k (st # sts) s =
     (case call q k (exec_ddl st s) of Inl err \<Rightarrow> Inl err
      | Inr s' \<Rightarrow> exec_statements q (Suc k) sts s')"

definition apply_migration ::
    "sqlite \<Rightarrow> nanos \<Rightarrow> migration \<Rightarrow> schema \<Rightarrow> (store_error + unit) \<times> schema" where
  "apply_migration q clk m s =
     (case call q 0 (Inr ()) of Inl err \<Rightarrow> (Inl (ErrDriver err), s)
      | Inr _ \<Rightarrow>
        (case exec_statements q 1 (mig_statements m) s of
           Inl err \<Rightarrow> (Inl (ErrDriver err), s)
         | Inr s1 \<Rightarrow>
           let k = Suc (length (mig_statements m)) in
           (case call q k (case schema_migrations s1 of
                  None \<Rightarrow> Inl (SqliteError 1 ''no such table'')
                | Some rows \<Rightarrow>
                    if mig_version m \<in> fst ` set rows
                    then Inl (SqliteError SQLITE_CONSTRAINT_PRIMARYKEY ''UNIQUE constraint failed'')
                    else Inr (s1\<lparr>schema_migrations := Some (rows @ [(mig_version m, now clk)])\<rparr>)) of
              Inl err \<Rightarrow> (Inl (ErrDriver err), s)
            | Inr s2 \<Rightarrow>
              (case call q (Suc k) (Inr ()) of
                 Inl err \<Rightarrow> (Inl (ErrDriver err), s)
               | Inr _ \<Rightarrow> (Inr (), s2)))))"

definition appliedVersion :: "sqlite \<Rightarrow> schema \<Rightarrow> store_error + int" where
  "appliedVersion q s =
     (case call q 1 (case schema_migrations s of
          None \<Rightarrow> Inl (SqliteError 1 ''no such table'')
        | Some [] \<Rightarrow> Inr 0
        | Some rows \<Rightarrow> Inr (Max (fst ` set rows))) of
        Inl err \<Rightarrow> Inl (ErrDriver err) | Inr version \<Rightarrow> Inr version)"

fun apply_newer ::
    "(int \<Rightarrow> sqlite) \<Rightarrow> nanos \<Rightarrow> int \<Rightarrow> migration list \<Rightarrow> schema \<Rightarrow> (store_error + unit) \<times> schema" where
  "apply_newer qs clk applied [] s = (Inr (), s)"
| "apply_newer qs clk applied (m # ms) s =
     (if mig_version m \<le> applied then apply_newer qs clk applied ms s
      else case apply_migration (qs (mig_version m)) clk m s of
             (Inl err, s') \<Rightarrow> (Inl err, s')
           | (Inr _, s') \<Rightarrow> apply_newer qs clk applied ms s')"

text \<open>
  The first two calls are the environment q's, and the transaction of the migration with version
  v is qs v's.
\<close>

definition migrate ::
    "sqlite \<Rightarrow> (int \<Rightarrow> sqlite) \<Rightarrow> nanos \<Rightarrow> schema \<Rightarrow> (store_error + unit) \<times> schema" where
  "migrate q qs clk s =
     (case call q 0 (Inr (case schema_migrations s of
          None \<Rightarrow> s\<lparr>schema_migrations := Some []\<rparr> | Some _ \<Rightarrow> s)) of
        Inl err \<Rightarrow> (Inl (ErrDriver err), s)
      | Inr s0 \<Rightarrow>
        (case appliedVersion q s0 of
           Inl err \<Rightarrow> (Inl err, s0)
         | Inr applied \<Rightarrow> apply_newer qs clk applied migrations s0))"

section \<open>Schemas between two migrations\<close>

fun table_of :: "ddl \<Rightarrow> string list" where
  "table_of (CreateTable t) = [t]"
| "table_of (CreateIndex i t) = []"

fun index_of :: "ddl \<Rightarrow> string list" where
  "index_of (CreateTable t) = []"
| "index_of (CreateIndex i t) = [i]"

text \<open>The schema of the first n migrations: what they create, and their versions recorded.\<close>

definition at_migration :: "nat \<Rightarrow> schema \<Rightarrow> bool" where
  "at_migration n s \<longleftrightarrow>
     tables s = concat (map table_of (concat (map mig_statements (take n migrations)))) \<and>
     indexes s = concat (map index_of (concat (map mig_statements (take n migrations)))) \<and>
     (case schema_migrations s of None \<Rightarrow> n = 0
      | Some rows \<Rightarrow> map fst rows = map mig_version (take n migrations))"

lemma length_migrations [simp]: "length migrations = 2"
  by (simp add: migrations_def)

lemma exec_statements_healthy:
  "exec_statements healthy j sts s = Inr s' \<Longrightarrow>
   exec_statements q k sts s = Inl DriverError \<or> exec_statements q k sts s = Inr s'"
  by (induction sts arbitrary: s j k) (auto simp: call_def split: sum.splits)

lemma exec_statements_no_fault:
  "exec_statements healthy j sts s = Inr s' \<Longrightarrow> \<forall>i. \<not> fails q i \<Longrightarrow>
   exec_statements q k sts s = Inr s'"
  by (induction sts arbitrary: s j k) (auto simp: call_def split: sum.splits)

lemma apply_migration_error:
  "fst (apply_migration q clk m s) = Inl err \<Longrightarrow> snd (apply_migration q clk m s) = s"
  by (auto simp: apply_migration_def Let_def call_def split: sum.splits prod.splits)

lemma next_statements:
  assumes "at_migration n s" "n < 2"
  shows "exec_statements healthy 0 (mig_statements (migrations ! n)) s =
    Inr (s\<lparr>tables := tables s @ concat (map table_of (mig_statements (migrations ! n))),
           indexes := indexes s @ concat (map index_of (mig_statements (migrations ! n)))\<rparr>)"
proof -
  from assms(2) consider "n = 0" | "n = 1" by linarith
  then show ?thesis
    using assms(1) by cases (simp_all add: at_migration_def migrations_def)
qed

lemma at_migration_Suc:
  assumes "at_migration n s" "n < 2" "schema_migrations s = Some rows"
  shows "at_migration (Suc n) (s\<lparr>
     tables := tables s @ concat (map table_of (mig_statements (migrations ! n))),
     indexes := indexes s @ concat (map index_of (mig_statements (migrations ! n))),
     schema_migrations := Some (rows @ [(mig_version (migrations ! n), t)])\<rparr>)"
  using assms by (simp add: at_migration_def take_Suc_conv_app_nth)

lemma next_version_fresh:
  assumes "at_migration n s" "n < 2" "schema_migrations s = Some rows"
  shows "mig_version (migrations ! n) \<notin> fst ` set rows"
proof -
  have "fst ` set rows = set (map mig_version (take n migrations))"
    using assms(1,3) by (simp add: at_migration_def flip: set_map)
  moreover from assms(2) consider "n = 0" | "n = 1" by linarith
  then have "mig_version (migrations ! n) \<notin> set (map mig_version (take n migrations))"
    by cases (simp_all add: migrations_def)
  ultimately show ?thesis by simp
qed

text \<open>One migration is applied and recorded together, or neither.\<close>

lemma apply_migration_next:
  assumes "at_migration n s" "n < 2" "schema_migrations s \<noteq> None"
  shows "(\<exists>err. apply_migration q clk (migrations ! n) s = (Inl err, s)) \<or>
    (\<exists>s'. apply_migration q clk (migrations ! n) s = (Inr (), s') \<and>
       at_migration (Suc n) s' \<and> schema_migrations s' \<noteq> None)"
    and "(\<forall>i. \<not> fails q i) \<Longrightarrow> fst (apply_migration q clk (migrations ! n) s) = Inr ()"
proof -
  let ?m = "migrations ! n"
  obtain rows where rows: "schema_migrations s = Some rows" using assms(3) by blast
  note run = next_statements [OF assms(1,2)]
  note fresh = next_version_fresh [OF assms(1,2) rows]
  note suc = at_migration_Suc [OF assms(1,2) rows, of "now clk"]
  show "(\<exists>err. apply_migration q clk ?m s = (Inl err, s)) \<or>
    (\<exists>s'. apply_migration q clk ?m s = (Inr (), s') \<and>
       at_migration (Suc n) s' \<and> schema_migrations s' \<noteq> None)"
  proof (cases "fails q 0 \<or> exec_statements q 1 (mig_statements ?m) s = Inl DriverError \<or>
      fails q (Suc (length (mig_statements ?m))) \<or> fails q (Suc (Suc (length (mig_statements ?m))))")
    case True
    then have "\<exists>err. apply_migration q clk ?m s = (Inl err, s)"
      using exec_statements_healthy [OF run, of q 1] fresh rows
      by (auto simp: apply_migration_def Let_def call_def)
    then show ?thesis ..
  next
    case False
    then have "apply_migration q clk ?m s = (Inr (), s\<lparr>
       tables := tables s @ concat (map table_of (mig_statements ?m)),
       indexes := indexes s @ concat (map index_of (mig_statements ?m)),
       schema_migrations := Some (rows @ [(mig_version ?m, now clk)])\<rparr>)"
      using exec_statements_healthy [OF run, of q 1] fresh rows
      by (auto simp: apply_migration_def Let_def call_def)
    with suc show ?thesis by auto
  qed
  show "fst (apply_migration q clk ?m s) = Inr ()" if "\<forall>i. \<not> fails q i"
    using exec_statements_no_fault [OF run that, of 1] fresh rows that
    by (auto simp: apply_migration_def Let_def call_def)
qed

lemma appliedVersion_at:
  assumes "at_migration n s" "n \<le> 2" "schema_migrations s \<noteq> None" "\<not> fails q 1"
  shows "appliedVersion q s = Inr (int n)"
proof -
  obtain rows where rows: "schema_migrations s = Some rows" using assms(3) by blast
  then have v: "map fst rows = map mig_version (take n migrations)"
    using assms(1) by (simp add: at_migration_def)
  from assms(2) consider "n = 0" | "n = 1" | "n = 2" by linarith
  then show ?thesis
  proof cases
    case 1
    with v rows assms(4) show ?thesis by (simp add: appliedVersion_def call_def)
  next
    case 2
    then obtain a where "rows = [a]" "fst a = 1" using v by (cases rows) (auto simp: migrations_def)
    with rows assms(4) 2 show ?thesis by (simp add: appliedVersion_def call_def)
  next
    case 3
    then have "fst ` set rows = {1, 2}" "rows \<noteq> []"
      using arg_cong [OF v, of set] v by (auto simp: migrations_def)
    with rows assms(4) 3 show ?thesis
      by (auto simp: appliedVersion_def call_def split: list.splits)
  qed
qed

text \<open>
  From a schema between two migrations, migrating reaches one again whatever fails, never an
  earlier one; and reaches the last one when nothing fails.
\<close>

lemma apply_newer_from:
  assumes "at_migration n s" "n \<le> 2" "schema_migrations s \<noteq> None"
  shows "\<exists>m. n \<le> m \<and> m \<le> 2 \<and> at_migration m (snd (apply_newer qs clk (int n) (drop n migrations) s)) \<and>
     (fst (apply_newer qs clk (int n) (drop n migrations) s) = Inr () \<longrightarrow> m = 2)"
    and "(\<forall>v i. \<not> fails (qs v) i) \<Longrightarrow>
      fst (apply_newer qs clk (int n) (drop n migrations) s) = Inr ()"
proof -
  have gen: "at_migration k s \<Longrightarrow> n \<le> k \<Longrightarrow> k \<le> 2 \<Longrightarrow> schema_migrations s \<noteq> None \<Longrightarrow>
    (\<exists>m. k \<le> m \<and> m \<le> 2 \<and> at_migration m (snd (apply_newer qs clk (int n) (drop k migrations) s)) \<and>
     (fst (apply_newer qs clk (int n) (drop k migrations) s) = Inr () \<longrightarrow> m = 2)) \<and>
    ((\<forall>v i. \<not> fails (qs v) i) \<longrightarrow> fst (apply_newer qs clk (int n) (drop k migrations) s) = Inr ())"
    for k s
  proof (induction "2 - k" arbitrary: k s)
    case 0
    then have "k = 2" by simp
    with 0 show ?case by auto
  next
    case (Suc x)
    then have k: "k < 2" by simp
    let ?m = "migrations ! k"
    have drop: "drop k migrations = ?m # drop (Suc k) migrations"
      using k by (simp add: Cons_nth_drop_Suc)
    have new: "\<not> mig_version ?m \<le> int n"
    proof -
      from k consider "k = 0" | "k = 1" by linarith
      then show ?thesis using Suc.prems(2) by cases (simp_all add: migrations_def)
    qed
    let ?q = "qs (mig_version ?m)"
    note step = apply_migration_next [OF Suc.prems(1) k Suc.prems(4), of ?q clk]
    from step(1) consider err where "apply_migration ?q clk ?m s = (Inl err, s)"
      | s' where "apply_migration ?q clk ?m s = (Inr (), s')" "at_migration (Suc k) s'"
        "schema_migrations s' \<noteq> None" by blast
    then show ?case
    proof cases
      case 1
      then have "\<not> (\<forall>i. \<not> fails ?q i)" using step(2) by auto
      with 1 Suc.prems k new show ?thesis by (auto simp: drop)
    next
      case 2
      from Suc.hyps(1) [of "Suc k" s'] Suc.hyps(2) 2 k Suc.prems(2)
      have "(\<exists>m. Suc k \<le> m \<and> m \<le> 2 \<and>
          at_migration m (snd (apply_newer qs clk (int n) (drop (Suc k) migrations) s')) \<and>
          (fst (apply_newer qs clk (int n) (drop (Suc k) migrations) s') = Inr () \<longrightarrow> m = 2)) \<and>
        ((\<forall>v i. \<not> fails (qs v) i) \<longrightarrow>
          fst (apply_newer qs clk (int n) (drop (Suc k) migrations) s') = Inr ())"
        by simp
      with 2 new show ?thesis by (auto simp: drop intro: Suc_leD)
    qed
  qed
  show "\<exists>m. n \<le> m \<and> m \<le> 2 \<and> at_migration m (snd (apply_newer qs clk (int n) (drop n migrations) s)) \<and>
     (fst (apply_newer qs clk (int n) (drop n migrations) s) = Inr () \<longrightarrow> m = 2)"
    "(\<forall>v i. \<not> fails (qs v) i) \<Longrightarrow>
      fst (apply_newer qs clk (int n) (drop n migrations) s) = Inr ()"
    using gen [of n s] assms by auto
qed

lemma apply_newer_skip:
  assumes "n \<le> 2"
  shows "apply_newer qs clk (int n) migrations s = apply_newer qs clk (int n) (drop n migrations) s"
proof -
  from assms consider "n = 0" | "n = 1" | "n = 2" by linarith
  then show ?thesis by cases (simp_all add: migrations_def)
qed

end
