(* ===== verification/Store.thy ===== *)
theory Store
  imports Store_SetupToken Store_Audit Store_Migrate
begin

text \<open>
  The store as one machine: every operation of the package that writes, with the environment it
  met, is a step on the tables. What holds of every step holds of every history of the database,
  whatever calls failed and however the calls of several processes were interleaved, since SQLite
  serialises them.
\<close>

section \<open>The machine\<close>

datatype store_op =
    OpCreateOwner sqlite nanos string string string
  | OpCreateOperator sqlite nanos string string string
  | OpSetPassword sqlite nanos int string
  | OpRename sqlite nanos int string
  | OpRemoveOperator sqlite int
  | OpStartSession sqlite nanos int string nanos
  | OpRevokeSession sqlite string
  | OpRevokeOperatorSessions sqlite int
  | OpDropExpiredSessions sqlite nanos
  | OpIssueSetupToken sqlite nanos string nanos
  | OpRedeemSetupToken sqlite nanos nanos string string string string
  | OpDropExpiredSetupTokens sqlite nanos
  | OpRecord sqlite nanos Audited
  | OpRecordUnauthenticated sqlite nanos Audited

fun exec_op :: "store_op \<Rightarrow> db \<Rightarrow> db" where
  "exec_op (OpCreateOwner q clk e n p) d = snd (CreateOwner q clk e n p d)"
| "exec_op (OpCreateOperator q clk e n p) d = snd (CreateOperator q clk e n p d)"
| "exec_op (OpSetPassword q clk i p) d = snd (SetPassword q clk i p d)"
| "exec_op (OpRename q clk i n) d = snd (Rename q clk i n d)"
| "exec_op (OpRemoveOperator q i) d = snd (RemoveOperator q i d)"
| "exec_op (OpStartSession q clk i h e) d = snd (StartSession q clk i h e d)"
| "exec_op (OpRevokeSession q h) d = snd (RevokeSession q h d)"
| "exec_op (OpRevokeOperatorSessions q i) d = snd (RevokeOperatorSessions q i d)"
| "exec_op (OpDropExpiredSessions q clk) d = snd (DropExpiredSessions q clk d)"
| "exec_op (OpIssueSetupToken q clk h e) d = snd (IssueSetupToken q clk h e d)"
| "exec_op (OpRedeemSetupToken q clk clk' h e n p) d = snd (RedeemSetupToken q clk clk' h e n p d)"
| "exec_op (OpDropExpiredSetupTokens q clk) d = snd (DropExpiredSetupTokens q clk d)"
| "exec_op (OpRecord q clk a) d = snd (Record q clk a d)"
| "exec_op (OpRecordUnauthenticated q clk a) d = snd (RecordUnauthenticated q clk a d)"

lemma wf_exec_op: "wf_db d \<Longrightarrow> wf_db (exec_op op d)"
  by (cases op) (auto intro: wf_intros)

section \<open>What a step does to the operators and to the trail\<close>

text \<open>The owner stays: the same row, under the same id and address.\<close>

definition owner_kept :: "db \<Rightarrow> db \<Rightarrow> bool" where
  "owner_kept d d' \<longleftrightarrow>
     (\<forall>r \<in> set (operators d). op_is_owner r \<longrightarrow>
        (\<exists>r' \<in> set (operators d'). op_is_owner r' \<and> op_id r' = op_id r \<and> op_email r' = op_email r))"

lemma owner_kept_same: "operators d' = operators d \<Longrightarrow> owner_kept d d'"
  by (auto simp: owner_kept_def)

lemma owner_kept_append: "operators d' = operators d @ rs \<Longrightarrow> owner_kept d d'"
  by (auto simp: owner_kept_def)

lemma owner_kept_update:
  assumes "operators d' = map f (operators d)"
    and "\<And>r. op_is_owner (f r) = op_is_owner r \<and> op_id (f r) = op_id r \<and> op_email (f r) = op_email r"
  shows "owner_kept d d'"
  using assms by (auto simp: owner_kept_def)

lemma owner_kept_trans: "owner_kept d d' \<Longrightarrow> owner_kept d' d'' \<Longrightarrow> owner_kept d d''"
  by (force simp: owner_kept_def)

lemma Record_operators: "wf_db d \<Longrightarrow> operators (snd (Record q clk a d)) = operators d"
  using Record_db [of d q clk a] by (auto simp: sql_simps)

lemma RecordUnauthenticated_operators:
  "operators (snd (RecordUnauthenticated q clk a d)) = operators d"
  by (simp add: RecordUnauthenticated_db sql_simps)

lemma StartSession_frame:
  "operators (snd (StartSession q clk i h e d)) = operators d \<and>
   audit_entries (snd (StartSession q clk i h e d)) = audit_entries d \<and>
   setup_tokens (snd (StartSession q clk i h e d)) = setup_tokens d"
  by (auto simp: StartSession_def Let_def split: sum.splits dest: sql_insert_session_Inr)

lemma SetPassword_cases:
  "snd (SetPassword q clk i p d) = d \<or> (\<exists>n. fst (SetPassword q clk i p d) = Inr n)"
  using SetPassword_error [of q clk i p d] by (cases "fst (SetPassword q clk i p d)") auto

lemma IssueSetupToken_cases:
  "snd (IssueSetupToken q clk h e d) = d \<or> (\<exists>t. fst (IssueSetupToken q clk h e d) = Inr t)"
  using IssueSetupToken_error [of q clk h e d] by (cases "fst (IssueSetupToken q clk h e d)") auto

lemma RedeemSetupToken_cases:
  "snd (RedeemSetupToken q clk clk' h e n p d) = d \<or>
   (\<exists>r. fst (RedeemSetupToken q clk clk' h e n p d) = Inr r)"
  using RedeemSetupToken_error [of q clk clk' h e n p d]
  by (cases "fst (RedeemSetupToken q clk clk' h e n p d)") auto

lemma Rename_db:
  "snd (Rename q clk i n d) = (if fails q 0 then d else
     snd (sql_update_operators (\<lambda>r. op_id r = i) (\<lambda>r. r\<lparr>op_name := n, op_updated_at := now clk\<rparr>) d))"
  by (auto simp: Rename_def call_def split: sum.splits prod.splits dest!: snd_eqI)

text \<open>
  The whole of it: the rows of operators after a step are those before, changed in place, with
  rows added at the end or with rows that are not the owner's taken out.
\<close>

lemma exec_op_operators:
  assumes "wf_db d"
  shows "owner_kept d (exec_op op d)"
proof (cases op)
  case (OpCreateOwner q clk e n p)
  then show ?thesis using createOperator_db [of q clk e n p True d]
    by (auto simp: CreateOwner_def intro: owner_kept_same owner_kept_append)
next
  case (OpCreateOperator q clk e n p)
  then show ?thesis using createOperator_db [of q clk e n p False d]
    by (auto simp: CreateOperator_def intro: owner_kept_same owner_kept_append)
next
  case (OpSetPassword q clk i p)
  have "owner_kept d (snd (SetPassword q clk i p d))"
    if "fst (SetPassword q clk i p d) = Inr n" for n
    by (rule owner_kept_update [where f = "\<lambda>r. if op_id r = i
        then r\<lparr>op_password_hash := p, op_updated_at := now clk\<rparr> else r"])
      (simp_all add: SetPassword_ok(1) [OF that])
  with OpSetPassword SetPassword_cases [of q clk i p d] show ?thesis
    by (auto simp: owner_kept_same)
next
  case (OpRename q clk i n)
  have "owner_kept d (snd (sql_update_operators (\<lambda>r. op_id r = i)
      (\<lambda>r. r\<lparr>op_name := n, op_updated_at := now clk\<rparr>) d))"
    by (rule owner_kept_update [where f = "\<lambda>r. if op_id r = i
        then r\<lparr>op_name := n, op_updated_at := now clk\<rparr> else r"]) (simp_all add: sql_simps)
  with OpRename show ?thesis by (simp add: Rename_db owner_kept_same)
next
  case (OpRemoveOperator q i)
  then show ?thesis by (auto simp: RemoveOperator_db owner_kept_def sql_simps)
next
  case (OpIssueSetupToken q clk h e)
  then show ?thesis using IssueSetupToken_cases [of q clk h e d]
    by (auto simp: IssueSetupToken_ok(2) intro: owner_kept_same)
next
  case (OpRedeemSetupToken q clk clk' h e n p)
  then show ?thesis using RedeemSetupToken_cases [of q clk clk' h e n p d]
    by (auto simp: RedeemSetupToken_ok(2) intro: owner_kept_same owner_kept_append)
qed (simp_all add: owner_kept_same StartSession_frame RevokeSession_db RevokeOperatorSessions_db
    DropExpiredSessions_db DropExpiredSetupTokens_db Record_operators [OF assms]
    RecordUnauthenticated_operators sql_simps)

lemma exec_op_trail:
  assumes "wf_db d"
  shows "trail_extends d (exec_op op d)"
proof (cases op)
  case (OpCreateOwner q clk e n p)
  then show ?thesis using createOperator_db [of q clk e n p True d]
    by (auto simp: CreateOwner_def intro: trail_extends_same)
next
  case (OpCreateOperator q clk e n p)
  then show ?thesis using createOperator_db [of q clk e n p False d]
    by (auto simp: CreateOperator_def intro: trail_extends_same)
next
  case (OpSetPassword q clk i p)
  then show ?thesis using SetPassword_cases [of q clk i p d]
    by (auto simp: SetPassword_ok(1) intro: trail_extends_same)
next
  case (OpRemoveOperator q i)
  then show ?thesis by (auto simp: RemoveOperator_db trail_extends_delete_operators)
next
  case (OpIssueSetupToken q clk h e)
  then show ?thesis using IssueSetupToken_cases [of q clk h e d]
    by (auto simp: IssueSetupToken_ok(2) intro: trail_extends_same)
next
  case (OpRedeemSetupToken q clk clk' h e n p)
  then show ?thesis using RedeemSetupToken_cases [of q clk clk' h e n p d]
    by (auto simp: RedeemSetupToken_ok(2) intro: trail_extends_same)
next
  case (OpRecord q clk a)
  then show ?thesis using Record_db [OF assms, of q clk a] by (auto intro: trail_extends_insert)
qed (simp_all add: trail_extends_same StartSession_frame Rename_db RevokeSession_db
    RevokeOperatorSessions_db DropExpiredSessions_db DropExpiredSetupTokens_db
    RecordUnauthenticated_db trail_extends_insert sql_simps)

interpretation owner_machine: monotone_machine exec_op wf_db owner_kept
  by unfold_locales
    (auto intro: wf_exec_op exec_op_operators owner_kept_same owner_kept_trans)

interpretation trail_machine: monotone_machine exec_op wf_db trail_extends
  by unfold_locales
    (auto intro: wf_exec_op exec_op_trail trail_extends_trans)

section \<open>Properties\<close>

definition history :: "store_op list \<Rightarrow> db" where
  "history ops = fold exec_op ops empty_db"

lemma wf_history: "wf_db (history ops)"
  by (simp add: history_def owner_machine.inv_run wf_empty_db)

lemma history_append: "history (xs @ ys) = fold exec_op ys (history xs)"
  by (simp add: history_def)

lemma owners_unique:
  assumes "wf_db d" "r \<in> set (operators d)" "op_is_owner r" "s \<in> set (operators d)" "op_is_owner s"
  shows "r = s"
proof -
  have "length (filter op_is_owner (operators d)) \<le> 1"
    using assms(1) by (simp add: wf_db_def operators_wf_def)
  moreover have "r \<in> set (filter op_is_owner (operators d))"
    "s \<in> set (filter op_is_owner (operators d))" using assms by auto
  ultimately show ?thesis
    by (cases "filter op_is_owner (operators d)"; cases "tl (filter op_is_owner (operators d))") auto
qed

lemma has_owner_run:
  assumes "wf_db d" "has_owner d"
  shows "has_owner (fold exec_op ops d)"
  using owner_machine.rel_run [OF assms(1), of ops] assms(2)
  by (fastforce simp: owner_kept_def has_owner_def)

text \<open>
  C1: The schema's promises hold in every database the store can have written, after any
  sequence of its operations with any call failing: ids, addresses, session hashes and audit ids
  are unique, addresses are stored normalised and never empty, no password hash is empty, there is
  at most one owner and at most one setup token, every session belongs to an operator that
  exists, and every audit entry naming an operator names an existing one by its address.
\<close>

theorem store_invariant: "wf_db (history ops)"
  by (rule wf_history)

text \<open>
  The owner is permanent and unique. Whoever is the owner at some point of a history is, under
  the same id and address, the only owner at every later point, whatever operations follow
  (removals, renames, further redemptions and creations included) and whichever of them fail.
\<close>

theorem owner_permanent:
  assumes "r \<in> set (operators (history xs))" "op_is_owner r"
  shows "\<exists>r'. filter op_is_owner (operators (history (xs @ ys))) = [r'] \<and>
    op_id r' = op_id r \<and> op_email r' = op_email r"
proof -
  let ?d = "history (xs @ ys)"
  have "owner_kept (history xs) ?d"
    unfolding history_append by (rule owner_machine.rel_run [OF wf_history])
  then obtain r' where r': "r' \<in> set (operators ?d)" "op_is_owner r'" "op_id r' = op_id r"
    "op_email r' = op_email r" using assms by (auto simp: owner_kept_def)
  have "length (filter op_is_owner (operators ?d)) \<le> 1"
    using wf_history [of "xs @ ys"] by (simp add: wf_db_def operators_wf_def)
  moreover have "r' \<in> set (filter op_is_owner (operators ?d))" using r' by simp
  ultimately have "filter op_is_owner (operators ?d) = [r']"
    by (cases "filter op_is_owner (operators ?d)") auto
  with r' show ?thesis by blast
qed

definition demo_setup :: "store_op list" where
  "demo_setup = [OpIssueSetupToken healthy 0 ''h'' 9000000,
     OpRedeemSetupToken healthy 1000000 1000000 ''h'' ''Ana@x.org'' ''Ana'' ''phc'']"

lemma exec_demo_setup: "history demo_setup =
    \<lparr>operators = [\<lparr>op_id = 1, op_email = ''ana@x.org'', op_name = ''Ana'', op_password_hash = ''phc'',
       op_is_owner = True, op_created_at = 1, op_updated_at = 1\<rparr>],
     sessions = [], audit_entries = [], setup_tokens = []\<rparr>"
  by (simp add: history_def demo_setup_def IssueSetupToken_def RedeemSetupToken_def Let_def now_def
      millis_def instant_def sql_delete_setup_tokens_def sql_insert_setup_token_def
      sql_insert_operator_def next_rowid_def empty_db_def normaliseEmail_def go_simps)

theorem owner_permanent_witness:
  "\<exists>r'. filter op_is_owner (operators (history (demo_setup @ [OpRemoveOperator healthy 1]))) = [r'] \<and>
     op_id r' = 1 \<and> op_email r' = ''ana@x.org''"
  using owner_permanent [of "hd (operators (history demo_setup))" demo_setup
      "[OpRemoveOperator healthy 1]"]
  by (simp add: exec_demo_setup)

text \<open>
  C2: A setup token makes one owner. Once a redemption has succeeded, no redemption and no issue
  succeeds at any later point, with any token, address or clock, whatever happened in between: of
  two redemptions of one token, in either order and from any two processes, one is refused.
\<close>

theorem setup_happens_once:
  assumes "fst (RedeemSetupToken q clk clk' h email name ph (history xs)) = Inr r"
  shows "fst (RedeemSetupToken q2 c2 c2' h2 email2 name2 ph2
           (history (xs @ OpRedeemSetupToken q clk clk' h email name ph # ys))) \<noteq> Inr r2 \<and>
    fst (IssueSetupToken q3 c3 h3 e3
           (history (xs @ OpRedeemSetupToken q clk clk' h email name ph # ys))) \<noteq> Inr t3"
proof -
  let ?d = "snd (RedeemSetupToken q clk clk' h email name ph (history xs))"
  have "has_owner ?d"
    using RedeemSetupToken_ok(1,2) [OF assms] by (simp add: has_owner_def)
  then have "has_owner (fold exec_op ys ?d)"
    by (rule has_owner_run [OF wf_RedeemSetupToken [OF wf_history]])
  then have o: "has_owner (history (xs @ OpRedeemSetupToken q clk clk' h email name ph # ys))"
    by (simp add: history_def)
  show ?thesis
    using o RedeemSetupToken_ok(4) IssueSetupToken_ok(5) by blast
qed

theorem setup_happens_once_witness:
  "\<forall>r2. fst (RedeemSetupToken healthy 2000000 2000000 ''h'' ''eve@x.org'' ''Eve'' ''phc2''
     (history demo_setup)) \<noteq> Inr r2"
proof -
  let ?d0 = "history [OpIssueSetupToken healthy 0 ''h'' 9000000]"
  have "fst (RedeemSetupToken healthy 1000000 1000000 ''h'' ''Ana@x.org'' ''Ana'' ''phc'' ?d0) =
      Inr (hd (operators (history demo_setup)))"
    by (subst RedeemSetupToken_outcome)
      (simp_all add: exec_demo_setup, simp add: history_def IssueSetupToken_def Let_def now_def
      millis_def instant_def sql_delete_setup_tokens_def sql_insert_setup_token_def
      next_rowid_def empty_db_def normaliseEmail_def live_token_def
      has_owner_def go_simps)
  from setup_happens_once [OF this, where ys = "[]"] show ?thesis
    by (simp add: demo_setup_def)
qed


text \<open>
  C3: Redeeming is all or nothing. Whatever call of the transaction fails, an answer that is an
  error leaves every table as it was (the token is not burnt); an answer that is an operator means
  the token was live, is gone, and that operator, the owner, is the last row of the table.
\<close>

theorem redeem_all_or_nothing:
  "case RedeemSetupToken q clk clk' h email name ph d of
     (Inl err, d') \<Rightarrow> d' = d
   | (Inr r, d') \<Rightarrow> live_token clk h d \<and> \<not> live_token clk h d' \<and> \<not> has_owner d \<and>
       d' = d\<lparr>operators := operators d @ [r], setup_tokens := setup_tokens d'\<rparr> \<and>
       op_is_owner r \<and> op_email r = normaliseEmail email \<and> op_password_hash r = ph"
proof (cases "fst (RedeemSetupToken q clk clk' h email name ph d)")
  case (Inl err)
  with RedeemSetupToken_error [OF Inl] show ?thesis by (simp add: case_prod_beta)
next
  case (Inr r)
  note ok = RedeemSetupToken_ok [OF Inr]
  show ?thesis
    using Inr ok(1-4) by (simp add: case_prod_beta live_token_def)
qed

text \<open>
  The answer of a redemption, when the database answers: the first of the refusals that
  applies, in the order the code asks, and otherwise the new owner. Unknown, expired and spent
  tokens are one answer.
\<close>

theorem redeem_answers:
  assumes "\<forall>k < 6. \<not> fails q k"
  shows "fst (RedeemSetupToken q clk clk' h email name ph d) =
    (let e = normaliseEmail email; taken = (\<exists>r \<in> set (operators d). op_email r = e) in
     if h = [] then Inl (ErrRefused ''no token hash to look up'')
     else if e = [] then Inl (ErrRefused ''no email address to sign in with'')
     else if ph = [] then Inl (ErrRefused ''no password hash to store'')
     else if \<not> live_token clk h d then Inl ErrNotFound
     else if has_owner d \<and> (owner_index_first q \<or> \<not> taken) then Inl ErrOwnerExists
     else if taken then Inl ErrExists
     else Inr \<lparr>op_id = next_rowid (map op_id (operators d)), op_email = e, op_name = name,
               op_password_hash = ph, op_is_owner = True, op_created_at = now clk',
               op_updated_at = now clk'\<rparr>)"
  by (rule RedeemSetupToken_outcome [OF assms])

theorem redeem_answers_witness:
  "fst (RedeemSetupToken healthy 0 0 ''h'' ''a@b'' ''A'' ''p'' empty_db) = Inl ErrNotFound"
  using redeem_answers [of healthy 0 0 "''h''" "''a@b''" "''A''" "''p''" empty_db]
  by (simp add: Let_def empty_db_def live_token_def normaliseEmail_def go_simps)

text \<open>
  Issuing replaces. After a successful issue the new token is the only one in the table, so
  a hash that redeems at any later instant, before anything else is written, is the one just
  issued; a refused issue leaves the outstanding token as it was.
\<close>

theorem issue_replaces:
  "case IssueSetupToken q clk h e d of
     (Inl err, d') \<Rightarrow> d' = d
   | (Inr tok, d') \<Rightarrow> d' = d\<lparr>setup_tokens := [tok]\<rparr> \<and> \<not> has_owner d \<and> tok_token_hash tok = h \<and>
       (\<forall>q2 t t' h2 email name ph r.
          fst (RedeemSetupToken q2 t t' h2 email name ph d') = Inr r \<longrightarrow> h2 = h \<and> now t < millis e)"
proof (cases "fst (IssueSetupToken q clk h e d)")
  case (Inl err)
  with IssueSetupToken_error [OF Inl] show ?thesis by (simp add: case_prod_beta)
next
  case (Inr tok)
  note ok = IssueSetupToken_ok [OF Inr]
  have "h2 = h \<and> now t < millis e"
    if "fst (RedeemSetupToken q2 t t' h2 email name ph (d\<lparr>setup_tokens := [tok]\<rparr>)) = Inr r"
    for q2 t t' h2 email name ph r
    using RedeemSetupToken_ok(3) [OF that] ok(1) by (auto simp: live_token_def)
  with Inr ok show ?thesis by (auto simp: case_prod_beta)
qed

theorem issue_replaces_witness:
  "snd (IssueSetupToken healthy 0 ''h'' 9000000 empty_db) \<noteq> empty_db"
  using issue_replaces [where q = healthy and clk = 0 and h = "''h''" and e = 9000000 and d = empty_db]
    IssueSetupToken_outcome [of healthy 0 "''h''" 9000000 empty_db]
  by (auto simp: empty_db_def has_owner_def now_def millis_def instant_def case_prod_beta)

text \<open>
  The trail is append-only. Between any two points of a history the entries of the earlier
  one are, in order, the first entries of the later one, unchanged but for the link to an
  operator who has been removed, which becomes NULL.
\<close>

theorem trail_append_only:
  "\<exists>kept new. audit_entries (history (xs @ ys)) = kept @ new \<and>
     list_all2 same_entry (audit_entries (history xs)) kept"
  using trail_machine.rel_run [OF wf_history, of xs ys]
  by (simp add: history_append trail_extends_def)

text \<open>
  Changing a password takes access away. Either the call answers an error and nothing has
  changed, whichever call of the transaction failed; or the operator has the new hash, no
  session at any instant is theirs, everybody else's are as they were, and the count reported is
  the number of sessions ended.
\<close>

theorem set_password_revokes:
  assumes "wf_db d"
  shows "case SetPassword q clk i ph d of
     (Inl err, d') \<Rightarrow> d' = d
   | (Inr n, d') \<Rightarrow> wf_db d' \<and>
       (\<exists>r \<in> set (operators d'). op_id r = i \<and> op_password_hash r = ph) \<and>
       (\<forall>t h. live t d' h = (if live t d h = Some i then None else live t d h)) \<and>
       length (sessions d') + n = length (sessions d)"
proof (cases "fst (SetPassword q clk i ph d)")
  case (Inl err)
  with SetPassword_error [OF Inl] show ?thesis by (simp add: case_prod_beta)
next
  case (Inr n)
  note ok = SetPassword_ok [OF Inr]
  have "\<exists>r \<in> set (operators (snd (SetPassword q clk i ph d))). op_id r = i \<and> op_password_hash r = ph"
  proof -
    from ok(3) obtain x where x: "x \<in> set (operators d)" "op_id x = i"
      by (auto simp: operator_ids_def)
    then show ?thesis
      by (intro bexI [of _ "x\<lparr>op_password_hash := ph, op_updated_at := now clk\<rparr>"])
        (auto simp: ok(1) image_iff intro!: bexI [of _ x])
  qed
  moreover have "length (sessions (snd (SetPassword q clk i ph d))) + n = length (sessions d)"
    using ok(1,2) sum_length_filter_compl [of "\<lambda>s. ses_operator_id s = i" "sessions d"] by simp
  ultimately show ?thesis
    using Inr live_SetPassword [OF assms Inr] wf_SetPassword [OF assms, of q clk i ph]
    by (simp add: case_prod_beta)
qed

theorem set_password_revokes_witness:
  "case SetPassword healthy 0 1 ''new'' (history demo_setup) of
     (Inl err, d') \<Rightarrow> False
   | (Inr n, d') \<Rightarrow> \<exists>r \<in> set (operators d'). op_id r = 1 \<and> op_password_hash r = ''new''"
  using set_password_revokes [OF wf_history [of demo_setup], where q = healthy and clk = 0 and i = 1
      and ph = "''new''"]
    SetPassword_outcome [of healthy 0 1 "''new''" "history demo_setup"]
  by (auto simp: case_prod_beta exec_demo_setup operator_ids_def split: sum.splits)

text \<open>
  Removing an operator takes their access and keeps their trail. After it, no session at any
  instant is theirs and no audit entry links to their id, so an operator created afterwards
  under the same rowid inherits neither; every entry they left is still there, by its address. The
  owner is refused, and so is an id nobody has.
\<close>

theorem removal_is_clean:
  assumes "wf_db d" "\<forall>k < 3. \<not> fails q k"
  shows "(case Operator healthy i d of
       Inl _ \<Rightarrow> fst (RemoveOperator q i d) = Inl ErrNotFound
     | Inr r \<Rightarrow> if op_is_owner r then fst (RemoveOperator q i d) = Inl ErrOwnerProtected
         else fst (RemoveOperator q i d) = Inr () \<and>
           (let d' = snd (RemoveOperator q i d) in
             i \<notin> operator_ids d' \<and>
             (\<forall>t h. live t d' h = (if live t d h = Some i then None else live t d h)) \<and>
             (\<forall>a \<in> set (audit_entries d'). aud_operator_id a \<noteq> Some i) \<and>
             map aud_operator_email (audit_entries d') = map aud_operator_email (audit_entries d)))"
proof -
  note out = RemoveOperator_outcome [OF assms(2,1), of i]
  show ?thesis
  proof (cases "Operator healthy i d")
    case (Inl err)
    with out show ?thesis by simp
  next
    case (Inr r)
    have r: "r \<in> set (operators d)" "op_id r = i"
      using Inr by (auto simp: Operator_def scanOperator_def query_row_def filter_eq_Cons_iff
          split: sum.splits list.splits)
    show ?thesis
    proof (cases "op_is_owner r")
      case True
      with out Inr show ?thesis by simp
    next
      case False
      with out Inr have ok: "fst (RemoveOperator q i d) = Inr ()" by simp
      let ?d = "snd (RemoveOperator q i d)"
      have f: "\<not> fails q 0" using assms(2) by simp
      have one: "s = r" if "s \<in> set (operators d)" "op_id s = i" for s
        using that r assms(1) inj_on_set_conv [of op_id "operators d" s r]
        by (simp add: wf_db_def operators_wf_def)
      have db: "?d = snd (sql_delete_operators (\<lambda>r. op_id r = i \<and> \<not> op_is_owner r) d)"
        using f by (simp add: RemoveOperator_db)
      have gone: "i \<notin> operator_ids ?d"
        using one False by (auto simp: db operator_ids_def sql_rows)
      have w: "wf_db ?d" by (rule wf_RemoveOperator [OF assms(1)])
      have "\<forall>a \<in> set (audit_entries ?d). aud_operator_id a \<noteq> Some i"
        using w gone by (fastforce simp: wf_db_def audit_wf_def operator_ids_def)
      moreover have "map aud_operator_email (audit_entries ?d) =
          map aud_operator_email (audit_entries d)"
        by (simp add: db sql_delete_operators_def Let_def)
      ultimately show ?thesis
        using Inr False ok gone live_RemoveOperator [OF assms(1) ok] by (simp add: Let_def)
    qed
  qed
qed

theorem removal_is_clean_witness:
  "fst (RemoveOperator healthy 1 (history demo_setup)) = Inl ErrOwnerProtected"
  using removal_is_clean [OF wf_history [of demo_setup], where q = healthy and i = 1]
  by (simp add: exec_demo_setup Operator_def scanOperator_def query_row_def)

end
