(* ===== verification/Base64.thy ===== *)
theory Base64
  imports Go_Strings
begin

text \<open>
  What the program uses of encoding/base64 and encoding/hex: the two unpadded encodings of base64
  (RawStdEncoding and RawURLEncoding differ in their alphabet) with Go's decoder, which skips
  carriage returns and newlines and ignores the trailing bits of a short group, and lower-case
  hex. Bytes are characters, as everywhere in the model.
\<close>

section \<open>Alphabets\<close>

definition std_alphabet :: string where
  "std_alphabet = ''ABCDEFGHIJKLMNOPQRSTUVWXYZabcdefghijklmnopqrstuvwxyz0123456789+/''"

definition url_alphabet :: string where
  "url_alphabet = ''ABCDEFGHIJKLMNOPQRSTUVWXYZabcdefghijklmnopqrstuvwxyz0123456789-_''"

fun index_in :: "string \<Rightarrow> char \<Rightarrow> nat option" where
  "index_in [] c = None"
| "index_in (a # al) c = (if a = c then Some 0 else map_option Suc (index_in al c))"

lemma index_in_nth: "distinct al \<Longrightarrow> i < length al \<Longrightarrow> index_in al (al ! i) = Some i"
proof (induction al arbitrary: i)
  case (Cons a al)
  then show ?case by (cases i) auto
qed simp

lemma index_in_Some: "index_in al c = Some i \<Longrightarrow> i < length al \<and> al ! i = c"
  by (induction al arbitrary: i) (auto split: if_splits)

section \<open>Groups\<close>

fun sextets :: "nat list \<Rightarrow> nat list" where
  "sextets [] = []"
| "sextets [a] = [a div 4, (a mod 4) * 16]"
| "sextets [a, b] = [a div 4, (a mod 4) * 16 + b div 16, (b mod 16) * 4]"
| "sextets (a # b # c # bs) =
     [a div 4, (a mod 4) * 16 + b div 16, (b mod 16) * 4 + c div 64, c mod 64] @ sextets bs"

fun octets :: "nat list \<Rightarrow> nat list option" where
  "octets [] = Some []"
| "octets [a] = None"
| "octets [a, b] = Some [a * 4 + b div 16]"
| "octets [a, b, c] = Some [a * 4 + b div 16, (b mod 16) * 16 + c div 4]"
| "octets (a # b # c # d # ss) =
     (case octets ss of None \<Rightarrow> None
      | Some bs \<Rightarrow> Some ([a * 4 + b div 16, (b mod 16) * 16 + c div 4, (c mod 4) * 64 + d] @ bs))"

lemma split_digit:
  "y < (k::nat) \<Longrightarrow> (x * k + y) div k = x" "y < (k::nat) \<Longrightarrow> (x * k + y) mod k = y"
  by simp_all

lemma octets_sextets: "\<forall>b \<in> set bs. b < 256 \<Longrightarrow> octets (sextets bs) = Some bs"
proof (induction bs rule: sextets.induct)
  case (2 a)
  then show ?case by simp
next
  case (3 a b)
  have "b div 16 < 16" using 3 by auto
  note sd = split_digit [OF this, of "a mod 4"] mod_less [OF this]
  have "a div 4 * 4 + a mod 4 = a" "b div 16 * 16 + b mod 16 * 4 div 4 = b" by simp_all
  then show ?case by (simp add: sd del: div_mult_self_is_m)
next
  case (4 a b c bs)
  have "b div 16 < 16" "c div 64 < 4" using 4(2) by auto
  note sd = split_digit [OF this(1), of "a mod 4"] split_digit [OF this(2), of "b mod 16"]
    mod_less [OF this(1)] mod_less [OF this(2)]
  have "a div 4 * 4 + a mod 4 = a" "b div 16 * 16 + b mod 16 = b" "c div 64 * 64 + c mod 64 = c"
    by simp_all
  then show ?case using 4 by (simp add: sd)
qed simp

lemma sextets_less: "\<forall>b \<in> set bs. b < 256 \<Longrightarrow> \<forall>x \<in> set (sextets bs). x < 64"
  by (induction bs rule: sextets.induct) auto

section \<open>Encoding and decoding\<close>

definition EncodeToString :: "string \<Rightarrow> string \<Rightarrow> string" where
  "EncodeToString al bs = map ((!) al) (sextets (map of_char bs))"

definition is_newline :: "char \<Rightarrow> bool" where
  "is_newline c \<longleftrightarrow> (of_char c :: nat) = 10 \<or> (of_char c :: nat) = 13"

definition DecodeString :: "string \<Rightarrow> string \<Rightarrow> string option" where
  "DecodeString al s =
     (let ds = map (index_in al) (filter (\<lambda>c. \<not> is_newline c) s)
      in if None \<in> set ds then None
         else map_option (map char_of) (octets (map the ds)))"

lemma alphabet_facts:
  "distinct std_alphabet" "length std_alphabet = 64" "distinct url_alphabet" "length url_alphabet = 64"
  "\<forall>c \<in> set std_alphabet. \<not> is_newline c \<and> c \<noteq> CHR ''$''"
  "\<forall>c \<in> set url_alphabet. \<not> is_newline c"
  by (simp_all add: std_alphabet_def url_alphabet_def is_newline_def)

lemma Decode_Encode:
  assumes "distinct al" "length al = 64" "\<forall>c \<in> set al. \<not> is_newline c"
  shows "DecodeString al (EncodeToString al bs) = Some bs"
proof -
  let ?ss = "sextets (map of_char bs) :: nat list"
  have less: "\<forall>x \<in> set ?ss. x < 64" by (rule sextets_less) auto
  then have "filter (\<lambda>c. \<not> is_newline c) (map ((!) al) ?ss) = map ((!) al) ?ss"
    using assms(2,3) by (intro filter_True_conv) auto
  moreover have "map (index_in al) (map ((!) al) ?ss) = map Some ?ss"
    using less assms(1,2) by (auto simp: index_in_nth)
  then have "map (index_in al) (map ((!) al) ?ss) = map Some ?ss"
    "map the (map (index_in al) (map ((!) al) ?ss)) = ?ss" "None \<notin> set (map (index_in al) (map ((!) al) ?ss))"
    by (simp_all only:) (simp_all add: comp_def image_iff)
  moreover have "octets ?ss = Some (map of_char bs)" by (rule octets_sextets) auto
  ultimately show ?thesis
    by (simp add: DecodeString_def EncodeToString_def Let_def del: map_map set_map)
      (simp add: comp_def)
qed

lemma set_EncodeToString:
  assumes "length al = 64"
  shows "set (EncodeToString al bs) \<subseteq> set al"
  using sextets_less [of "map of_char bs"] assms
  by (fastforce simp: EncodeToString_def in_set_conv_nth)

lemma EncodeToString_ne: "bs \<noteq> [] \<Longrightarrow> EncodeToString al bs \<noteq> []"
  by (cases "map of_char bs :: nat list" rule: sextets.cases) (auto simp: EncodeToString_def)

section \<open>Hex\<close>

definition hex_digits :: string where
  "hex_digits = ''0123456789abcdef''"

definition hex_EncodeToString :: "string \<Rightarrow> string" where
  "hex_EncodeToString bs =
     concat (map (\<lambda>c. let n = (of_char c :: nat) in [hex_digits ! (n div 16), hex_digits ! (n mod 16)]) bs)"

lemma length_hex [simp]: "length (hex_EncodeToString bs) = 2 * length bs"
  by (induction bs) (simp_all add: hex_EncodeToString_def Let_def)

lemma hex_digit_inj: "i < 16 \<Longrightarrow> j < 16 \<Longrightarrow> hex_digits ! i = hex_digits ! j \<Longrightarrow> i = j"
  using nth_eq_iff_index_eq [of hex_digits i j] by (simp add: hex_digits_def)

lemma hex_inj: "hex_EncodeToString as = hex_EncodeToString bs \<Longrightarrow> as = bs"
proof (induction as arbitrary: bs)
  case Nil
  then have "length (hex_EncodeToString bs) = 0" by (simp add: hex_EncodeToString_def)
  then show ?case by simp
next
  case (Cons a as)
  then obtain b bs' where bs: "bs = b # bs'"
    using arg_cong [OF Cons.prems, of length, unfolded length_hex] by (cases bs) auto
  have lt: "of_char c div 16 < (16::nat)" for c
    by (rule less_mult_imp_div_less) simp
  have "hex_digits ! (of_char a div 16) = hex_digits ! (of_char b div 16)"
    "hex_digits ! (of_char a mod 16) = hex_digits ! (of_char b mod 16)"
    and tl: "hex_EncodeToString as = hex_EncodeToString bs'"
    using Cons.prems bs by (simp_all add: hex_EncodeToString_def Let_def)
  then have "of_char a div 16 = (of_char b div 16 :: nat)" "of_char a mod 16 = (of_char b mod 16 :: nat)"
    using lt [of a] lt [of b] hex_digit_inj by auto
  then have "of_char a = (of_char b :: nat)" by (metis div_mult_mod_eq)
  then have "a = b" by simp
  with bs Cons.IH [OF tl] show ?case by simp
qed

end
