(* ===== verification/Secret.thy ===== *)
theory Secret
  imports Base64 "HOL-Library.Word"
begin

text \<open>
  internal/secret: password hashes in the PHC string format, and the tokens of setup and of
  sessions. argon2.IDKey and sha256.Sum256 are not in the repository: they are arguments, and what
  the code relies on of them (the length of their output) is a hypothesis where it is needed. What
  crypto/rand draws is an argument too, None when it fails.
\<close>

section \<open>Constants\<close>

definition hashTime :: "32 word" where "hashTime = 3"
definition hashMemory :: "32 word" where "hashMemory = 65536"
definition hashThreads :: "8 word" where "hashThreads = 4"
definition hashKeyLen :: "32 word" where "hashKeyLen = 32"
definition hashSaltLen :: nat where "hashSaltLen = 16"
definition maxKeyLen :: nat where "maxKeyLen = 64"
definition maxMemory :: "32 word" where "maxMemory = 4 * hashMemory"
definition maxTime :: "32 word" where "maxTime = 4 * hashTime"
definition phcAlgorithm :: string where "phcAlgorithm = ''argon2id''"
definition phcVersion :: int where "phcVersion = 19"

lemmas cost_defs = hashTime_def hashMemory_def hashThreads_def hashKeyLen_def maxKeyLen_def
  maxMemory_def maxTime_def phcVersion_def

record cost =
  memory :: "32 word"
  time :: "32 word"
  threads :: "8 word"
  keyLen :: "32 word"

text \<open>password, salt, time, memory, threads and key length, as argon2.IDKey takes them.\<close>

type_synonym idkey = "string \<Rightarrow> string \<Rightarrow> 32 word \<Rightarrow> 32 word \<Rightarrow> 8 word \<Rightarrow> 32 word \<Rightarrow> string"

definition idkey_length :: "idkey \<Rightarrow> bool" where
  "idkey_length idkey \<longleftrightarrow> (\<forall>p s t m th n. length (idkey p s t m th n) = unat n)"

section \<open>fmt.Sprintf and fmt.Sscanf on the two formats\<close>

definition show_word :: "'a::len word \<Rightarrow> string" where
  "show_word w = show_nat (unat w)"

definition version_field :: "int \<Rightarrow> string" where
  "version_field v = ''v='' @ Itoa v"

definition cost_field :: "32 word \<Rightarrow> 32 word \<Rightarrow> 8 word \<Rightarrow> string" where
  "cost_field m t p = ''m='' @ show_word m @ '',t='' @ show_word t @ '',p='' @ show_word p"

text \<open>
  The verb %d on an unsigned target of the given width: blanks (a line break is not one, it ends the
  scan with an error), then digits that fit it.
\<close>

definition is_blank :: "char \<Rightarrow> bool" where
  "is_blank c \<longleftrightarrow> is_space c \<and> (of_char c :: nat) \<noteq> 10"

definition scan_uint :: "nat \<Rightarrow> string \<Rightarrow> (nat \<times> string) option" where
  "scan_uint width s =
     (let s = dropWhile is_blank s; ds = takeWhile is_digit s
      in if ds = [] \<or> read_nat ds \<ge> 2 ^ width then None
         else Some (read_nat ds, dropWhile is_digit s))"

text \<open>The verb %d on an int: blanks, a sign, then digits that fit an int64.\<close>

definition scan_int :: "string \<Rightarrow> (int \<times> string) option" where
  "scan_int s =
     (let s = dropWhile is_blank s;
          neg = HasPrefix s ''-'';
          u = (if neg \<or> HasPrefix s ''+'' then tl s else s);
          ds = takeWhile is_digit u;
          v = (if neg then - int (read_nat ds) else int (read_nat ds))
      in if ds = [] \<or> v < - (2 ^ 63) \<or> v \<ge> 2 ^ 63 then None else Some (v, dropWhile is_digit u))"

definition scan_literal :: "string \<Rightarrow> string \<Rightarrow> string option" where
  "scan_literal l s = (if HasPrefix s l then Some (drop (length l) s) else None)"

definition scan_version :: "string \<Rightarrow> int option" where
  "scan_version s = Option.bind (scan_literal ''v='' s) (\<lambda>s. map_option fst (scan_int s))"

definition scan_cost :: "string \<Rightarrow> (32 word \<times> 32 word \<times> 8 word) option" where
  "scan_cost s =
     Option.bind (scan_literal ''m='' s) (\<lambda>s.
     Option.bind (scan_uint 32 s) (\<lambda>(m, s).
     Option.bind (scan_literal '',t='' s) (\<lambda>s.
     Option.bind (scan_uint 32 s) (\<lambda>(t, s).
     Option.bind (scan_literal '',p='' s) (\<lambda>s.
     Option.bind (scan_uint 8 s) (\<lambda>(p, s).
       Some (of_nat m, of_nat t, of_nat p)))))))"

section \<open>Password hashes\<close>

datatype phc_error =
    NotPHC
  | WrongAlgorithm string
  | VersionUnreadable
  | VersionReads string
  | WrongVersion int
  | CostUnreadable
  | CostReads string
  | CostZero
  | CostTooHigh "32 word" "32 word"
  | SaltUnreadable
  | HashUnreadable
  | NoSaltOrHash
  | HashTooLong nat

definition parsePHC :: "string \<Rightarrow> phc_error + cost \<times> string \<times> string" where
  "parsePHC encoded =
     (let fields = Split (CHR ''$'') encoded in
      if length fields \<noteq> 6 \<or> fields ! 0 \<noteq> [] then Inl NotPHC
      else if fields ! 1 \<noteq> phcAlgorithm then Inl (WrongAlgorithm (fields ! 1))
      else case scan_version (fields ! 2) of None \<Rightarrow> Inl VersionUnreadable
      | Some version \<Rightarrow>
        if version_field version \<noteq> fields ! 2 then Inl (VersionReads (fields ! 2))
        else if version \<noteq> phcVersion then Inl (WrongVersion version)
        else case scan_cost (fields ! 3) of None \<Rightarrow> Inl CostUnreadable
        | Some (m, t, p) \<Rightarrow>
          if cost_field m t p \<noteq> fields ! 3 then Inl (CostReads (fields ! 3))
          else if m = 0 \<or> t = 0 \<or> p = 0 then Inl CostZero
          else if m > maxMemory \<or> t > maxTime then Inl (CostTooHigh m t)
          else case DecodeString std_alphabet (fields ! 4) of None \<Rightarrow> Inl SaltUnreadable
          | Some salt \<Rightarrow>
            (case DecodeString std_alphabet (fields ! 5) of None \<Rightarrow> Inl HashUnreadable
             | Some key \<Rightarrow>
               if length salt = 0 \<or> length key = 0 then Inl NoSaltOrHash
               else if length key > maxKeyLen then Inl (HashTooLong (length key))
               else Inr (\<lparr>memory = m, time = t, threads = p, keyLen = of_nat (length key)\<rparr>,
                         salt, key)))"

definition HashPassword :: "idkey \<Rightarrow> string option \<Rightarrow> string \<Rightarrow> string option" where
  "HashPassword idkey rand password =
     (case rand of None \<Rightarrow> None
      | Some salt \<Rightarrow>
        let key = idkey password salt hashTime hashMemory hashThreads hashKeyLen
        in Some (''$'' @ phcAlgorithm @ ''$'' @ version_field phcVersion @ ''$'' @
             cost_field hashMemory hashTime hashThreads @ ''$'' @
             EncodeToString std_alphabet salt @ ''$'' @ EncodeToString std_alphabet key))"

definition VerifyPassword :: "idkey \<Rightarrow> string \<Rightarrow> string \<Rightarrow> phc_error + bool" where
  "VerifyPassword idkey encoded password =
     (case parsePHC encoded of Inl err \<Rightarrow> Inl err
      | Inr (settings, salt, want) \<Rightarrow>
        let got = idkey password salt (time settings) (memory settings) (threads settings)
                    (keyLen settings)
        in Inr (got = want))"

section \<open>Tokens\<close>

definition tokenBytes :: nat where "tokenBytes = 32"

definition HashToken :: "(string \<Rightarrow> string) \<Rightarrow> string \<Rightarrow> string" where
  "HashToken sha256 token = hex_EncodeToString (sha256 token)"

definition NewToken :: "(string \<Rightarrow> string) \<Rightarrow> string option \<Rightarrow> (string \<times> string) option" where
  "NewToken sha256 rand =
     (case rand of None \<Rightarrow> None
      | Some raw \<Rightarrow> let token = EncodeToString url_alphabet raw in Some (token, HashToken sha256 token))"

section \<open>Reading back what was written\<close>

lemma takeWhile_digits: "\<forall>c \<in> set ds. is_digit c \<Longrightarrow> rest = [] \<or> \<not> is_digit (hd rest) \<Longrightarrow>
    takeWhile is_digit (ds @ rest) = ds \<and> dropWhile is_digit (ds @ rest) = rest"
  by (induction ds) (auto, (cases rest; simp)+)

lemma digit_not_blank: "is_digit c \<Longrightarrow> \<not> is_blank c"
  by (auto simp: is_digit_def is_blank_def is_space_def Let_def)

lemma scan_uint_show:
  assumes "n < 2 ^ w" "rest = [] \<or> \<not> is_digit (hd rest)"
  shows "scan_uint w (show_nat n @ rest) = Some (n, rest)"
proof -
  obtain c cs where c: "show_nat n = c # cs" by (cases "show_nat n") auto
  then have "is_digit c" using show_nat_digits [of n] by simp
  then have "dropWhile is_blank (show_nat n @ rest) = show_nat n @ rest"
    by (simp add: c digit_not_blank)
  moreover note takeWhile_digits [OF show_nat_digits assms(2), of n]
  ultimately show ?thesis using assms(1) by (simp add: scan_uint_def)
qed

lemma scan_uint_show_word:
  fixes w :: "'a::len word"
  assumes "rest = [] \<or> \<not> is_digit (hd rest)"
  shows "scan_uint LENGTH('a) (show_word w @ rest) = Some (unat w, rest)"
  unfolding show_word_def by (rule scan_uint_show) (use assms unsigned_less [of w] in auto)

lemma scan_cost_field: "scan_cost (cost_field m t p) = Some (m, t, p)"
proof -
  have "scan_uint 32 (show_word m @ '',t='' @ show_word t @ '',p='' @ show_word p) =
      Some (unat m, '',t='' @ show_word t @ '',p='' @ show_word p)"
    using scan_uint_show_word [of "'',t='' @ show_word t @ '',p='' @ show_word p" m]
    by (simp add: is_digit_def)
  moreover have "scan_uint 32 (show_word t @ '',p='' @ show_word p) =
      Some (unat t, '',p='' @ show_word p)"
    using scan_uint_show_word [of "'',p='' @ show_word p" t] by (simp add: is_digit_def)
  moreover have "scan_uint 8 (show_word p) = Some (unat p, [])"
    using scan_uint_show_word [of "[]" p] by simp
  ultimately show ?thesis
    by (simp add: scan_cost_def cost_field_def scan_literal_def HasPrefix_def)
qed

lemma scan_version_19: "scan_version (version_field phcVersion) = Some phcVersion"
  by (simp add: scan_version_def version_field_def phcVersion_def Itoa_def show_nat.simps
      scan_literal_def scan_int_def is_blank_def is_space_def go_simps digit_char_def read_nat_def)

section \<open>Passwords\<close>

lemma show_nat_no_dollar [simp]: "CHR ''$'' \<notin> set (show_nat n)"
  using show_nat_digits [of n] by (auto simp: is_digit_def)

lemma b64_no_dollar [simp]: "CHR ''$'' \<notin> set (EncodeToString std_alphabet bs)"
  using set_EncodeToString [of std_alphabet bs] alphabet_facts by auto

lemma split_phc:
  assumes "CHR ''$'' \<notin> set s" "CHR ''$'' \<notin> set k"
  shows "Split (CHR ''$'') (''$'' @ phcAlgorithm @ ''$'' @ version_field phcVersion @ ''$'' @
           cost_field m t p @ ''$'' @ s @ ''$'' @ k) =
         [[], phcAlgorithm, version_field phcVersion, cost_field m t p, s, k]"
proof -
  have alg: "CHR ''$'' \<notin> set phcAlgorithm" by (simp add: phcAlgorithm_def)
  have ver: "CHR ''$'' \<notin> set (version_field phcVersion)"
    by (simp add: version_field_def phcVersion_def Itoa_def)
  have cst: "CHR ''$'' \<notin> set (cost_field m t p)" by (simp add: cost_field_def show_word_def)
  show ?thesis
    using Split_append_sep [of "CHR ''$''" "[]"] Split_append_sep [OF alg] Split_append_sep [OF ver]
      Split_append_sep [OF cst] Split_append_sep [OF assms(1)] Split_no_sep [OF assms(2)]
    by simp
qed

text \<open>A hash written at an acceptable cost is read back as what it was written from.\<close>

lemma parsePHC_written:
  assumes "m \<noteq> 0" "t \<noteq> 0" "p \<noteq> 0" "m \<le> maxMemory" "t \<le> maxTime"
    and "salt \<noteq> []" "key \<noteq> []" "length key \<le> maxKeyLen"
  shows "parsePHC (''$'' @ phcAlgorithm @ ''$'' @ version_field phcVersion @ ''$'' @
           cost_field m t p @ ''$'' @ EncodeToString std_alphabet salt @ ''$'' @
           EncodeToString std_alphabet key) =
         Inr (\<lparr>memory = m, time = t, threads = p, keyLen = of_nat (length key)\<rparr>, salt, key)"
  unfolding parsePHC_def split_phc [OF b64_no_dollar b64_no_dollar] Let_def
  using assms by (simp add: scan_version_19 scan_cost_field not_less Decode_Encode alphabet_facts)

text \<open>A hash at the least cost, spelled out.\<close>

lemma parse_small_hash:
  "parsePHC ''$argon2id$v=19$m=1,t=1,p=1$YQ$YQ'' =
     Inr (\<lparr>memory = 1, time = 1, threads = 1, keyLen = 1\<rparr>, ''a'', ''a'')"
proof -
  have "''$argon2id$v=19$m=1,t=1,p=1$YQ$YQ'' = ''$'' @ phcAlgorithm @ ''$'' @ version_field phcVersion @ ''$'' @
      cost_field 1 1 1 @ ''$'' @ EncodeToString std_alphabet ''a'' @ ''$'' @ EncodeToString std_alphabet ''a''"
    by (simp add: phcAlgorithm_def version_field_def phcVersion_def Itoa_def show_nat.simps digit_char_def
        cost_field_def show_word_def EncodeToString_def std_alphabet_def go_simps)
  then show ?thesis
    using parsePHC_written [of 1 1 1 "''a''" "''a''"] by (simp add: cost_defs)
qed

lemma HashPassword_reads_back:
  assumes "idkey_length idkey" "salt \<noteq> []"
  obtains h where "HashPassword idkey (Some salt) password = Some h"
    "parsePHC h = Inr (\<lparr>memory = hashMemory, time = hashTime, threads = hashThreads, keyLen = hashKeyLen\<rparr>,
       salt, idkey password salt hashTime hashMemory hashThreads hashKeyLen)"
proof -
  let ?key = "idkey password salt hashTime hashMemory hashThreads hashKeyLen"
  have len: "length ?key = 32"
    using assms(1) by (simp add: idkey_length_def hashKeyLen_def)
  then have "?key \<noteq> []" by auto
  then have "parsePHC (''$'' @ phcAlgorithm @ ''$'' @ version_field phcVersion @ ''$'' @
      cost_field hashMemory hashTime hashThreads @ ''$'' @ EncodeToString std_alphabet salt @ ''$'' @
      EncodeToString std_alphabet ?key) =
    Inr (\<lparr>memory = hashMemory, time = hashTime, threads = hashThreads, keyLen = of_nat (length ?key)\<rparr>, salt, ?key)"
    using assms(2) len by (intro parsePHC_written) (simp_all add: cost_defs)
  moreover have "of_nat (length ?key) = hashKeyLen" unfolding len by (simp add: hashKeyLen_def)
  ultimately show thesis
    using that unfolding HashPassword_def Let_def by simp
qed

text \<open>
  C4: A password hash verifies exactly the passwords from which the same key is derived at the cost
  and the salt it was written with: in particular its own password always verifies, and it verifies
  no other unless argon2 collides. (argon2 returns as many bytes as it is asked for.)
\<close>

theorem hash_then_verify:
  assumes "idkey_length idkey" "salt \<noteq> []"
    "HashPassword idkey (Some salt) password = Some encoded"
  shows "VerifyPassword idkey encoded password = Inr True \<and>
    (\<forall>other. VerifyPassword idkey encoded other =
       Inr (idkey other salt hashTime hashMemory hashThreads hashKeyLen =
            idkey password salt hashTime hashMemory hashThreads hashKeyLen))"
proof -
  obtain h where "HashPassword idkey (Some salt) password = Some h"
    "parsePHC h = Inr (\<lparr>memory = hashMemory, time = hashTime, threads = hashThreads, keyLen = hashKeyLen\<rparr>,
       salt, idkey password salt hashTime hashMemory hashThreads hashKeyLen)"
    using HashPassword_reads_back [OF assms(1,2)] by blast
  with assms(3) show ?thesis by (simp add: VerifyPassword_def)
qed

definition toy_idkey :: idkey where
  "toy_idkey p s t m th n = take (unat n) (p @ s @ replicate (unat n) (CHR ''0''))"

lemma toy_idkey_length: "idkey_length toy_idkey"
  by (auto simp: idkey_length_def toy_idkey_def)

theorem hash_then_verify_witness:
  "VerifyPassword toy_idkey (the (HashPassword toy_idkey (Some ''salt'') ''pass'')) ''pass'' = Inr True \<and>
   VerifyPassword toy_idkey (the (HashPassword toy_idkey (Some ''salt'') ''pass'')) ''other'' = Inr False"
proof -
  obtain h where h: "HashPassword toy_idkey (Some ''salt'') ''pass'' = Some h"
    by (simp add: HashPassword_def)
  have "toy_idkey ''other'' ''salt'' hashTime hashMemory hashThreads hashKeyLen \<noteq>
      toy_idkey ''pass'' ''salt'' hashTime hashMemory hashThreads hashKeyLen"
    by (simp add: toy_idkey_def hashKeyLen_def take_Cons')
  with hash_then_verify [OF toy_idkey_length _ h] h show ?thesis by simp
qed

text \<open>
  What is accepted as a stored hash is written exactly the one way this package writes it: six
  fields, the algorithm and version of this package, a cost that reads back as the digits in the
  string, above zero and within the limits, and a salt and a key that are not empty, the key at most
  64 bytes. So the work and the memory a verification asks for are bounded by constants of the code,
  whatever the column holds.
\<close>

theorem parsePHC_accepts_canonical:
  assumes "parsePHC encoded = Inr (c, salt, key)"
  shows "\<exists>s k. encoded = ''$argon2id$v=19$'' @ cost_field (memory c) (time c) (threads c) @ ''$'' @ s @ ''$'' @ k \<and>
      DecodeString std_alphabet s = Some salt \<and> DecodeString std_alphabet k = Some key \<and>
      0 < memory c \<and> memory c \<le> 262144 \<and> 0 < time c \<and> time c \<le> 12 \<and> 0 < threads c \<and>
      salt \<noteq> [] \<and> 0 < length key \<and> length key \<le> 64 \<and> unat (keyLen c) = length key"
proof -
  define fields where "fields = Split (CHR ''$'') encoded"
  have "length fields = 6" "fields ! 0 = []" and alg: "fields ! 1 = phcAlgorithm"
    using assms by (auto simp: parsePHC_def fields_def [symmetric] Let_def split: if_splits)
  then obtain ver cst s k where f: "fields = [[], phcAlgorithm, ver, cst, s, k]"
    by (auto simp: numeral_eq_Suc length_Suc_conv)
  have ver: "ver = version_field phcVersion"
    and cst: "cst = cost_field (memory c) (time c) (threads c)"
    and rest: "DecodeString std_alphabet s = Some salt" "DecodeString std_alphabet k = Some key"
      "memory c \<noteq> 0" "time c \<noteq> 0" "threads c \<noteq> 0" "memory c \<le> maxMemory" "time c \<le> maxTime"
      "salt \<noteq> []" "key \<noteq> []" "length key \<le> maxKeyLen" "keyLen c = of_nat (length key)"
    using assms
    by (auto simp: parsePHC_def fields_def [symmetric] Let_def f split: if_splits option.splits)
  have "encoded = ''$'' @ phcAlgorithm @ ''$'' @ ver @ ''$'' @ cst @ ''$'' @ s @ ''$'' @ k"
    using Join_Split [of "CHR ''$''" encoded] by (simp add: fields_def [symmetric] f)
  moreover have "phcAlgorithm @ ''$'' @ version_field phcVersion = ''argon2id$v=19''"
    by (simp add: phcAlgorithm_def version_field_def phcVersion_def Itoa_def show_nat.simps digit_char_def go_simps)
  ultimately have "encoded = ''$argon2id$v=19$'' @
      cost_field (memory c) (time c) (threads c) @ ''$'' @ s @ ''$'' @ k"
    by (simp add: ver cst)
  moreover have "unat (keyLen c) = length key"
    using rest by (simp add: unat_of_nat take_bit_nat_def maxKeyLen_def)
  ultimately show ?thesis
    using rest by (auto simp: cost_defs word_neq_0_conv)
qed

theorem parsePHC_accepts_canonical_witness:
  "\<exists>s k. ''$argon2id$v=19$m=1,t=1,p=1$YQ$YQ'' =
      ''$argon2id$v=19$'' @ cost_field 1 1 1 @ ''$'' @ s @ ''$'' @ k \<and>
      DecodeString std_alphabet s = Some ''a'' \<and> DecodeString std_alphabet k = Some ''a''"
  using parsePHC_accepts_canonical [OF parse_small_hash] by auto

text \<open>
  A stored hash that is malformed is an error for every password, and never a match: a password
  matches only a hash that parses, whose key is not empty and is what argon2 derives from the
  password; in particular an empty column matches no password.
\<close>

theorem malformed_hash_never_matches:
  "(\<forall>err. parsePHC encoded = Inl err \<longrightarrow> VerifyPassword idkey encoded password = Inl err) \<and>
   (VerifyPassword idkey encoded password = Inr True \<longrightarrow>
     (\<exists>c salt key. parsePHC encoded = Inr (c, salt, key) \<and> key \<noteq> [] \<and>
        idkey password salt (time c) (memory c) (threads c) (keyLen c) = key)) \<and>
   VerifyPassword idkey [] password = Inl NotPHC"
proof -
  have "key \<noteq> []" if "parsePHC encoded = Inr (c, salt, key)" for c salt key
    using that by (auto simp: parsePHC_def Let_def split: if_splits option.splits)
  then show ?thesis
    by (auto simp: VerifyPassword_def parsePHC_def [of "[]"] split: sum.splits)
qed

theorem malformed_hash_never_matches_witness:
  "VerifyPassword toy_idkey ''plain'' ''plain'' = Inl NotPHC"
proof -
  have "parsePHC ''plain'' = Inl NotPHC" by (simp add: parsePHC_def go_simps)
  then show ?thesis using malformed_hash_never_matches [of "''plain''" toy_idkey "''plain''"] by blast
qed

section \<open>Properties of tokens\<close>

text \<open>
  A token is the whole of the random bytes drawn for it, in the URL alphabet only, and what is
  kept of it is the hex of its hash, which two tokens share only when sha256 gives them the same sum.
\<close>

theorem token_carries_its_bytes:
  "(case NewToken sha256 (Some raw) of None \<Rightarrow> False
    | Some (token, hash) \<Rightarrow> DecodeString url_alphabet token = Some raw \<and>
        set token \<subseteq> set url_alphabet \<and> hash = HashToken sha256 token) \<and>
   (HashToken sha256 a = HashToken sha256 b \<longleftrightarrow> sha256 a = sha256 b)"
proof -
  have "HashToken sha256 a = HashToken sha256 b \<longleftrightarrow> sha256 a = sha256 b"
    unfolding HashToken_def by (metis hex_inj)
  then show ?thesis
    using Decode_Encode [OF alphabet_facts(3,4,6), of raw] set_EncodeToString [OF alphabet_facts(4), of raw]
    by (simp add: NewToken_def Let_def)
qed

end
