(* ===== verification/RateLimit.thy ===== *)
theory RateLimit
  imports Prelude Complex_Main
begin

text \<open>
  internal/server/ratelimit.go: the token bucket of the two unauthenticated mutations. Its counter
  is a float64, so the model computes in IEEE 754 binary64: \<open>f64\<close> rounds a rational to the nearest
  double, ties to even. The values of the bucket lie between a billionth and 2 ^ 63, far inside the
  range of normal doubles, so overflow and subnormals are left out of \<open>f64\<close>.
\<close>

section \<open>binary64\<close>

fun bits :: "nat \<Rightarrow> nat" where
  "bits n = (if n = 0 then 0 else Suc (bits (n div 2)))"

declare bits.simps [simp del]

definition ilog2 :: "rat \<Rightarrow> int" where
  "ilog2 x = (case quotient_of x of (a, b) \<Rightarrow>
     let e = int (bits (nat a)) - int (bits (nat b)) in if 2 powi e \<le> x then e else e - 1)"

definition round_half_even :: "rat \<Rightarrow> int" where
  "round_half_even y = (let n = \<lfloor>y\<rfloor>; r = y - of_int n
     in if r < 1/2 \<or> r = 1/2 \<and> even n then n else n + 1)"

definition f64_pos :: "rat \<Rightarrow> rat" where
  "f64_pos x = (let unit = 2 powi (ilog2 x - 52) in of_int (round_half_even (x / unit)) * unit)"

definition f64 :: "rat \<Rightarrow> rat" where
  "f64 x = (if x = 0 then 0 else if x < 0 then - f64_pos (- x) else f64_pos x)"

section \<open>The bucket\<close>

record tokenBucket =
  tb_tokens :: rat
  tb_burst :: rat
  tb_refill :: nanos
  tb_last :: nanos

definition newTokenBucket :: "int \<Rightarrow> nanos \<Rightarrow> nanos \<Rightarrow> tokenBucket" where
  "newTokenBucket burst refill clk =
     \<lparr>tb_tokens = f64 (of_int burst), tb_burst = f64 (of_int burst), tb_refill = refill, tb_last = clk\<rparr>"

text \<open>time.Time.Sub saturates at the ends of a Duration.\<close>

definition time_Sub :: "nanos \<Rightarrow> nanos \<Rightarrow> nanos" where
  "time_Sub t t' = max (- (2 ^ 63)) (min (2 ^ 63 - 1) (t - t'))"

text \<open>A float64 becomes a Duration by dropping its fraction.\<close>

definition to_Duration :: "rat \<Rightarrow> int" where
  "to_Duration x = (if x < 0 then \<lceil>x\<rceil> else \<lfloor>x\<rfloor>)"

definition refilled :: "nanos \<Rightarrow> tokenBucket \<Rightarrow> tokenBucket" where
  "refilled clk b =
     (let elapsed = time_Sub clk (tb_last b) in
      if elapsed > 0 then
        b\<lparr>tb_tokens := min (tb_burst b)
             (f64 (tb_tokens b + f64 (f64 (of_int elapsed) / f64 (of_int (tb_refill b))))),
          tb_last := clk\<rparr>
      else b)"

definition take_token :: "nanos \<Rightarrow> tokenBucket \<Rightarrow> (bool \<times> nanos) \<times> tokenBucket" where
  "take_token clk b =
     (let b = refilled clk b in
      if tb_tokens b \<ge> 1 then ((True, 0), b\<lparr>tb_tokens := f64 (tb_tokens b - 1)\<rparr>)
      else ((False, to_Duration (f64 (f64 (1 - tb_tokens b) * f64 (of_int (tb_refill b))))), b))"

definition Seconds :: "nanos \<Rightarrow> rat" where
  "Seconds d = f64 (f64 (of_int (d div 1000000000)) + f64 (f64 (of_int (d mod 1000000000)) / 1000000000))"

definition retryAfterSeconds :: "nanos \<Rightarrow> int" where
  "retryAfterSeconds wait = (let seconds = \<lceil>Seconds wait\<rceil> in if seconds < 1 then 1 else seconds)"

section \<open>Rounding errs by at most half a unit in the last place\<close>

lemma bits_less: "n < 2 ^ bits n"
proof (induction n rule: bits.induct)
  case (1 n)
  show ?case by (subst bits.simps) (use 1 in auto)
qed

lemma bits_le: "n \<noteq> 0 \<Longrightarrow> 2 ^ bits n \<le> 2 * n"
proof (induction n rule: bits.induct)
  case (1 n)
  have "2 ^ bits (n div 2) \<le> n"
    by (cases "n div 2 = 0") (use 1 in \<open>auto simp: bits.simps [of 0]\<close>)
  then show ?case using 1(2) by (subst bits.simps) simp
qed

lemma ilog2_bounds:
  assumes "x > 0"
  shows "2 powi (ilog2 x) \<le> x" "x < 2 powi (ilog2 x + 1)"
proof -
  obtain a b where q: "quotient_of x = (a, b)" by (cases "quotient_of x")
  have x: "x = of_int a / of_int b" and b: "b > 0"
    using quotient_of_div [OF q] quotient_of_denom_pos [OF q] by auto
  then have a: "a > 0" using assms by (simp add: zero_less_divide_iff)
  define la where "la = bits (nat a)"
  define lb where "lb = bits (nat b)"
  define e where "e = int la - int lb"
  have "(of_nat (nat a) :: rat) < of_nat (2 ^ la)" "(of_nat (2 ^ la) :: rat) \<le> of_nat (2 * nat a)"
    "(of_nat (nat b) :: rat) < of_nat (2 ^ lb)" "(of_nat (2 ^ lb) :: rat) \<le> of_nat (2 * nat b)"
    using bits_less [of "nat a"] bits_le [of "nat a"] bits_less [of "nat b"] bits_le [of "nat b"] a b
    unfolding la_def lb_def of_nat_less_iff of_nat_le_iff by auto
  then have A: "of_int a < (2 ^ la :: rat)" "(2 ^ la :: rat) \<le> 2 * of_int a"
    and B: "of_int b < (2 ^ lb :: rat)" "(2 ^ lb :: rat) \<le> 2 * of_int b"
    using a b by simp_all
  have pe: "(2 :: rat) powi e = 2 ^ la / 2 ^ lb" by (simp add: e_def power_int_diff)
  have pos: "(of_int a :: rat) > 0" "(of_int b :: rat) > 0" "(2 :: rat) ^ la > 0" "(2 :: rat) ^ lb > 0"
    using a b by simp_all
  have up: "x < 2 powi (e + 1)"
  proof -
    have "of_int a * 2 ^ lb \<le> of_int a * (2 * (of_int b :: rat))"
      using B pos by (intro mult_left_mono) auto
    also have "\<dots> < 2 ^ la * (2 * of_int b)" using A pos by (intro mult_strict_right_mono) auto
    finally show ?thesis using pos by (simp add: x power_int_add pe divide_simps mult_ac)
  qed
  have lo: "2 powi (e - 1) \<le> x"
  proof -
    have "2 ^ la * of_int b \<le> 2 * of_int a * (of_int b :: rat)" using A pos by (intro mult_right_mono) auto
    also have "\<dots> \<le> 2 * of_int a * 2 ^ lb" using B pos by (intro mult_left_mono) auto
    finally show ?thesis using pos by (simp add: x power_int_diff pe divide_simps mult_ac)
  qed
  show "2 powi (ilog2 x) \<le> x" "x < 2 powi (ilog2 x + 1)"
    using up lo by (simp_all add: ilog2_def q Let_def la_def [symmetric] lb_def [symmetric] e_def [symmetric])
qed

lemma round_half_even_error: "\<bar>of_int (round_half_even y) - y\<bar> \<le> 1 / 2"
proof -
  have "of_int \<lfloor>y\<rfloor> \<le> y" "y < of_int \<lfloor>y\<rfloor> + 1" by linarith+
  moreover define r where "r = y - of_int \<lfloor>y\<rfloor>"
  ultimately have "0 \<le> r" "r < 1" by simp_all
  then have "\<bar>- r\<bar> \<le> 1 / 2" if "r \<le> 1 / 2" using that by simp
  moreover have "\<bar>1 - r\<bar> \<le> 1 / 2" if "r \<ge> 1 / 2" using that \<open>r < 1\<close> by simp
  moreover have "of_int (round_half_even y) - y =
      (if r < 1/2 \<or> r = 1/2 \<and> even \<lfloor>y\<rfloor> then - r else 1 - r)"
    by (auto simp: round_half_even_def Let_def r_def)
  ultimately show ?thesis by (cases "r < 1/2"; cases "r = 1/2") auto
qed

lemma round_half_even_nonneg: "y \<ge> 0 \<Longrightarrow> round_half_even y \<ge> 0"
  by (auto simp: round_half_even_def Let_def)

definition ulp :: rat where "ulp = 1 / 2 ^ 53"

lemma ulp_bounds: "0 < ulp" "ulp \<le> 1 / 1000000"
  by (simp_all add: ulp_def)

lemma f64_error:
  assumes "x \<ge> 0"
  shows "\<bar>f64 x - x\<bar> \<le> ulp * x"
proof (cases "x = 0")
  case False
  with assms have x: "x > 0" by simp
  define unit :: rat where "unit = 2 powi (ilog2 x - 52)"
  have u: "unit > 0" by (simp add: unit_def)
  have "\<bar>of_int (round_half_even (x / unit)) * unit - x\<bar> =
      \<bar>of_int (round_half_even (x / unit)) - x / unit\<bar> * unit"
    using u abs_mult [of "of_int (round_half_even (x / unit)) - x / unit" unit]
    by (simp add: left_diff_distrib)
  also have "\<dots> \<le> 1 / 2 * unit" using round_half_even_error u by (intro mult_right_mono) auto
  also have "\<dots> \<le> ulp * x"
  proof -
    have "unit = 2 powi (ilog2 x) / 2 ^ 52" by (simp add: unit_def power_int_diff)
    then show ?thesis using ilog2_bounds(1) [OF x] by (simp add: ulp_def)
  qed
  finally show ?thesis using x by (simp add: f64_def f64_pos_def Let_def unit_def)
qed (simp add: f64_def)

lemma f64_nonneg [simp]: "x \<ge> 0 \<Longrightarrow> f64 x \<ge> 0"
  by (auto simp: f64_def f64_pos_def Let_def intro!: mult_nonneg_nonneg round_half_even_nonneg)

lemma f64_le: "x \<ge> 0 \<Longrightarrow> f64 x \<le> x + ulp * x"
  using f64_error [of x] by (simp add: abs_le_iff)

lemma f64_0 [simp]: "f64 0 = 0" by (simp add: f64_def)

section \<open>The bucket never overflows and never goes below zero\<close>

text \<open>The refill interval of a bucket in use is a whole number of nanoseconds that a double holds.\<close>

definition bucket_ok :: "tokenBucket \<Rightarrow> bool" where
  "bucket_ok b \<longleftrightarrow> 0 \<le> tb_tokens b \<and> tb_tokens b \<le> tb_burst b \<and> tb_burst b \<le> 1000 \<and> 0 < tb_refill b \<and>
     f64 (of_int (tb_refill b)) = of_int (tb_refill b)"

fun take_tokens :: "nanos list \<Rightarrow> tokenBucket \<Rightarrow> bool list \<times> tokenBucket" where
  "take_tokens [] b = ([], b)"
| "take_tokens (clk # clks) b =
     (let ((allowed, wait), b) = take_token clk b; (rest, b) = take_tokens clks b in (allowed # rest, b))"

lemma f64_1 [simp]: "f64 1 = 1"
proof -
  have "ilog2 1 = 0" by (simp add: ilog2_def Let_def bits.simps)
  then show ?thesis by (simp add: f64_def f64_pos_def Let_def round_half_even_def power_int_minus field_simps)
qed

lemma refilled_frame [simp]:
  "tb_burst (refilled clk b) = tb_burst b" "tb_refill (refilled clk b) = tb_refill b"
  by (simp_all add: refilled_def Let_def)

lemma refilled_ok: "bucket_ok b \<Longrightarrow> bucket_ok (refilled clk b)"
  by (auto simp: bucket_ok_def refilled_def Let_def)

lemma refilled_last: "tb_last b \<le> tb_last (refilled clk b)"
  by (auto simp: refilled_def Let_def time_Sub_def)

lemma refilled_gain:
  assumes "bucket_ok b"
  shows "tb_tokens (refilled clk b) \<le> tb_tokens b +
      of_int (tb_last (refilled clk b) - tb_last b) / of_int (tb_refill b) * (1 + ulp)\<^sup>2 + ulp * tb_burst b"
proof (cases "time_Sub clk (tb_last b) > 0")
  case True
  define e :: rat where "e = of_int (time_Sub clk (tb_last b))"
  define d :: rat where "d = of_int (clk - tb_last b)"
  define r :: rat where "r = of_int (tb_refill b)"
  define a where "a = f64 (f64 e / r)"
  have ok: "0 \<le> tb_tokens b" "tb_tokens b \<le> tb_burst b" "r > 0" and fr: "f64 r = r"
    using assms by (simp_all add: bucket_ok_def r_def)
  have e: "0 \<le> e" "e \<le> d" using True by (auto simp: e_def d_def time_Sub_def simp del: of_int_diff)
  have u: "0 < ulp" by (rule ulp_bounds)
  have "f64 e \<le> d * (1 + ulp)"
    using f64_le [OF e(1)] mult_right_mono [OF e(2), of "1 + ulp"] u by (simp add: algebra_simps)
  then have fe: "0 \<le> f64 e / r" "f64 e / r \<le> d / r * (1 + ulp)"
    using ok(3) e(1) by (simp_all add: divide_right_mono)
  have "a \<le> f64 e / r + ulp * (f64 e / r)" using f64_le [OF fe(1)] unfolding a_def .
  also have "\<dots> = f64 e / r * (1 + ulp)" by (simp add: distrib_left)
  also have "\<dots> \<le> d / r * (1 + ulp) * (1 + ulp)" using fe(2) u by (intro mult_right_mono) auto
  finally have a: "0 \<le> a" "a \<le> d / r * (1 + ulp)\<^sup>2"
    using fe(1) by (simp_all add: a_def power2_eq_square mult.assoc)
  have "min (tb_burst b) (f64 (tb_tokens b + a)) \<le> tb_tokens b + a + ulp * tb_burst b"
  proof (cases "tb_tokens b + a \<le> tb_burst b")
    case True
    then have "ulp * (tb_tokens b + a) \<le> ulp * tb_burst b" using u by simp
    with f64_le [of "tb_tokens b + a"] ok(1) a(1) show ?thesis by simp
  next
    case False
    moreover have "0 \<le> ulp * tb_burst b" using ok u by simp
    ultimately show ?thesis by simp
  qed
  with a True show ?thesis
    by (simp add: refilled_def e_def [symmetric] r_def [symmetric] d_def [symmetric] fr a_def [symmetric]
        del: of_int_diff)
next
  case False
  then show ?thesis using assms ulp_bounds by (simp add: refilled_def bucket_ok_def)
qed

lemma spend_bounds:
  assumes "1 \<le> x"
  shows "0 \<le> f64 (x - 1)" "f64 (x - 1) \<le> x - 1 + ulp * x"
  using assms f64_le [of "x - 1"] ulp_bounds by (auto simp: algebra_simps)

lemma take_token_frame:
  assumes "take_token clk b = ((allowed, wait), b')"
  shows "tb_burst b' = tb_burst b" "tb_refill b' = tb_refill b" "tb_last b' = tb_last (refilled clk b)"
  using assms by (auto simp: take_token_def Let_def split: if_splits)

lemma take_token_ok:
  assumes "bucket_ok b" "take_token clk b = ((allowed, wait), b')"
  shows "bucket_ok b'"
proof -
  have r: "bucket_ok (refilled clk b)" using refilled_ok [OF assms(1)] .
  then have "ulp * tb_tokens (refilled clk b) \<le> 1 / 1000000 * 1000"
    using ulp_bounds by (intro mult_mono) (auto simp: bucket_ok_def)
  with r assms(2) spend_bounds [of "tb_tokens (refilled clk b)"] show ?thesis
    by (auto simp: take_token_def Let_def bucket_ok_def split: if_splits)
qed

lemma take_token_gain:
  assumes "bucket_ok b" "take_token clk b = ((allowed, wait), b')"
  shows "of_bool allowed + tb_tokens b' \<le> tb_tokens b +
      of_int (tb_last b' - tb_last b) / of_int (tb_refill b) * (1 + ulp)\<^sup>2 + 2 * ulp * tb_burst b"
proof -
  let ?r = "refilled clk b"
  have ok: "bucket_ok ?r" using refilled_ok [OF assms(1)] .
  then have "ulp * tb_tokens ?r \<le> ulp * tb_burst b" "0 \<le> ulp * tb_burst b"
    using ulp_bounds by (simp_all add: bucket_ok_def)
  with spend_bounds [of "tb_tokens ?r"] assms(2)
  have "of_bool allowed + tb_tokens b' \<le> tb_tokens ?r + ulp * tb_burst b"
    by (auto simp: take_token_def Let_def split: if_splits)
  with refilled_gain [OF assms(1), of clk] take_token_frame(3) [OF assms(2)] show ?thesis
    by simp
qed

lemma take_tokens_gain:
  assumes "bucket_ok b" "take_tokens clks b = (answers, b')"
  shows "bucket_ok b' \<and> tb_last b \<le> tb_last b' \<and>
    of_nat (length (filter id answers)) \<le> tb_tokens b +
      of_int (tb_last b' - tb_last b) / of_int (tb_refill b) * (1 + ulp)\<^sup>2 +
      of_nat (length clks) * (2 * ulp * tb_burst b)"
  using assms
proof (induction clks arbitrary: b answers)
  case (Cons clk clks)
  obtain allowed wait b1 where t: "take_token clk b = ((allowed, wait), b1)" by (metis prod.exhaust)
  obtain rest b2 where r: "take_tokens clks b1 = (rest, b2)" by (metis prod.exhaust)
  have ans: "answers = allowed # rest" "b' = b2" using Cons.prems(2) t r by (simp_all)
  note f = take_token_frame [OF t] and ok = take_token_ok [OF Cons.prems(1) t]
  note IH = Cons.IH [OF ok r [folded ans(2)]]
  define g where "g = (1 + ulp)\<^sup>2"
  define r :: rat where "r = of_int (tb_refill b)"
  define k where "k = 2 * ulp * tb_burst b"
  have mono: "tb_last b \<le> tb_last b1" using f(3) refilled_last [of b clk] by simp
  have split: "of_int (tb_last b2 - tb_last b) / r * g =
      of_int (tb_last b1 - tb_last b) / r * g + of_int (tb_last b2 - tb_last b1) / r * g"
    by (simp add: distrib_right [symmetric] add_divide_distrib [symmetric])
  have "of_bool allowed + tb_tokens b1 \<le> tb_tokens b + of_int (tb_last b1 - tb_last b) / r * g + k"
    using take_token_gain [OF Cons.prems(1) t] unfolding g_def r_def k_def .
  moreover have "of_nat (length (filter id rest)) \<le> tb_tokens b1 +
      of_int (tb_last b2 - tb_last b1) / r * g + of_nat (length clks) * k"
    using IH unfolding g_def r_def k_def f(1,2) ans(2) by blast
  moreover have "of_nat (length (filter id answers)) =
      of_bool allowed + (of_nat (length (filter id rest)) :: rat)"
    by (simp add: ans(1))
  moreover have "of_nat (length (clk # clks)) * k = k + of_nat (length clks) * k"
    by (simp add: distrib_right)
  ultimately have "of_nat (length (filter id answers)) \<le> tb_tokens b +
      of_int (tb_last b2 - tb_last b) / r * g + of_nat (length (clk # clks)) * k"
    unfolding split by linarith
  moreover have "bucket_ok b'" "tb_last b \<le> tb_last b'" using IH mono ans(2) by auto
  ultimately show ?case unfolding g_def r_def k_def ans(2) [symmetric] by blast
qed (simp add: bucket_ok_def)

lemma refilled_twice: "refilled clk (refilled clk b) = refilled clk b"
  by (auto simp: refilled_def Let_def time_Sub_def)

lemma take_tokens_refilled: "take_tokens (clk # clks) (refilled clk b) = take_tokens (clk # clks) b"
  by (simp add: take_token_def refilled_twice)

lemma refilled_last_le: "clk \<le> m \<Longrightarrow> tb_last b \<le> m \<Longrightarrow> tb_last (refilled clk b) \<le> m"
  by (auto simp: refilled_def Let_def)

lemma refilled_last_ge: "clk \<le> tb_last (refilled clk b)"
  by (auto simp: refilled_def Let_def time_Sub_def)

lemma take_tokens_last_le:
  assumes "take_tokens clks b = (answers, b')" "\<forall>c \<in> set clks. c \<le> m" "tb_last b \<le> m"
  shows "tb_last b' \<le> m"
  using assms
proof (induction clks arbitrary: b answers)
  case (Cons clk clks)
  obtain allowed wait b1 where t: "take_token clk b = ((allowed, wait), b1)" by (metis prod.exhaust)
  then have "tb_last b1 \<le> m" using Cons.prems take_token_frame(3) [OF t] refilled_last_le by simp
  then show ?case using Cons t by (auto split: prod.splits)
qed simp

lemma take_tokens_frame:
  "take_tokens clks b = (answers, b') \<Longrightarrow> tb_burst b' = tb_burst b \<and> tb_refill b' = tb_refill b"
proof (induction clks arbitrary: b answers)
  case (Cons clk clks)
  obtain allowed wait b1 where t: "take_token clk b = ((allowed, wait), b1)" by (metis prod.exhaust)
  show ?case using Cons t take_token_frame [OF t] by (auto split: prod.splits)
qed simp

text \<open>
  In any stretch of time, whatever happened before it, no more attempts pass than the burst and
  what the stretch refills, but for the rounding of the counter.
\<close>

lemma window_bound:
  assumes b: "bucket_ok b" and t: "take_tokens clks b = (answers, b')"
    and win: "\<forall>c \<in> set clks. w \<le> c \<and> c \<le> w + T" and T: "0 \<le> T"
  shows "of_nat (length (filter id answers)) \<le> tb_burst b +
      of_int T / of_int (tb_refill b) * (1 + ulp)\<^sup>2 + of_nat (length clks) * (2 * ulp * tb_burst b)"
proof (cases clks)
  case Nil
  then show ?thesis using t b T by (auto simp: bucket_ok_def)
next
  case (Cons c cs)
  define b0 where "b0 = refilled c b"
  have ok: "bucket_ok b0" using refilled_ok [OF b] by (simp add: b0_def)
  have t0: "take_tokens clks b0 = (answers, b')" using t by (simp add: b0_def Cons take_tokens_refilled del: take_tokens.simps)
  note gain = take_tokens_gain [OF ok t0]
  have wc: "w \<le> c" using win by (simp add: Cons)
  have "tb_last b' \<le> max (tb_last b0) (w + T)"
    using take_tokens_last_le [OF t0, of "max (tb_last b0) (w + T)"] win by fastforce
  moreover have "w \<le> tb_last b0" using wc refilled_last_ge [of c b] by (simp add: b0_def)
  ultimately have "tb_last b' - tb_last b0 \<le> T" using T by linarith
  moreover have r: "(0::rat) < of_int (tb_refill b)" using b by (simp add: bucket_ok_def)
  ultimately have "of_int (tb_last b' - tb_last b0) / of_int (tb_refill b) * (1 + ulp)\<^sup>2
      \<le> of_int T / of_int (tb_refill b) * (1 + ulp)\<^sup>2"
    by (intro mult_right_mono divide_right_mono) (simp_all only: of_int_le_iff, simp_all)
  moreover have "tb_tokens b0 \<le> tb_burst b" using ok by (simp add: bucket_ok_def b0_def)
  ultimately show ?thesis using gain by (simp add: b0_def del: of_int_diff)
qed

text \<open>A refusal names a wait of at most one refill interval, up to the rounding of the product.\<close>

lemma refusal_wait:
  assumes "bucket_ok b" "take_token clk b = ((False, wait), b')"
  shows "0 \<le> wait" "of_int wait \<le> of_int (tb_refill b) * (1 + ulp)\<^sup>2"
proof -
  define x where "x = tb_tokens (refilled clk b)"
  define r :: rat where "r = of_int (tb_refill b)"
  have x: "0 \<le> x" "x < 1" and r: "0 < r" "f64 r = r" and w: "wait = to_Duration (f64 (f64 (1 - x) * r))"
    using assms refilled_ok [OF assms(1), of clk]
    by (auto simp: take_token_def Let_def x_def r_def bucket_ok_def split: if_splits)
  have n: "0 \<le> f64 (1 - x) * r" using x r by simp
  show "0 \<le> wait" using f64_nonneg [OF n] by (simp add: w to_Duration_def not_less)
  have u: "0 < ulp" by (rule ulp_bounds)
  have "f64 (1 - x) \<le> 1 + ulp"
  proof -
    have "f64 (1 - x) \<le> (1 - x) * (1 + ulp)" using f64_le [of "1 - x"] x by (simp add: distrib_left mult.commute)
    also have "\<dots> \<le> 1 * (1 + ulp)" using x u by (intro mult_right_mono) auto
    finally show ?thesis by simp
  qed
  then have "f64 (1 - x) * r \<le> (1 + ulp) * r" using r by (intro mult_right_mono) auto
  from mult_right_mono [OF this, of "1 + ulp"] u
  have "f64 (1 - x) * r * (1 + ulp) \<le> (1 + ulp) * r * (1 + ulp)" by simp
  with f64_le [OF n] have le: "f64 (f64 (1 - x) * r) \<le> r * (1 + ulp)\<^sup>2"
    by (simp add: algebra_simps power2_eq_square)
  have "of_int wait \<le> f64 (f64 (1 - x) * r)"
    using f64_nonneg [OF n] by (simp add: w to_Duration_def not_less)
  with le show "of_int wait \<le> of_int (tb_refill b) * (1 + ulp)\<^sup>2" by (simp add: r_def)
qed

lemma retryAfterSeconds_pos: "1 \<le> retryAfterSeconds wait"
  by (simp add: retryAfterSeconds_def Let_def)

end
