(* ===== verification/Server_Http.thy ===== *)
theory Server_Http
  imports Store Secret RateLimit
begin

text \<open>
  What the handlers of internal/server share: requests, responses and their JSON, the mode, the
  configuration, the state of a running server and what the outside decides during one request.

  net/http and encoding/json are not in the repository. A request is what the handlers read of it,
  a response is its status, headers, cookies and body, and what the JSON decoder makes of the bytes
  it may read is a function of the library record \<open>lib\<close>, with argon2 and sha256.
\<close>

section \<open>Requests and responses\<close>

record request =
  rq_method :: string
  rq_path :: string            \<comment> \<open>r.URL.Path\<close>
  rq_csrf :: string            \<comment> \<open>the header csrfHeader, empty when absent\<close>
  rq_cookie :: "string option" \<comment> \<open>the cookie sessionCookieName\<close>
  rq_body :: string

datatype json = JStr string | JBool bool | JObj "(string \<times> json) list"

record cookie =
  ck_name :: string
  ck_value :: string
  ck_path :: string
  ck_MaxAge :: int
  ck_HttpOnly :: bool
  ck_Secure :: bool
  ck_SameSite :: string

datatype content =
    Json json
  | Served string              \<comment> \<open>the path handed to the file server of the embedded frontend\<close>
  | NoContent

record response =
  rs_status :: int
  rs_headers :: "(string \<times> string) list"
  rs_cookies :: "cookie list"
  rs_content :: content

definition writeJSON :: "int \<Rightarrow> json \<Rightarrow> response" where
  "writeJSON status body =
     \<lparr>rs_status = status, rs_headers = [(''Content-Type'', ''application/json; charset=utf-8'')],
      rs_cookies = [], rs_content = Json body\<rparr>"

definition add_header :: "string \<times> string \<Rightarrow> response \<Rightarrow> response" where
  "add_header h r = r\<lparr>rs_headers := h # rs_headers r\<rparr>"

definition errorBody :: "string \<Rightarrow> json" where
  "errorBody message = JObj [(''error'', JStr message)]"

definition operatorBody :: "operator \<Rightarrow> json" where
  "operatorBody r = JObj [(''email'', JStr (op_email r)), (''name'', JStr (op_name r)),
     (''isOwner'', JBool (op_is_owner r))]"

section \<open>Configuration\<close>

type_synonym Mode = string

definition ModePublished :: Mode where "ModePublished = ''published''"
definition ModeIP :: Mode where "ModeIP = ''ip''"

definition Restricted :: "Mode \<Rightarrow> bool" where
  "Restricted m \<longleftrightarrow> m = ModeIP"

record Config =
  cfg_Dokku :: bool            \<comment> \<open>whether there is a client\<close>
  cfg_Mode :: Mode
  cfg_PlainHTTP :: bool
  cfg_Store :: bool            \<comment> \<open>whether there is a store\<close>
  cfg_Version :: string

section \<open>The outside\<close>

record lib =
  lib_idkey :: idkey
  lib_sha256 :: "string \<Rightarrow> string"
  lib_signin :: "string \<Rightarrow> (string \<times> string) option"
  lib_setup :: "string \<Rightarrow> (string \<times> string \<times> string \<times> string) option"

text \<open>
  During one request: the limiter's reading of the clock, the environment of the calls to the store
  (by what the call is for), the reading that sets a session's expiry and the one its cookie's age
  is counted from, what crypto/rand draws, and how Dokku answers.
\<close>

datatype store_call = Authenticate | ReadOwner | ReadOperator | Write | Trail

record world =
  w_limiter :: nanos
  w_store :: "store_call \<Rightarrow> sqlite"
  w_clock :: "store_call \<Rightarrow> nanos"
  w_commit :: nanos            \<comment> \<open>the second reading of RedeemSetupToken\<close>
  w_now :: nanos
  w_until :: nanos
  w_token :: "string option"
  w_salt :: "string option"
  w_filler :: "string option"
  w_filler_salt :: "string option"
  w_dokku :: "unit + string"

section \<open>The state of a server\<close>

text \<open>
  The database, the two limiters, the value of dummyPasswordHash once it is computed, the calls of
  the field verifyPassword and the lines of the request log.
\<close>

record server =
  sv_db :: db
  sv_setupLimiter :: tokenBucket
  sv_signinLimiter :: tokenBucket
  sv_dummy :: "string option"
  sv_verified :: "(string \<times> string) list"
  sv_log :: "(string \<times> string \<times> int) list"

definition on_db :: "(db \<Rightarrow> 'r \<times> db) \<Rightarrow> server \<Rightarrow> 'r \<times> server" where
  "on_db f s = (case f (sv_db s) of (r, d) \<Rightarrow> (r, s\<lparr>sv_db := d\<rparr>))"

definition verifyPassword :: "lib \<Rightarrow> string \<Rightarrow> string \<Rightarrow> server \<Rightarrow> (phc_error + bool) \<times> server" where
  "verifyPassword lib encoded password s =
     (VerifyPassword (lib_idkey lib) encoded password,
      s\<lparr>sv_verified := sv_verified s @ [(encoded, password)]\<rparr>)"

text \<open>sync.OnceValue: the function runs at the first call, its value is kept for every later one.\<close>

definition dummy_hash :: "lib \<Rightarrow> world \<Rightarrow> string" where
  "dummy_hash lib w =
     (case NewToken (lib_sha256 lib) (w_filler w) of None \<Rightarrow> []
      | Some (filler, _) \<Rightarrow>
        (case HashPassword (lib_idkey lib) (w_filler_salt w) filler of None \<Rightarrow> [] | Some hash \<Rightarrow> hash))"

definition dummyPasswordHash :: "lib \<Rightarrow> world \<Rightarrow> server \<Rightarrow> string \<times> server" where
  "dummyPasswordHash lib w s =
     (case sv_dummy s of Some hash \<Rightarrow> (hash, s)
      | None \<Rightarrow> let hash = dummy_hash lib w in (hash, s\<lparr>sv_dummy := Some hash\<rparr>))"

type_synonym handler = "request \<Rightarrow> operator option \<Rightarrow> server \<Rightarrow> response \<times> server"

text \<open>New: the state a server starts in, over the database it is given.\<close>

definition setupBurst :: int where "setupBurst = 5"
definition setupRefill :: nanos where "setupRefill = 60000000000 div setupBurst"
definition signinBurst :: int where "signinBurst = 10"
definition signinRefill :: nanos where "signinRefill = 60000000000 div signinBurst"

definition New :: "nanos \<Rightarrow> nanos \<Rightarrow> db \<Rightarrow> server" where
  "New clk clk' d =
     \<lparr>sv_db = d, sv_setupLimiter = newTokenBucket setupBurst setupRefill clk,
      sv_signinLimiter = newTokenBucket signinBurst signinRefill clk',
      sv_dummy = None, sv_verified = [], sv_log = []\<rparr>"

definition New_cfg :: "Config \<Rightarrow> Config" where
  "New_cfg cfg = (if cfg_Mode cfg = [] then cfg\<lparr>cfg_Mode := ModeIP\<rparr> else cfg)"

section \<open>Facts\<close>

lemma writeJSON_simps [simp]:
  "rs_status (writeJSON c b) = c" "rs_cookies (writeJSON c b) = []" "rs_content (writeJSON c b) = Json b"
  by (simp_all add: writeJSON_def)

lemma add_header_simps [simp]:
  "rs_status (add_header h r) = rs_status r" "rs_cookies (add_header h r) = rs_cookies r"
  "rs_content (add_header h r) = rs_content r"
  by (simp_all add: add_header_def)

lemma dummy_frame [simp]:
  "sv_db (snd (dummyPasswordHash lib w s)) = sv_db s"
  "sv_verified (snd (dummyPasswordHash lib w s)) = sv_verified s"
  "sv_setupLimiter (snd (dummyPasswordHash lib w s)) = sv_setupLimiter s"
  "sv_signinLimiter (snd (dummyPasswordHash lib w s)) = sv_signinLimiter s"
  "sv_log (snd (dummyPasswordHash lib w s)) = sv_log s"
  by (simp_all add: dummyPasswordHash_def Let_def split: option.splits)

lemma limiter_exact:
  "f64 5 = 5" "f64 10 = 10" "f64 12000000000 = 12000000000" "f64 6000000000 = 6000000000"
  by (simp_all add: f64_def f64_pos_def Let_def ilog2_def bits.simps round_half_even_def
      power_int_minus field_simps)

lemma New_ok: "bucket_ok (sv_setupLimiter (New clk clk' d)) \<and> bucket_ok (sv_signinLimiter (New clk clk' d))"
  by (simp add: New_def newTokenBucket_def bucket_ok_def setupBurst_def setupRefill_def
      signinBurst_def signinRefill_def limiter_exact)

end
