(* ===== verification/Server_Session.thy ===== *)
theory Server_Session
  imports Server_Http
begin

text \<open>
  internal/server/session.go: signing in and signing out. Every path of the two handlers is here,
  the entries they leave in the trail included; log lines of the server's own failures are not.
\<close>

section \<open>Constants\<close>

definition auditSessionStarted :: string where "auditSessionStarted = ''session.started''"
definition auditSessionEnded :: string where "auditSessionEnded = ''session.ended''"
definition auditSessionRejected :: string where "auditSessionRejected = ''session.rejected''"
definition sessionCookieName :: string where "sessionCookieName = ''dokkup_session''"
definition sessionLifetime :: nanos where "sessionLifetime = 7 * 24 * 3600 * 1000000000"
definition signinBodyLimit :: nat where "signinBodyLimit = 4096"
definition maxPasswordBytes :: nat where "maxPasswordBytes = 1024"
definition maxEmailBytes :: nat where "maxEmailBytes = 320"
definition signinRefusal :: string where
  "signinRefusal = ''that email address and password do not match''"
definition notSignedIn :: string where "notSignedIn = ''you are not signed in''"

definition audited :: "int \<Rightarrow> string \<Rightarrow> string \<Rightarrow> Audited" where
  "audited i action target =
     \<lparr>req_operator_id = i, req_action = action, req_target = target, req_config_key = []\<rparr>"

section \<open>Cookies\<close>

text \<open>int(d.Seconds()): whole seconds, the fraction dropped.\<close>

definition whole_seconds :: "nanos \<Rightarrow> int" where
  "whole_seconds d = to_Duration (Seconds d)"

definition sessionCookie :: "Config \<Rightarrow> string \<Rightarrow> nanos \<Rightarrow> cookie" where
  "sessionCookie cfg token left =
     \<lparr>ck_name = sessionCookieName, ck_value = token, ck_path = ''/'', ck_MaxAge = whole_seconds left,
      ck_HttpOnly = True, ck_Secure = (\<not> cfg_PlainHTTP cfg), ck_SameSite = ''Strict''\<rparr>"

definition clearedSessionCookie :: "Config \<Rightarrow> cookie" where
  "clearedSessionCookie cfg = (sessionCookie cfg [] 0)\<lparr>ck_MaxAge := -1\<rparr>"

section \<open>Signing in\<close>

definition recordRejectedSignIn :: "world \<Rightarrow> Audited \<Rightarrow> server \<Rightarrow> server" where
  "recordRejectedSignIn w entry s =
     (if req_operator_id entry \<noteq> 0
      then snd (on_db (Record (w_store w Trail) (w_clock w Trail) entry) s)
      else snd (on_db (RecordUnauthenticated (w_store w Trail) (w_clock w Trail) entry) s))"

definition rejectSignIn :: "world \<Rightarrow> Audited \<Rightarrow> server \<Rightarrow> response \<times> server" where
  "rejectSignIn w entry s =
     (let s = recordRejectedSignIn w entry s in (writeJSON 401 (errorBody signinRefusal), s))"

definition startSession :: "Config \<Rightarrow> lib \<Rightarrow> world \<Rightarrow> operator \<Rightarrow> server \<Rightarrow> response \<times> server" where
  "startSession cfg lib w opr s =
     (case NewToken (lib_sha256 lib) (w_token w) of
        None \<Rightarrow> (writeJSON 500 (errorBody ''this dokkup could not start a session''), s)
      | Some (token, hash) \<Rightarrow>
        let expires = w_now w + sessionLifetime in
        case on_db (StartSession (w_store w Write) (w_clock w Write) (op_id opr) hash expires) s of
          (Inl err, s) \<Rightarrow> (writeJSON 500 (errorBody ''this dokkup could not start a session''), s)
        | (Inr _, s) \<Rightarrow>
          let cookie = sessionCookie cfg token (time_Sub expires (w_until w));
              s = snd (on_db (Record (w_store w Trail) (w_clock w Trail)
                    (audited (op_id opr) auditSessionStarted (op_email opr))) s);
              r = writeJSON 200 (JObj [(''operator'', operatorBody opr)])
          in (r\<lparr>rs_cookies := [cookie]\<rparr>, s))"

text \<open>
  The handler in three parts, cut where the operator is looked up and where their password is
  verified.
\<close>

definition verifiedSignIn ::
    "Config \<Rightarrow> lib \<Rightarrow> world \<Rightarrow> Audited \<Rightarrow> string \<Rightarrow> operator \<Rightarrow> server \<Rightarrow> response \<times> server" where
  "verifiedSignIn cfg lib w rejected password opr s =
     (case verifyPassword lib (op_password_hash opr) password s of
        (Inl err, s) \<Rightarrow> rejectSignIn w rejected s
      | (Inr matches, s) \<Rightarrow>
        if \<not> matches then rejectSignIn w rejected s
        else if Restricted (cfg_Mode cfg) \<and> \<not> op_is_owner opr then
          rejectSignIn w (rejected\<lparr>req_operator_id := op_id opr\<rparr>) s
        else startSession cfg lib w opr s)"

definition lookupSignIn ::
    "Config \<Rightarrow> lib \<Rightarrow> world \<Rightarrow> string \<Rightarrow> string \<Rightarrow> server \<Rightarrow> response \<times> server" where
  "lookupSignIn cfg lib w email password s =
     (let rejected = audited 0 auditSessionRejected email in
      case OperatorByEmail (w_store w ReadOperator) email (sv_db s) of
        Inl ErrNotFound \<Rightarrow>
          let (dummy, s) = dummyPasswordHash lib w s;
              s = snd (verifyPassword lib dummy password s)
          in rejectSignIn w rejected s
      | Inl err \<Rightarrow> (writeJSON 500 (errorBody ''this dokkup could not read its own database''), s)
      | Inr opr \<Rightarrow> verifiedSignIn cfg lib w rejected password opr s)"

definition handleSignIn :: "Config \<Rightarrow> lib \<Rightarrow> world \<Rightarrow> handler" where
  "handleSignIn cfg lib w rq ctx s =
     (let ((allowed, wait), limiter) = take_token (w_limiter w) (sv_signinLimiter s);
          s = s\<lparr>sv_signinLimiter := limiter\<rparr> in
      if \<not> allowed then
        (add_header (''Retry-After'', Itoa (retryAfterSeconds wait))
           (writeJSON 429 (errorBody ''too many attempts'')), s)
      else if \<not> cfg_Store cfg then
        (writeJSON 503 (errorBody ''this dokkup has no database''), s)
      else case lib_signin lib (take signinBodyLimit (rq_body rq)) of
        None \<Rightarrow>
          let s = recordRejectedSignIn w (audited 0 auditSessionRejected []) s in
          (writeJSON 400 (errorBody ''that request body is not valid json''), s)
      | Some (body_email, password) \<Rightarrow>
        let email = ToLower (TrimSpace body_email);
            rejected = audited 0 auditSessionRejected email in
        if email = [] \<or> length email > maxEmailBytes \<or> length password > maxPasswordBytes then
          rejectSignIn w (if length email > maxEmailBytes then rejected\<lparr>req_target := []\<rparr> else rejected) s
        else lookupSignIn cfg lib w email password s)"

section \<open>Signing out\<close>

text \<open>The operator of the request's context is the argument; ErrNotFound is not a failure.\<close>

definition endSession :: "Config \<Rightarrow> world \<Rightarrow> operator \<Rightarrow> server \<Rightarrow> response \<times> server" where
  "endSession cfg w opr s =
     (let s = snd (on_db (Record (w_store w Trail) (w_clock w Trail)
            (audited (op_id opr) auditSessionEnded (op_email opr))) s)
      in (\<lparr>rs_status = 204, rs_headers = [], rs_cookies = [clearedSessionCookie cfg],
           rs_content = NoContent\<rparr>, s))"

definition handleSignOut :: "Config \<Rightarrow> lib \<Rightarrow> world \<Rightarrow> handler" where
  "handleSignOut cfg lib w rq ctx s =
     (case ctx of
        None \<Rightarrow> (writeJSON 401 (errorBody notSignedIn), s)
      | Some opr \<Rightarrow>
        (case rq_cookie rq of
           None \<Rightarrow> endSession cfg w opr s
         | Some token \<Rightarrow>
           (case on_db (RevokeSession (w_store w Write) (HashToken (lib_sha256 lib) token)) s of
              (Inl ErrNotFound, s) \<Rightarrow> endSession cfg w opr s
            | (Inl err, s) \<Rightarrow> (writeJSON 500 (errorBody ''this dokkup could not end that session''), s)
            | (Inr _, s) \<Rightarrow> endSession cfg w opr s)))"

end
