(* ===== verification/Server_Setup.thy ===== *)
theory Server_Setup
  imports Server_Session
begin

text \<open>
  internal/server/setup.go: redeeming the Setup Token, the one unauthenticated request that makes
  an operator.
\<close>

section \<open>The handler\<close>

definition auditSetupRedeemed :: string where "auditSetupRedeemed = ''setup-token.redeemed''"
definition auditSetupRejected :: string where "auditSetupRejected = ''setup-token.rejected''"
definition setupBodyLimit :: nat where "setupBodyLimit = 8192"
definition minPasswordBytes :: nat where "minPasswordBytes = 12"
definition setupTokenRefusal :: string where "setupTokenRefusal = ''that setup token is not valid''"
definition setupOwnerRefusal :: string where
  "setupOwnerRefusal = ''this installation already has an owner''"

record setupRequest =
  su_Token :: string
  su_Email :: string
  su_Name :: string
  su_Password :: string

text \<open>The message of the refusal and the address it is recorded against.\<close>

type_synonym invalidSetup = "string \<times> string"

definition validateSetup :: "setupRequest \<Rightarrow> string \<times> invalidSetup option" where
  "validateSetup body =
     (let email = ToLower (TrimSpace (su_Email body)) in
      if email = [] then (email, Some (''an email address is required'', []))
      else if length email > maxEmailBytes then (email, Some (''that email address is too long'', []))
      else if length (su_Password body) < minPasswordBytes then
        (email, Some (''a password must be at least '' @ Itoa (int minPasswordBytes) @ '' characters'', email))
      else if length (su_Password body) > maxPasswordBytes then
        (email, Some (''that password is too long'', email))
      else (email, None))"

definition rejectSetup :: "world \<Rightarrow> int \<Rightarrow> string \<Rightarrow> string \<Rightarrow> server \<Rightarrow> response \<times> server" where
  "rejectSetup w status message email s =
     (let s = snd (on_db (RecordUnauthenticated (w_store w Trail) (w_clock w Trail)
            (audited 0 auditSetupRejected email)) s)
      in (writeJSON status (errorBody message), s))"

definition setup_request :: "string \<times> string \<times> string \<times> string \<Rightarrow> setupRequest" where
  "setup_request b = (case b of (t, e, n, p) \<Rightarrow>
     \<lparr>su_Token = t, su_Email = e, su_Name = n, su_Password = p\<rparr>)"

definition redeemSetup ::
    "lib \<Rightarrow> world \<Rightarrow> setupRequest \<Rightarrow> string \<Rightarrow> string \<Rightarrow> server \<Rightarrow> response \<times> server" where
  "redeemSetup lib w body email passwordHash s =
     (case on_db (RedeemSetupToken (w_store w Write) (w_clock w Write) (w_commit w)
              (HashToken (lib_sha256 lib) (su_Token body)) email (su_Name body) passwordHash) s of
        (Inl ErrNotFound, s) \<Rightarrow> rejectSetup w 403 setupTokenRefusal email s
      | (Inl ErrOwnerExists, s) \<Rightarrow> rejectSetup w 409 setupOwnerRefusal email s
      | (Inl ErrExists, s) \<Rightarrow> rejectSetup w 409 setupOwnerRefusal email s
      | (Inl err, s) \<Rightarrow> (writeJSON 500 (errorBody ''this dokkup could not create the owner''), s)
      | (Inr owner, s) \<Rightarrow>
        let s = snd (on_db (Record (w_store w Trail) (w_clock w Trail)
              (audited (op_id owner) auditSetupRedeemed (op_email owner))) s)
        in (writeJSON 201 (JObj [(''operator'', operatorBody owner)]), s))"

definition validSetup :: "lib \<Rightarrow> world \<Rightarrow> setupRequest \<Rightarrow> string \<Rightarrow> server \<Rightarrow> response \<times> server" where
  "validSetup lib w body email s =
     (case HasOwner (w_store w ReadOwner) (sv_db s) of
        Inl err \<Rightarrow> (writeJSON 500 (errorBody ''this dokkup could not read its own database''), s)
      | Inr owned \<Rightarrow>
        if owned then rejectSetup w 409 setupOwnerRefusal email s
        else case HashPassword (lib_idkey lib) (w_salt w) (su_Password body) of
          None \<Rightarrow> (writeJSON 500 (errorBody ''this dokkup could not hash that password''), s)
        | Some passwordHash \<Rightarrow> redeemSetup lib w body email passwordHash s)"

text \<open>The handler, cut where the request has been validated and where the token is spent.\<close>

definition handleSetup :: "Config \<Rightarrow> lib \<Rightarrow> world \<Rightarrow> handler" where
  "handleSetup cfg lib w rq ctx s =
     (let ((allowed, wait), limiter) = take_token (w_limiter w) (sv_setupLimiter s);
          s = s\<lparr>sv_setupLimiter := limiter\<rparr> in
      if \<not> allowed then
        (add_header (''Retry-After'', Itoa (retryAfterSeconds wait))
           (writeJSON 429 (errorBody ''too many attempts'')), s)
      else if \<not> cfg_Store cfg then
        (writeJSON 503 (errorBody ''this dokkup has no database''), s)
      else case map_option setup_request (lib_setup lib (take setupBodyLimit (rq_body rq))) of
        None \<Rightarrow> rejectSetup w 400 ''that request body is not valid json'' [] s
      | Some body \<Rightarrow>
        (case validateSetup body of
           (email, Some (message, target)) \<Rightarrow> rejectSetup w 400 message target s
         | (email, None) \<Rightarrow> validSetup lib w body email s))"

text \<open>The handler of the bare path of a route that is a POST.\<close>

definition methodNotAllowed :: "string \<Rightarrow> handler" where
  "methodNotAllowed message rq ctx s =
     (add_header (''Allow'', ''POST'') (writeJSON 405 (errorBody message)), s)"

end
