(* ===== verification/Server.thy ===== *)
theory Server
  imports Server_Setup
begin

text \<open>
  internal/server/server.go, middleware.go and static.go: the two handlers that only report, the
  middleware, the table of routes and the chain they form. A server is a machine on its requests;
  the properties of the sign-in and of the setup are stated on the whole chain, so they hold of what
  a socket can reach and not only of a handler called by itself.
\<close>

section \<open>Reporting\<close>

definition handleHealth :: "Config \<Rightarrow> world \<Rightarrow> handler" where
  "handleHealth cfg w rq ctx s =
     (if \<not> cfg_Dokku cfg then
        (writeJSON 200 (JObj [(''status'', JStr ''ok''), (''dokkup'', JStr (cfg_Version cfg))]), s)
      else case w_dokku w of
        Inl err \<Rightarrow> (writeJSON 503 (JObj [(''status'', JStr ''degraded''),
            (''dokkup'', JStr (cfg_Version cfg)), (''dokku'', JStr ''unreachable'')]), s)
      | Inr version \<Rightarrow> (writeJSON 200 (JObj [(''status'', JStr ''ok''),
            (''dokkup'', JStr (cfg_Version cfg)), (''dokku'', JStr version)]), s))"

definition handleSession :: "Config \<Rightarrow> world \<Rightarrow> handler" where
  "handleSession cfg w rq ctx s =
     (let setupCompleted =
        (if cfg_Store cfg then
           (case HasOwner (w_store w ReadOwner) (sv_db s) of Inl err \<Rightarrow> True | Inr owned \<Rightarrow> owned)
         else False);
        body = [(''mode'', JStr (cfg_Mode cfg)), (''ownerOnly'', JBool (Restricted (cfg_Mode cfg))),
          (''authenticated'', JBool (ctx \<noteq> None)), (''setupCompleted'', JBool setupCompleted)] @
          (case ctx of None \<Rightarrow> [] | Some opr \<Rightarrow> [(''operator'', operatorBody opr)])
      in (writeJSON 200 (JObj body), s))"

section \<open>The embedded frontend\<close>

text \<open>strings.LastIndex, -1 when the character does not occur.\<close>

definition LastIndex :: "string \<Rightarrow> char \<Rightarrow> int" where
  "LastIndex s c = (if c \<in> set s then int (length s - 1 - length (takeWhile ((\<noteq>) c) (rev s))) else -1)"

definition isAssetRequest :: "string \<Rightarrow> bool" where
  "isAssetRequest path = (LastIndex path (CHR ''.'') > LastIndex path (CHR ''/''))"

text \<open>The files built into static/dist are an argument: which names fs.Stat finds.\<close>

definition staticHandler :: "(string \<Rightarrow> bool) \<Rightarrow> handler" where
  "staticHandler files rq ctx s =
     (let page = (\<lambda>p. \<lparr>rs_status = 200, rs_headers = [], rs_cookies = [], rs_content = Served p\<rparr>) in
      if \<not> files (TrimPrefix (rq_path rq) ''/'') then
        (if isAssetRequest (rq_path rq)
         then (\<lparr>rs_status = 404, rs_headers = [], rs_cookies = [], rs_content = NoContent\<rparr>, s)
         else (page ''/'', s))
      else (page (rq_path rq), s))"

section \<open>Routes\<close>

text \<open>
  http.ServeMux: a path that is not clean is answered with a redirection to its clean form, unless
  the method is CONNECT; a pattern with GET is for HEAD too; the pattern "/" is for what is left.
\<close>

definition clean_path :: "string \<Rightarrow> bool" where
  "clean_path p \<longleftrightarrow> HasPrefix p ''/'' \<and>
     (let parts = Split (CHR ''/'') (tl p)
      in (\<forall>x \<in> set (butlast parts). x \<noteq> []) \<and> (\<forall>x \<in> set parts. x \<noteq> ''.'' \<and> x \<noteq> ''..''))"

definition redirect :: handler where
  "redirect rq ctx s =
     (\<lparr>rs_status = 301, rs_headers = [], rs_cookies = [], rs_content = NoContent\<rparr>, s)"

definition routes :: "Config \<Rightarrow> lib \<Rightarrow> (string \<Rightarrow> bool) \<Rightarrow> world \<Rightarrow> handler" where
  "routes cfg lib files w rq ctx s =
     (let p = rq_path rq; m = rq_method rq in
      if m \<noteq> ''CONNECT'' \<and> \<not> clean_path p then redirect rq ctx s
      else if p = ''/api/health'' \<and> m \<in> {''GET'', ''HEAD''} then handleHealth cfg w rq ctx s
      else if p = ''/api/session'' \<and> m \<in> {''GET'', ''HEAD''} then handleSession cfg w rq ctx s
      else if p = ''/api/setup'' then
        (if m = ''POST'' then handleSetup cfg lib w rq ctx s
         else methodNotAllowed ''the setup token is redeemed with POST'' rq ctx s)
      else if p = ''/api/signin'' then
        (if m = ''POST'' then handleSignIn cfg lib w rq ctx s
         else methodNotAllowed ''signing in is done with POST'' rq ctx s)
      else if p = ''/api/signout'' then
        (if m = ''POST'' then handleSignOut cfg lib w rq ctx s
         else methodNotAllowed ''signing out is done with POST'' rq ctx s)
      else staticHandler files rq ctx s)"

section \<open>Middleware\<close>

definition apiPrefix :: string where "apiPrefix = ''/api/''"
definition csrfHeader :: string where "csrfHeader = ''X-Dokkup-CSRF''"

definition unauthenticatedRoutes :: "string \<Rightarrow> bool" where
  "unauthenticatedRoutes path \<longleftrightarrow>
     path \<in> {''/api/health'', ''/api/session'', ''/api/setup'', ''/api/signin''}"

definition securityHeaders :: "(string \<times> string) list" where
  "securityHeaders =
     [(''Content-Security-Policy'',
        ''default-src 'self'; '' @ ''img-src 'self' data:; '' @ ''style-src 'self' 'unsafe-inline'; '' @
        ''connect-src 'self'; '' @ ''frame-ancestors 'none'; '' @ ''base-uri 'none'; '' @ ''form-action 'self'' @ [CHR 0x27]),
      (''X-Content-Type-Options'', ''nosniff''), (''Referrer-Policy'', ''same-origin''),
      (''Cross-Origin-Opener-Policy'', ''same-origin''), (''X-Frame-Options'', ''DENY'')]"

definition withSecurityHeaders :: "handler \<Rightarrow> handler" where
  "withSecurityHeaders next rq ctx s =
     (case next rq ctx s of (r, s) \<Rightarrow> (r\<lparr>rs_headers := securityHeaders @ rs_headers r\<rparr>, s))"

definition withRequestLogging :: "handler \<Rightarrow> handler" where
  "withRequestLogging next rq ctx s =
     (case next rq ctx s of (r, s) \<Rightarrow>
        (r, s\<lparr>sv_log := sv_log s @ [(rq_method rq, rq_path rq, rs_status r)]\<rparr>))"

definition apiOnly :: "(handler \<Rightarrow> handler) \<Rightarrow> handler \<Rightarrow> handler" where
  "apiOnly guard next =
     (let guarded = guard next in
      (\<lambda>rq ctx s. if \<not> HasPrefix (rq_path rq) apiPrefix then next rq ctx s else guarded rq ctx s))"

definition requireCSRF :: "handler \<Rightarrow> handler" where
  "requireCSRF next rq ctx s =
     (if rq_method rq \<in> {''GET'', ''HEAD'', ''OPTIONS''} then next rq ctx s
      else if rq_csrf rq = [] then
        (writeJSON 403 (errorBody (''that request is missing the '' @ csrfHeader @ '' header'')), s)
      else next rq ctx s)"

definition authenticate :: "Config \<Rightarrow> lib \<Rightarrow> world \<Rightarrow> request \<Rightarrow> server \<Rightarrow> operator option" where
  "authenticate cfg lib w rq s =
     (if \<not> cfg_Store cfg then None
      else case rq_cookie rq of None \<Rightarrow> None
      | Some value \<Rightarrow>
        if value = [] then None
        else case SessionOperator (w_store w Authenticate) (w_clock w Authenticate)
               (HashToken (lib_sha256 lib) value) (sv_db s) of
          Inl ErrNotFound \<Rightarrow> None | Inl err \<Rightarrow> None | Inr opr \<Rightarrow> Some opr)"

definition requireSession :: "Config \<Rightarrow> lib \<Rightarrow> world \<Rightarrow> handler \<Rightarrow> handler" where
  "requireSession cfg lib w next rq ctx s =
     (case authenticate cfg lib w rq s of
        Some opr \<Rightarrow> next rq (Some opr) s
      | None \<Rightarrow>
        if \<not> unauthenticatedRoutes (rq_path rq) then (writeJSON 401 (errorBody notSignedIn), s)
        else next rq ctx s)"

definition Handler :: "Config \<Rightarrow> lib \<Rightarrow> (string \<Rightarrow> bool) \<Rightarrow> world \<Rightarrow> handler" where
  "Handler cfg lib files w =
     (let guarded = apiOnly requireCSRF (apiOnly (requireSession cfg lib w) (routes cfg lib files w))
      in withSecurityHeaders (withRequestLogging guarded))"

text \<open>A request arrives with no operator on its context.\<close>

definition serve :: "Config \<Rightarrow> lib \<Rightarrow> (string \<Rightarrow> bool) \<Rightarrow> world \<times> request \<Rightarrow> server \<Rightarrow> response \<times> server" where
  "serve cfg lib files x s = (case x of (w, rq) \<Rightarrow> Handler cfg lib files w rq None s)"

section \<open>What a request may do to the database\<close>

text \<open>A server moves only by operations of the store, and by these five.\<close>

fun request_op :: "store_op \<Rightarrow> bool" where
  "request_op (OpStartSession q clk i h e) = True"
| "request_op (OpRevokeSession q h) = True"
| "request_op (OpRedeemSetupToken q clk clk' h e n p) = True"
| "request_op (OpRecord q clk a) = True"
| "request_op (OpRecordUnauthenticated q clk a) = True"
| "request_op op = False"

definition by_store :: "server \<Rightarrow> server \<Rightarrow> bool" where
  "by_store s s' \<longleftrightarrow> (\<exists>ops. list_all request_op ops \<and> sv_db s' = fold exec_op ops (sv_db s))"

lemma by_store_refl [simp]: "sv_db s' = sv_db s \<Longrightarrow> by_store s s'"
  unfolding by_store_def by (intro exI [of _ "[]"]) simp

lemma by_store_trans: "by_store s t \<Longrightarrow> by_store t u \<Longrightarrow> by_store s u"
  unfolding by_store_def by (metis fold_append comp_apply list_all_append)

lemma by_store_exec: "request_op op \<Longrightarrow> sv_db s' = exec_op op (sv_db s) \<Longrightarrow> by_store s s'"
  unfolding by_store_def by (intro exI [of _ "[op]"]) simp

lemma on_db_simps [simp]:
  "sv_db (snd (on_db f s)) = snd (f (sv_db s))" "fst (on_db f s) = fst (f (sv_db s))"
  "sv_setupLimiter (snd (on_db f s)) = sv_setupLimiter s"
  "sv_signinLimiter (snd (on_db f s)) = sv_signinLimiter s"
  "sv_verified (snd (on_db f s)) = sv_verified s"
  "sv_log (snd (on_db f s)) = sv_log s"
  "sv_dummy (snd (on_db f s)) = sv_dummy s"
  by (simp_all add: on_db_def split: prod.splits)

lemma on_db_eq: "on_db f s = (r, s') \<longleftrightarrow> r = fst (f (sv_db s)) \<and> s' = s\<lparr>sv_db := snd (f (sv_db s))\<rparr>"
  by (auto simp: on_db_def split: prod.splits)

lemma record_by_store: "by_store s (snd (on_db (Record q clk a) s))"
  by (rule by_store_exec [where op = "OpRecord q clk a"]) simp_all

lemma record_unauthenticated_by_store: "by_store s (snd (on_db (RecordUnauthenticated q clk a) s))"
  by (rule by_store_exec [where op = "OpRecordUnauthenticated q clk a"]) simp_all

lemma rejectSignIn_by_store: "by_store s (snd (rejectSignIn w a s))"
  by (simp add: rejectSignIn_def recordRejectedSignIn_def Let_def record_by_store record_unauthenticated_by_store)

lemma rejectSetup_by_store: "by_store s (snd (rejectSetup w c m e s))"
  by (simp add: rejectSetup_def Let_def record_unauthenticated_by_store)

lemma endSession_by_store: "by_store s (snd (endSession cfg w opr s))"
  by (simp add: endSession_def Let_def record_by_store)

lemma startSession_by_store: "by_store s (snd (startSession cfg lib w opr s))"
proof (cases "NewToken (lib_sha256 lib) (w_token w)")
  case (Some th)
  obtain token hash where th: "th = (token, hash)" by (cases th)
  define x where "x = on_db (StartSession (w_store w Write) (w_clock w Write) (op_id opr) hash
      (w_now w + sessionLifetime)) s"
  have one: "by_store s (snd x)"
    by (rule by_store_exec [where op = "OpStartSession (w_store w Write) (w_clock w Write) (op_id opr) hash
      (w_now w + sessionLifetime)"]) (simp_all add: x_def)
  show ?thesis
  proof (cases "fst x")
    case (Inl err)
    then show ?thesis using one by (cases x) (simp add: startSession_def Some th x_def [symmetric])
  next
    case (Inr y)
    then show ?thesis using by_store_trans [OF one record_by_store]
      by (cases x) (simp add: startSession_def Some th x_def [symmetric] Let_def)
  qed
qed (simp add: startSession_def)

lemma by_store_after: "sv_db t = sv_db s \<Longrightarrow> by_store t u \<Longrightarrow> by_store s u"
  by (simp add: by_store_def)

lemma recordRejectedSignIn_by_store: "by_store s (recordRejectedSignIn w a s)"
  using rejectSignIn_by_store [of s w a] by (simp add: rejectSignIn_def Let_def)

lemma snd_recordRejected: "(r, s') = rejectSignIn w a t \<Longrightarrow> s' = recordRejectedSignIn w a t"
  by (simp add: rejectSignIn_def Let_def)

lemmas store_steps = rejectSignIn_by_store rejectSetup_by_store startSession_by_store
  endSession_by_store recordRejectedSignIn_by_store record_by_store record_unauthenticated_by_store

lemmas after_steps = store_steps [THEN by_store_after [rotated]]

lemma verifiedSignIn_by_store: "by_store s (snd (verifiedSignIn cfg lib w a p r s))"
  unfolding verifiedSignIn_def verifyPassword_def
  by (auto split: sum.splits intro!: after_steps)

lemma lookupSignIn_by_store: "by_store s (snd (lookupSignIn cfg lib w e p s))"
proof (cases "OperatorByEmail (w_store w ReadOperator) e (sv_db s)")
  case (Inl err)
  then show ?thesis
    by (cases err) (auto simp: lookupSignIn_def Let_def verifyPassword_def split_beta intro!: after_steps)
qed (simp add: lookupSignIn_def verifiedSignIn_by_store)

lemma handleSignIn_by_store: "by_store s (snd (handleSignIn cfg lib w rq ctx s))"
  unfolding handleSignIn_def Let_def
  by (auto split: prod.splits option.splits intro!: after_steps by_store_after [OF _ lookupSignIn_by_store])

lemma handleSignOut_by_store: "by_store s (snd (handleSignOut cfg lib w rq ctx s))"
proof (cases "\<exists>opr token. ctx = Some opr \<and> rq_cookie rq = Some token")
  case True
  then obtain opr token where c: "ctx = Some opr" "rq_cookie rq = Some token" by blast
  define x where "x = on_db (RevokeSession (w_store w Write) (HashToken (lib_sha256 lib) token)) s"
  have one: "by_store s (snd x)"
    by (rule by_store_exec [where op = "OpRevokeSession (w_store w Write) (HashToken (lib_sha256 lib) token)"])
      (simp_all add: x_def)
  have "snd (handleSignOut cfg lib w rq ctx s) \<in> {snd x, snd (endSession cfg w opr (snd x))}"
    unfolding handleSignOut_def c
    by (simp add: x_def [symmetric]) (auto split: prod.splits sum.splits store_error.splits)
  with one by_store_trans [OF one endSession_by_store] show ?thesis by auto
next
  case False
  then show ?thesis
    by (auto simp: handleSignOut_def split: option.splits intro!: after_steps)
qed

lemma redeemSetup_by_store: "by_store s (snd (redeemSetup lib w body e h s))"
proof -
  define x where "x = on_db (RedeemSetupToken (w_store w Write) (w_clock w Write) (w_commit w)
      (HashToken (lib_sha256 lib) (su_Token body)) e (su_Name body) h) s"
  have one: "by_store s (snd x)"
    by (rule by_store_exec [where op = "OpRedeemSetupToken (w_store w Write) (w_clock w Write) (w_commit w)
      (HashToken (lib_sha256 lib) (su_Token body)) e (su_Name body) h"]) (simp_all add: x_def)
  have "\<exists>c m a. snd (redeemSetup lib w body e h s) \<in> {snd x, snd (rejectSetup w c m e (snd x)),
      snd (on_db (Record (w_store w Trail) (w_clock w Trail) a) (snd x))}"
    unfolding redeemSetup_def x_def [symmetric]
    by (cases "fst x"; cases x; cases "projl (fst x)") (auto simp: Let_def)
  then show ?thesis
    using one by_store_trans [OF one rejectSetup_by_store] by_store_trans [OF one record_by_store]
    by auto
qed

lemma handleSetup_by_store: "by_store s (snd (handleSetup cfg lib w rq ctx s))"
proof -
  have valid: "by_store t (snd (validSetup lib w body e t))" for t body e
    unfolding validSetup_def
    by (auto split: sum.splits option.splits intro: redeemSetup_by_store rejectSetup_by_store)
  show ?thesis
    unfolding handleSetup_def Let_def
    by (auto split: prod.splits option.splits intro!: after_steps by_store_after [OF _ valid])
qed

lemma routes_by_store: "by_store s (snd (routes cfg lib files w rq ctx s))"
  by (auto simp: routes_def Let_def redirect_def handleHealth_def handleSession_def methodNotAllowed_def
      staticHandler_def handleSetup_by_store handleSignIn_by_store handleSignOut_by_store split: sum.splits)

text \<open>What the chain does, in one equation per guard.\<close>

definition guarded :: "Config \<Rightarrow> lib \<Rightarrow> (string \<Rightarrow> bool) \<Rightarrow> world \<Rightarrow> handler" where
  "guarded cfg lib files w = apiOnly requireCSRF (apiOnly (requireSession cfg lib w) (routes cfg lib files w))"

definition safe_method :: "string \<Rightarrow> bool" where
  "safe_method m \<longleftrightarrow> m \<in> {''GET'', ''HEAD'', ''OPTIONS''}"

lemma guarded_eq:
  "guarded cfg lib files w rq ctx s =
     (if \<not> HasPrefix (rq_path rq) apiPrefix then routes cfg lib files w rq ctx s
      else if \<not> safe_method (rq_method rq) \<and> rq_csrf rq = [] then
        (writeJSON 403 (errorBody (''that request is missing the '' @ csrfHeader @ '' header'')), s)
      else case authenticate cfg lib w rq s of
        Some opr \<Rightarrow> routes cfg lib files w rq (Some opr) s
      | None \<Rightarrow>
        if \<not> unauthenticatedRoutes (rq_path rq) then (writeJSON 401 (errorBody notSignedIn), s)
        else routes cfg lib files w rq ctx s)"
  by (simp add: guarded_def apiOnly_def Let_def requireCSRF_def requireSession_def safe_method_def
      split: option.splits)

lemma serve_eq:
  "serve cfg lib files (w, rq) s =
     (case guarded cfg lib files w rq None s of (r, s') \<Rightarrow>
        (r\<lparr>rs_headers := securityHeaders @ rs_headers r\<rparr>,
         s'\<lparr>sv_log := sv_log s' @ [(rq_method rq, rq_path rq, rs_status r)]\<rparr>))"
  by (simp add: serve_def Handler_def Let_def guarded_def [symmetric] withSecurityHeaders_def
      withRequestLogging_def split: prod.splits)

lemma serve_db: "sv_db (snd (serve cfg lib files (w, rq) s)) = sv_db (snd (guarded cfg lib files w rq None s))"
  by (simp add: serve_eq split: prod.splits)

lemma serve_by_store: "by_store s (snd (serve cfg lib files x s))"
proof -
  obtain w rq where x: "x = (w, rq)" by (cases x)
  have "by_store s (snd (guarded cfg lib files w rq None s))"
    unfolding guarded_eq by (auto simp: routes_by_store split: option.splits)
  then show ?thesis by (simp add: x by_store_def serve_db)
qed

end
