(* ===== verification/Server_Access.thy ===== *)
theory Server_Access
  imports Server
begin

text \<open>
  What stands between a socket and the database: the guards, sign-in, sign-out and setup, each
  stated on the whole chain of middleware and routes.
\<close>

section \<open>A server is a machine on its requests\<close>

lemma wf_by_store: "by_store s s' \<Longrightarrow> wf_db (sv_db s) \<Longrightarrow> wf_db (sv_db s')"
  by (auto simp: by_store_def owner_machine.inv_run)

lemma owner_kept_by_store: "by_store s s' \<Longrightarrow> wf_db (sv_db s) \<Longrightarrow> owner_kept (sv_db s) (sv_db s')"
  by (auto simp: by_store_def owner_machine.rel_run)

lemma trail_by_store: "by_store s s' \<Longrightarrow> wf_db (sv_db s) \<Longrightarrow> trail_extends (sv_db s) (sv_db s')"
  by (auto simp: by_store_def trail_machine.rel_run)

definition serve_step :: "Config \<Rightarrow> lib \<Rightarrow> (string \<Rightarrow> bool) \<Rightarrow> world \<times> request \<Rightarrow> server \<Rightarrow> server" where
  "serve_step cfg lib files x s = snd (serve cfg lib files x s)"

definition sv_ok :: "server \<Rightarrow> bool" where
  "sv_ok s \<longleftrightarrow> wf_db (sv_db s)"

interpretation server_machine: monotone_machine "serve_step cfg lib files" sv_ok
    "\<lambda>s s'. owner_kept (sv_db s) (sv_db s') \<and> trail_extends (sv_db s) (sv_db s')"
  by unfold_locales
    (auto simp: sv_ok_def serve_step_def intro: wf_by_store [OF serve_by_store]
      owner_kept_by_store [OF serve_by_store] trail_by_store [OF serve_by_store]
      owner_kept_same owner_kept_trans trail_extends_trans)

text \<open>
  Whatever requests a server answers, in whatever order and with any calls to the store failing,
  its database keeps the promises of the schema, the owner who was there stays the owner under the
  same id and address, and the trail is only ever appended to.
\<close>

theorem serving_keeps_the_store:
  "let d = history ops; d' = sv_db (fold (serve_step cfg lib files) xs (New clk clk' d))
   in wf_db d' \<and> owner_kept d d' \<and> trail_extends d d'"
  using server_machine.inv_run [of "New clk clk' (history ops)" cfg lib files xs]
    server_machine.rel_run [of "New clk clk' (history ops)" cfg lib files xs] wf_history
  by (simp add: sv_ok_def New_def Let_def)

section \<open>Who is asking\<close>

text \<open>The operator a request's cookie names at the reading of the clock its authentication meets.\<close>

definition presented :: "lib \<Rightarrow> world \<Rightarrow> request \<Rightarrow> server \<Rightarrow> int option" where
  "presented lib w rq s =
     (case rq_cookie rq of None \<Rightarrow> None
      | Some token \<Rightarrow> live (w_clock w Authenticate) (sv_db s) (HashToken (lib_sha256 lib) token))"

lemma SessionOperator_fails: "fails q 0 \<Longrightarrow> SessionOperator q clk h d = Inl (ErrDriver DriverError)"
  by (simp add: SessionOperator_def scanOperator_def query_row_def call_def notFound_def)

lemma authenticate_Some:
  assumes "wf_db (sv_db s)" "authenticate cfg lib w rq s = Some opr"
  shows "presented lib w rq s = Some (op_id opr)" "opr \<in> set (operators (sv_db s))" "cfg_Store cfg"
    "\<exists>token. rq_cookie rq = Some token \<and> token \<noteq> []"
  using assms SessionOperator_live(1) [OF assms(1)] SessionOperator_fails
  by (auto simp: authenticate_def presented_def split: if_splits option.splits sum.splits store_error.splits)
     (metis Inr_Inl_False)+

lemma authenticate_None: "wf_db (sv_db s) \<Longrightarrow> presented lib w rq s = None \<Longrightarrow> authenticate cfg lib w rq s = None"
  using authenticate_Some(1) by (cases "authenticate cfg lib w rq s") auto

section \<open>The guards\<close>

definition only_logged :: "request \<Rightarrow> response \<Rightarrow> server \<Rightarrow> server \<Rightarrow> bool" where
  "only_logged rq r s s' \<longleftrightarrow> s' = s\<lparr>sv_log := sv_log s @ [(rq_method rq, rq_path rq, rs_status r)]\<rparr>"

lemma serve_guarded:
  assumes "guarded cfg lib files w rq None s = (r, s)"
  shows "fst (serve cfg lib files (w, rq) s) = r\<lparr>rs_headers := securityHeaders @ rs_headers r\<rparr>"
    and "only_logged rq (fst (serve cfg lib files (w, rq) s)) s (snd (serve cfg lib files (w, rq) s))"
  by (simp_all add: serve_eq assms only_logged_def)

text \<open>
  C10: A route of the API that is not one of the four open ones refuses whoever presents no live
  session: whatever the path, the method and the body are, a request whose cookie is missing,
  unknown, expired or revoked is answered 401 or 403, and nothing but a line of the request log
  comes of it. Health, session, setup and sign-in are the whole list of what is open.
\<close>

theorem no_session_no_route:
  assumes "wf_db (sv_db s)" "HasPrefix (rq_path rq) ''/api/''" "presented lib w rq s = None"
    and "rq_path rq \<notin> {''/api/health'', ''/api/session'', ''/api/setup'', ''/api/signin''}"
  shows "rs_status (fst (serve cfg lib files (w, rq) s)) \<in> {401, 403} \<and>
    only_logged rq (fst (serve cfg lib files (w, rq) s)) s (snd (serve cfg lib files (w, rq) s))"
proof -
  have "guarded cfg lib files w rq None s =
      (if \<not> safe_method (rq_method rq) \<and> rq_csrf rq = []
       then (writeJSON 403 (errorBody (''that request is missing the '' @ csrfHeader @ '' header'')), s)
       else (writeJSON 401 (errorBody notSignedIn), s))"
    using assms by (simp add: guarded_eq authenticate_None unauthenticatedRoutes_def apiPrefix_def)
  then obtain r where "guarded cfg lib files w rq None s = (r, s)" "rs_status r \<in> {401, 403}"
    by (auto split: if_splits)
  with serve_guarded [OF this(1)] show ?thesis by simp
qed

text \<open>
  A request to the API that is not a GET, a HEAD or an OPTIONS and does not carry the CSRF header
  is answered 403 with the security headers, before the session is even looked up, and changes
  nothing, whoever sent it.
\<close>

theorem no_csrf_no_change:
  assumes "HasPrefix (rq_path rq) ''/api/''" "rq_csrf rq = []"
    and "rq_method rq \<notin> {''GET'', ''HEAD'', ''OPTIONS''}"
  shows "serve cfg lib files (w, rq) s =
    (\<lparr>rs_status = 403, rs_headers = securityHeaders @ [(''Content-Type'', ''application/json; charset=utf-8'')],
      rs_cookies = [],
      rs_content = Json (JObj [(''error'', JStr ''that request is missing the X-Dokkup-CSRF header'')])\<rparr>,
     s\<lparr>sv_log := sv_log s @ [(rq_method rq, rq_path rq, 403)]\<rparr>)"
  using assms by (simp add: serve_eq guarded_eq safe_method_def writeJSON_def errorBody_def csrfHeader_def
      apiPrefix_def)

lemma HasPrefix_api: "HasPrefix ''/api/setup'' apiPrefix" "HasPrefix ''/api/signin'' apiPrefix"
  "HasPrefix ''/api/signout'' apiPrefix"
  by (simp_all add: apiPrefix_def HasPrefix_def)

lemma clean_api: "clean_path ''/api/setup''" "clean_path ''/api/signin''" "clean_path ''/api/signout''"
  by (simp_all add: clean_path_def HasPrefix_def)

text \<open>The only places of the route table that do not hand back the server as it is.\<close>

lemma routes_frame:
  assumes "rq_method rq \<noteq> ''POST'' \<or> rq_path rq \<notin> {''/api/setup'', ''/api/signin'', ''/api/signout''}"
  shows "snd (routes cfg lib files w rq ctx s) = s"
proof -
  have same: "snd (redirect rq ctx s) = s" "snd (handleHealth cfg w rq ctx s) = s"
    "snd (handleSession cfg w rq ctx s) = s" "snd (methodNotAllowed m rq ctx s) = s"
    "snd (staticHandler files rq ctx s) = s" for m
    by (simp_all add: redirect_def handleHealth_def handleSession_def methodNotAllowed_def
        staticHandler_def Let_def split: sum.splits)
  show ?thesis
  proof (cases "rq_method rq = ''POST''")
    case False
    then show ?thesis by (simp add: routes_def Let_def if_distrib [of snd] same)
  next
    case True
    with assms have "rq_path rq \<noteq> ''/api/setup''" "rq_path rq \<noteq> ''/api/signin''" "rq_path rq \<noteq> ''/api/signout''"
      by simp_all
    then show ?thesis by (simp add: routes_def Let_def if_distrib [of snd] same)
  qed
qed

lemma guarded_frame:
  assumes "rq_method rq \<noteq> ''POST'' \<or> rq_csrf rq = [] \<or>
    rq_path rq \<notin> {''/api/setup'', ''/api/signin'', ''/api/signout''} \<or>
    rq_path rq = ''/api/signout'' \<and> authenticate cfg lib w rq s = None"
  shows "snd (guarded cfg lib files w rq ctx s) = s"
proof -
  consider "rq_method rq \<noteq> ''POST'' \<or> rq_path rq \<notin> {''/api/setup'', ''/api/signin'', ''/api/signout''}"
    | "rq_method rq = ''POST''" "rq_path rq \<in> {''/api/setup'', ''/api/signin'', ''/api/signout''}" "rq_csrf rq = []"
    | "rq_path rq = ''/api/signout''" "authenticate cfg lib w rq s = None"
    using assms by argo
  then show ?thesis
  proof cases
    case 1
    then show ?thesis unfolding guarded_eq by (simp add: routes_frame split: option.splits)
  next
    case 2
    then show ?thesis unfolding guarded_eq by (auto simp: HasPrefix_api safe_method_def)
  next
    case 3
    then show ?thesis unfolding guarded_eq by (simp add: HasPrefix_api unauthenticatedRoutes_def)
  qed
qed

text \<open>
  The database changes only in answer to a POST that carries the CSRF header, and only at three
  paths, read exactly: setup, sign-in, and, from a caller who presents a live session, sign-out. In
  particular no other spelling of a path reaches one of these handlers around the guards.
\<close>

theorem change_only_through_guards:
  assumes "wf_db (sv_db s)" "sv_db (snd (serve cfg lib files (w, rq) s)) \<noteq> sv_db s"
  shows "rq_method rq = ''POST'' \<and> rq_csrf rq \<noteq> [] \<and>
    (rq_path rq \<in> {''/api/setup'', ''/api/signin''} \<or>
     rq_path rq = ''/api/signout'' \<and> presented lib w rq s \<noteq> None)"
proof (rule ccontr)
  assume "\<not> ?thesis"
  then have "snd (guarded cfg lib files w rq None s) = s"
    using authenticate_None [OF assms(1), of lib w rq cfg] by (intro guarded_frame) auto
  with assms(2) show False by (simp add: serve_db)
qed

end
