(* ===== verification/Server_SignIn.thy ===== *)
theory Server_SignIn
  imports Server_Access
begin

text \<open>
  What signing in, signing out and setting up achieve: who gets a session, what a refusal looks like
  and costs, what ends a session, and how the owner comes to exist.
\<close>

section \<open>What the steps of the handlers leave alone\<close>

definition same_access :: "server \<Rightarrow> server \<Rightarrow> bool" where
  "same_access s s' \<longleftrightarrow> operators (sv_db s') = operators (sv_db s) \<and>
     sessions (sv_db s') = sessions (sv_db s) \<and> setup_tokens (sv_db s') = setup_tokens (sv_db s)"

lemma fold_audit_frame:
  "operators (fold sql_insert_audit as d) = operators d \<and> sessions (fold sql_insert_audit as d) = sessions d \<and>
   setup_tokens (fold sql_insert_audit as d) = setup_tokens d"
  by (induction as arbitrary: d) (simp_all add: sql_simps)

lemma Record_frame: "same_access s (snd (on_db (Record q clk a) s))"
  by (auto simp: same_access_def Record_def Let_def call_def fold_audit_frame)

lemma RecordUnauthenticated_frame: "same_access s (snd (on_db (RecordUnauthenticated q clk a) s))"
  by (simp add: same_access_def RecordUnauthenticated_db sql_simps)

lemma recordRejected_frame: "same_access s (recordRejectedSignIn w a s)"
  by (simp add: recordRejectedSignIn_def Record_frame RecordUnauthenticated_frame)

lemma rejectSignIn_frame: "same_access s (snd (rejectSignIn w a s))"
  by (simp add: rejectSignIn_def recordRejected_frame Let_def)

lemma rejectSetup_frame: "same_access s (snd (rejectSetup w c m e s))"
  by (simp add: rejectSetup_def Let_def RecordUnauthenticated_frame)

lemma endSession_frame: "same_access s (snd (endSession cfg w opr s))"
  by (simp add: endSession_def Let_def Record_frame)

lemma same_access_db: "sv_db t = sv_db s \<Longrightarrow> same_access t u \<Longrightarrow> same_access s u"
  by (simp add: same_access_def)

lemma rejectSignIn_fst [simp]: "fst (rejectSignIn w a s) = writeJSON 401 (errorBody signinRefusal)"
  by (simp add: rejectSignIn_def Let_def)

lemma rejectSetup_fst [simp]: "fst (rejectSetup w c m e s) = writeJSON c (errorBody m)"
  by (simp add: rejectSetup_def Let_def)

section \<open>Who gets a session\<close>

text \<open>What a new row of the sessions says, and the response that comes with it.\<close>

definition signed_in :: "Config \<Rightarrow> lib \<Rightarrow> world \<Rightarrow> operator \<Rightarrow> response \<Rightarrow> session \<Rightarrow> bool" where
  "signed_in cfg lib w opr r x \<longleftrightarrow>
     (\<exists>raw. w_token w = Some raw \<and>
        x = \<lparr>ses_token_hash = HashToken (lib_sha256 lib) (EncodeToString url_alphabet raw),
             ses_operator_id = op_id opr, ses_created_at = now (w_clock w Write),
             ses_expires_at = millis (w_now w + sessionLifetime)\<rparr> \<and>
        rs_status r = 200 \<and>
        rs_cookies r = [sessionCookie cfg (EncodeToString url_alphabet raw)
          (time_Sub (w_now w + sessionLifetime) (w_until w))])"

lemma startSession_cases:
  "same_access s (snd (startSession cfg lib w opr s)) \<and> rs_status (fst (startSession cfg lib w opr s)) = 500 \<or>
   (\<exists>x. sessions (sv_db (snd (startSession cfg lib w opr s))) = sessions (sv_db s) @ [x] \<and>
     operators (sv_db (snd (startSession cfg lib w opr s))) = operators (sv_db s) \<and>
     setup_tokens (sv_db (snd (startSession cfg lib w opr s))) = setup_tokens (sv_db s) \<and>
     signed_in cfg lib w opr (fst (startSession cfg lib w opr s)) x)"
proof (cases "w_token w")
  case None
  then show ?thesis by (simp add: startSession_def NewToken_def same_access_def)
next
  case (Some raw)
  define token where "token = EncodeToString url_alphabet raw"
  define hash where "hash = HashToken (lib_sha256 lib) token"
  have t: "NewToken (lib_sha256 lib) (w_token w) = Some (token, hash)"
    by (simp add: NewToken_def Some token_def hash_def Let_def)
  define f where "f = StartSession (w_store w Write) (w_clock w Write) (op_id opr) hash (w_now w + sessionLifetime)"
  show ?thesis
  proof (cases "f (sv_db s)")
    case (Pair res d)
    show ?thesis
    proof (cases res)
      case (Inl err)
      then have "d = sv_db s" using Pair StartSession_error unfolding f_def by blast
      then show ?thesis
        by (simp add: startSession_def t Let_def f_def [symmetric] on_db_def Pair Inl same_access_def)
    next
      case (Inr x)
      note ok = StartSession_ok [OF Pair [unfolded Inr f_def]]
      define s1 where "s1 = s\<lparr>sv_db := d\<rparr>"
      define s2 where "s2 = snd (on_db (Record (w_store w Trail) (w_clock w Trail)
                    (audited (op_id opr) auditSessionStarted (op_email opr))) s1)"
      have eq: "startSession cfg lib w opr s =
          ((writeJSON 200 (JObj [(''operator'', operatorBody opr)]))\<lparr>rs_cookies :=
             [sessionCookie cfg token (time_Sub (w_now w + sessionLifetime) (w_until w))]\<rparr>, s2)"
        by (simp add: startSession_def t Let_def f_def [symmetric] on_db_def [of f] Pair Inr s1_def s2_def)
      have "same_access s1 s2" unfolding s2_def by (rule Record_frame)
      then show ?thesis
        using ok(1,2) by (auto simp: eq same_access_def s1_def signed_in_def Some token_def hash_def)
    qed
  qed
qed

text \<open>The credentials of a request that may sign in.\<close>

definition may_sign_in :: "Config \<Rightarrow> lib \<Rightarrow> string \<Rightarrow> operator \<Rightarrow> bool" where
  "may_sign_in cfg lib password opr \<longleftrightarrow>
     VerifyPassword (lib_idkey lib) (op_password_hash opr) password = Inr True \<and>
     (cfg_Mode cfg = ModeIP \<longrightarrow> op_is_owner opr)"

lemma OperatorByEmail_Inr:
  "OperatorByEmail q email d = Inr r \<Longrightarrow> r \<in> set (operators d) \<and> op_email r = normaliseEmail email \<and> \<not> fails q 0"
  by (auto simp: OperatorByEmail_def scanOperator_def query_row_def Let_def call_def
      split: if_splits sum.splits list.splits dest!: arg_cong [of "filter _ _" _ set])

lemma verifiedSignIn_cases:
  "(if may_sign_in cfg lib password opr
    then \<exists>t. sv_db t = sv_db s \<and> verifiedSignIn cfg lib w a password opr s = startSession cfg lib w opr t
    else \<exists>t b. sv_db t = sv_db s \<and> verifiedSignIn cfg lib w a password opr s = rejectSignIn w b t)"
  unfolding verifiedSignIn_def verifyPassword_def may_sign_in_def Restricted_def
  by (auto split: sum.splits intro: exI [of _ "s\<lparr>sv_verified := sv_verified s @ [(op_password_hash opr, password)]\<rparr>"])

text \<open>A sign-in changes no access unless it gets as far as the password of an operator it has found.\<close>

lemma handleSignIn_cases:
  obtains (refused) "same_access s (snd (handleSignIn cfg lib w rq ctx s))"
    | (verified) body_email password opr t where
      "lib_signin lib (take signinBodyLimit (rq_body rq)) = Some (body_email, password)"
      "opr \<in> set (operators (sv_db s))" "op_email opr = normaliseEmail body_email" "sv_db t = sv_db s"
      "handleSignIn cfg lib w rq ctx s =
         verifiedSignIn cfg lib w (audited 0 auditSessionRejected (normaliseEmail body_email)) password opr t"
proof -
  obtain allowed wait lim where lim: "take_token (w_limiter w) (sv_signinLimiter s) = ((allowed, wait), lim)"
    by (metis prod.exhaust)
  define s1 where "s1 = s\<lparr>sv_signinLimiter := lim\<rparr>"
  have s1: "sv_db s1 = sv_db s" "same_access s s1" by (simp_all add: s1_def same_access_def)
  note unf = handleSignIn_def lim Let_def s1_def [symmetric]
  show thesis
  proof (cases "allowed \<and> cfg_Store cfg \<and> lib_signin lib (take signinBodyLimit (rq_body rq)) \<noteq> None")
    case False
    then have "same_access s (snd (handleSignIn cfg lib w rq ctx s))"
      using s1(2) same_access_db [OF s1(1) recordRejected_frame]
      by (cases "lib_signin lib (take signinBodyLimit (rq_body rq))") (auto simp: unf split: if_splits)
    then show thesis by (rule refused)
  next
    case True
    then obtain body_email password where c: "allowed" "cfg_Store cfg"
      "lib_signin lib (take signinBodyLimit (rq_body rq)) = Some (body_email, password)" by auto
    define email where "email = normaliseEmail body_email"
    have e: "ToLower (TrimSpace body_email) = email" "length (TrimSpace body_email) = length email"
      by (simp_all add: email_def normaliseEmail_def)
    show thesis
    proof (cases "email = [] \<or> length email > maxEmailBytes \<or> length password > maxPasswordBytes")
      case True
      then have "same_access s (snd (handleSignIn cfg lib w rq ctx s))"
        using same_access_db [OF s1(1) rejectSignIn_frame] by (auto simp: unf c e)
      then show thesis by (rule refused)
    next
      case False
      then have h: "handleSignIn cfg lib w rq ctx s = lookupSignIn cfg lib w email password s1"
        by (simp add: unf c e)
      show thesis
      proof (cases "OperatorByEmail (w_store w ReadOperator) email (sv_db s)")
        case (Inl err)
        have "same_access s1 (snd (lookupSignIn cfg lib w email password s1))"
          using same_access_db [OF _ rejectSignIn_frame]
          by (cases err) (auto simp: lookupSignIn_def s1 Inl Let_def verifyPassword_def split_beta same_access_def)
        then show thesis by (intro refused) (simp add: h same_access_def s1)
      next
        case (Inr opr)
        then have "handleSignIn cfg lib w rq ctx s = verifiedSignIn cfg lib w (audited 0 auditSessionRejected email) password opr s1"
          by (simp add: h lookupSignIn_def s1 Let_def)
        then show thesis
          using OperatorByEmail_Inr [OF Inr] by (intro verified [OF c(3) _ _ s1(1), of opr]) (simp_all add: email_def)
      qed
    qed
  qed
qed

lemma handleSignIn_sessions:
  assumes "x \<in> set (sessions (sv_db (snd (handleSignIn cfg lib w rq ctx s))))" "x \<notin> set (sessions (sv_db s))"
  shows "\<exists>email password opr. lib_signin lib (take signinBodyLimit (rq_body rq)) = Some (email, password) \<and>
     opr \<in> set (operators (sv_db s)) \<and> op_email opr = normaliseEmail email \<and>
     may_sign_in cfg lib password opr \<and> signed_in cfg lib w opr (fst (handleSignIn cfg lib w rq ctx s)) x"
proof -
  have no: False if "same_access s (snd (handleSignIn cfg lib w rq ctx s))"
    using that assms by (simp add: same_access_def)
  show ?thesis
  proof (cases rule: handleSignIn_cases [of s cfg lib w rq ctx])
    case refused
    with no show ?thesis by blast
  next
    case (verified body_email password opr t)
    note cases = verifiedSignIn_cases [of cfg lib password opr t w "audited 0 auditSessionRejected (normaliseEmail body_email)"]
    have may: "may_sign_in cfg lib password opr"
    proof (rule ccontr)
      assume "\<not> ?thesis"
      with cases obtain t' b where "sv_db t' = sv_db t" "handleSignIn cfg lib w rq ctx s = rejectSignIn w b t'"
        by (auto simp: verified(5))
      then show False using no same_access_db [OF _ rejectSignIn_frame] verified(4) by simp
    qed
    with cases obtain t' where t': "sv_db t' = sv_db s"
      "handleSignIn cfg lib w rq ctx s = startSession cfg lib w opr t'" by (auto simp: verified(4,5))
    then have "signed_in cfg lib w opr (fst (handleSignIn cfg lib w rq ctx s)) x"
      using startSession_cases [of t' cfg lib w opr] assms no by (auto simp: same_access_def)
    with may verified(1-3) show ?thesis by blast
  qed
qed

section \<open>Through the chain\<close>

lemma serve_fst: "fst (serve cfg lib files (w, rq) s) =
    (fst (guarded cfg lib files w rq None s))\<lparr>rs_headers := securityHeaders @
       rs_headers (fst (guarded cfg lib files w rq None s))\<rparr>"
  by (simp add: serve_eq split: prod.splits)

lemma guarded_post:
  assumes "rq_method rq = ''POST''" "rq_csrf rq \<noteq> []"
  shows "rq_path rq = ''/api/signin'' \<Longrightarrow>
      guarded cfg lib files w rq None s = handleSignIn cfg lib w rq (authenticate cfg lib w rq s) s"
    and "rq_path rq = ''/api/setup'' \<Longrightarrow>
      guarded cfg lib files w rq None s = handleSetup cfg lib w rq (authenticate cfg lib w rq s) s"
    and "rq_path rq = ''/api/signout'' \<Longrightarrow> authenticate cfg lib w rq s = Some opr \<Longrightarrow>
      guarded cfg lib files w rq None s = handleSignOut cfg lib w rq (Some opr) s"
  using assms
  by (simp_all add: guarded_eq HasPrefix_api routes_def clean_api unauthenticatedRoutes_def Let_def
      split: option.splits)

lemma guarded_changes:
  assumes "sv_db (snd (guarded cfg lib files w rq None s)) \<noteq> sv_db s"
  obtains (signing_in) "rq_method rq = ''POST''" "rq_csrf rq \<noteq> []" "rq_path rq = ''/api/signin''"
      "guarded cfg lib files w rq None s = handleSignIn cfg lib w rq (authenticate cfg lib w rq s) s"
    | (setting_up) "rq_method rq = ''POST''" "rq_csrf rq \<noteq> []" "rq_path rq = ''/api/setup''"
      "guarded cfg lib files w rq None s = handleSetup cfg lib w rq (authenticate cfg lib w rq s) s"
    | (signing_out) opr where "rq_method rq = ''POST''" "rq_csrf rq \<noteq> []" "rq_path rq = ''/api/signout''"
      "authenticate cfg lib w rq s = Some opr"
      "guarded cfg lib files w rq None s = handleSignOut cfg lib w rq (Some opr) s"
proof -
  have "\<not> (rq_method rq \<noteq> ''POST'' \<or> rq_csrf rq = [] \<or>
    rq_path rq \<notin> {''/api/setup'', ''/api/signin'', ''/api/signout''} \<or>
    rq_path rq = ''/api/signout'' \<and> authenticate cfg lib w rq s = None)"
    using guarded_frame [of rq cfg lib w s files None] assms by metis
  then have p: "rq_method rq = ''POST''" "rq_csrf rq \<noteq> []"
    and "rq_path rq = ''/api/setup'' \<or> rq_path rq = ''/api/signin'' \<or>
      rq_path rq = ''/api/signout'' \<and> (\<exists>opr. authenticate cfg lib w rq s = Some opr)"
    by auto
  then show thesis using that guarded_post [OF p] by metis
qed

lemma RedeemSetupToken_sessions:
  "sessions (snd (RedeemSetupToken q clk clk' h e n p d)) = sessions d"
  using RedeemSetupToken_cases [of q clk clk' h e n p d] RedeemSetupToken_ok(2) by fastforce

text \<open>How a redemption through the handler ends: the one step that matters, then the trail.\<close>

lemma redeemSetup_cases:
  fixes lib w body e h s
  defines "x \<equiv> RedeemSetupToken (w_store w Write) (w_clock w Write) (w_commit w)
      (HashToken (lib_sha256 lib) (su_Token body)) e (su_Name body) h (sv_db s)"
  obtains (made) owner where "fst x = Inr owner"
      "same_access (s\<lparr>sv_db := snd x\<rparr>) (snd (redeemSetup lib w body e h s))"
      "fst (redeemSetup lib w body e h s) = writeJSON 201 (JObj [(''operator'', operatorBody owner)])"
    | (refused) err where "fst x = Inl err" "same_access s (snd (redeemSetup lib w body e h s))"
      "fst (redeemSetup lib w body e h s) =
        (if err = ErrNotFound then writeJSON 403 (errorBody setupTokenRefusal)
         else if err = ErrOwnerExists \<or> err = ErrExists then writeJSON 409 (errorBody setupOwnerRefusal)
         else writeJSON 500 (errorBody ''this dokkup could not create the owner''))"
proof (cases "fst x")
  case (Inr owner)
  then have "on_db (RedeemSetupToken (w_store w Write) (w_clock w Write) (w_commit w)
      (HashToken (lib_sha256 lib) (su_Token body)) e (su_Name body) h) s = (Inr owner, s\<lparr>sv_db := snd x\<rparr>)"
    unfolding on_db_eq x_def by simp
  then show thesis using made [OF Inr] Record_frame
    by (simp add: redeemSetup_def Let_def)
next
  case (Inl err)
  then have "snd x = sv_db s" unfolding x_def using RedeemSetupToken_error by blast
  then have "on_db (RedeemSetupToken (w_store w Write) (w_clock w Write) (w_commit w)
      (HashToken (lib_sha256 lib) (su_Token body)) e (su_Name body) h) s = (Inl err, s)"
    unfolding on_db_eq using Inl x_def by simp
  moreover have "same_access s s" by (simp add: same_access_def)
  ultimately show thesis using refused [OF Inl] rejectSetup_frame
    by (cases err) (simp_all add: redeemSetup_def)
qed

text \<open>And what it takes to get there.\<close>

lemma handleSetup_cases:
  obtains (redeemed) body h t where
      "map_option setup_request (lib_setup lib (take setupBodyLimit (rq_body rq))) = Some body"
      "sv_db t = sv_db s" "HashPassword (lib_idkey lib) (w_salt w) (su_Password body) = Some h"
      "minPasswordBytes \<le> length (su_Password body)" "length (su_Password body) \<le> maxPasswordBytes"
      "normaliseEmail (su_Email body) \<noteq> []" "length (normaliseEmail (su_Email body)) \<le> maxEmailBytes"
      "handleSetup cfg lib w rq ctx s = redeemSetup lib w body (normaliseEmail (su_Email body)) h t"
    | (other) "same_access s (snd (handleSetup cfg lib w rq ctx s))"
      "rs_status (fst (handleSetup cfg lib w rq ctx s)) \<noteq> 201"
proof -
  obtain allowed wait lim where lim: "take_token (w_limiter w) (sv_setupLimiter s) = ((allowed, wait), lim)"
    by (metis prod.exhaust)
  define s1 where "s1 = s\<lparr>sv_setupLimiter := lim\<rparr>"
  have s1: "sv_db s1 = sv_db s" "same_access s s1" by (simp_all add: s1_def same_access_def)
  note unf = handleSetup_def lim Let_def s1_def [symmetric]
  note rej = same_access_db [OF s1(1) rejectSetup_frame]
  show thesis
  proof (cases "allowed \<and> cfg_Store cfg")
    case False
    then show thesis using other s1 by (auto simp: unf split: if_splits)
  next
    case True
    then have c: "allowed" "cfg_Store cfg" by simp_all
    show thesis
    proof (cases "map_option setup_request (lib_setup lib (take setupBodyLimit (rq_body rq)))")
      case None
      then show thesis using other rej by (simp add: unf c)
    next
      case (Some body)
      obtain email inv where v: "validateSetup body = (email, inv)" by (cases "validateSetup body")
      then have email: "email = normaliseEmail (su_Email body)"
        by (auto simp: validateSetup_def Let_def normaliseEmail_def split: if_splits)
      show thesis
      proof (cases inv)
        case inv: (Some mt)
        then show thesis using other rej by (cases mt) (simp add: unf c Some v)
      next
        case None
        then have fits: "email \<noteq> []" "length email \<le> maxEmailBytes"
          "minPasswordBytes \<le> length (su_Password body)" "length (su_Password body) \<le> maxPasswordBytes"
          using v by (auto simp: validateSetup_def Let_def split: if_splits)
        have h: "handleSetup cfg lib w rq ctx s = validSetup lib w body email s1"
          by (simp add: unf c Some v None)
        show thesis
        proof (cases "HasOwner (w_store w ReadOwner) (sv_db s1) = Inr False \<and>
            HashPassword (lib_idkey lib) (w_salt w) (su_Password body) \<noteq> None")
          case True
          then obtain ph where "HashPassword (lib_idkey lib) (w_salt w) (su_Password body) = Some ph" by blast
          with True h show thesis
            by (intro redeemed [of body s1 ph]) (use fits email Some s1 in \<open>simp_all add: validSetup_def\<close>)
        next
          case False
          then show thesis using other h rej s1
            by (auto simp: validSetup_def split: sum.splits option.splits)
        qed
      qed
    qed
  qed
qed

lemma handleSetup_sessions: "sessions (sv_db (snd (handleSetup cfg lib w rq ctx s))) = sessions (sv_db s)"
proof (cases rule: handleSetup_cases [of lib rq s w cfg ctx])
  case (redeemed body h t)
  then show ?thesis
    using RedeemSetupToken_sessions
    by (cases rule: redeemSetup_cases [of w lib body "normaliseEmail (su_Email body)" h t])
      (auto simp: same_access_def)
qed (simp add: same_access_def)

section \<open>Sessions\<close>

lemma handleSignOut_sessions:
  "set (sessions (sv_db (snd (handleSignOut cfg lib w rq (Some opr) s)))) \<subseteq> set (sessions (sv_db s))"
proof (cases "rq_cookie rq")
  case None
  then show ?thesis using endSession_frame [of s cfg w opr] by (simp add: handleSignOut_def same_access_def)
next
  case (Some token)
  define x where "x = on_db (RevokeSession (w_store w Write) (HashToken (lib_sha256 lib) token)) s"
  have "snd (handleSignOut cfg lib w rq (Some opr) s) \<in> {snd x, snd (endSession cfg w opr (snd x))}"
    unfolding handleSignOut_def Some
    by (simp add: x_def [symmetric]) (auto split: prod.splits sum.splits store_error.splits)
  moreover have "set (sessions (sv_db (snd x))) \<subseteq> set (sessions (sv_db s))"
    by (auto simp: x_def RevokeSession_db sql_simps)
  ultimately show ?thesis using endSession_frame [of "snd x" cfg w opr] by (auto simp: same_access_def)
qed

text \<open>
  C5: A session comes to exist in one way: a POST to sign-in with the CSRF header whose body gives the
  address of an operator and a password that verifies against that operator's stored hash, the
  operator being the owner when dokkup is in IP Mode. The row is theirs, expires seven days on, and
  is keyed by the hash of a token drawn for it, which the response hands over in the one cookie it
  sets, and nowhere else does a response set a live cookie.
\<close>

theorem session_only_by_password:
  assumes "x \<in> set (sessions (sv_db (snd (serve cfg lib files (w, rq) s))))"
    and "x \<notin> set (sessions (sv_db s))"
  shows "rq_method rq = ''POST'' \<and> rq_csrf rq \<noteq> [] \<and> rq_path rq = ''/api/signin'' \<and>
    (\<exists>email password opr. lib_signin lib (take signinBodyLimit (rq_body rq)) = Some (email, password) \<and>
       opr \<in> set (operators (sv_db s)) \<and> op_email opr = normaliseEmail email \<and>
       may_sign_in cfg lib password opr \<and> signed_in cfg lib w opr (fst (serve cfg lib files (w, rq) s)) x)"
proof -
  have x: "x \<in> set (sessions (sv_db (snd (guarded cfg lib files w rq None s))))"
    using assms(1) by (simp add: serve_db)
  then have "sv_db (snd (guarded cfg lib files w rq None s)) \<noteq> sv_db s" using assms(2) by auto
  then show ?thesis
  proof (cases rule: guarded_changes)
    case signing_in
    have "signed_in cfg lib w opr (fst (serve cfg lib files (w, rq) s)) x =
        signed_in cfg lib w opr (fst (guarded cfg lib files w rq None s)) x" for opr
      by (auto simp: serve_eq signed_in_def split: prod.splits)
    with signing_in x assms(2) handleSignIn_sessions show ?thesis by metis
  next
    case setting_up
    then show ?thesis using x assms(2) by (simp add: handleSetup_sessions)
  next
    case (signing_out opr)
    then show ?thesis using x assms(2) handleSignOut_sessions by fastforce
  qed
qed

definition acceptable :: "string \<Rightarrow> string \<Rightarrow> bool" where
  "acceptable email password \<longleftrightarrow>
     email \<noteq> [] \<and> length email \<le> maxEmailBytes \<and> length password \<le> maxPasswordBytes"

lemma verified_frames [simp]:
  "sv_verified (recordRejectedSignIn w a s) = sv_verified s"
  "sv_verified (snd (rejectSignIn w a s)) = sv_verified s"
  by (simp_all add: recordRejectedSignIn_def rejectSignIn_def Let_def)

lemma startSession_verified: "sv_verified (snd (startSession cfg lib w opr s)) = sv_verified s"
  by (auto simp: startSession_def Let_def on_db_eq split: option.splits prod.splits sum.splits)

lemma verifiedSignIn_verified:
  "sv_verified (snd (verifiedSignIn cfg lib w a password opr s)) = sv_verified s @ [(op_password_hash opr, password)]"
  by (auto simp: verifiedSignIn_def verifyPassword_def startSession_verified split: sum.splits)

text \<open>
  C11: The refusal of a sign-in says nothing of why. When the attempt is let through, parses, and its
  operator can be read, then the answer is the one 401 whenever the address is unknown, missing or
  too long, the password is too long, wrong, or cannot be checked, or IP Mode keeps this operator
  out: status, headers and body are one value for all of them. An attempt of an acceptable size
  moreover verifies exactly one hash, whether there is such an operator or not.
\<close>

theorem refusals_are_alike:
  assumes "fst (take_token (w_limiter w) (sv_signinLimiter s)) = (True, wait)" "cfg_Store cfg"
    and "lib_signin lib (take signinBodyLimit (rq_body rq)) = Some (body_email, password)"
    and "\<not> fails (w_store w ReadOperator) 0"
  shows "(acceptable (normaliseEmail body_email) password \<longrightarrow>
      (\<exists>hash. sv_verified (snd (handleSignIn cfg lib w rq ctx s)) = sv_verified s @ [(hash, password)])) \<and>
    (\<not> acceptable (normaliseEmail body_email) password \<or>
     (\<forall>opr \<in> set (operators (sv_db s)). op_email opr = normaliseEmail body_email \<longrightarrow>
        \<not> may_sign_in cfg lib password opr) \<longrightarrow>
      fst (handleSignIn cfg lib w rq ctx s) = writeJSON 401 (errorBody signinRefusal))"
proof -
  obtain lim where lim: "take_token (w_limiter w) (sv_signinLimiter s) = ((True, wait), lim)"
    using assms(1) by (metis prod.collapse)
  define s1 where "s1 = s\<lparr>sv_signinLimiter := lim\<rparr>"
  have s1: "sv_db s1 = sv_db s" "sv_verified s1 = sv_verified s" by (simp_all add: s1_def)
  define email where "email = normaliseEmail body_email"
  have e: "ToLower (TrimSpace body_email) = email" "length (TrimSpace body_email) = length email"
    by (simp_all add: email_def normaliseEmail_def)
  note unf = handleSignIn_def lim Let_def s1_def [symmetric]
  show ?thesis
  proof (cases "acceptable email password")
    case False
    then have "fst (handleSignIn cfg lib w rq ctx s) = writeJSON 401 (errorBody signinRefusal)"
      using assms(2,3) by (simp add: unf e acceptable_def not_le disj_imp)
    with False show ?thesis by (simp add: email_def)
  next
    case True
    then have h: "handleSignIn cfg lib w rq ctx s = lookupSignIn cfg lib w email password s1"
      using assms(2,3) by (simp add: unf e acceptable_def not_less)
    show ?thesis
    proof (cases "OperatorByEmail (w_store w ReadOperator) email (sv_db s)")
      case (Inl err)
      then have "err = ErrNotFound"
        using assms(4) by (auto simp: OperatorByEmail_def scanOperator_def query_row_def Let_def call_ok
            notFound_def split: list.splits)
      with Inl have "lookupSignIn cfg lib w email password s1 =
          rejectSignIn w (audited 0 auditSessionRejected email)
            (snd (verifyPassword lib (fst (dummyPasswordHash lib w s1)) password (snd (dummyPasswordHash lib w s1))))"
        by (simp add: lookupSignIn_def s1 Let_def split_beta)
      then show ?thesis by (auto simp: h verifyPassword_def s1)
    next
      case (Inr opr)
      define a where "a = audited 0 auditSessionRejected email"
      have v: "handleSignIn cfg lib w rq ctx s = verifiedSignIn cfg lib w a password opr s1"
        by (simp add: h lookupSignIn_def s1 Inr Let_def a_def)
      have "fst (handleSignIn cfg lib w rq ctx s) = writeJSON 401 (errorBody signinRefusal)"
        if "\<not> may_sign_in cfg lib password opr"
        using verifiedSignIn_cases [of cfg lib password opr s1 w a] that by (auto simp: v)
      with OperatorByEmail_Inr [OF Inr] show ?thesis
        using True by (auto simp: v verifiedSignIn_verified s1 email_def)
    qed
  qed
qed

lemma signed_out_guarded:
  assumes "rq_path rq = ''/api/signout''" "rs_status (fst (guarded cfg lib files w rq None s)) = 204"
  obtains opr where "authenticate cfg lib w rq s = Some opr"
    "guarded cfg lib files w rq None s = handleSignOut cfg lib w rq (Some opr) s"
  using assms
  by (auto simp: guarded_eq HasPrefix_api routes_def clean_api unauthenticatedRoutes_def Let_def
      methodNotAllowed_def safe_method_def split: if_splits option.splits)

lemma live_same_access: "same_access s s' \<Longrightarrow> live t (sv_db s') = live t (sv_db s)"
  by (simp add: live_def same_access_def)

lemma fst_endSession [simp]:
  "fst (endSession cfg w opr s) = \<lparr>rs_status = 204, rs_headers = [], rs_cookies = [clearedSessionCookie cfg],
     rs_content = NoContent\<rparr>"
  by (simp add: endSession_def Let_def)

text \<open>
  Signing out takes effect in the database: when a sign-out that presented a token is answered
  204, that token is nobody's session at any instant, every other session is as it was, and the
  response empties the cookie under the name, path and flags it was set with.
\<close>

theorem sign_out_revokes:
  assumes "wf_db (sv_db s)" "rq_path rq = ''/api/signout''" "rq_cookie rq = Some token"
    and "rs_status (fst (serve cfg lib files (w, rq) s)) = 204"
  shows "live t (sv_db (snd (serve cfg lib files (w, rq) s))) =
      (live t (sv_db s))(HashToken (lib_sha256 lib) token := None) \<and>
    rs_cookies (fst (serve cfg lib files (w, rq) s)) = [clearedSessionCookie cfg]"
proof -
  have st: "rs_status (fst (guarded cfg lib files w rq None s)) = 204"
    using assms(4) by (simp add: serve_eq split: prod.splits)
  obtain opr where g: "guarded cfg lib files w rq None s = handleSignOut cfg lib w rq (Some opr) s"
    using signed_out_guarded [OF assms(2) st] by blast
  define f where "f = RevokeSession (w_store w Write) (HashToken (lib_sha256 lib) token)"
  obtain res d where fd: "f (sv_db s) = (res, d)" by (cases "f (sv_db s)")
  define s1 where "s1 = s\<lparr>sv_db := d\<rparr>"
  have h: "handleSignOut cfg lib w rq (Some opr) s = (case res of Inl ErrNotFound \<Rightarrow> endSession cfg w opr s1
      | Inl err \<Rightarrow> (writeJSON 500 (errorBody ''this dokkup could not end that session''), s1)
      | Inr _ \<Rightarrow> endSession cfg w opr s1)"
    by (simp add: handleSignOut_def assms(3) f_def [symmetric] on_db_def fd s1_def [symmetric])
  then have r: "res = Inl ErrNotFound \<or> (\<exists>u. res = Inr u)"
    and e: "guarded cfg lib files w rq None s = endSession cfg w opr s1"
    using st unfolding g by (auto split: sum.splits store_error.splits)
  then have "\<not> fails (w_store w Write) 0"
    using fd by (auto simp: f_def RevokeSession_def call_def)
  then have "live t d = (live t (sv_db s))(HashToken (lib_sha256 lib) token := None)"
    using live_RevokeSession [OF assms(1), of "w_store w Write"] fd by (simp add: f_def) (metis snd_conv)
  moreover have "live t (sv_db (snd (endSession cfg w opr s1))) = live t d"
    using live_same_access [OF endSession_frame [of s1]] by (simp add: s1_def)
  ultimately show ?thesis
    using e by (simp add: serve_db serve_fst)
qed

section \<open>The owner\<close>

text \<open>Signing in and out leave the operators and the setup tokens alone.\<close>

definition same_operators :: "server \<Rightarrow> server \<Rightarrow> bool" where
  "same_operators s s' \<longleftrightarrow> operators (sv_db s') = operators (sv_db s) \<and>
     setup_tokens (sv_db s') = setup_tokens (sv_db s)"

lemma same_operators_access: "sv_db t = sv_db s \<Longrightarrow> same_access t u \<Longrightarrow> same_operators s u"
  by (simp add: same_access_def same_operators_def)

lemma startSession_operators: "sv_db t = sv_db s \<Longrightarrow> same_operators s (snd (startSession cfg lib w opr t))"
  using startSession_cases [of t cfg lib w opr] by (auto simp: same_operators_def same_access_def)

lemma verifiedSignIn_operators: "sv_db t = sv_db s \<Longrightarrow> same_operators s (snd (verifiedSignIn cfg lib w a p opr t))"
  using verifiedSignIn_cases [of cfg lib p opr t w a] startSession_operators
    same_operators_access [OF _ rejectSignIn_frame]
  by (auto split: if_splits)

lemma lookupSignIn_operators: "sv_db t = sv_db s \<Longrightarrow> same_operators s (snd (lookupSignIn cfg lib w e p t))"
proof (cases "OperatorByEmail (w_store w ReadOperator) e (sv_db t)")
  case (Inl err)
  assume "sv_db t = sv_db s"
  with Inl show ?thesis
    using same_operators_access [OF _ rejectSignIn_frame]
    by (cases err) (simp_all add: lookupSignIn_def Let_def verifyPassword_def split_beta,
        simp_all add: same_operators_def)
qed (simp add: lookupSignIn_def verifiedSignIn_operators Let_def)

lemma handleSignIn_operators: "same_operators s (snd (handleSignIn cfg lib w rq ctx s))"
  by (auto simp: handleSignIn_def Let_def split: prod.splits option.splits
      intro!: lookupSignIn_operators same_operators_access [OF _ rejectSignIn_frame]
        same_operators_access [OF _ recordRejected_frame])
    (simp_all add: same_operators_def)

lemma handleSignOut_operators: "same_operators s (snd (handleSignOut cfg lib w rq (Some opr) s))"
proof (cases "rq_cookie rq")
  case None
  then show ?thesis by (simp add: handleSignOut_def same_operators_access [OF _ endSession_frame])
next
  case (Some token)
  define x where "x = on_db (RevokeSession (w_store w Write) (HashToken (lib_sha256 lib) token)) s"
  have "snd (handleSignOut cfg lib w rq (Some opr) s) \<in> {snd x, snd (endSession cfg w opr (snd x))}"
    unfolding handleSignOut_def Some
    by (simp add: x_def [symmetric]) (auto split: prod.splits sum.splits store_error.splits)
  moreover have "same_operators s (snd x)" by (simp add: x_def same_operators_def RevokeSession_db sql_simps)
  ultimately show ?thesis
    using endSession_frame [of "snd x" cfg w opr] by (auto simp: same_access_def same_operators_def)
qed

definition owner_made :: "lib \<Rightarrow> world \<Rightarrow> request \<Rightarrow> db \<Rightarrow> operator \<Rightarrow> bool" where
  "owner_made lib w rq d r \<longleftrightarrow>
     (\<exists>token email name password h.
        lib_setup lib (take setupBodyLimit (rq_body rq)) = Some (token, email, name, password) \<and>
        live_token (w_clock w Write) (HashToken (lib_sha256 lib) token) d \<and>
        12 \<le> length password \<and> length password \<le> 1024 \<and>
        HashPassword (lib_idkey lib) (w_salt w) password = Some h \<and>
        op_is_owner r \<and> op_email r = normaliseEmail email \<and> op_name r = name \<and> op_password_hash r = h)"

text \<open>
  C6: An operator comes to exist over HTTP in one way: a POST to setup with the CSRF header, while there
  is no owner, whose token is a live Setup Token by its hash. The new row is the owner, under the
  normalised address of the body, with a hash of the password of the body, which is between 12 and
  1024 bytes; the token is gone with it; and the answer is 201 and sets no cookie.
\<close>

theorem owner_only_by_token:
  assumes "operators (sv_db (snd (serve cfg lib files (w, rq) s))) \<noteq> operators (sv_db s)"
  shows "rq_method rq = ''POST'' \<and> rq_csrf rq \<noteq> [] \<and> rq_path rq = ''/api/setup'' \<and> \<not> has_owner (sv_db s) \<and>
    (\<exists>r. owner_made lib w rq (sv_db s) r \<and>
       operators (sv_db (snd (serve cfg lib files (w, rq) s))) = operators (sv_db s) @ [r]) \<and>
    rs_status (fst (serve cfg lib files (w, rq) s)) = 201 \<and>
    rs_cookies (fst (serve cfg lib files (w, rq) s)) = []"
proof -
  have ch: "operators (sv_db (snd (guarded cfg lib files w rq None s))) \<noteq> operators (sv_db s)"
    using assms by (simp add: serve_db)
  then have "sv_db (snd (guarded cfg lib files w rq None s)) \<noteq> sv_db s" by auto
  then show ?thesis
  proof (cases rule: guarded_changes)
    case signing_in
    then show ?thesis using ch handleSignIn_operators by (simp add: same_operators_def)
  next
    case (signing_out opr)
    then show ?thesis using ch handleSignOut_operators by (simp add: same_operators_def)
  next
    case setting_up
    let ?ctx = "authenticate cfg lib w rq s"
    show ?thesis
    proof (cases rule: handleSetup_cases [of lib rq s w cfg ?ctx])
      case other
      then show ?thesis using ch setting_up by (simp add: same_access_def)
    next
      case (redeemed body h t)
      define x where "x = RedeemSetupToken (w_store w Write) (w_clock w Write) (w_commit w)
        (HashToken (lib_sha256 lib) (su_Token body)) (normaliseEmail (su_Email body)) (su_Name body) h (sv_db t)"
      have g: "guarded cfg lib files w rq None s = redeemSetup lib w body (normaliseEmail (su_Email body)) h t"
        using setting_up redeemed by simp
      show ?thesis
      proof (cases rule: redeemSetup_cases [of w lib body "normaliseEmail (su_Email body)" h t])
        case (refused err)
        then show ?thesis using ch g redeemed(2) by (simp add: same_access_def)
      next
        case (made owner)
        note ok = RedeemSetupToken_ok [OF made(1)]
        have "operators (sv_db (snd (guarded cfg lib files w rq None s))) = operators (sv_db s) @ [owner]"
          using made(2) ok(2) redeemed(2) by (simp add: g same_access_def)
        moreover have "owner_made lib w rq (sv_db s) owner"
          using redeemed ok(1,3) unfolding owner_made_def
          by (auto simp: setup_request_def minPasswordBytes_def maxPasswordBytes_def)
        moreover have "\<not> has_owner (sv_db s)" using ok(4) redeemed(2) by simp
        ultimately show ?thesis
          using setting_up(1-3) made(3) g by (auto simp: serve_db serve_fst)
      qed
    qed
  qed
qed

end
