(* ===== verification/Server_Limits.thy ===== *)
theory Server_Limits
  imports Server_SignIn
begin

text \<open>
  The answers of setup on every branch, what the trail gains from a request, and what the limiters
  let through over time.
\<close>

section \<open>The answers of setup\<close>

lemma HasOwner_outcome: "\<not> fails q 0 \<Longrightarrow> HasOwner q d = Inr (has_owner d)"
  by (simp add: HasOwner_def has_owner_def call_ok)

lemma HashPassword_ne: "HashPassword idkey r p = Some h \<Longrightarrow> h \<noteq> []"
  by (auto simp: HashPassword_def Let_def split: option.splits)

text \<open>
  How a setup that is let through and well formed is answered, when nothing fails: 409 when there
  is an owner, whatever the token; the one 403 when the token is not live, be it unknown, expired or
  spent; 409 again when the address is another operator's; and 201 otherwise.
\<close>

theorem setup_answers:
  assumes "fst (take_token (w_limiter w) (sv_setupLimiter s)) = (True, wait)" "cfg_Store cfg"
    and "lib_setup lib (take setupBodyLimit (rq_body rq)) = Some (token, email, name, password)"
    and "normaliseEmail email \<noteq> []" "length (normaliseEmail email) \<le> 320"
    and "12 \<le> length password" "length password \<le> 1024"
    and "w_salt w = Some salt" "lib_sha256 lib token \<noteq> []"
    and "\<forall>c k. \<not> fails (w_store w c) k"
  shows "let d = sv_db s; answer = fst (handleSetup cfg lib w rq ctx s) in
    if has_owner d then answer = writeJSON 409 (errorBody setupOwnerRefusal)
    else if \<not> live_token (w_clock w Write) (HashToken (lib_sha256 lib) token) d
      then answer = writeJSON 403 (errorBody setupTokenRefusal)
    else if \<exists>r \<in> set (operators d). op_email r = normaliseEmail email
      then answer = writeJSON 409 (errorBody setupOwnerRefusal)
    else rs_status answer = 201"
proof -
  obtain lim where lim: "take_token (w_limiter w) (sv_setupLimiter s) = ((True, wait), lim)"
    using assms(1) by (metis prod.collapse)
  define s1 where "s1 = s\<lparr>sv_setupLimiter := lim\<rparr>"
  have s1: "sv_db s1 = sv_db s" by (simp add: s1_def)
  define body where "body = \<lparr>su_Token = token, su_Email = email, su_Name = name, su_Password = password\<rparr>"
  have v: "validateSetup body = (normaliseEmail email, None)"
    using assms(4-7) by (simp add: validateSetup_def body_def Let_def normaliseEmail_def maxEmailBytes_def
        minPasswordBytes_def maxPasswordBytes_def not_less)
  have h: "handleSetup cfg lib w rq ctx s = validSetup lib w body (normaliseEmail email) s1"
    using assms(2,3) v by (simp add: handleSetup_def lim Let_def s1_def [symmetric] setup_request_def body_def)
  obtain ph where ph: "HashPassword (lib_idkey lib) (w_salt w) password = Some ph" "ph \<noteq> []"
    using HashPassword_ne by (fastforce simp: HashPassword_def assms(8) Let_def)
  show ?thesis
  proof (cases "has_owner (sv_db s)")
    case True
    then show ?thesis using assms(10) by (simp add: h validSetup_def HasOwner_outcome s1)
  next
    case False
    define x where "x = RedeemSetupToken (w_store w Write) (w_clock w Write) (w_commit w)
      (HashToken (lib_sha256 lib) (su_Token body)) (normaliseEmail email) (su_Name body) ph (sv_db s1)"
    have r: "handleSetup cfg lib w rq ctx s = redeemSetup lib w body (normaliseEmail email) ph s1"
      using False assms(10) ph by (simp add: h validSetup_def HasOwner_outcome s1 body_def)
    have "HashToken (lib_sha256 lib) token \<noteq> []"
      using assms(9) length_hex [of "lib_sha256 lib token"] unfolding HashToken_def by force
    define L where "L = live_token (w_clock w Write) (HashToken (lib_sha256 lib) token) (sv_db s)"
    define T where "T = (\<exists>r \<in> set (operators (sv_db s)). op_email r = normaliseEmail email)"
    have nf: "\<forall>k < 6. \<not> fails (w_store w Write) k" using assms(10) by simp
    obtain made where fx: "fst x = (if \<not> L then Inl ErrNotFound else if T then Inl ErrExists else Inr made)"
      using RedeemSetupToken_outcome [OF nf, of "w_clock w Write" "w_commit w"
          "HashToken (lib_sha256 lib) token" "normaliseEmail email" name ph "sv_db s"]
        \<open>HashToken (lib_sha256 lib) token \<noteq> []\<close> assms(4) False ph(2)
      unfolding x_def s1 body_def Let_def L_def [symmetric] T_def [symmetric] normaliseEmail_idem
      by (simp cong: if_cong)
    have "fst (handleSetup cfg lib w rq ctx s) = (if \<not> L then writeJSON 403 (errorBody setupTokenRefusal)
        else if T then writeJSON 409 (errorBody setupOwnerRefusal)
        else writeJSON 201 (JObj [(''operator'', operatorBody made)]))"
      unfolding r
      by (cases rule: redeemSetup_cases [of w lib body "normaliseEmail email" ph s1, folded x_def])
        (use fx in \<open>auto split: if_splits\<close>)
    then show ?thesis using False unfolding Let_def L_def T_def by simp
  qed
qed

section \<open>What the trail gains\<close>

text \<open>
  A row a request may add: of an operator, under their own address; or of nobody, about an address
  of at most 320 bytes.
\<close>

definition entry_ok :: "audit_row \<Rightarrow> bool" where
  "entry_ok a \<longleftrightarrow> (case aud_operator_id a of
       Some _ \<Rightarrow> aud_action a \<in> {auditSessionStarted, auditSessionEnded, auditSessionRejected, auditSetupRedeemed}
     | None \<Rightarrow> aud_action a \<in> {auditSessionRejected, auditSetupRejected} \<and> aud_operator_email a = [] \<and>
         length (aud_target a) \<le> maxEmailBytes) \<and> aud_config_key a = []"

definition trail_gain :: "server \<Rightarrow> server \<Rightarrow> bool" where
  "trail_gain s s' \<longleftrightarrow> audit_entries (sv_db s') = audit_entries (sv_db s) \<or>
     (\<exists>a. audit_entries (sv_db s') = audit_entries (sv_db s) @ [a] \<and> entry_ok a)"

lemma maxEmail_TrimSpace: "length (ToLower (TrimSpace e)) = length (normaliseEmail e)"
  by (simp add: normaliseEmail_def)

lemma trail_gain_refl: "audit_entries (sv_db s') = audit_entries (sv_db s) \<Longrightarrow> trail_gain s s'"
  by (simp add: trail_gain_def)

lemma trail_gain_after: "audit_entries (sv_db t) = audit_entries (sv_db s) \<Longrightarrow> trail_gain t u \<Longrightarrow> trail_gain s u"
  by (simp add: trail_gain_def)

lemma insert_gain:
  assumes "entry_ok a" "sv_db s' = sql_insert_audit a (sv_db s)"
  shows "trail_gain s s'"
proof -
  have "entry_ok (a\<lparr>aud_id := i\<rparr>)" for i
    using assms(1) by (cases "aud_operator_id a") (simp_all add: entry_ok_def)
  then show ?thesis by (simp add: trail_gain_def sql_insert_audit_def assms(2))
qed

lemma Record_gain:
  assumes "wf_db (sv_db s)"
    and "act \<in> {auditSessionStarted, auditSessionEnded, auditSessionRejected, auditSetupRedeemed}"
  shows "trail_gain s (snd (on_db (Record q clk (audited i act target)) s))"
  using Record_db [OF assms(1), of q clk "audited i act target"]
proof (elim disjE bexE conjE)
  fix r
  assume "snd (Record q clk (audited i act target) (sv_db s)) =
    sql_insert_audit (audit_row_of (Some (op_id r)) (op_email r) (audited i act target) (now clk)) (sv_db s)"
  moreover have "entry_ok (audit_row_of (Some (op_id r)) (op_email r) (audited i act target) (now clk))"
    using assms(2) by (simp add: audited_def audit_row_of_def entry_ok_def)
  ultimately show ?thesis by (intro insert_gain) simp_all
qed (simp add: trail_gain_refl)

lemma RecordUnauthenticated_gain:
  assumes "act \<in> {auditSessionRejected, auditSetupRejected}" "length target \<le> maxEmailBytes"
  shows "trail_gain s (snd (on_db (RecordUnauthenticated q clk (audited 0 act target)) s))"
proof (cases "fails q 0")
  case False
  moreover have "act \<noteq> []"
    using assms(1) by (auto simp: auditSessionRejected_def auditSetupRejected_def)
  moreover have "entry_ok (audit_row_of None [] (audited 0 act target) (now clk))"
    using assms by (simp add: audited_def audit_row_of_def entry_ok_def)
  ultimately show ?thesis
    by (intro insert_gain [of "audit_row_of None [] (audited 0 act target) (now clk)"])
      (simp_all add: RecordUnauthenticated_db audited_def)
qed (simp add: trail_gain_refl RecordUnauthenticated_db)

lemma recordRejected_gain:
  assumes "wf_db (sv_db s)" "length target \<le> maxEmailBytes"
  shows "trail_gain s (recordRejectedSignIn w (audited i auditSessionRejected target) s)"
proof (cases "i = 0")
  case True
  then show ?thesis
    using RecordUnauthenticated_gain [of auditSessionRejected target s] assms(2)
    by (simp add: recordRejectedSignIn_def audited_def)
next
  case False
  then show ?thesis
    using Record_gain [OF assms(1), of auditSessionRejected]
    by (simp add: recordRejectedSignIn_def audited_def)
qed

lemma rejectSignIn_gain:
  "wf_db (sv_db s) \<Longrightarrow> length target \<le> maxEmailBytes \<Longrightarrow>
   trail_gain s (snd (rejectSignIn w (audited i auditSessionRejected target) s))"
  by (simp add: rejectSignIn_def recordRejected_gain Let_def)

lemma rejectSetup_gain: "length e \<le> maxEmailBytes \<Longrightarrow> trail_gain s (snd (rejectSetup w c m e s))"
  by (simp add: rejectSetup_def RecordUnauthenticated_gain Let_def)

lemma endSession_gain: "wf_db (sv_db s) \<Longrightarrow> trail_gain s (snd (endSession cfg w opr s))"
  by (simp add: endSession_def Record_gain Let_def)

lemma startSession_gain:
  assumes "wf_db (sv_db s)"
  shows "trail_gain s (snd (startSession cfg lib w opr s))"
proof (cases "NewToken (lib_sha256 lib) (w_token w)")
  case None
  then show ?thesis by (simp add: startSession_def trail_gain_refl)
next
  case (Some th)
  obtain token hash where th: "th = (token, hash)" by (cases th)
  define f where "f = StartSession (w_store w Write) (w_clock w Write) (op_id opr) hash (w_now w + sessionLifetime)"
  obtain res d where fd: "f (sv_db s) = (res, d)" by (cases "f (sv_db s)")
  have d: "audit_entries d = audit_entries (sv_db s)"
    using StartSession_frame [of "w_store w Write" "w_clock w Write" "op_id opr" hash "w_now w + sessionLifetime" "sv_db s"]
      fd by (simp add: f_def)
  have wf: "wf_db d" using wf_StartSession [OF assms] fd unfolding f_def by (metis snd_conv)
  show ?thesis
  proof (cases res)
    case (Inl err)
    then show ?thesis
      by (simp add: startSession_def Some th Let_def f_def [symmetric] on_db_def fd trail_gain_def d)
  next
    case (Inr x)
    have gain: "trail_gain (s\<lparr>sv_db := d\<rparr>) (snd (startSession cfg lib w opr s))"
      using Record_gain [of "s\<lparr>sv_db := d\<rparr>" auditSessionStarted] wf
      by (simp add: startSession_def Some th Let_def f_def [symmetric] on_db_def [of f] fd Inr)
    from trail_gain_after [OF _ gain, of s] d show ?thesis by simp
  qed
qed

lemma verifiedSignIn_gain:
  assumes "wf_db (sv_db s)" "length target \<le> maxEmailBytes"
  shows "trail_gain s (snd (verifiedSignIn cfg lib w (audited 0 auditSessionRejected target) p opr s))"
proof -
  define s1 where "s1 = snd (verifyPassword lib (op_password_hash opr) p s)"
  have s1: "sv_db s1 = sv_db s" by (simp add: s1_def verifyPassword_def)
  have "trail_gain s (snd (rejectSignIn w (audited i auditSessionRejected target) s1))" for i
    using rejectSignIn_gain [of s1 target w i] trail_gain_after [of s1 s] assms s1 by simp
  moreover have "trail_gain s (snd (startSession cfg lib w opr s1))"
    using startSession_gain [of s1] trail_gain_after [of s1 s] assms s1 by simp
  moreover have "(audited 0 auditSessionRejected target)\<lparr>req_operator_id := i\<rparr> = audited i auditSessionRejected target"
    for i by (simp add: audited_def)
  moreover have "verifyPassword lib (op_password_hash opr) p s =
      (VerifyPassword (lib_idkey lib) (op_password_hash opr) p, s1)"
    by (simp add: verifyPassword_def s1_def)
  ultimately show ?thesis
    by (simp add: verifiedSignIn_def split: sum.splits)
qed

lemma lookupSignIn_gain:
  assumes "wf_db (sv_db s)" "length email \<le> maxEmailBytes"
  shows "trail_gain s (snd (lookupSignIn cfg lib w email p s))"
proof (cases "OperatorByEmail (w_store w ReadOperator) email (sv_db s)")
  case (Inl err)
  define t where "t = snd (verifyPassword lib (fst (dummyPasswordHash lib w s)) p (snd (dummyPasswordHash lib w s)))"
  have t: "sv_db t = sv_db s" by (simp add: t_def verifyPassword_def)
  have "trail_gain s (snd (rejectSignIn w (audited 0 auditSessionRejected email) t))"
    using rejectSignIn_gain [of t email w 0] trail_gain_after [of t s] assms t by simp
  with Inl show ?thesis
    by (cases err) (simp_all add: lookupSignIn_def Let_def split_beta t_def trail_gain_refl)
qed (simp add: lookupSignIn_def Let_def verifiedSignIn_gain assms)

lemma handleSignIn_gain:
  assumes "wf_db (sv_db s)"
  shows "trail_gain s (snd (handleSignIn cfg lib w rq ctx s))"
proof -
  obtain allowed wait lim where lim: "take_token (w_limiter w) (sv_signinLimiter s) = ((allowed, wait), lim)"
    by (metis prod.exhaust)
  define s1 where "s1 = s\<lparr>sv_signinLimiter := lim\<rparr>"
  have s1: "sv_db s1 = sv_db s" by (simp add: s1_def)
  have gain: "trail_gain s1 u \<Longrightarrow> trail_gain s u" for u using trail_gain_after [of s1 s u] s1 by simp
  note unf = handleSignIn_def lim Let_def s1_def [symmetric]
  show ?thesis
  proof (cases "allowed \<and> cfg_Store cfg")
    case False
    then show ?thesis by (auto simp: unf s1 intro!: trail_gain_refl)
  next
    case True
    show ?thesis
    proof (cases "lib_signin lib (take signinBodyLimit (rq_body rq))")
      case None
      then show ?thesis using True recordRejected_gain [of s1 "[]" w 0] assms
        by (simp add: unf gain s1)
    next
      case (Some ep)
      obtain body_email password where ep: "ep = (body_email, password)" by (cases ep)
      define email where "email = normaliseEmail body_email"
      have e: "ToLower (TrimSpace body_email) = email" "length (TrimSpace body_email) = length email"
        by (simp_all add: email_def normaliseEmail_def)
      have target: "(audited 0 auditSessionRejected email)\<lparr>req_target := []\<rparr> = audited 0 auditSessionRejected []"
        by (simp add: audited_def)
      show ?thesis
      proof (cases "acceptable email password")
        case False
        define target where "target = (if length email > maxEmailBytes then [] else email)"
        have "snd (handleSignIn cfg lib w rq ctx s) =
            snd (rejectSignIn w (audited 0 auditSessionRejected target) s1)"
          using False True \<open>(audited 0 auditSessionRejected email)\<lparr>req_target := []\<rparr> = _\<close>
          by (auto simp: unf Some ep e acceptable_def target_def)
        then show ?thesis using rejectSignIn_gain [of s1 target w 0] assms
          by (simp add: gain s1 target_def)
      next
        case ok: True
        then have "handleSignIn cfg lib w rq ctx s = lookupSignIn cfg lib w email password s1"
          using True by (simp add: unf Some ep e acceptable_def not_less)
        then show ?thesis using lookupSignIn_gain [of s1 email] ok assms
          by (simp add: gain s1 acceptable_def)
      qed
    qed
  qed
qed

lemma redeemSetup_gain:
  assumes "wf_db (sv_db s)" "length e \<le> maxEmailBytes"
  shows "trail_gain s (snd (redeemSetup lib w body e h s))"
proof -
  define f where "f = RedeemSetupToken (w_store w Write) (w_clock w Write) (w_commit w)
      (HashToken (lib_sha256 lib) (su_Token body)) e (su_Name body) h"
  obtain res d where fd: "f (sv_db s) = (res, d)" by (cases "f (sv_db s)")
  have wf: "wf_db d" using wf_RedeemSetupToken [OF assms(1)] fd unfolding f_def by (metis snd_conv)
  show ?thesis
  proof (cases res)
    case (Inl err)
    then have "d = sv_db s" using RedeemSetupToken_error fd unfolding f_def by (metis fst_conv snd_conv)
    with Inl assms(2) rejectSetup_gain [of e s] show ?thesis
      by (cases err) (simp_all add: redeemSetup_def f_def [symmetric] on_db_def fd trail_gain_refl)
  next
    case (Inr owner)
    then have "audit_entries d = audit_entries (sv_db s)"
      using RedeemSetupToken_ok(2) fd unfolding f_def by (metis (no_types, lifting) fst_conv snd_conv
          db.simps(3) db.update_convs(1) db.update_convs(4) db.surjective db.select_convs(3))
    moreover have "trail_gain (s\<lparr>sv_db := d\<rparr>) (snd (redeemSetup lib w body e h s))"
      using Record_gain [of "s\<lparr>sv_db := d\<rparr>" auditSetupRedeemed] wf
      by (simp add: redeemSetup_def f_def [symmetric] on_db_def [of f] fd Inr Let_def)
    ultimately show ?thesis using trail_gain_after [of "s\<lparr>sv_db := d\<rparr>" s] by simp
  qed
qed

lemma validateSetup_target:
  "validateSetup body = (email, bad) \<Longrightarrow> case bad of None \<Rightarrow> length email \<le> maxEmailBytes
     | Some (message, target) \<Rightarrow> length target \<le> maxEmailBytes"
  by (auto simp: validateSetup_def Let_def split: if_splits)

lemma handleSetup_gain:
  assumes "wf_db (sv_db s)"
  shows "trail_gain s (snd (handleSetup cfg lib w rq ctx s))"
proof -
  obtain allowed wait lim where lim: "take_token (w_limiter w) (sv_setupLimiter s) = ((allowed, wait), lim)"
    by (metis prod.exhaust)
  define s1 where "s1 = s\<lparr>sv_setupLimiter := lim\<rparr>"
  have s1: "sv_db s1 = sv_db s" by (simp add: s1_def)
  have gain: "trail_gain s1 u \<Longrightarrow> trail_gain s u" for u using trail_gain_after [of s1 s u] s1 by simp
  note unf = handleSetup_def lim Let_def s1_def [symmetric]
  have valid: "trail_gain s1 (snd (validSetup lib w body email s1))" if "length email \<le> maxEmailBytes" for body email
    using redeemSetup_gain [of s1 email] rejectSetup_gain [OF that, of s1] that assms
    by (auto simp: validSetup_def s1 trail_gain_refl split: sum.splits option.splits)
  show ?thesis
  proof (cases "allowed \<and> cfg_Store cfg")
    case False
    then show ?thesis by (auto simp: unf s1 intro!: trail_gain_refl)
  next
    case True
    show ?thesis
    proof (cases "map_option setup_request (lib_setup lib (take setupBodyLimit (rq_body rq)))")
      case None
      then show ?thesis using True rejectSetup_gain [of "[]" s1] by (simp add: unf gain)
    next
      case (Some body)
      obtain email inv where v: "validateSetup body = (email, inv)" by (cases "validateSetup body")
      show ?thesis
        using True validateSetup_target [OF v] valid rejectSetup_gain [of _ s1]
        by (auto simp: unf Some v intro!: gain split: option.splits)
    qed
  qed
qed

lemma handleSignOut_gain:
  assumes "wf_db (sv_db s)"
  shows "trail_gain s (snd (handleSignOut cfg lib w rq (Some opr) s))"
proof (cases "rq_cookie rq")
  case None
  then show ?thesis by (simp add: handleSignOut_def endSession_gain assms)
next
  case (Some token)
  define x where "x = on_db (RevokeSession (w_store w Write) (HashToken (lib_sha256 lib) token)) s"
  have "snd (handleSignOut cfg lib w rq (Some opr) s) \<in> {snd x, snd (endSession cfg w opr (snd x))}"
    unfolding handleSignOut_def Some
    by (simp add: x_def [symmetric]) (auto split: prod.splits sum.splits store_error.splits)
  moreover have same: "audit_entries (sv_db (snd x)) = audit_entries (sv_db s)"
    by (simp add: x_def RevokeSession_db sql_simps)
  moreover have "wf_db (sv_db (snd x))" unfolding x_def on_db_simps by (rule wf_revoking(1) [OF assms])
  ultimately show ?thesis
    using trail_gain_refl [OF same] trail_gain_after [OF same endSession_gain] by auto
qed

lemmas route_gain = handleSignIn_gain handleSetup_gain handleSignOut_gain

text \<open>429 is the limiter's answer and nothing else's.\<close>

lemma startSession_status: "rs_status (fst (startSession cfg lib w opr s)) \<in> {200, 500}"
  by (auto simp: startSession_def Let_def split: option.splits prod.splits sum.splits)

lemma verifiedSignIn_status: "rs_status (fst (verifiedSignIn cfg lib w a p opr s)) \<in> {200, 401, 500}"
proof (cases "may_sign_in cfg lib p opr")
  case True
  then obtain t where "verifiedSignIn cfg lib w a p opr s = startSession cfg lib w opr t"
    using verifiedSignIn_cases [of cfg lib p opr s w a] by auto
  then show ?thesis using startSession_status [of cfg lib w opr t] by auto
next
  case False
  then show ?thesis using verifiedSignIn_cases [of cfg lib p opr s w a] by auto
qed

lemma lookupSignIn_status: "rs_status (fst (lookupSignIn cfg lib w e p s)) \<in> {200, 401, 500}"
proof (cases "OperatorByEmail (w_store w ReadOperator) e (sv_db s)")
  case (Inl err)
  then show ?thesis by (cases err) (simp_all add: lookupSignIn_def Let_def split_beta)
qed (use verifiedSignIn_status in \<open>simp add: lookupSignIn_def Let_def\<close>)

lemma handleSignIn_429:
  "rs_status (fst (handleSignIn cfg lib w rq ctx s)) = 429 \<longleftrightarrow>
     \<not> fst (fst (take_token (w_limiter w) (sv_signinLimiter s)))"
proof -
  obtain allowed wait lim where lim: "take_token (w_limiter w) (sv_signinLimiter s) = ((allowed, wait), lim)"
    by (metis prod.exhaust)
  have l: "rs_status (fst (lookupSignIn cfg lib w e p t)) \<noteq> 429" for e p t
    using lookupSignIn_status [of cfg lib w e p t] by auto
  show ?thesis
  proof (cases "allowed \<and> cfg_Store cfg")
    case True
    then show ?thesis
      by (cases "lib_signin lib (take signinBodyLimit (rq_body rq))")
        (simp_all add: handleSignIn_def lim Let_def split_beta l)
  qed (auto simp: handleSignIn_def lim)
qed

lemma redeemSetup_status: "rs_status (fst (redeemSetup lib w body e h s)) \<in> {201, 403, 409, 500}"
  by (cases rule: redeemSetup_cases [of w lib body e h s]) auto

lemma validSetup_status: "rs_status (fst (validSetup lib w body e s)) \<in> {201, 403, 409, 500}"
  using redeemSetup_status by (auto simp: validSetup_def split: sum.splits option.splits)

lemma handleSetup_429:
  "rs_status (fst (handleSetup cfg lib w rq ctx s)) = 429 \<longleftrightarrow>
     \<not> fst (fst (take_token (w_limiter w) (sv_setupLimiter s)))"
proof -
  obtain allowed wait lim where lim: "take_token (w_limiter w) (sv_setupLimiter s) = ((allowed, wait), lim)"
    by (metis prod.exhaust)
  have l: "rs_status (fst (validSetup lib w body e t)) \<noteq> 429" for body e t
    using validSetup_status [of lib w body e t] by auto
  show ?thesis
  proof (cases "allowed \<and> cfg_Store cfg")
    case True
    then show ?thesis
      by (cases "map_option setup_request (lib_setup lib (take setupBodyLimit (rq_body rq)))")
        (simp_all add: handleSetup_def lim Let_def l split: prod.splits option.splits)
  qed (auto simp: handleSetup_def lim)
qed

lemma refused_by_limiter:
  "\<not> fst (fst (take_token (w_limiter w) (sv_signinLimiter s))) \<Longrightarrow> sv_db (snd (handleSignIn cfg lib w rq ctx s)) = sv_db s"
  "\<not> fst (fst (take_token (w_limiter w) (sv_setupLimiter s))) \<Longrightarrow> sv_db (snd (handleSetup cfg lib w rq ctx s)) = sv_db s"
  by (auto simp: handleSignIn_def handleSetup_def Let_def split: prod.splits)

lemma handleSignOut_status: "rs_status (fst (handleSignOut cfg lib w rq ctx s)) \<noteq> 429"
  by (auto simp: handleSignOut_def split: option.splits prod.splits sum.splits store_error.splits)

text \<open>
  A request adds at most one row to the trail, whatever it is. A row that names nobody is a refused
  sign-in or setup and carries at most 320 bytes of address; every other row is one of the four
  actions of an operator. So what a stranger can write into the trail is bounded per request, and a
  request the limiter turns away or a guard refuses writes nothing.
\<close>

theorem trail_gain_bounded:
  assumes "wf_db (sv_db s)"
  shows "let s' = snd (serve cfg lib files (w, rq) s) in trail_gain s s' \<and>
    (sv_db s' \<noteq> sv_db s \<longrightarrow> rs_status (fst (serve cfg lib files (w, rq) s)) \<noteq> 429)"
proof (cases "sv_db (snd (guarded cfg lib files w rq None s)) = sv_db s")
  case True
  then show ?thesis by (simp add: Let_def serve_db trail_gain_refl)
next
  case False
  have st: "rs_status (fst (serve cfg lib files (w, rq) s)) = rs_status (fst (guarded cfg lib files w rq None s))"
    by (simp add: serve_fst)
  have gain: "trail_gain s (snd (serve cfg lib files (w, rq) s))"
    if "trail_gain s (snd (guarded cfg lib files w rq None s))"
    using that by (simp add: trail_gain_def serve_db)
  from False show ?thesis
  proof (cases rule: guarded_changes)
    case signing_in
    then have "fst (fst (take_token (w_limiter w) (sv_signinLimiter s)))"
      using False refused_by_limiter(1) by metis
    then show ?thesis
      using gain handleSignIn_gain [OF assms] signing_in(4) by (simp add: Let_def st handleSignIn_429)
  next
    case setting_up
    then have "fst (fst (take_token (w_limiter w) (sv_setupLimiter s)))"
      using False refused_by_limiter(2) by metis
    then show ?thesis
      using gain handleSetup_gain [OF assms] setting_up(4) by (simp add: Let_def st handleSetup_429)
  next
    case (signing_out opr)
    then show ?thesis
      using gain handleSignOut_gain [OF assms] by (simp add: Let_def st handleSignOut_status)
  qed
qed

section \<open>What the limiters let through\<close>

lemma limiter_frames [simp]:
  "sv_signinLimiter (recordRejectedSignIn w a s) = sv_signinLimiter s"
  "sv_setupLimiter (recordRejectedSignIn w a s) = sv_setupLimiter s"
  "sv_signinLimiter (snd (rejectSignIn w a s)) = sv_signinLimiter s"
  "sv_setupLimiter (snd (rejectSignIn w a s)) = sv_setupLimiter s"
  "sv_signinLimiter (snd (rejectSetup w c m e s)) = sv_signinLimiter s"
  "sv_setupLimiter (snd (rejectSetup w c m e s)) = sv_setupLimiter s"
  "sv_signinLimiter (snd (endSession cfg w opr s)) = sv_signinLimiter s"
  "sv_setupLimiter (snd (endSession cfg w opr s)) = sv_setupLimiter s"
  by (simp_all add: recordRejectedSignIn_def rejectSignIn_def rejectSetup_def endSession_def Let_def)

definition limiters :: "server \<Rightarrow> tokenBucket \<times> tokenBucket" where
  "limiters s = (sv_setupLimiter s, sv_signinLimiter s)"

lemma startSession_limiters: "limiters (snd (startSession cfg lib w opr s)) = limiters s"
  by (auto simp: limiters_def startSession_def Let_def on_db_eq split: option.splits prod.splits sum.splits)

lemma verifiedSignIn_limiters: "limiters (snd (verifiedSignIn cfg lib w a p opr s)) = limiters s"
  using startSession_limiters [of cfg lib w opr "snd (verifyPassword lib (op_password_hash opr) p s)"]
  by (auto simp: verifiedSignIn_def verifyPassword_def limiters_def split: sum.splits)

lemma lookupSignIn_limiters: "limiters (snd (lookupSignIn cfg lib w e p s)) = limiters s"
proof (cases "OperatorByEmail (w_store w ReadOperator) e (sv_db s)")
  case (Inl err)
  then show ?thesis
    by (cases err) (simp_all add: lookupSignIn_def Let_def split_beta limiters_def verifyPassword_def)
qed (simp add: lookupSignIn_def Let_def verifiedSignIn_limiters)

lemma handleSignIn_limiters:
  "limiters (snd (handleSignIn cfg lib w rq ctx s)) =
     (sv_setupLimiter s, snd (take_token (w_limiter w) (sv_signinLimiter s)))"
proof -
  obtain allowed wait lim where lim: "take_token (w_limiter w) (sv_signinLimiter s) = ((allowed, wait), lim)"
    by (metis prod.exhaust)
  define s1 where "s1 = s\<lparr>sv_signinLimiter := lim\<rparr>"
  have s1: "limiters s1 = (sv_setupLimiter s, lim)" by (simp add: s1_def limiters_def)
  have rej: "limiters (snd (rejectSignIn w a t)) = limiters t" "limiters (recordRejectedSignIn w a t) = limiters t" for a t
    by (simp_all add: limiters_def)
  show ?thesis
    by (simp add: handleSignIn_def lim Let_def s1_def [symmetric] rej lookupSignIn_limiters s1 split: option.split)
qed

lemma handleSignOut_limiters: "limiters (snd (handleSignOut cfg lib w rq ctx s)) = limiters s"
  by (auto simp: limiters_def handleSignOut_def on_db_eq split: option.splits prod.splits sum.splits store_error.splits)

lemma redeemSetup_limiters: "limiters (snd (redeemSetup lib w body e h s)) = limiters s"
  by (auto simp: limiters_def redeemSetup_def on_db_eq Let_def split: prod.splits sum.splits store_error.splits)

lemma handleSetup_limiters:
  "limiters (snd (handleSetup cfg lib w rq ctx s)) =
     (snd (take_token (w_limiter w) (sv_setupLimiter s)), sv_signinLimiter s)"
proof -
  obtain allowed wait lim where lim: "take_token (w_limiter w) (sv_setupLimiter s) = ((allowed, wait), lim)"
    by (metis prod.exhaust)
  define s1 where "s1 = s\<lparr>sv_setupLimiter := lim\<rparr>"
  have s1: "limiters s1 = (lim, sv_signinLimiter s)" by (simp add: s1_def limiters_def)
  have rej: "limiters (snd (rejectSetup w c m e t)) = limiters t" for c m e t by (simp add: limiters_def)
  have v: "limiters (snd (validSetup lib w body e t)) = limiters t" for body e t
    by (simp add: validSetup_def rej redeemSetup_limiters split: sum.split option.split)
  show ?thesis
    by (simp add: handleSetup_def lim Let_def s1_def [symmetric] rej v s1 split: option.split prod.split)
qed

text \<open>A request that arrives at the handler of a POST route.\<close>

definition reaches :: "string \<Rightarrow> request \<Rightarrow> bool" where
  "reaches path rq \<longleftrightarrow> rq_method rq = ''POST'' \<and> rq_csrf rq \<noteq> [] \<and> rq_path rq = path"

lemma serve_limiters:
  "limiters (snd (serve cfg lib files (w, rq) s)) =
     (if reaches ''/api/setup'' rq then snd (take_token (w_limiter w) (sv_setupLimiter s)) else sv_setupLimiter s,
      if reaches ''/api/signin'' rq then snd (take_token (w_limiter w) (sv_signinLimiter s)) else sv_signinLimiter s)"
proof -
  have l: "limiters (snd (serve cfg lib files (w, rq) s)) = limiters (snd (guarded cfg lib files w rq None s))"
    by (simp add: serve_eq limiters_def split: prod.splits)
  consider "reaches ''/api/setup'' rq" | "reaches ''/api/signin'' rq"
    | opr where "reaches ''/api/signout'' rq" "authenticate cfg lib w rq s = Some opr"
    | "\<not> reaches ''/api/setup'' rq" "\<not> reaches ''/api/signin'' rq"
      "\<not> reaches ''/api/signout'' rq \<or> authenticate cfg lib w rq s = None"
    by (metis option.exhaust)
  then show ?thesis
  proof cases
    case 1
    then show ?thesis by (simp add: l reaches_def guarded_post handleSetup_limiters)
  next
    case 2
    then show ?thesis by (simp add: l reaches_def guarded_post handleSignIn_limiters)
  next
    case 3
    then show ?thesis by (simp add: l reaches_def guarded_post handleSignOut_limiters) (simp add: limiters_def)
  next
    case 4
    then have "snd (guarded cfg lib files w rq None s) = s"
      by (intro guarded_frame) (auto simp: reaches_def)
    with 4 show ?thesis by (simp add: l) (simp add: limiters_def)
  qed
qed

lemma serve_429:
  "reaches ''/api/signin'' rq \<Longrightarrow> rs_status (fst (serve cfg lib files (w, rq) s)) = 429 \<longleftrightarrow>
     \<not> fst (fst (take_token (w_limiter w) (sv_signinLimiter s)))"
  "reaches ''/api/setup'' rq \<Longrightarrow> rs_status (fst (serve cfg lib files (w, rq) s)) = 429 \<longleftrightarrow>
     \<not> fst (fst (take_token (w_limiter w) (sv_setupLimiter s)))"
  by (simp_all add: reaches_def serve_fst guarded_post handleSignIn_429 handleSetup_429)

text \<open>The answers of a server to a sequence of requests.\<close>

fun serve_all :: "Config \<Rightarrow> lib \<Rightarrow> (string \<Rightarrow> bool) \<Rightarrow> (world \<times> request) list \<Rightarrow> server \<Rightarrow> (request \<times> response) list" where
  "serve_all cfg lib files [] s = []"
| "serve_all cfg lib files (x # xs) s =
     (case serve cfg lib files x s of (r, s') \<Rightarrow> (snd x, r) # serve_all cfg lib files xs s')"

definition passed :: "string \<Rightarrow> (request \<times> response) list \<Rightarrow> nat" where
  "passed path answers = length (filter (\<lambda>(rq, r). reaches path rq \<and> rs_status r \<noteq> 429) answers)"

definition readings :: "string \<Rightarrow> (world \<times> request) list \<Rightarrow> nanos list" where
  "readings path xs = map (\<lambda>(w, rq). w_limiter w) (filter (\<lambda>(w, rq). reaches path rq) xs)"

lemma passed_Cons: "passed path ((rq, r) # as) =
    (if reaches path rq \<and> rs_status r \<noteq> 429 then Suc (passed path as) else passed path as)"
  by (simp add: passed_def)

lemma readings_Cons: "readings path ((w, rq) # xs) =
    (if reaches path rq then w_limiter w # readings path xs else readings path xs)"
  by (simp add: readings_def)

lemma limiter_runs_all:
  "(passed ''/api/signin'' (serve_all cfg lib files xs s) =
     length (filter id (fst (take_tokens (readings ''/api/signin'' xs) (sv_signinLimiter s)))) \<and>
   sv_signinLimiter (fold (serve_step cfg lib files) xs s) =
     snd (take_tokens (readings ''/api/signin'' xs) (sv_signinLimiter s))) \<and>
   passed ''/api/setup'' (serve_all cfg lib files xs s) =
     length (filter id (fst (take_tokens (readings ''/api/setup'' xs) (sv_setupLimiter s)))) \<and>
   sv_setupLimiter (fold (serve_step cfg lib files) xs s) =
     snd (take_tokens (readings ''/api/setup'' xs) (sv_setupLimiter s))"
proof (induction xs arbitrary: s)
  case (Cons x xs)
  obtain w rq where x: "x = (w, rq)" by (cases x)
  obtain r s' where ss: "serve cfg lib files (w, rq) s = (r, s')" by (cases "serve cfg lib files (w, rq) s")
  have st: "serve_step cfg lib files (w, rq) s = s'" by (simp add: serve_step_def ss)
  have l: "sv_setupLimiter s' = (if reaches ''/api/setup'' rq
        then snd (take_token (w_limiter w) (sv_setupLimiter s)) else sv_setupLimiter s)"
      "sv_signinLimiter s' = (if reaches ''/api/signin'' rq
        then snd (take_token (w_limiter w) (sv_signinLimiter s)) else sv_signinLimiter s)"
    using serve_limiters [of cfg lib files w rq s] ss by (simp_all add: limiters_def)
  have q: "reaches ''/api/signin'' rq \<Longrightarrow> (rs_status r \<noteq> 429) = fst (fst (take_token (w_limiter w) (sv_signinLimiter s)))"
    "reaches ''/api/setup'' rq \<Longrightarrow> (rs_status r \<noteq> 429) = fst (fst (take_token (w_limiter w) (sv_setupLimiter s)))"
    using serve_429 [of rq cfg lib files w s] ss by auto
  show ?case
    using Cons.IH [of s'] q
    by (cases "reaches ''/api/setup'' rq"; cases "reaches ''/api/signin'' rq")
      (simp_all add: x st ss passed_Cons readings_Cons l Let_def split_beta)
qed (simp add: passed_def readings_def)

lemmas limiter_runs = limiter_runs_all [THEN conjunct1, THEN conjunct1] limiter_runs_all [THEN conjunct1, THEN conjunct2]
  limiter_runs_all [THEN conjunct2, THEN conjunct1] limiter_runs_all [THEN conjunct2, THEN conjunct2]

lemma minute_bound:
  assumes "\<forall>c \<in> set cs. t \<le> c \<and> c \<le> t + 60000000000" "(of_nat (length cs) :: rat) \<le> 2 ^ 40"
    and b: "bucket_ok b" "tb_burst b = of_int n" "0 \<le> n" "n \<le> 10" "60 / of_int (tb_refill b) * 1000000000 = (of_int n :: rat)"
  shows "length (filter id (fst (take_tokens cs b))) \<le> nat (2 * n)"
proof -
  obtain answers b' where r: "take_tokens cs b = (answers, b')" by fastforce
  have u: "ulp = 1 / 2 ^ 53" by (simp add: ulp_def)
  have n: "(of_int n :: rat) \<le> 10" "0 \<le> (of_int n :: rat)" using b by simp_all
  have "of_nat (length (filter id answers)) \<le> tb_burst b + of_int 60000000000 / of_int (tb_refill b) * (1 + ulp)\<^sup>2
      + of_nat (length cs) * (2 * ulp * tb_burst b)"
    by (rule window_bound [OF b(1) r assms(1)]) simp
  also have "of_int 60000000000 / of_int (tb_refill b) = (of_int n :: rat)" using b(5) by simp
  also have "of_int n * (1 + ulp)\<^sup>2 \<le> of_int n + 1 / 4"
  proof -
    have "of_int n * ((1 + ulp)\<^sup>2 - 1) \<le> 10 * ((1 + ulp)\<^sup>2 - 1)" using n by (intro mult_right_mono) (simp_all add: u)
    also have "\<dots> \<le> 1 / 4" by (simp add: u power2_eq_square)
    finally show ?thesis by (simp add: algebra_simps)
  qed
  also have "of_nat (length cs) * (2 * ulp * tb_burst b) \<le> 2 ^ 40 * (2 * ulp * 10)"
    using assms(2) n by (intro mult_mono) (simp_all add: u b)
  also have "2 ^ 40 * (2 * ulp * 10) \<le> 1 / 4" by (simp add: u)
  finally have "(of_nat (length (filter id answers)) :: rat) < of_int (2 * n + 1)"
    by (simp add: b(2) id_def)
  then have "(of_int (int (length (filter id answers))) :: rat) < of_int (2 * n + 1)"
    by (simp only: of_int_of_nat_eq)
  then have "int (length (filter id answers)) < 2 * n + 1" by (simp only: of_int_less_iff)
  with r show ?thesis by simp
qed

text \<open>
  C12: Guessing is slow. In any minute of a server's life, however its requests are ordered, at most
  twenty sign-in attempts and at most ten setup attempts are let through, everything else being
  answered 429: the burst and what a minute refills. The bound counts the rounding of the
  counter's floating point, for up to 2 ^ 40 requests in the minute.
\<close>

theorem attempts_per_minute:
  assumes "\<forall>(w, rq) \<in> set ys. t \<le> w_limiter w \<and> w_limiter w \<le> t + 60000000000" "length ys \<le> 2 ^ 40"
  shows "let answers = serve_all cfg lib files ys (fold (serve_step cfg lib files) xs (New clk clk' d))
    in passed ''/api/signin'' answers \<le> 20 \<and> passed ''/api/setup'' answers \<le> 10"
proof -
  define s where "s = fold (serve_step cfg lib files) xs (New clk clk' d)"
  note new = New_ok [of clk clk' d]
  have win: "\<forall>c \<in> set (readings path ys). t \<le> c \<and> c \<le> t + 60000000000" for path
    using assms(1) by (auto simp: readings_def)
  have len: "(of_nat (length (readings path ys)) :: rat) \<le> 2 ^ 40" for path
  proof -
    have "length (readings path ys) \<le> 2 ^ 40"
      using assms(2) length_filter_le [of _ ys] unfolding readings_def length_map by (rule order_trans [rotated])
    then have "(of_nat (length (readings path ys)) :: rat) \<le> of_nat (2 ^ 40)" by (simp only: of_nat_le_iff)
    then show ?thesis by simp
  qed
  note bound = minute_bound [OF win len]
  have "sv_signinLimiter s = snd (take_tokens (readings ''/api/signin'' xs) (sv_signinLimiter (New clk clk' d)))"
    "sv_setupLimiter s = snd (take_tokens (readings ''/api/setup'' xs) (sv_setupLimiter (New clk clk' d)))"
    by (simp_all add: s_def limiter_runs)
  then have si: "bucket_ok (sv_signinLimiter s)" "tb_burst (sv_signinLimiter s) = 10" "tb_refill (sv_signinLimiter s) = 6000000000"
    and su: "bucket_ok (sv_setupLimiter s)" "tb_burst (sv_setupLimiter s) = 5" "tb_refill (sv_setupLimiter s) = 12000000000"
    using take_tokens_gain [OF conjunct2 [OF new], of "readings ''/api/signin'' xs"]
      take_tokens_gain [OF conjunct1 [OF new], of "readings ''/api/setup'' xs"]
      take_tokens_frame [of "readings ''/api/signin'' xs" "sv_signinLimiter (New clk clk' d)"]
      take_tokens_frame [of "readings ''/api/setup'' xs" "sv_setupLimiter (New clk clk' d)"]
    by (simp_all add: prod_eq_iff New_def newTokenBucket_def setupBurst_def setupRefill_def
      signinBurst_def signinRefill_def limiter_exact)
  show ?thesis
    unfolding Let_def s_def [symmetric]
    using bound [OF si(1), of 10 "''/api/signin''"] bound [OF su(1), of 5 "''/api/setup''"]
    by (simp add: limiter_runs si su)
qed

end
