(* ===== verification/Server_Examples.thy ===== *)
theory Server_Examples
  imports Server_Limits
begin

text \<open>
  The properties of the server at work: a host with one owner and one operator, a derivation that
  returns one byte, and requests that meet the hypotheses of each theorem.
\<close>

definition demo_lib :: lib where
  "demo_lib = \<lparr>lib_idkey = (\<lambda>p s t m th n. if p = ''let me in, please'' then ''a'' else ''b''),
     lib_sha256 = (\<lambda>s. s), lib_signin = (\<lambda>b. Some (''O@h'', b)),
     lib_setup = (\<lambda>b. Some (''tok'', ''O@h'', ''O'', b))\<rparr>"

definition demo_world :: world where
  "demo_world = \<lparr>w_limiter = 0, w_store = (\<lambda>_. healthy), w_clock = (\<lambda>_. 0), w_commit = 0, w_now = 0,
     w_until = 0, w_token = Some ''a'', w_salt = Some ''salt'', w_filler = Some ''f'',
     w_filler_salt = Some ''s'', w_dokku = Inr ''0.35.0''\<rparr>"

definition demo_cfg :: Config where
  "demo_cfg = \<lparr>cfg_Dokku = True, cfg_Mode = ModePublished, cfg_PlainHTTP = False, cfg_Store = True,
     cfg_Version = ''v1''\<rparr>"

definition demo_operator :: operator where
  "demo_operator = \<lparr>op_id = 1, op_email = ''o@h'', op_name = ''O'',
     op_password_hash = ''$argon2id$v=19$m=1,t=1,p=1$YQ$YQ'', op_is_owner = True,
     op_created_at = 0, op_updated_at = 0\<rparr>"

definition demo_db :: db where
  "demo_db = \<lparr>operators = [demo_operator],
     sessions = [\<lparr>ses_token_hash = HashToken (\<lambda>s. s) ''t'', ses_operator_id = 1, ses_created_at = 0, ses_expires_at = 9\<rparr>],
     audit_entries = [], setup_tokens = []\<rparr>"

definition fresh_db :: db where
  "fresh_db = empty_db\<lparr>setup_tokens :=
     [\<lparr>tok_token_hash = HashToken (\<lambda>s. s) ''tok'', tok_created_at = 0, tok_expires_at = 9\<rparr>]\<rparr>"

definition demo_request :: "string \<Rightarrow> string \<Rightarrow> string \<Rightarrow> request" where
  "demo_request path csrf body = \<lparr>rq_method = ''POST'', rq_path = path, rq_csrf = csrf,
     rq_cookie = Some ''t'', rq_body = body\<rparr>"

lemmas demo_defs = demo_lib_def demo_world_def demo_cfg_def demo_request_def

lemma demo_simps [simp]:
  "lib_sha256 demo_lib = (\<lambda>s. s)" "lib_signin demo_lib b = Some (''O@h'', b)"
  "lib_setup demo_lib b = Some (''tok'', ''O@h'', ''O'', b)"
  "w_limiter demo_world = 0" "w_store demo_world k = healthy" "w_clock demo_world k = 0"
  "w_commit demo_world = 0" "w_now demo_world = 0" "w_until demo_world = 0" "w_token demo_world = Some ''a''"
  "w_salt demo_world = Some ''salt''" "cfg_Store demo_cfg" "cfg_Mode demo_cfg = ModePublished"
  "rq_method (demo_request p c b) = ''POST''" "rq_path (demo_request p c b) = p"
  "rq_csrf (demo_request p c b) = c" "rq_cookie (demo_request p c b) = Some ''t''"
  "rq_body (demo_request p c b) = b"
  by (simp_all add: demo_defs)

lemma hash_letters: "HashToken (\<lambda>s. s) ''t'' = ''74''" "HashToken (\<lambda>s. s) ''tok'' = ''746f6b''"
  by (simp_all add: HashToken_def hex_EncodeToString_def hex_digits_def)

lemma wf_demo: "wf_db demo_db" "wf_db fresh_db"
  by (simp_all add: demo_db_def fresh_db_def demo_operator_def wf_defs operator_ids_def hash_letters
      empty_db_def normaliseEmail_def go_simps)

lemma demo_verify:
  "VerifyPassword (lib_idkey demo_lib) (op_password_hash demo_operator) p = Inr (p = ''let me in, please'')"
  by (simp add: VerifyPassword_def demo_operator_def parse_small_hash demo_lib_def)

lemma f64_9: "f64 9 = 9" "f64 4 = 4"
  by (simp_all add: f64_def f64_pos_def Let_def ilog2_def bits.simps round_half_even_def
      power_int_minus field_simps)

lemma demo_limiters:
  "take_token 0 (sv_signinLimiter (New 0 0 d)) = ((True, 0), \<lparr>tb_tokens = 9, tb_burst = 10, tb_refill = 6000000000, tb_last = 0\<rparr>)"
  "take_token 0 (sv_setupLimiter (New 0 0 d)) = ((True, 0), \<lparr>tb_tokens = 4, tb_burst = 5, tb_refill = 12000000000, tb_last = 0\<rparr>)"
  by (simp_all add: take_token_def refilled_def time_Sub_def New_def newTokenBucket_def limiter_exact f64_9
      setupBurst_def setupRefill_def signinBurst_def signinRefill_def)

section \<open>Guards\<close>

theorem no_session_no_route_witness:
  "rs_status (fst (serve demo_cfg demo_lib (\<lambda>_. False) (demo_world, demo_request ''/api/apps'' ''1'' []) (New 0 0 fresh_db)))
     \<in> {401, 403}"
  using no_session_no_route [of "New 0 0 fresh_db" "demo_request ''/api/apps'' ''1'' []" demo_lib demo_world]
    wf_demo
  by (simp add: New_def demo_defs presented_def live_def fresh_db_def empty_db_def HasPrefix_def)

theorem no_csrf_no_change_witness:
  "rs_status (fst (serve demo_cfg demo_lib (\<lambda>_. False) (demo_world, demo_request ''/api/signout'' [] []) (New 0 0 demo_db))) = 403"
  using no_csrf_no_change [of "demo_request ''/api/signout'' [] []" demo_cfg demo_lib "\<lambda>_. False" demo_world "New 0 0 demo_db"]
  by (simp add: demo_request_def HasPrefix_def)

section \<open>Signing in and out, and setting up\<close>

definition signin_request :: "string \<Rightarrow> request" where
  "signin_request password = demo_request ''/api/signin'' ''1'' password"

abbreviation demo_server :: server where
  "demo_server \<equiv> New 0 0 demo_db"

lemma demo_server_db [simp]: "sv_db (New c c' d) = d"
  by (simp add: New_def)

lemma demo_lookup: "OperatorByEmail healthy ''o@h'' demo_db = Inr demo_operator"
  by (simp add: OperatorByEmail_def demo_db_def demo_operator_def normaliseEmail_def go_simps query_row_def
      scanOperator_def)

lemma demo_email: "ToLower (TrimSpace ''O@h'') = ''o@h''" "normaliseEmail ''O@h'' = ''o@h''"
  by (simp_all add: normaliseEmail_def go_simps)

lemma demo_may: "may_sign_in demo_cfg demo_lib p demo_operator \<longleftrightarrow> p = ''let me in, please''"
  by (simp add: may_sign_in_def demo_verify demo_cfg_def ModeIP_def ModePublished_def)

definition new_session :: session where
  "new_session = \<lparr>ses_token_hash = HashToken (\<lambda>s. s) ''YQ'', ses_operator_id = 1, ses_created_at = 0,
     ses_expires_at = 604800000\<rparr>"

lemma demo_StartSession:
  "StartSession healthy 0 1 (HashToken (\<lambda>s. s) ''YQ'') sessionLifetime demo_db =
     (Inr new_session, demo_db\<lparr>sessions := sessions demo_db @ [new_session]\<rparr>)"
  by (simp add: StartSession_def sessionLifetime_def HashToken_def hex_EncodeToString_def hex_digits_def
      instant_def now_def millis_def sql_insert_session_def demo_db_def demo_operator_def new_session_def Let_def)

lemma demo_signs_in:
  "new_session \<in> set (sessions (sv_db (snd (handleSignIn demo_cfg demo_lib demo_world
     (signin_request ''let me in, please'') ctx demo_server))))"
proof -
  define s1 where "s1 = demo_server\<lparr>sv_signinLimiter :=
    \<lparr>tb_tokens = 9, tb_burst = 10, tb_refill = 6000000000, tb_last = 0\<rparr>\<rparr>"
  have s1: "sv_db s1 = demo_db" by (simp add: s1_def)
  have h: "handleSignIn demo_cfg demo_lib demo_world (signin_request ''let me in, please'') ctx demo_server =
      verifiedSignIn demo_cfg demo_lib demo_world (audited 0 auditSessionRejected ''o@h'') ''let me in, please'' demo_operator s1"
    using demo_limiters(1) [of demo_db]
    by (simp add: handleSignIn_def signin_request_def demo_email s1_def lookupSignIn_def demo_lookup Let_def
        signinBodyLimit_def maxEmailBytes_def maxPasswordBytes_def del: length_ToLower)
  obtain t where t: "sv_db t = demo_db" "verifiedSignIn demo_cfg demo_lib demo_world
      (audited 0 auditSessionRejected ''o@h'') ''let me in, please'' demo_operator s1 =
      startSession demo_cfg demo_lib demo_world demo_operator t"
    using verifiedSignIn_cases [of demo_cfg demo_lib "''let me in, please''" demo_operator s1 demo_world
        "audited 0 auditSessionRejected ''o@h''"] demo_may s1 by auto
  have o: "op_id demo_operator = 1" by (simp add: demo_operator_def)
  have tok: "NewToken (lib_sha256 demo_lib) (w_token demo_world) = Some (''YQ'', HashToken (\<lambda>s. s) ''YQ'')"
    by (simp add: NewToken_def EncodeToString_def url_alphabet_def Let_def)
  have "sessions (sv_db (snd (startSession demo_cfg demo_lib demo_world demo_operator t))) =
      sessions demo_db @ [new_session]"
    using Record_frame [of "t\<lparr>sv_db := demo_db\<lparr>sessions := sessions demo_db @ [new_session]\<rparr>\<rparr>"]
    unfolding startSession_def tok
    by (simp add: Let_def on_db_def [of "StartSession _ _ _ _ _"] t o demo_StartSession
        same_access_def)
  then show ?thesis by (simp add: h t)
qed

lemma guarded_signin:
  "guarded cfg lib files w (signin_request p) None s =
     handleSignIn cfg lib w (signin_request p) (authenticate cfg lib w (signin_request p) s) s"
  by (rule guarded_post(1)) (simp_all add: signin_request_def)

lemma old_session: "new_session \<notin> set (sessions demo_db)"
  by (simp add: demo_db_def new_session_def hash_letters HashToken_def hex_EncodeToString_def hex_digits_def)

theorem session_only_by_password_witness:
  "\<exists>email password opr. lib_signin demo_lib (take signinBodyLimit ''let me in, please'') = Some (email, password) \<and>
     opr \<in> set (operators demo_db) \<and> op_email opr = normaliseEmail email \<and> may_sign_in demo_cfg demo_lib password opr"
proof -
  have "new_session \<in> set (sessions (sv_db (snd (serve demo_cfg demo_lib (\<lambda>_. False)
      (demo_world, signin_request ''let me in, please'') demo_server))))"
    by (simp add: serve_db guarded_signin demo_signs_in)
  from session_only_by_password [OF this] old_session show ?thesis
    by (auto simp: signin_request_def)
qed

theorem change_only_through_guards_witness:
  "rq_csrf (signin_request ''let me in, please'') \<noteq> []"
proof -
  have "sv_db (snd (serve demo_cfg demo_lib (\<lambda>_. False)
      (demo_world, signin_request ''let me in, please'') demo_server)) \<noteq> sv_db demo_server"
    using demo_signs_in old_session by (auto simp: serve_db guarded_signin dest!: arg_cong [of _ demo_db sessions])
      (metis demo_signs_in old_session)
  from change_only_through_guards [OF _ this] wf_demo show ?thesis by simp
qed

theorem refusals_are_alike_witness:
  "fst (handleSignIn demo_cfg demo_lib demo_world (signin_request ''guess'') None demo_server) =
     writeJSON 401 (errorBody signinRefusal) \<and>
   (\<exists>hash. sv_verified (snd (handleSignIn demo_cfg demo_lib demo_world (signin_request ''guess'') None demo_server)) =
     [(hash, ''guess'')])"
  using refusals_are_alike [of demo_world demo_server 0 demo_cfg demo_lib "signin_request ''guess''" "''O@h''" "''guess''" None]
  by (simp add: demo_limiters signin_request_def signinBodyLimit_def demo_may demo_email acceptable_def
      maxEmailBytes_def maxPasswordBytes_def demo_db_def) (simp add: New_def)

theorem sign_out_revokes_witness:
  "live 0 (sv_db (snd (serve demo_cfg demo_lib (\<lambda>_. False) (demo_world, demo_request ''/api/signout'' ''1'' []) demo_server)))
     (HashToken (\<lambda>s. s) ''t'') = None"
proof -
  have a: "authenticate demo_cfg demo_lib demo_world (demo_request ''/api/signout'' ''1'' []) demo_server = Some demo_operator"
    by (simp add: authenticate_def SessionOperator_def session_operator_rows_def demo_db_def demo_operator_def
        query_row_def scanOperator_def now_def millis_def)
  have "rs_status (fst (handleSignOut demo_cfg demo_lib demo_world (demo_request ''/api/signout'' ''1'' []) (Some demo_operator) demo_server)) = 204"
    by (simp add: handleSignOut_def on_db_def RevokeSession_def sql_delete_sessions_def demo_db_def)
  then have "rs_status (fst (serve demo_cfg demo_lib (\<lambda>_. False) (demo_world, demo_request ''/api/signout'' ''1'' []) demo_server)) = 204"
    by (simp add: serve_fst guarded_post(3) a)
  from sign_out_revokes [OF _ _ _ this] wf_demo show ?thesis by simp
qed

definition setup_demo :: request where
  "setup_demo = demo_request ''/api/setup'' ''1'' ''let me in, please''"

lemma has_no_owner: "\<not> has_owner fresh_db" "live_token 0 (HashToken (\<lambda>s. s) ''tok'') fresh_db"
  by (simp_all add: has_owner_def live_token_def fresh_db_def empty_db_def now_def millis_def)

lemma demo_token: "HashToken (\<lambda>s. s) ''tok'' \<noteq> []"
  by (simp add: hash_letters)

theorem setup_answers_witness:
  "rs_status (fst (handleSetup demo_cfg demo_lib demo_world setup_demo None (New 0 0 fresh_db))) = 201"
  using setup_answers [of demo_world "New 0 0 fresh_db" 0 demo_cfg demo_lib setup_demo "''tok''" "''O@h''" "''O''"
      "''let me in, please''" "''salt''" None]
  by (simp add: demo_limiters setup_demo_def setupBodyLimit_def demo_email has_no_owner Let_def)
    (simp add: fresh_db_def empty_db_def)

lemma demo_setup:
  obtains t h where "sv_db t = fresh_db" "h \<noteq> []"
    "handleSetup demo_cfg demo_lib demo_world setup_demo ctx (New 0 0 fresh_db) =
       redeemSetup demo_lib demo_world \<lparr>su_Token = ''tok'', su_Email = ''O@h'', su_Name = ''O'', su_Password = ''let me in, please''\<rparr>
         ''o@h'' h t"
proof -
  define s1 where "s1 = (New 0 0 fresh_db)\<lparr>sv_setupLimiter :=
    \<lparr>tb_tokens = 4, tb_burst = 5, tb_refill = 12000000000, tb_last = 0\<rparr>\<rparr>"
  have s1: "sv_db s1 = fresh_db" by (simp add: s1_def)
  define body where "body = \<lparr>su_Token = ''tok'', su_Email = ''O@h'', su_Name = ''O'', su_Password = ''let me in, please''\<rparr>"
  have v: "validateSetup body = (''o@h'', None)"
    by (simp add: validateSetup_def body_def Let_def demo_email maxEmailBytes_def minPasswordBytes_def
        maxPasswordBytes_def del: length_ToLower)
  obtain h where h: "HashPassword (lib_idkey demo_lib) (Some ''salt'') ''let me in, please'' = Some h" "h \<noteq> []"
    using HashPassword_ne by (fastforce simp: HashPassword_def Let_def)
  have "handleSetup demo_cfg demo_lib demo_world setup_demo ctx (New 0 0 fresh_db) =
      validSetup demo_lib demo_world body ''o@h'' s1"
    using demo_limiters(2) [of fresh_db] v
    by (simp add: handleSetup_def setup_demo_def setupBodyLimit_def setup_request_def body_def s1_def Let_def)
  also have "\<dots> = redeemSetup demo_lib demo_world body ''o@h'' h s1"
    using h(1) by (simp add: validSetup_def HasOwner_outcome has_no_owner s1 body_def)
  finally show thesis using that s1 h(2) unfolding body_def by blast
qed

theorem owner_only_by_token_witness:
  "\<exists>r. owner_made demo_lib demo_world setup_demo fresh_db r"
proof -
  let ?s = "New 0 0 fresh_db"
  let ?ctx = "authenticate demo_cfg demo_lib demo_world setup_demo ?s"
  obtain t h where t: "sv_db t = fresh_db" "h \<noteq> []"
    "handleSetup demo_cfg demo_lib demo_world setup_demo ?ctx ?s =
       redeemSetup demo_lib demo_world \<lparr>su_Token = ''tok'', su_Email = ''O@h'', su_Name = ''O'', su_Password = ''let me in, please''\<rparr>
         ''o@h'' h t"
    by (rule demo_setup)
  have g: "guarded demo_cfg demo_lib (\<lambda>_. False) demo_world setup_demo None ?s =
      handleSetup demo_cfg demo_lib demo_world setup_demo ?ctx ?s"
    by (rule guarded_post(2)) (simp_all add: setup_demo_def)
  have o: "fst (RedeemSetupToken healthy 0 0 (HashToken (\<lambda>s. s) ''tok'') ''o@h'' ''O'' h fresh_db) =
      Inr (demo_operator\<lparr>op_password_hash := h\<rparr>)"
    using t(2) has_no_owner demo_token
    by (subst RedeemSetupToken_outcome) (simp_all add: Let_def normaliseEmail_def go_simps fresh_db_def empty_db_def
        demo_operator_def next_rowid_def now_def millis_def)
  have "operators (sv_db (snd (serve demo_cfg demo_lib (\<lambda>_. False) (demo_world, setup_demo) ?s))) \<noteq> operators (sv_db ?s)"
    unfolding serve_db g t(3)
    by (cases rule: redeemSetup_cases [of demo_world demo_lib "\<lparr>su_Token = ''tok'', su_Email = ''O@h'',
         su_Name = ''O'', su_Password = ''let me in, please''\<rparr>" "''o@h''" h t])
      (use o RedeemSetupToken_ok(2) [OF o] t(1) in \<open>auto simp: same_access_def fresh_db_def empty_db_def\<close>)
  from owner_only_by_token [OF this] show ?thesis by auto
qed

section \<open>The trail and the limiter\<close>

theorem trail_gain_bounded_witness:
  "trail_gain demo_server (snd (serve demo_cfg demo_lib (\<lambda>_. False) (demo_world, signin_request ''guess'') demo_server))"
  using trail_gain_bounded [of demo_server] wf_demo by (simp add: Let_def)

theorem attempts_per_minute_witness:
  "passed ''/api/signin'' (serve_all demo_cfg demo_lib (\<lambda>_. False) (replicate 100 (demo_world, signin_request ''guess''))
     (fold (serve_step demo_cfg demo_lib (\<lambda>_. False)) [(demo_world, setup_demo)] demo_server)) \<le> 20"
proof -
  have "\<forall>(w, rq) \<in> set (replicate 100 (demo_world, signin_request ''guess'')).
      0 \<le> w_limiter w \<and> w_limiter w \<le> 0 + 60000000000" by auto
  from attempts_per_minute [OF this, of demo_cfg demo_lib "\<lambda>_. False" "[(demo_world, setup_demo)]" 0 0 demo_db]
  show ?thesis by (simp only: Let_def length_replicate) simp
qed

end
