(* ===== verification/Release.thy ===== *)
theory Release
  imports Go_Strings Base64 "HOL-Library.Product_Lexorder"
begin

text \<open>
  internal/release: which versions there are, which URL may be fetched, and what makes a downloaded
  binary one that may be installed. The network is an argument: what a GET answers, hop by hop, with
  the way its transfer ends. So are sha256 and the judgement of cosign. The directory the download
  goes to is a map from paths to files.
\<close>

section \<open>Versions\<close>

definition cut_at :: "char \<Rightarrow> string \<Rightarrow> string" where
  "cut_at c s = takeWhile ((\<noteq>) c) s"

definition parse_parts :: "string list \<Rightarrow> (int \<times> int \<times> int) option" where
  "parse_parts parts = (case map Atoi parts of
       [Some a, Some b, Some c] \<Rightarrow> if a < 0 \<or> b < 0 \<or> c < 0 then None else Some (a, b, c)
     | _ \<Rightarrow> None)"

definition parseVersion :: "string \<Rightarrow> (int \<times> int \<times> int) option" where
  "parseVersion version =
     (let version = TrimPrefix (TrimSpace version) ''v'';
          version = cut_at (CHR ''-'') version;
          version = cut_at (CHR ''+'') version
      in parse_parts (Split (CHR ''.'') version))"

definition compare_triple :: "int \<times> int \<times> int \<Rightarrow> int \<times> int \<times> int \<Rightarrow> int" where
  "compare_triple l r = (case (l, r) of ((a, b, c), (x, y, z)) \<Rightarrow>
     if a \<noteq> x then (if a < x then -1 else 1)
     else if b \<noteq> y then (if b < y then -1 else 1)
     else if c \<noteq> z then (if c < z then -1 else 1) else 0)"

definition compare_version :: "string \<Rightarrow> string \<Rightarrow> int" where
  "compare_version a b = (case (parseVersion a, parseVersion b) of
       (None, None) \<Rightarrow> 0 | (None, Some _) \<Rightarrow> -1 | (Some _, None) \<Rightarrow> 1
     | (Some l, Some r) \<Rightarrow> compare_triple l r)"

definition Newer :: "string \<Rightarrow> string \<Rightarrow> bool" where
  "Newer want running \<longleftrightarrow> compare_version want running > 0"

definition SameVersion :: "string \<Rightarrow> string \<Rightarrow> bool" where
  "SameVersion a b \<longleftrightarrow> compare_version a b = 0"

definition IsRelease :: "string \<Rightarrow> bool" where
  "IsRelease version \<longleftrightarrow> parseVersion version \<noteq> None"

text \<open>The regular expression \<^verbatim>\<open>^v[0-9]+\.[0-9]+\.[0-9]+(-[0-9A-Za-z.-]+)?$\<close>.\<close>

definition suffix_char :: "char \<Rightarrow> bool" where
  "suffix_char c \<longleftrightarrow> (let n = of_char c :: nat in
     48 \<le> n \<and> n \<le> 57 \<or> 65 \<le> n \<and> n \<le> 90 \<or> 97 \<le> n \<and> n \<le> 122 \<or> n = 46 \<or> n = 45)"

definition tagPattern :: "string \<Rightarrow> bool" where
  "tagPattern s \<longleftrightarrow>
     (case s of [] \<Rightarrow> False | v # rest \<Rightarrow>
        let base = cut_at (CHR ''-'') rest; suffix = drop (length base) rest; parts = Split (CHR ''.'') base
        in v = CHR ''v'' \<and> length parts = 3 \<and> (\<forall>p \<in> set parts. p \<noteq> [] \<and> (\<forall>c \<in> set p. is_digit c)) \<and>
           (suffix = [] \<or> length suffix \<ge> 2 \<and> (\<forall>c \<in> set (tl suffix). suffix_char c)))"

record Release =
  rel_Tag :: string
  rel_URL :: string

definition Version :: "Release \<Rightarrow> string" where
  "Version r = TrimPrefix (rel_Tag r) ''v''"

section \<open>Where bytes may come from\<close>

record URL =
  url_Scheme :: string
  url_Hostname :: string

definition allowedHost :: "string \<Rightarrow> bool" where
  "allowedHost host \<longleftrightarrow> host = ''github.com'' \<or> host = ''api.github.com'' \<or>
     HasSuffix host ''.githubusercontent.com''"

datatype url_error = NotHTTPS | NotGitHub

text \<open>Which hosts parse as a loopback address (net.ParseIP) is an argument.\<close>

definition allowURL :: "(string \<Rightarrow> bool) \<Rightarrow> URL \<Rightarrow> url_error + unit" where
  "allowURL loopback u =
     (if url_Hostname u = ''localhost'' then Inr ()
      else if loopback (url_Hostname u) then Inr ()
      else if url_Scheme u \<noteq> ''https'' then Inl NotHTTPS
      else if \<not> allowedHost (url_Hostname u) then Inl NotGitHub
      else Inr ())"

text \<open>
  What a GET meets: the hops of its redirects, each of which goes through the transport, and the last
  answer, with its body and how the transfer of the body ends.
\<close>

datatype ending = Complete | Broken | Stalled

record answer =
  ans_hops :: "URL list"
  ans_reply :: "(int \<times> string \<times> ending) option"   \<comment> \<open>status, body; None when no answer came\<close>

type_synonym network = "string \<Rightarrow> answer"

datatype net_error = Refused url_error | NoAnswer | BadStatus int | BrokenOff | Gave_up | TooLarge

definition RoundTrip :: "(string \<Rightarrow> bool) \<Rightarrow> URL \<Rightarrow> net_error + unit" where
  "RoundTrip loopback u = (case allowURL loopback u of Inl err \<Rightarrow> Inl (Refused err) | Inr _ \<Rightarrow> Inr ())"

fun round_trips :: "(string \<Rightarrow> bool) \<Rightarrow> URL list \<Rightarrow> net_error + unit" where
  "round_trips loopback [] = Inr ()"
| "round_trips loopback (u # us) =
     (case RoundTrip loopback u of Inl err \<Rightarrow> Inl err | Inr _ \<Rightarrow> round_trips loopback us)"

definition client_Do :: "(string \<Rightarrow> bool) \<Rightarrow> network \<Rightarrow> string \<Rightarrow> net_error + (int \<times> string \<times> ending)" where
  "client_Do loopback net url =
     (case round_trips loopback (ans_hops (net url)) of Inl err \<Rightarrow> Inl err
      | Inr _ \<Rightarrow> (case ans_reply (net url) of None \<Rightarrow> Inl NoAnswer | Some r \<Rightarrow> Inr r))"

definition maxAssetBytes :: nat where "maxAssetBytes = 209715200"

text \<open>download returns what it wrote beside its error, since the writer has it either way.\<close>

definition download :: "(string \<Rightarrow> bool) \<Rightarrow> network \<Rightarrow> string \<Rightarrow> (net_error + unit) \<times> string" where
  "download loopback net url =
     (case client_Do loopback net url of
        Inl err \<Rightarrow> (Inl err, [])
      | Inr (status, body, end) \<Rightarrow>
        if status \<noteq> 200 then (Inl (BadStatus status), [])
        else let written = take (maxAssetBytes + 1) body in
          if length body \<le> maxAssetBytes \<and> end = Stalled then (Inl Gave_up, written)
          else if length body \<le> maxAssetBytes \<and> end = Broken then (Inl BrokenOff, written)
          else if length written > maxAssetBytes then (Inl TooLarge, written)
          else (Inr (), written))"

section \<open>Finding a release\<close>

record Source =
  src_baseURL :: string
  src_apiURL :: string

definition defaultBaseURL :: string where
  "defaultBaseURL = ''https://github.com/eduardotorresdev/dokkup/releases''"

definition defaultAPIURL :: string where
  "defaultAPIURL = ''https://api.github.com/repos/eduardotorresdev/dokkup''"

definition baseURL :: "Source \<Rightarrow> string" where
  "baseURL s = (if src_baseURL s = [] then defaultBaseURL else TrimSuffix (src_baseURL s) ''/'')"

definition apiURL :: "Source \<Rightarrow> string" where
  "apiURL s = (if src_apiURL s = [] then defaultAPIURL else TrimSuffix (src_apiURL s) ''/'')"

datatype release_error =
    NotAVersion string
  | ErrNoRelease
  | AskFailed net_error
  | RateLimited int
  | AskStatus int
  | Unreadable
  | WrongRelease string string

text \<open>What the JSON decoder makes of the body: the tag, the page and whether it is a draft.\<close>

definition release ::
    "(string \<Rightarrow> bool) \<Rightarrow> network \<Rightarrow> (string \<Rightarrow> (string \<times> string \<times> bool) option) \<Rightarrow> string \<Rightarrow> string
      \<Rightarrow> release_error + Release" where
  "release loopback net decode url wantTag =
     (case client_Do loopback net url of
        Inl err \<Rightarrow> Inl (AskFailed err)
      | Inr (status, body, end) \<Rightarrow>
        if status = 404 then Inl ErrNoRelease
        else if status = 403 \<or> status = 429 then Inl (RateLimited status)
        else if status \<noteq> 200 then Inl (AskStatus status)
        else case decode (take 1048576 body) of
          None \<Rightarrow> Inl Unreadable
        | Some (tag, page, draft) \<Rightarrow>
          if tag = [] \<or> draft then Inl ErrNoRelease
          else if wantTag \<noteq> [] \<and> tag \<noteq> wantTag then Inl (WrongRelease wantTag tag)
          else if \<not> tagPattern tag then Inl (NotAVersion tag)
          else Inr \<lparr>rel_Tag = tag, rel_URL = page\<rparr>)"

definition Latest ::
    "(string \<Rightarrow> bool) \<Rightarrow> network \<Rightarrow> (string \<Rightarrow> (string \<times> string \<times> bool) option) \<Rightarrow> Source
      \<Rightarrow> release_error + Release" where
  "Latest loopback net decode s = release loopback net decode (apiURL s @ ''/releases/latest'') []"

definition Resolve ::
    "(string \<Rightarrow> bool) \<Rightarrow> network \<Rightarrow> (string \<Rightarrow> (string \<times> string \<times> bool) option) \<Rightarrow> Source \<Rightarrow> string
      \<Rightarrow> release_error + Release" where
  "Resolve loopback net decode s tag =
     (let tag = TrimSpace tag;
          tag = (if tag \<noteq> [] \<and> \<not> HasPrefix tag ''v'' then ''v'' @ tag else tag)
      in if \<not> tagPattern tag then Inl (NotAVersion tag)
         else release loopback net decode (apiURL s @ ''/releases/tags/'' @ tag) tag)"

section \<open>Fetching one\<close>

definition AssetName :: "string \<Rightarrow> string option" where
  "AssetName goarch = (if goarch = ''amd64'' \<or> goarch = ''arm64'' then Some (''dokkup_linux_'' @ goarch) else None)"

datatype sum_error = NotASha256 | NotListed

fun checksum_lines :: "string \<Rightarrow> string list \<Rightarrow> sum_error + string" where
  "checksum_lines name [] = Inl NotListed"
| "checksum_lines name (line # lines) =
     (let fields = Fields line in
      if length fields \<noteq> 2 then checksum_lines name lines
      else if TrimPrefix (fields ! 1) ''*'' \<noteq> name then checksum_lines name lines
      else let sum = ToLower (fields ! 0) in
        if length sum \<noteq> 64 then Inl NotASha256 else Inr sum)"

definition checksumFor :: "string \<Rightarrow> string \<Rightarrow> sum_error + string" where
  "checksumFor sums name = checksum_lines name (Split (CHR 0x0A) sums)"

record host_file =
  f_data :: string
  f_mode :: nat

type_synonym fs = "string \<rightharpoonup> host_file"

definition TempPrefix :: string where "TempPrefix = ''.dokkup.new-''"
definition bundlePrefix :: string where "bundlePrefix = ''.dokkup.bundle-''"

text \<open>
  What the host decides: the names of the temporary files, or that none can be made, which calls on
  the binary fail, whether there is a cosign, and its verdict on a binary and a bundle.
\<close>

record fetch_env =
  fe_temp :: "string option"
  fe_sync :: bool
  fe_close :: bool
  fe_chmod :: bool
  fe_cosign :: bool
  fe_bundle :: "string option"
  fe_bundle_close :: bool
  fe_verdict :: "string \<Rightarrow> string \<Rightarrow> bool"
  fe_remove :: bool            \<comment> \<open>whether removing a temporary file works\<close>

record Artifact =
  art_Path :: string
  art_Name :: string
  art_Signed :: bool

datatype fetch_error =
    NoSuchAsset string
  | BadTag string
  | NoTemp
  | AssetDownload net_error
  | FlushFailed
  | WriteFailed
  | SumsDownload net_error
  | SumsRefused sum_error
  | Mismatch string string
  | ChmodFailed
  | NoBundleTemp
  | BundleDownload net_error
  | BundleWrite
  | SignatureFailed

definition remove_temp :: "fetch_env \<Rightarrow> string \<Rightarrow> fs \<Rightarrow> fs" where
  "remove_temp e path fs = (if fe_remove e then fs(path := None) else fs)"

definition verifySignature ::
    "(string \<Rightarrow> bool) \<Rightarrow> network \<Rightarrow> fetch_env \<Rightarrow> Source \<Rightarrow> Release \<Rightarrow> string \<Rightarrow> string \<Rightarrow> fs
      \<Rightarrow> (fetch_error + bool) \<times> fs" where
  "verifySignature loopback net e s rel name path fs =
     (if \<not> fe_cosign e then (Inr False, fs)
      else case fe_bundle e of None \<Rightarrow> (Inl NoBundleTemp, fs)
      | Some bundle \<Rightarrow>
        let url = baseURL s @ ''/download/'' @ rel_Tag rel @ ''/'' @ name @ ''.cosign.bundle'';
            (r, written) = download loopback net url;
            fs = fs(bundle \<mapsto> \<lparr>f_data = written, f_mode = 384\<rparr>)
        in (case r of Inl err \<Rightarrow> (Inl (BundleDownload err), remove_temp e bundle fs)
            | Inr _ \<Rightarrow>
              if \<not> fe_bundle_close e then (Inl BundleWrite, remove_temp e bundle fs)
              else if \<not> fe_verdict e (case fs path of None \<Rightarrow> [] | Some f \<Rightarrow> f_data f) written
              then (Inl SignatureFailed, remove_temp e bundle fs)
              else (Inr True, remove_temp e bundle fs)))"

text \<open>Files made by os.CreateTemp have mode 0600 (384); chmod sets 0755 (493).\<close>

definition Fetch ::
    "(string \<Rightarrow> string) \<Rightarrow> (string \<Rightarrow> bool) \<Rightarrow> network \<Rightarrow> fetch_env \<Rightarrow> Source \<Rightarrow> Release \<Rightarrow> string \<Rightarrow> fs
      \<Rightarrow> (fetch_error + Artifact) \<times> fs" where
  "Fetch sha256 loopback net e s rel goarch fs =
     (case AssetName goarch of None \<Rightarrow> (Inl (NoSuchAsset goarch), fs)
      | Some name \<Rightarrow>
        if \<not> tagPattern (rel_Tag rel) then (Inl (BadTag (rel_Tag rel)), fs)
        else let base = baseURL s @ ''/download/'' @ rel_Tag rel in
          case fe_temp e of None \<Rightarrow> (Inl NoTemp, fs)
          | Some path \<Rightarrow>
            let (r, data) = download loopback net (base @ ''/'' @ name);
                fs = fs(path \<mapsto> \<lparr>f_data = data, f_mode = 384\<rparr>);
                fail = (\<lambda>err fs. (Inl err, remove_temp e path fs)) in
            case r of Inl err \<Rightarrow> fail (AssetDownload err) fs
            | Inr _ \<Rightarrow>
              if \<not> fe_sync e then fail FlushFailed fs
              else if \<not> fe_close e then fail WriteFailed fs
              else let (r, sums) = download loopback net (base @ ''/SHA256SUMS'') in
                case r of Inl err \<Rightarrow> fail (SumsDownload err) fs
                | Inr _ \<Rightarrow>
                  (case checksumFor sums name of Inl err \<Rightarrow> fail (SumsRefused err) fs
                   | Inr want \<Rightarrow>
                     let got = hex_EncodeToString (sha256 data) in
                     if got \<noteq> want then fail (Mismatch want got) fs
                     else if \<not> fe_chmod e then fail ChmodFailed fs
                     else let fs = fs(path \<mapsto> \<lparr>f_data = data, f_mode = 493\<rparr>) in
                       case verifySignature loopback net e s rel name path fs of
                         (Inl err, fs) \<Rightarrow> fail err fs
                       | (Inr signed, fs) \<Rightarrow>
                         (Inr \<lparr>art_Path = path, art_Name = name, art_Signed = signed\<rparr>, fs)))"

text \<open>The paths of a directory are those under it; SweepTemp works on the names in it.\<close>

definition SweepTemp :: "string \<Rightarrow> string list \<Rightarrow> fs \<Rightarrow> fs" where
  "SweepTemp dir entries fs = foldl (\<lambda>fs name.
     if HasPrefix name TempPrefix \<or> HasPrefix name bundlePrefix then fs(dir @ ''/'' @ name := None) else fs) fs entries"

section \<open>Versions are ordered\<close>

text \<open>What a version is compared by: its three numbers, below which is whatever does not parse.\<close>

definition rank :: "string \<Rightarrow> int \<times> int \<times> int" where
  "rank v = (case parseVersion v of None \<Rightarrow> (-1, 0, 0) | Some t \<Rightarrow> t)"

lemma parse_parts_nonneg: "parse_parts ps = Some (a, b, c) \<Longrightarrow> 0 \<le> a \<and> 0 \<le> b \<and> 0 \<le> c"
  by (auto simp: parse_parts_def split: list.splits option.splits if_splits)

lemma parseVersion_nonneg: "parseVersion v = Some (a, b, c) \<Longrightarrow> 0 \<le> a \<and> 0 \<le> b \<and> 0 \<le> c"
  by (auto simp: parseVersion_def Let_def dest: parse_parts_nonneg)

lemma compare_rank:
  "compare_version a b = (if rank a < rank b then -1 else if rank a = rank b then 0 else 1)"
proof (cases "parseVersion a"; cases "parseVersion b")
  fix x y assume "parseVersion a = Some x" "parseVersion b = Some y"
  then show ?thesis
    by (cases x; cases y) (auto simp: compare_version_def rank_def compare_triple_def less_prod_def)
qed (auto simp: compare_version_def rank_def less_prod_def dest!: parseVersion_nonneg)

lemma version_rank:
  "Newer a b \<longleftrightarrow> rank b < rank a" "SameVersion a b \<longleftrightarrow> rank a = rank b"
  "IsRelease a \<longleftrightarrow> (0, 0, 0) \<le> rank a"
  using parseVersion_nonneg [of a]
  by (auto simp: Newer_def SameVersion_def compare_rank IsRelease_def rank_def less_eq_prod_def less_prod_def
      split: option.splits)

lemma digits_plain:
  assumes "\<forall>c \<in> set s. is_digit c \<or> c = CHR ''.''"
  shows "CHR ''-'' \<notin> set s" "CHR ''+'' \<notin> set s" "\<forall>c \<in> set s. \<not> is_space c"
  using assms by (auto simp: is_digit_def is_space_def Let_def)

lemma cut_at_absent: "c \<notin> set s \<Longrightarrow> cut_at c s = s"
  unfolding cut_at_def by (induction s) auto

lemma TrimSpace_plain: "\<forall>c \<in> set s. \<not> is_space c \<Longrightarrow> TrimSpace s = s"
  by (simp add: TrimSpace_def dropWhile_eq_self_iff hd_in_set) (metis dropWhile_eq_self_iff hd_in_set rev_rev_ident set_rev)

lemma parseVersion_show:
  assumes "x < 2 ^ 63" "y < 2 ^ 63" "z < 2 ^ 63"
  shows "parseVersion (show_nat x @ ''.'' @ show_nat y @ ''.'' @ show_nat z) = Some (int x, int y, int z)"
proof -
  let ?s = "show_nat x @ ''.'' @ show_nat y @ ''.'' @ show_nat z"
  have p: "\<forall>c \<in> set ?s. is_digit c \<or> c = CHR ''.''" using show_nat_digits by auto
  have "\<not> HasPrefix ?s ''v''"
    using show_nat_digits [of x] by (cases "show_nat x") (auto simp: HasPrefix_def is_digit_def)
  moreover have "CHR ''.'' \<notin> set (show_nat n)" for n
    using show_nat_digits [of n] by (auto simp: is_digit_def)
  then have "Split (CHR ''.'') ?s = [show_nat x, show_nat y, show_nat z]"
    by (simp add: Split_append_sep Split_no_sep)
  ultimately show ?thesis
    using TrimSpace_plain [OF digits_plain(3) [OF p]] cut_at_absent [OF digits_plain(1) [OF p]]
      cut_at_absent [OF digits_plain(2) [OF p]] assms
    by (simp add: parseVersion_def Let_def TrimPrefix_def parse_parts_def Atoi_show_nat)
qed

text \<open>
  Deciding whether to update is deciding in an order: of two versions exactly one is newer or they
  are the same, being newer is transitive, being the same is an equivalence newer respects, and a
  release is newer than whatever is not one. Written numbers are read back, with or without the v,
  so 1.10.0 is newer than 1.9.9.
\<close>

theorem versions_are_ordered:
  "((Newer a b \<or> SameVersion a b \<or> Newer b a) \<and> \<not> (Newer a b \<and> SameVersion a b) \<and> \<not> (Newer a b \<and> Newer b a)) \<and>
   (Newer a b \<and> Newer b c \<longrightarrow> Newer a c) \<and>
   (SameVersion a b \<and> Newer b c \<longrightarrow> Newer a c) \<and>
   (IsRelease a \<and> \<not> IsRelease b \<longrightarrow> Newer a b) \<and>
   (x < 2 ^ 63 \<and> y < 2 ^ 63 \<and> z < 2 ^ 63 \<longrightarrow>
      parseVersion (show_nat x @ ''.'' @ show_nat y @ ''.'' @ show_nat z) = Some (int x, int y, int z))"
  using parseVersion_show [of x y z] by (auto simp: version_rank)

theorem versions_are_ordered_witness:
  "Newer ''v1.10.0'' ''1.9.9'' \<and> Newer ''1.9.9'' ''v1.9.8-rc1'' \<and> Newer ''v1.10.0'' ''v1.9.8-rc1'' \<and>
   Newer ''1.9.9'' ''dev''"
proof -
  have "Newer ''v1.10.0'' ''1.9.9''" "Newer ''1.9.9'' ''v1.9.8-rc1''" "IsRelease ''1.9.9''" "\<not> IsRelease ''dev''"
    by (simp_all add: Newer_def compare_version_def parseVersion_def Let_def go_simps cut_at_def parse_parts_def
        Atoi_def read_nat_def compare_triple_def IsRelease_def)
  with versions_are_ordered [of "''v1.10.0''" "''1.9.9''" "''v1.9.8-rc1''"]
    versions_are_ordered [of "''1.9.9''" "''dev''"] show ?thesis by blast
qed

section \<open>Tags\<close>

lemma Split_set: "set s \<subseteq> {sep} \<union> \<Union> (set ` set (Split sep s))"
proof (induction s)
  case (Cons c s)
  then show ?case by (cases "Split sep s") auto
qed simp

text \<open>A tag has nothing in it that a URL path reads as anything but a name.\<close>

lemma digit_suffix: "is_digit c \<Longrightarrow> suffix_char c"
  by (simp add: is_digit_def suffix_char_def Let_def)

lemma dot_suffix: "suffix_char (CHR ''.'')" "suffix_char (CHR ''-'')"
  by (simp_all add: suffix_char_def)

lemma tagPattern_chars:
  assumes "tagPattern tag"
  shows "\<forall>c \<in> set tag. c = CHR ''v'' \<or> suffix_char c"
proof -
  obtain rest where t: "tag = CHR ''v'' # rest" using assms by (cases tag) (auto simp: tagPattern_def Let_def)
  define base where "base = cut_at (CHR ''-'') rest"
  have split: "rest = base @ drop (length base) rest"
    unfolding base_def cut_at_def by (metis takeWhile_dropWhile_id append_eq_conv_conj)
  have digits: "\<forall>c \<in> set base. c = CHR ''.'' \<or> is_digit c"
    using assms Split_set [of base "CHR ''.''"] by (fastforce simp: tagPattern_def t Let_def base_def)
  define suffix where "suffix = drop (length base) rest"
  have "suffix = dropWhile ((\<noteq>) (CHR ''-'')) rest"
    unfolding suffix_def base_def cut_at_def by (simp add: dropWhile_eq_drop)
  then have "suffix = [] \<or> hd suffix = CHR ''-''"
    by (metis (full_types) hd_dropWhile)
  moreover have "suffix = [] \<or> (\<forall>c \<in> set (tl suffix). suffix_char c)"
    using assms by (auto simp: tagPattern_def t Let_def base_def suffix_def)
  ultimately have "\<forall>c \<in> set suffix. suffix_char c"
    using dot_suffix by (cases suffix) auto
  moreover have "\<forall>c \<in> set base. suffix_char c"
  proof
    fix c assume "c \<in> set base"
    with digits consider "c = CHR ''.''" | "is_digit c" by auto
    then show "suffix_char c" by cases (simp_all only: digit_suffix dot_suffix)
  qed
  moreover have "set rest = set base \<union> set suffix"
    using arg_cong [OF split, of set] unfolding suffix_def [symmetric] set_append .
  ultimately show ?thesis unfolding t by auto
qed

lemma release_Inr:
  assumes "release loopback net decode url want = Inr r"
  shows "(want = [] \<or> rel_Tag r = want) \<and> tagPattern (rel_Tag r)"
proof -
  obtain status body e where "client_Do loopback net url = Inr (status, body, e)"
    using assms by (cases "client_Do loopback net url") (auto simp: release_def)
  then obtain tag page draft where "decode (take 1048576 body) = Some (tag, page, draft)"
    "\<not> (want \<noteq> [] \<and> tag \<noteq> want)" "tagPattern tag" "r = \<lparr>rel_Tag = tag, rel_URL = page\<rparr>"
    using assms by (auto simp: release_def split: if_splits option.splits)
  then show ?thesis by auto
qed

text \<open>
  A release that was resolved is one that was asked for: its tag is the version asked for, with
  the v it may have lacked, whatever the network answered, and it has the form of a tag, made of
  letters, digits, dots and dashes alone, so it stays one segment of the paths it is put in.
\<close>

theorem resolved_as_asked:
  assumes "Resolve loopback net decode s want = Inr r"
  shows "(rel_Tag r = TrimSpace want \<or> rel_Tag r = ''v'' @ TrimSpace want) \<and> tagPattern (rel_Tag r) \<and>
    (\<forall>c \<in> set (rel_Tag r). c = CHR ''v'' \<or> suffix_char c)"
proof -
  define tag where "tag = (if TrimSpace want \<noteq> [] \<and> \<not> HasPrefix (TrimSpace want) ''v''
     then ''v'' @ TrimSpace want else TrimSpace want)"
  have "tagPattern tag" and r: "release loopback net decode (apiURL s @ ''/releases/tags/'' @ tag) tag = Inr r"
    using assms by (auto simp: Resolve_def tag_def Let_def split: if_splits)
  moreover have "tag \<noteq> []" using \<open>tagPattern tag\<close> unfolding tagPattern_def by (cases tag) simp_all
  ultimately have "rel_Tag r = tag" using release_Inr by blast
  with \<open>tagPattern tag\<close> tagPattern_chars [of tag] show ?thesis by (auto simp: tag_def)
qed

section \<open>What is fetched\<close>

lemma round_trips_Inr: "round_trips loopback us = Inr () \<Longrightarrow> u \<in> set us \<Longrightarrow> allowURL loopback u = Inr ()"
  by (induction us) (auto simp: RoundTrip_def split: sum.splits)

lemma download_Inr:
  assumes "download loopback net url = (Inr (), data)"
  shows "length data \<le> maxAssetBytes" "\<forall>u \<in> set (ans_hops (net url)). allowURL loopback u = Inr ()"
    "ans_reply (net url) = Some (200, data, Complete)"
proof -
  obtain status body e where d: "client_Do loopback net url = Inr (status, body, e)"
    using assms by (auto simp: download_def split: sum.splits)
  then have st: "status = 200" "e = Complete" "length body \<le> maxAssetBytes" "data = body"
    using assms by (auto simp: download_def Let_def split: if_splits) (cases e; auto)+
  from d have "round_trips loopback (ans_hops (net url)) = Inr ()" "ans_reply (net url) = Some (200, data, Complete)"
    using st by (auto simp: client_Do_def split: sum.splits option.splits)
  with st round_trips_Inr show "length data \<le> maxAssetBytes"
    "\<forall>u \<in> set (ans_hops (net url)). allowURL loopback u = Inr ()"
    "ans_reply (net url) = Some (200, data, Complete)" by auto
qed

text \<open>What the steps after the download do to the files.\<close>

lemma verifySignature_cases:
  obtains (signed) bdl data where "fst (verifySignature loopback net e s rel name path fs) = Inr True"
      "fe_cosign e" "fe_bundle e = Some bdl"
      "download loopback net (baseURL s @ ''/download/'' @ rel_Tag rel @ ''/'' @ name @ ''.cosign.bundle'') = (Inr (), data)"
      "fe_verdict e (case (fs(bdl \<mapsto> \<lparr>f_data = data, f_mode = 384\<rparr>)) path of None \<Rightarrow> [] | Some f \<Rightarrow> f_data f) data"
      "snd (verifySignature loopback net e s rel name path fs) =
        remove_temp e bdl (fs(bdl \<mapsto> \<lparr>f_data = data, f_mode = 384\<rparr>))"
    | (unsigned) "fst (verifySignature loopback net e s rel name path fs) = Inr False" "\<not> fe_cosign e"
      "snd (verifySignature loopback net e s rel name path fs) = fs"
    | (failed) err where "fst (verifySignature loopback net e s rel name path fs) = Inl err"
      "snd (verifySignature loopback net e s rel name path fs) = fs \<or>
       (\<exists>bdl f. fe_bundle e = Some bdl \<and>
          snd (verifySignature loopback net e s rel name path fs) = remove_temp e bdl (fs(bdl \<mapsto> f)))"
proof (cases "fe_cosign e")
  case False
  then show thesis using unsigned by (simp add: verifySignature_def)
next
  case True
  show thesis
  proof (cases "fe_bundle e")
    case None
    then show thesis using failed True by (simp add: verifySignature_def)
  next
    case (Some bdl)
    define url where "url = baseURL s @ ''/download/'' @ rel_Tag rel @ ''/'' @ name @ ''.cosign.bundle''"
    obtain r data where d: "download loopback net url = (r, data)" by (cases "download loopback net url")
    define fs1 where "fs1 = fs(bdl \<mapsto> \<lparr>f_data = data, f_mode = 384\<rparr>)"
    have v: "verifySignature loopback net e s rel name path fs =
       (case r of Inl err \<Rightarrow> (Inl (BundleDownload err), remove_temp e bdl fs1)
        | Inr _ \<Rightarrow> if \<not> fe_bundle_close e then (Inl BundleWrite, remove_temp e bdl fs1)
            else if \<not> fe_verdict e (case fs1 path of None \<Rightarrow> [] | Some f \<Rightarrow> f_data f) data
            then (Inl SignatureFailed, remove_temp e bdl fs1) else (Inr True, remove_temp e bdl fs1))"
      using True Some d unfolding verifySignature_def Let_def url_def fs1_def by simp
    show thesis
    proof (cases "fst (verifySignature loopback net e s rel name path fs)")
      case (Inl err)
      then show thesis using failed [OF Inl] v Some
        by (auto simp: fs1_def split: sum.splits if_splits)
    next
      case (Inr b)
      have "b" "r = Inr ()" "fe_verdict e (case fs1 path of None \<Rightarrow> [] | Some f \<Rightarrow> f_data f) data"
        using Inr v by (auto split: sum.splits if_splits)
      then show thesis
        using signed [of bdl data] Inr v True Some d unfolding url_def fs1_def
        by (auto split: sum.splits if_splits)
    qed
  qed
qed

lemma verifySignature_elsewhere:
  "x \<noteq> path \<Longrightarrow> fe_bundle e \<noteq> Some x \<Longrightarrow> snd (verifySignature loopback net e s rel name path fs) x = fs x"
  by (cases rule: verifySignature_cases [of loopback net e s rel name path fs]) (auto simp: remove_temp_def)

text \<open>Fetch once the name and the two answers are known.\<close>

lemma Fetch_eq:
  assumes n: "AssetName goarch = Some name" "tagPattern (rel_Tag rel)" and p: "fe_temp e = Some path"
    and d: "download loopback net (baseURL s @ ''/download/'' @ rel_Tag rel @ ''/'' @ name) = (r, data)"
    and d': "download loopback net (baseURL s @ ''/download/'' @ rel_Tag rel @ ''/SHA256SUMS'') = (r', sums)"
  shows "Fetch sha256 loopback net e s rel goarch fs =
      (case r of Inl err \<Rightarrow> (Inl (AssetDownload err), remove_temp e path (fs(path \<mapsto> \<lparr>f_data = data, f_mode = 384\<rparr>)))
       | Inr _ \<Rightarrow> if \<not> fe_sync e then (Inl FlushFailed, remove_temp e path (fs(path \<mapsto> \<lparr>f_data = data, f_mode = 384\<rparr>)))
         else if \<not> fe_close e then (Inl WriteFailed, remove_temp e path (fs(path \<mapsto> \<lparr>f_data = data, f_mode = 384\<rparr>)))
         else case r' of Inl err \<Rightarrow> (Inl (SumsDownload err), remove_temp e path (fs(path \<mapsto> \<lparr>f_data = data, f_mode = 384\<rparr>)))
         | Inr _ \<Rightarrow> (case checksumFor sums name of Inl err \<Rightarrow> (Inl (SumsRefused err), remove_temp e path (fs(path \<mapsto> \<lparr>f_data = data, f_mode = 384\<rparr>)))
           | Inr want \<Rightarrow> if hex_EncodeToString (sha256 data) \<noteq> want
               then (Inl (Mismatch want (hex_EncodeToString (sha256 data))), remove_temp e path (fs(path \<mapsto> \<lparr>f_data = data, f_mode = 384\<rparr>)))
               else if \<not> fe_chmod e then (Inl ChmodFailed, remove_temp e path (fs(path \<mapsto> \<lparr>f_data = data, f_mode = 384\<rparr>)))
               else case verifySignature loopback net e s rel name path (fs(path \<mapsto> \<lparr>f_data = data, f_mode = 384\<rparr>, path \<mapsto> \<lparr>f_data = data, f_mode = 493\<rparr>)) of
                   (Inl err, fs) \<Rightarrow> (Inl err, remove_temp e path fs)
                 | (Inr signed, fs) \<Rightarrow> (Inr \<lparr>art_Path = path, art_Name = name, art_Signed = signed\<rparr>, fs)))"
  unfolding Fetch_def Let_def n(1) p option.case append_assoc d d' prod.case
  by (simp only: n(2) simp_thms if_True if_False)

text \<open>A download that is handed over went through every step of Fetch.\<close>

lemma Fetch_Inr:
  assumes "Fetch sha256 loopback net e s rel goarch fs = (Inr a, fs')"
  obtains name path data sums signed fs2 where
    "AssetName goarch = Some name" "tagPattern (rel_Tag rel)" "fe_temp e = Some path"
    "download loopback net (baseURL s @ ''/download/'' @ rel_Tag rel @ ''/'' @ name) = (Inr (), data)"
    "download loopback net (baseURL s @ ''/download/'' @ rel_Tag rel @ ''/SHA256SUMS'') = (Inr (), sums)"
    "checksumFor sums name = Inr (hex_EncodeToString (sha256 data))"
    "fs2 = fs(path \<mapsto> \<lparr>f_data = data, f_mode = 493\<rparr>)"
    "verifySignature loopback net e s rel name path fs2 = (Inr signed, fs')"
    "a = \<lparr>art_Path = path, art_Name = name, art_Signed = signed\<rparr>"
proof -
  obtain name where n: "AssetName goarch = Some name" "tagPattern (rel_Tag rel)"
    using assms by (auto simp: Fetch_def split: option.splits if_splits)
  obtain path where p: "fe_temp e = Some path"
    using assms n by (auto simp: Fetch_def Let_def split: option.splits)
  obtain r data where d: "download loopback net (baseURL s @ ''/download/'' @ rel_Tag rel @ ''/'' @ name) = (r, data)"
    by fastforce
  obtain r' sums where d': "download loopback net (baseURL s @ ''/download/'' @ rel_Tag rel @ ''/SHA256SUMS'') = (r', sums)"
    by fastforce
  note F = Fetch_eq [OF n p d d']
  define fs2 where "fs2 = fs(path \<mapsto> \<lparr>f_data = data, f_mode = 384\<rparr>, path \<mapsto> \<lparr>f_data = data, f_mode = 493\<rparr>)"
  obtain signed where "r = Inr ()" "r' = Inr ()" "checksumFor sums name = Inr (hex_EncodeToString (sha256 data))"
    "verifySignature loopback net e s rel name path fs2 = (Inr signed, fs')"
    "a = \<lparr>art_Path = path, art_Name = name, art_Signed = signed\<rparr>"
    using assms unfolding F fs2_def by (auto split: sum.splits if_splits prod.splits)
  then show thesis
    using that [of name path data sums fs2 signed] n p d d' by (simp add: fs2_def)
qed

lemma checksum_lines_Inr:
  "checksum_lines name ls = Inr digest \<Longrightarrow> \<exists>line \<in> set ls. \<exists>h n. Fields line = [h, n] \<and> TrimPrefix n ''*'' = name \<and>
     ToLower h = digest \<and> length h = 64"
proof (induction ls)
  case (Cons line ls)
  show ?case
  proof (cases "length (Fields line) = 2 \<and> TrimPrefix (Fields line ! 1) ''*'' = name")
    case True
    then have "length (Fields line) = Suc (Suc 0)" by simp
    then obtain h n where f: "Fields line = [h, n]" by (cases "Fields line"; cases "tl (Fields line)") auto
    then have n: "TrimPrefix n ''*'' = name" using True by simp
    then have "ToLower h = digest" "length h = 64"
      using Cons.prems f by (simp_all add: Let_def split: if_splits)
    with f n show ?thesis by auto
  next
    case False
    then have "checksum_lines name ls = Inr digest"
      using Cons.prems by (cases "length (Fields line) = 2") (simp_all add: Let_def)
    with Cons.IH show ?thesis by auto
  qed
qed simp

text \<open>A line of the checksums that vouches for bytes under a name.\<close>

definition vouched :: "(string \<Rightarrow> string) \<Rightarrow> string \<Rightarrow> string \<Rightarrow> string \<Rightarrow> bool" where
  "vouched sha256 sums name data \<longleftrightarrow>
     (\<exists>line \<in> set (Split (CHR 0x0A) sums). \<exists>h n. Fields line = [h, n] \<and> TrimPrefix n ''*'' = name \<and>
        length h = 64 \<and> ToLower h = hex_EncodeToString (sha256 data))"

lemma Fetch_verified:
  assumes "Fetch sha256 loopback net e s rel goarch fs = (Inr a, fs')" "fe_bundle e \<noteq> fe_temp e"
  shows "\<exists>name data sums. AssetName goarch = Some name \<and> art_Name a = name \<and>
     ans_reply (net (baseURL s @ ''/download/'' @ rel_Tag rel @ ''/'' @ name)) = Some (200, data, Complete) \<and>
     (\<forall>u \<in> set (ans_hops (net (baseURL s @ ''/download/'' @ rel_Tag rel @ ''/'' @ name))). allowURL loopback u = Inr ()) \<and>
     length data \<le> maxAssetBytes \<and>
     ans_reply (net (baseURL s @ ''/download/'' @ rel_Tag rel @ ''/SHA256SUMS'')) = Some (200, sums, Complete) \<and>
     vouched sha256 sums name data \<and>
     fs' (art_Path a) = Some \<lparr>f_data = data, f_mode = 493\<rparr> \<and> art_Signed a = fe_cosign e \<and>
     (fe_cosign e \<longrightarrow> (\<exists>sig. ans_reply (net (baseURL s @ ''/download/'' @ rel_Tag rel @ ''/'' @ name @ ''.cosign.bundle'')) =
        Some (200, sig, Complete) \<and> fe_verdict e data sig)) \<and>
     (\<forall>x. Some x \<noteq> fe_temp e \<and> Some x \<noteq> fe_bundle e \<longrightarrow> fs' x = fs x)"
proof -
  obtain name path data sums signed fs2 where F: "AssetName goarch = Some name" "fe_temp e = Some path"
    "download loopback net (baseURL s @ ''/download/'' @ rel_Tag rel @ ''/'' @ name) = (Inr (), data)"
    "download loopback net (baseURL s @ ''/download/'' @ rel_Tag rel @ ''/SHA256SUMS'') = (Inr (), sums)"
    "checksumFor sums name = Inr (hex_EncodeToString (sha256 data))"
    "fs2 = fs(path \<mapsto> \<lparr>f_data = data, f_mode = 493\<rparr>)"
    "verifySignature loopback net e s rel name path fs2 = (Inr signed, fs')"
    "a = \<lparr>art_Path = path, art_Name = name, art_Signed = signed\<rparr>"
    using Fetch_Inr [OF assms(1)] by metis
  have other: "\<forall>x. Some x \<noteq> fe_temp e \<and> Some x \<noteq> fe_bundle e \<longrightarrow> fs' x = fs x"
    using verifySignature_elsewhere [of _ path e loopback net s rel name fs2] F(2,6,7) by fastforce
  have sig: "signed = fe_cosign e \<and> fs' path = Some \<lparr>f_data = data, f_mode = 493\<rparr> \<and>
     (fe_cosign e \<longrightarrow> (\<exists>sig. ans_reply (net (baseURL s @ ''/download/'' @ rel_Tag rel @ ''/'' @ name @ ''.cosign.bundle'')) =
        Some (200, sig, Complete) \<and> fe_verdict e data sig))"
  proof (cases rule: verifySignature_cases [of loopback net e s rel name path fs2])
    case (signed bdl sig)
    have "bdl \<noteq> path" using assms(2) F(2) signed(3) by auto
    then show ?thesis using signed F(6,7) download_Inr(3) [OF signed(4)] by (auto simp: remove_temp_def)
  qed (use F(6,7) in auto)
  note d = download_Inr [OF F(3)] and d' = download_Inr(3) [OF F(4)]
  have "vouched sha256 sums name data"
    using checksum_lines_Inr [OF F(5) [unfolded checksumFor_def]] by (auto simp: vouched_def)
  with sig other d d' F(1,8) show ?thesis by auto
qed

text \<open>
  C13: What Fetch hands over has been checked. The file it names holds the whole body of a 200 answer
  for this release's asset, at most 200 MiB, every hop of which was allowed; a line of the release's
  own SHA256SUMS gives the sha256 of these bytes under the asset's name; if there is a cosign, it has
  accepted them with the release's bundle, and the artifact says whether it did; the file is
  executable; and nothing else but the bundle's temporary file has been touched.
\<close>

theorem fetch_only_verified:
  assumes "Fetch sha256 loopback net e s rel goarch fs = (Inr a, fs')" "fe_bundle e \<noteq> fe_temp e"
  shows "\<exists>name data sums. AssetName goarch = Some name \<and> art_Name a = name \<and>
     ans_reply (net (baseURL s @ ''/download/'' @ rel_Tag rel @ ''/'' @ name)) = Some (200, data, Complete) \<and>
     (\<forall>u \<in> set (ans_hops (net (baseURL s @ ''/download/'' @ rel_Tag rel @ ''/'' @ name))). allowURL loopback u = Inr ()) \<and>
     length data \<le> maxAssetBytes \<and>
     ans_reply (net (baseURL s @ ''/download/'' @ rel_Tag rel @ ''/SHA256SUMS'')) = Some (200, sums, Complete) \<and>
     vouched sha256 sums name data \<and>
     fs' (art_Path a) = Some \<lparr>f_data = data, f_mode = 493\<rparr> \<and> art_Signed a = fe_cosign e \<and>
     (fe_cosign e \<longrightarrow> (\<exists>sig. ans_reply (net (baseURL s @ ''/download/'' @ rel_Tag rel @ ''/'' @ name @ ''.cosign.bundle'')) =
        Some (200, sig, Complete) \<and> fe_verdict e data sig)) \<and>
     (\<forall>x. Some x \<noteq> fe_temp e \<and> Some x \<noteq> fe_bundle e \<longrightarrow> fs' x = fs x)"
  by (rule Fetch_verified [OF assms])

lemma restore_temp: "fs path = None \<Longrightarrow> fe_remove e \<Longrightarrow> remove_temp e path (fs(path \<mapsto> f)) = fs"
  by (auto simp: remove_temp_def)

lemma Fetch_failure:
  assumes "Fetch sha256 loopback net e s rel goarch fs = (Inl err, fs')" "fe_remove e"
    and "\<forall>p. fe_temp e = Some p \<or> fe_bundle e = Some p \<longrightarrow> fs p = None" "fe_bundle e \<noteq> fe_temp e"
  shows "fs' = fs"
proof (cases "AssetName goarch")
  case None
  then show ?thesis using assms(1) by (simp add: Fetch_def)
next
  case n: (Some name)
  show ?thesis
  proof (cases "tagPattern (rel_Tag rel) \<and> fe_temp e \<noteq> None")
    case False
    then show ?thesis using assms(1) n by (auto simp: Fetch_def Let_def split: if_splits)
  next
    case True
    then obtain path where p: "tagPattern (rel_Tag rel)" "fe_temp e = Some path" by auto
    have clean: "remove_temp e path (fs(path \<mapsto> f)) = fs" for f
      using restore_temp assms(2,3) p(2) by blast
    have twice: "remove_temp e path (fs(path \<mapsto> f, path \<mapsto> g)) = fs" for f g using clean [of g] by simp
    have sig: "remove_temp e path (snd (verifySignature loopback net e s rel name path (fs(path \<mapsto> f)))) = fs"
      if "fst (verifySignature loopback net e s rel name path (fs(path \<mapsto> f))) = Inl err" for f err
    proof (cases rule: verifySignature_cases [of loopback net e s rel name path "fs(path \<mapsto> f)"])
      case (failed err)
      then show ?thesis
      proof (elim disjE exE conjE)
        fix bdl g assume b: "fe_bundle e = Some bdl"
          "snd (verifySignature loopback net e s rel name path (fs(path \<mapsto> f))) =
             remove_temp e bdl (fs(path \<mapsto> f, bdl \<mapsto> g))"
        then have "bdl \<noteq> path" "fs bdl = None" using assms(3,4) p(2) by auto
        then have "remove_temp e bdl (fs(path \<mapsto> f, bdl \<mapsto> g)) = fs(path \<mapsto> f)"
          using assms(2) by (auto simp: remove_temp_def)
        then show ?thesis by (simp add: b clean)
      qed (simp add: clean)
    qed (use that in auto)
    obtain r data where d: "download loopback net (baseURL s @ ''/download/'' @ rel_Tag rel @ ''/'' @ name) = (r, data)"
      by fastforce
    obtain r' sums where d': "download loopback net (baseURL s @ ''/download/'' @ rel_Tag rel @ ''/SHA256SUMS'') = (r', sums)"
      by fastforce
    obtain v fs2 where v: "verifySignature loopback net e s rel name path
        (fs(path \<mapsto> \<lparr>f_data = data, f_mode = 384\<rparr>, path \<mapsto> \<lparr>f_data = data, f_mode = 493\<rparr>)) = (v, fs2)"
      by fastforce
    have "remove_temp e path fs2 = fs" if "v = Inl err" for err
      using sig [of "\<lparr>f_data = data, f_mode = 493\<rparr>" err] v that by simp
    then show ?thesis
      using assms(1) unfolding Fetch_eq [OF n p d d'] v
      by (auto simp: clean split: sum.splits if_splits)
  qed
qed

text \<open>
  C14: A Fetch that fails leaves the directory as it found it, at whatever step it failed: no half
  downloaded, unverified or rejected binary is there for anybody to find. (Temporary names are new
  ones, and removing a file works.)
\<close>

theorem fetch_failure_clean:
  assumes "Fetch sha256 loopback net e s rel goarch fs = (Inl err, fs')" "fe_remove e"
    and "\<forall>p. fe_temp e = Some p \<or> fe_bundle e = Some p \<longrightarrow> fs p = None" "fe_bundle e \<noteq> fe_temp e"
  shows "fs' = fs"
  by (rule Fetch_failure [OF assms])

section \<open>The properties at work\<close>

definition demo_sums :: string where
  "demo_sums = ''6161616161616161616161616161616161616161616161616161616161616161  dokkup_linux_amd64''"

definition demo_sha :: "string \<Rightarrow> string" where
  "demo_sha _ = ''aaaaaaaaaaaaaaaaaaaaaaaaaaaaaaaa''"

definition demo_net :: network where
  "demo_net url = \<lparr>ans_hops = [\<lparr>url_Scheme = ''https'', url_Hostname = ''github.com''\<rparr>],
     ans_reply = Some (200, if HasSuffix url ''SHA256SUMS'' then demo_sums else ''binary'', Complete)\<rparr>"

definition demo_fetch :: fetch_env where
  "demo_fetch = \<lparr>fe_temp = Some ''/b/.dokkup.new-1'', fe_sync = True, fe_close = True, fe_chmod = True,
     fe_cosign = False, fe_bundle = None, fe_bundle_close = True, fe_verdict = (\<lambda>_ _. True), fe_remove = True\<rparr>"

definition demo_source :: Source where
  "demo_source = \<lparr>src_baseURL = ''https://github.com/r'', src_apiURL = []\<rparr>"

definition demo_release :: Release where
  "demo_release = \<lparr>rel_Tag = ''v1.2.3'', rel_URL = []\<rparr>"

lemma download_ok:
  assumes "ans_reply (net url) = Some (200, body, Complete)" "round_trips loopback (ans_hops (net url)) = Inr ()"
    and "length body \<le> maxAssetBytes"
  shows "download loopback net url = (Inr (), body)"
  using assms by (simp add: download_def client_Do_def Let_def)

lemma demo_download:
  "download (\<lambda>_. False) demo_net url = (Inr (), if HasSuffix url ''SHA256SUMS'' then demo_sums else ''binary'')"
proof (rule download_ok)
  show "round_trips (\<lambda>_. False) (ans_hops (demo_net url)) = Inr ()"
    by (simp add: demo_net_def RoundTrip_def allowURL_def allowedHost_def)
  have "length demo_sums = 84" by (simp add: demo_sums_def)
  then show "length (if HasSuffix url ''SHA256SUMS'' then demo_sums else ''binary'') \<le> maxAssetBytes"
    by (simp add: maxAssetBytes_def)
qed (simp add: demo_net_def)

lemma demo_fields: "Fields demo_sums = [''6161616161616161616161616161616161616161616161616161616161616161'', ''dokkup_linux_amd64'']"
  unfolding demo_sums_def Fields_def by (simp add: is_space_def Let_def)

lemma demo_checksum:
  "checksumFor demo_sums ''dokkup_linux_amd64'' = Inr (hex_EncodeToString (demo_sha d))"
proof -
  have "Split (CHR 0x0A) demo_sums = [demo_sums]" by (rule Split_no_sep) (simp add: demo_sums_def)
  then show ?thesis
    by (simp add: checksumFor_def demo_fields Let_def TrimPrefix_def HasPrefix_def ToLower_def lower_char_def
        hex_EncodeToString_def hex_digits_def demo_sha_def)
qed

lemma demo_base [simp]: "baseURL demo_source = ''https://github.com/r''"
  by (simp add: baseURL_def demo_source_def TrimSuffix_def HasSuffix_def HasPrefix_def)

lemma demo_tag [simp]: "rel_Tag demo_release = ''v1.2.3''"
  by (simp add: demo_release_def)

lemma demo_fetch_simps [simp]:
  "fe_temp demo_fetch = Some ''/b/.dokkup.new-1''" "fe_sync demo_fetch" "fe_close demo_fetch" "fe_chmod demo_fetch"
  "\<not> fe_cosign demo_fetch" "fe_bundle demo_fetch = None" "fe_remove demo_fetch"
  by (simp_all add: demo_fetch_def)

lemma demo_parts:
  "AssetName ''amd64'' = Some ''dokkup_linux_amd64''" "tagPattern (rel_Tag demo_release)"
  by (simp_all add: AssetName_def tagPattern_def Let_def cut_at_def is_digit_def)

lemma demo_Fetch:
  "Fetch demo_sha (\<lambda>_. False) demo_net demo_fetch demo_source demo_release ''amd64'' files =
     (Inr \<lparr>art_Path = ''/b/.dokkup.new-1'', art_Name = ''dokkup_linux_amd64'', art_Signed = False\<rparr>,
      files(''/b/.dokkup.new-1'' \<mapsto> \<lparr>f_data = ''binary'', f_mode = 493\<rparr>))"
proof -
  have "download (\<lambda>_. False) demo_net (baseURL demo_source @ ''/download/'' @ rel_Tag demo_release @ ''/'' @ ''dokkup_linux_amd64'') = (Inr (), ''binary'')"
    "download (\<lambda>_. False) demo_net (baseURL demo_source @ ''/download/'' @ rel_Tag demo_release @ ''/SHA256SUMS'') = (Inr (), demo_sums)"
    by (simp_all add: demo_download HasSuffix_def HasPrefix_def)
  note F = Fetch_eq [OF demo_parts demo_fetch_simps(1) this]
  show ?thesis unfolding F verifySignature_def
    by (simp add: demo_checksum [of "''binary''"])
qed

theorem fetch_only_verified_witness:
  "vouched demo_sha demo_sums ''dokkup_linux_amd64'' ''binary'' \<and> length ''binary'' \<le> maxAssetBytes"
proof -
  have "fe_bundle demo_fetch \<noteq> fe_temp demo_fetch" by (simp add: demo_fetch_def)
  from fetch_only_verified [OF demo_Fetch this]
  obtain name data sums where n: "AssetName ''amd64'' = Some name"
    "ans_reply (demo_net (baseURL demo_source @ ''/download/'' @ rel_Tag demo_release @ ''/'' @ name)) = Some (200, data, Complete)"
    "length data \<le> maxAssetBytes"
    "ans_reply (demo_net (baseURL demo_source @ ''/download/'' @ rel_Tag demo_release @ ''/SHA256SUMS'')) = Some (200, sums, Complete)"
    "vouched demo_sha sums name data"
    by blast
  have "name = ''dokkup_linux_amd64''" using n(1) by (simp add: AssetName_def)
  moreover have "data = ''binary''" "sums = demo_sums"
    using n(2,4) calculation
    by (simp_all add: demo_net_def HasSuffix_def HasPrefix_def)
  ultimately show ?thesis using n(3,5) by simp
qed

definition stalled_net :: network where
  "stalled_net url = \<lparr>ans_hops = [], ans_reply = Some (200, ''bin'', Stalled)\<rparr>"

theorem fetch_failure_clean_witness:
  "snd (Fetch demo_sha (\<lambda>_. False) stalled_net demo_fetch demo_source demo_release ''amd64'' Map.empty) = Map.empty"
proof -
  have d: "download (\<lambda>_. False) stalled_net url = (Inl Gave_up, take (maxAssetBytes + 1) ''bin'')" for url
    by (simp add: download_def client_Do_def stalled_net_def maxAssetBytes_def Let_def)
  have "fst (Fetch demo_sha (\<lambda>_. False) stalled_net demo_fetch demo_source demo_release ''amd64'' Map.empty) = Inl (AssetDownload Gave_up)"
    unfolding Fetch_eq [OF demo_parts demo_fetch_simps(1) d d] by simp
  then have "Fetch demo_sha (\<lambda>_. False) stalled_net demo_fetch demo_source demo_release ''amd64'' Map.empty =
      (Inl (AssetDownload Gave_up), snd (Fetch demo_sha (\<lambda>_. False) stalled_net demo_fetch demo_source demo_release ''amd64'' Map.empty))"
    by (metis prod.collapse)
  from fetch_failure_clean [OF this] show ?thesis by (simp add: demo_fetch_def)
qed

theorem resolved_as_asked_witness:
  "Resolve (\<lambda>_. False) (\<lambda>_. \<lparr>ans_hops = [], ans_reply = Some (200, [], Complete)\<rparr>)
     (\<lambda>_. Some (''v1.2.3'', [], False)) demo_source '' 1.2.3'' = Inr \<lparr>rel_Tag = ''v1.2.3'', rel_URL = []\<rparr> \<and>
   tagPattern ''v1.2.3''"
proof -
  have t: "tagPattern ''v1.2.3''" using demo_parts(2) by simp
  have r: "Resolve (\<lambda>_. False) (\<lambda>_. \<lparr>ans_hops = [], ans_reply = Some (200, [], Complete)\<rparr>)
     (\<lambda>_. Some (''v1.2.3'', [], False)) demo_source '' 1.2.3'' = Inr \<lparr>rel_Tag = ''v1.2.3'', rel_URL = []\<rparr>"
    using t by (simp add: Resolve_def TrimSpace_def is_space_def HasPrefix_def release_def client_Do_def Let_def)
  from resolved_as_asked [OF r] r show ?thesis by simp
qed

end
