(* ===== verification/Service.thy ===== *)
theory Service
  imports Go_Strings
begin

text \<open>
  internal/hostpaths and internal/service: where the parts of an installation are, the text of the
  systemd unit and what is read back out of it, the argument vectors systemctl is run with, and the
  seam Manager, whose contract is a locale that the in-memory manager of fake.go meets.
\<close>

section \<open>Paths (internal/hostpaths)\<close>

definition Binary :: string where "Binary = ''/usr/local/bin/dokkup''"
definition PreviousSuffix :: string where "PreviousSuffix = ''.previous''"
definition PreviousBinary :: string where "PreviousBinary = Binary @ PreviousSuffix"
definition Unit :: string where "Unit = ''/etc/systemd/system/dokkup.service''"
definition Sudoers :: string where "Sudoers = ''/etc/sudoers.d/dokkup''"
definition Vhost :: string where "Vhost = ''/etc/nginx/conf.d/dokkup.conf''"
definition VhostStaging :: string where "VhostStaging = ''/etc/nginx/conf.d/.dokkup.conf.tmp''"
definition DataDir :: string where "DataDir = ''/var/lib/dokkup''"
definition DB :: string where "DB = DataDir @ ''/dokkup.db''"
definition TLSDir :: string where "TLSDir = DataDir @ ''/tls''"
definition TLSCert :: string where "TLSCert = TLSDir @ ''/cert.pem''"
definition TLSKey :: string where "TLSKey = TLSDir @ ''/key.pem''"
definition User :: string where "User = ''dokkup''"
definition Group :: string where "Group = ''dokkup''"
definition DokkuGroup :: string where "DokkuGroup = ''dokku''"

definition Owned :: "string list" where
  "Owned = [Unit, Sudoers, Binary, DataDir]"

definition Conditional :: "string list" where
  "Conditional = [Vhost, TLSDir, PreviousBinary]"

section \<open>The unit (unit.go)\<close>

definition DefaultListen :: string where "DefaultListen = ''127.0.0.1:8080''"
definition DefaultMode :: string where "DefaultMode = ''ip''"

record UnitConfig =
  uc_Listen :: string
  uc_Mode :: string
  uc_Domain :: string
  uc_PlainHTTP :: bool
  uc_ManageCertificate :: bool
  uc_ACMEEmail :: string
  uc_ACMEDirectory :: string

definition unit_extra :: "UnitConfig \<Rightarrow> string" where
  "unit_extra cfg =
     (if uc_Domain cfg \<noteq> [] then '' --domain '' @ uc_Domain cfg else []) @
     (if uc_ManageCertificate cfg then '' --manage-certificate'' else []) @
     (if uc_ACMEEmail cfg \<noteq> [] then '' --acme-email '' @ uc_ACMEEmail cfg else []) @
     (if uc_ACMEDirectory cfg \<noteq> [] then '' --acme-directory '' @ uc_ACMEDirectory cfg else []) @
     (if uc_PlainHTTP cfg then '' --plain-http'' else [])"

definition unlines :: "string list \<Rightarrow> string" where
  "unlines ls = concat (map (\<lambda>l. l @ [CHR 0x0A]) ls)"

definition unit_head :: "string list" where
  "unit_head =
    [''[Unit]'',
     ''Description=dokkup -- a web interface for a Dokku host'',
     ''Documentation=https://github.com/eduardotorresdev/dokkup'',
     '''',
     ''# Dokku does its work through Docker, and dokkup's first request usually asks'',
     ''# Dokku something. Starting after both means a reboot does not present a'',
     ''# degraded interface to whoever is watching it come back.'',
     ''After=network-online.target docker.service'',
     ''Wants=network-online.target'',
     '''',
     ''[Service]'',
     ''Type=exec'']"

definition exec_start :: "string \<Rightarrow> string \<Rightarrow> string \<Rightarrow> string" where
  "exec_start listen mode extra =
     ''ExecStart='' @ Binary @ '' serve --listen '' @ listen @ '' --mode '' @ mode @ extra"

definition unit_tail :: "string list" where
  "unit_tail =
    [''User='' @ User,
     ''Group='' @ Group,
     ''Restart=on-failure'',
     ''RestartSec=2s'',
     '''',
     ''# Defence in depth per ADR-0005, not a security boundary. NoNewPrivileges,'',
     ''# ProtectHome and ProtectSystem=strict are absent on purpose: each one is'',
     ''# inherited by the dokku process this service runs, and each one breaks it'',
     ''# silently. See the doc comment on UnitFile, and ADR-0012.'',
     ''ProtectSystem=full'',
     ''PrivateTmp=yes'',
     ''ReadWritePaths='' @ DataDir,
     '''',
     ''[Install]'',
     ''WantedBy=multi-user.target'']"

definition UnitFile :: "UnitConfig \<Rightarrow> string" where
  "UnitFile cfg =
     (let listen = (if uc_Listen cfg = [] then DefaultListen else uc_Listen cfg);
          mode = (if uc_Mode cfg = [] then DefaultMode else uc_Mode cfg)
      in unlines (unit_head @ [exec_start listen mode (unit_extra cfg)] @ unit_tail))"

fun listen_fields :: "string list \<Rightarrow> (string \<times> bool) option" where
  "listen_fields [] = None"
| "listen_fields (field # rest) =
     (if HasPrefix field ''--listen='' then
        (let after = TrimPrefix field ''--listen='' in Some (after, after \<noteq> []))
      else if field = ''--listen'' \<and> rest \<noteq> [] then Some (hd rest, True)
      else listen_fields rest)"

fun listen_lines :: "string list \<Rightarrow> string \<times> bool" where
  "listen_lines [] = ([], False)"
| "listen_lines (line # ls) =
     (let line = TrimSpace line in
      if \<not> HasPrefix line ''ExecStart='' then listen_lines ls
      else case listen_fields (Fields (TrimPrefix line ''ExecStart='')) of
        Some r \<Rightarrow> r | None \<Rightarrow> listen_lines ls)"

definition ListenFromUnit :: "string \<Rightarrow> string \<times> bool" where
  "ListenFromUnit u = listen_lines (Split (CHR 0x0A) u)"

section \<open>systemctl (systemctl.go)\<close>

definition DefaultBinary :: string where "DefaultBinary = ''/usr/bin/systemctl''"
definition Name :: string where "Name = ''dokkup.service''"
definition defaultTimeout :: int where "defaultTimeout = 30000000000"

record Systemctl =
  sys_Binary :: string
  sys_Unit :: string
  sys_Timeout :: int
  sys_Sudo :: string

definition NewSystemctl :: Systemctl where
  "NewSystemctl = \<lparr>sys_Binary = DefaultBinary, sys_Unit = Name, sys_Timeout = defaultTimeout, sys_Sudo = []\<rparr>"

text \<open>
  What running a program gives: its standard output and error, and whether it exited with a status
  (ExitError) or was never run or killed. Running it may change the host, so it is a step on the
  state of the host.
\<close>

datatype run_error = ExitError int | NotRun

record CommandError =
  ce_Args :: "string list"
  ce_Stderr :: string
  ce_Err :: run_error

record completed =
  out_err :: "run_error option"
  out_stdout :: string
  out_stderr :: string

type_synonym 'h exec = "int \<Rightarrow> string \<Rightarrow> string list \<Rightarrow> 'h \<Rightarrow> completed \<times> 'h"

definition sys_run :: "'h exec \<Rightarrow> Systemctl \<Rightarrow> string list \<Rightarrow> 'h \<Rightarrow> (string \<times> CommandError option) \<times> 'h" where
  "sys_run exec s args h =
     (let binary = (if sys_Binary s = [] then DefaultBinary else sys_Binary s);
          (binary, args) = (if sys_Sudo s \<noteq> [] then (sys_Sudo s, [''-n'', binary] @ args) else (binary, args));
          timeout = (if sys_Timeout s \<le> 0 then defaultTimeout else sys_Timeout s);
          (c, h) = exec timeout binary args h
      in ((out_stdout c, map_option (\<lambda>e. \<lparr>ce_Args = args, ce_Stderr = TrimSpace (out_stderr c), ce_Err = e\<rparr>) (out_err c)), h))"

definition unit_name :: "Systemctl \<Rightarrow> string" where
  "unit_name s = (if sys_Unit s = [] then Name else sys_Unit s)"

definition answer_of :: "(string \<times> CommandError option) \<times> 'h \<Rightarrow> (CommandError + unit) \<times> 'h" where
  "answer_of r = (case r of ((_, None), h) \<Rightarrow> (Inr (), h) | ((_, Some e), h) \<Rightarrow> (Inl e, h))"

definition sys_Restart :: "'h exec \<Rightarrow> Systemctl \<Rightarrow> 'h \<Rightarrow> (CommandError + unit) \<times> 'h" where
  "sys_Restart exec s h = answer_of (sys_run exec s [''restart'', unit_name s] h)"

definition sys_ResetFailed :: "'h exec \<Rightarrow> Systemctl \<Rightarrow> 'h \<Rightarrow> (CommandError + unit) \<times> 'h" where
  "sys_ResetFailed exec s h = answer_of (sys_run exec s [''reset-failed'', unit_name s] h)"

definition sys_DaemonReload :: "'h exec \<Rightarrow> Systemctl \<Rightarrow> 'h \<Rightarrow> (CommandError + unit) \<times> 'h" where
  "sys_DaemonReload exec s h = answer_of (sys_run exec s [''daemon-reload''] h)"

definition sys_Enable :: "'h exec \<Rightarrow> Systemctl \<Rightarrow> 'h \<Rightarrow> (CommandError + unit) \<times> 'h" where
  "sys_Enable exec s h = answer_of (sys_run exec s [''enable'', ''--now'', unit_name s] h)"

definition sys_Disable :: "'h exec \<Rightarrow> Systemctl \<Rightarrow> 'h \<Rightarrow> (CommandError + unit) \<times> 'h" where
  "sys_Disable exec s h = answer_of (sys_run exec s [''disable'', ''--now'', unit_name s] h)"

definition sys_Reload :: "'h exec \<Rightarrow> Systemctl \<Rightarrow> string \<Rightarrow> 'h \<Rightarrow> (CommandError + unit) \<times> 'h" where
  "sys_Reload exec s u h = answer_of (sys_run exec s [''reload'', u] h)"

definition sys_IsActive :: "'h exec \<Rightarrow> Systemctl \<Rightarrow> 'h \<Rightarrow> (CommandError + bool) \<times> 'h" where
  "sys_IsActive exec s h =
     (case sys_run exec s [''is-active'', unit_name s] h of ((out, err), h) \<Rightarrow>
       let state = TrimSpace out in
       case err of
         Some e \<Rightarrow> (case ce_Err e of
             ExitError _ \<Rightarrow> (if state \<noteq> [] then Inr False else Inl e, h)
           | NotRun \<Rightarrow> (Inl e, h))
       | None \<Rightarrow> (Inr (state = ''active''), h))"

section \<open>What is read back from the unit\<close>

lemma Split_hd: "Split sep s = takeWhile ((\<noteq>) sep) s # tl (Split sep s)"
proof (induction s)
  case (Cons c cs)
  then show ?case by (cases "Split sep cs") auto
qed simp

lemma Split_unlines:
  "\<forall>l \<in> set ls. CHR 0x0A \<notin> set l \<Longrightarrow> Split (CHR 0x0A) (unlines ls @ t) = ls @ Split (CHR 0x0A) t"
proof (induction ls)
  case (Cons l ls)
  then show ?case by (simp add: unlines_def Split_append_sep)
qed (simp add: unlines_def)

lemma listen_lines_skip:
  "\<forall>l \<in> set ls. \<not> HasPrefix (TrimSpace l) ''ExecStart='' \<Longrightarrow> listen_lines (ls @ ms) = listen_lines ms"
  by (induction ls) (auto simp: Let_def)

lemma takeWhile_append_all: "sep \<notin> set p \<Longrightarrow> takeWhile ((\<noteq>) sep) (p @ t) = p @ takeWhile ((\<noteq>) sep) t"
  by (induction p) auto

lemma TrimSpace_keeps:
  assumes "p \<noteq> []" "\<not> is_space (hd p)" "\<not> is_space (last p)"
  shows "\<exists>t'. TrimSpace (p @ t) = p @ t'"
proof -
  have d: "dropWhile is_space (p @ t) = p @ t"
    using assms(1,2) by (cases p) auto
  obtain q where "p = q @ [last p]" using assms(1) by (metis append_butlast_last_id)
  have drop: "\<exists>u. dropWhile is_space (rev t @ rev p) = u @ rev p"
  proof (cases "\<forall>c \<in> set t. is_space c")
    case True
    then show ?thesis using assms(1,3)
      by (cases "rev p") (auto simp: dropWhile_append3 dropWhile_append2 last_rev hd_rev [symmetric])
  next
    case False
    then show ?thesis by (intro exI [of _ "dropWhile is_space (rev t)"]) (auto simp: dropWhile_append1)
  qed
  then obtain u where "dropWhile is_space (rev (p @ t)) = u @ rev p" by auto
  then show ?thesis by (intro exI [of _ "rev u"]) (simp add: TrimSpace_def d)
qed

lemma fields_word:
  "\<forall>c \<in> set w. \<not> is_space c \<Longrightarrow> fields_acc acc (w @ t) = fields_acc (rev w @ acc) t"
  by (induction w arbitrary: acc) auto

lemma Fields_word:
  assumes "w \<noteq> []" "\<forall>c \<in> set w. \<not> is_space c" "is_space sp"
  shows "Fields (w @ sp # t) = w # Fields t"
  using assms by (simp add: Fields_def fields_word)

lemma no_space_iff: "(\<forall>c \<in> set w. \<not> is_space c) \<longleftrightarrow> list_all (\<lambda>c. \<not> is_space c) w"
  by (simp add: list_all_iff)

text \<open>No line before ExecStart is one, and no line of the frame has a line end.\<close>

lemma unit_head_plain: "\<forall>l \<in> set unit_head. CHR 0x0A \<notin> set l"
  by (simp add: unit_head_def)

lemma unit_head_skipped: "\<forall>l \<in> set unit_head. \<not> HasPrefix (TrimSpace l) ''ExecStart=''"
  by (simp add: unit_head_def TrimSpace_def is_space_def HasPrefix_def)

lemma Fields_words:
  "\<forall>w \<in> set ws. w \<noteq> [] \<and> (\<forall>c \<in> set w. \<not> is_space c) \<Longrightarrow>
    Fields (concat (map (\<lambda>w. w @ '' '') ws) @ t) = ws @ Fields t"
proof (induction ws)
  case (Cons w ws)
  have "is_space CHR '' ''" by (simp add: is_space_def)
  with Cons show ?case using Fields_word [of w "CHR '' ''"] by simp
qed simp

lemma Fields_exec_start:
  assumes "listen \<noteq> []" "\<forall>c \<in> set listen. \<not> is_space c"
  shows "Fields (Binary @ '' serve --listen '' @ listen @ '' --mode'' @ t) =
     [Binary, ''serve'', ''--listen'', listen] @ Fields (''--mode'' @ t)"
  using Fields_words [of "[Binary, ''serve'', ''--listen'', listen]" "''--mode'' @ t"] assms
  by (simp add: Binary_def is_space_def)

lemma listen_fields_exec_start:
  assumes "listen \<noteq> []" "\<forall>c \<in> set listen. \<not> is_space c"
  shows "listen_fields (Fields (Binary @ '' serve --listen '' @ listen @ '' --mode'' @ t)) = Some (listen, True)"
  unfolding Fields_exec_start [OF assms]
  by (simp add: Binary_def HasPrefix_def)

lemma unit_listen_roundtrip:
  assumes "\<forall>c \<in> set (uc_Listen cfg). \<not> is_space c"
  shows "ListenFromUnit (UnitFile cfg) = (if uc_Listen cfg = [] then DefaultListen else uc_Listen cfg, True)"
proof -
  define listen where "listen = (if uc_Listen cfg = [] then DefaultListen else uc_Listen cfg)"
  have l: "listen \<noteq> []" "\<forall>c \<in> set listen. \<not> is_space c"
    using assms by (auto simp: listen_def DefaultListen_def is_space_def)
  define p where "p = ''ExecStart='' @ Binary @ '' serve --listen '' @ listen @ '' --mode''"
  obtain t where u: "UnitFile cfg = unlines unit_head @ p @ t"
    by (simp add: UnitFile_def Let_def unlines_def exec_start_def p_def listen_def)
  have "CHR 0x0A \<notin> set p"
    using l(2) by (auto simp: p_def Binary_def is_space_def)
  then have "hd (Split (CHR 0x0A) (p @ t)) = p @ takeWhile ((\<noteq>) (CHR 0x0A)) t"
    by (subst Split_hd) (simp add: takeWhile_append_all)
  then obtain ls where s: "Split (CHR 0x0A) (p @ t) = (p @ takeWhile ((\<noteq>) (CHR 0x0A)) t) # ls"
    by (metis Split_ne list.collapse)
  have "hd p = CHR ''E''" "last p = CHR ''e''" "p \<noteq> []" by (simp_all add: p_def)
  then obtain t' where t: "TrimSpace (p @ takeWhile ((\<noteq>) (CHR 0x0A)) t) = p @ t'"
    using TrimSpace_keeps [of p] by (auto simp: is_space_def)
  have x: "HasPrefix (p @ t') ''ExecStart=''" "TrimPrefix (p @ t') ''ExecStart='' =
      Binary @ '' serve --listen '' @ listen @ '' --mode'' @ t'"
    by (simp_all add: p_def TrimPrefix_def HasPrefix_def)
  have "ListenFromUnit (UnitFile cfg) = listen_lines (Split (CHR 0x0A) (p @ t))"
    unfolding ListenFromUnit_def u Split_unlines [OF unit_head_plain]
    by (rule listen_lines_skip [OF unit_head_skipped])
  also have "\<dots> = (listen, True)"
    unfolding s listen_lines.simps t x Let_def listen_fields_exec_start [OF l] using x(1) by simp
  finally show ?thesis by (simp add: listen_def)
qed

section \<open>The seam Manager\<close>

text \<open>
  What an installation, an update and a removal rely on of a service manager: after a call that
  started the service it is active, after one that stopped it it is not, and the others leave it.
\<close>

locale manager =
  fixes restart reset_failed daemon_reload enable disable :: "'m \<Rightarrow> ('e + unit) \<times> 'm"
    and reload :: "string \<Rightarrow> 'm \<Rightarrow> ('e + unit) \<times> 'm"
    and is_active :: "'m \<Rightarrow> ('e + bool) \<times> 'm"
    and active :: "'m \<Rightarrow> bool"
  assumes restart_ok: "restart m = (Inr (), m') \<Longrightarrow> active m'"
    and enable_ok: "enable m = (Inr (), m') \<Longrightarrow> active m'"
    and disable_ok: "disable m = (Inr (), m') \<Longrightarrow> \<not> active m'"
    and refused: "restart m = (Inl e, m') \<or> enable m = (Inl e, m') \<or> disable m = (Inl e, m') \<Longrightarrow> active m' = active m"
    and kept: "active (snd (reset_failed m)) = active m" "active (snd (daemon_reload m)) = active m"
      "active (snd (reload u m)) = active m"
    and asked: "is_active m = (r, m') \<Longrightarrow> active m' = active m \<and> (\<forall>b. r = Inr b \<longrightarrow> b = active m)"
begin

text \<open>Clearing the failure first does not spoil a restart.\<close>

lemma restarted: "restart (snd (reset_failed m)) = (Inr (), m') \<Longrightarrow> is_active m' = (Inr b, m'') \<Longrightarrow> b"
  using restart_ok asked by blast

lemma stopped: "disable m = (Inr (), m') \<Longrightarrow> is_active (snd (daemon_reload m')) = (Inr b, m'') \<Longrightarrow> \<not> b"
  using disable_ok asked kept(2) by metis

end

record Fake_Manager =
  fm_Active :: bool
  fm_Calls :: "string list"
  fm_Err :: "string option"

definition fm_record :: "string \<Rightarrow> Fake_Manager \<Rightarrow> (string + unit) \<times> Fake_Manager" where
  "fm_record c f = (case fm_Err f of None \<Rightarrow> Inr () | Some e \<Rightarrow> Inl e, f\<lparr>fm_Calls := fm_Calls f @ [c]\<rparr>)"

definition fm_set :: "bool \<Rightarrow> (string + unit) \<times> Fake_Manager \<Rightarrow> (string + unit) \<times> Fake_Manager" where
  "fm_set b r = (case r of (Inl e, f) \<Rightarrow> (Inl e, f) | (Inr _, f) \<Rightarrow> (Inr (), f\<lparr>fm_Active := b\<rparr>))"

definition fm_Restart :: "Fake_Manager \<Rightarrow> (string + unit) \<times> Fake_Manager" where
  "fm_Restart f = fm_set True (fm_record ''restart'' f)"

definition fm_ResetFailed :: "Fake_Manager \<Rightarrow> (string + unit) \<times> Fake_Manager" where
  "fm_ResetFailed f = fm_record ''reset-failed'' f"

definition fm_DaemonReload :: "Fake_Manager \<Rightarrow> (string + unit) \<times> Fake_Manager" where
  "fm_DaemonReload f = fm_record ''daemon-reload'' f"

definition fm_Enable :: "Fake_Manager \<Rightarrow> (string + unit) \<times> Fake_Manager" where
  "fm_Enable f = fm_set True (fm_record ''enable'' f)"

definition fm_Disable :: "Fake_Manager \<Rightarrow> (string + unit) \<times> Fake_Manager" where
  "fm_Disable f = fm_set False (fm_record ''disable'' f)"

definition fm_Reload :: "string \<Rightarrow> Fake_Manager \<Rightarrow> (string + unit) \<times> Fake_Manager" where
  "fm_Reload u f = fm_record (''reload '' @ u) f"

definition fm_IsActive :: "Fake_Manager \<Rightarrow> (string + bool) \<times> Fake_Manager" where
  "fm_IsActive f = (case fm_record ''is-active'' f of (Inl e, f) \<Rightarrow> (Inl e, f) | (Inr _, f) \<Rightarrow> (Inr (fm_Active f), f))"

definition Restarts :: "Fake_Manager \<Rightarrow> nat" where
  "Restarts f = length (filter (\<lambda>c. c = ''restart'') (fm_Calls f))"

lemmas fm_defs = fm_Restart_def fm_ResetFailed_def fm_DaemonReload_def fm_Enable_def fm_Disable_def
  fm_Reload_def fm_IsActive_def fm_record_def fm_set_def

interpretation fm: manager fm_Restart fm_ResetFailed fm_DaemonReload fm_Enable fm_Disable fm_Reload
    fm_IsActive fm_Active
  by unfold_locales (auto simp: fm_defs split: option.splits prod.splits sum.splits)

end
