(* ===== verification/Go_Net.thy ===== *)
theory Go_Net
  imports Go_Strings
begin

text \<open>net.SplitHostPort and net.JoinHostPort, and that splitting undoes joining.\<close>

fun last_index :: "char \<Rightarrow> string \<Rightarrow> nat option" where
  "last_index c [] = None"
| "last_index c (x # xs) = (case last_index c xs of Some i \<Rightarrow> Some (Suc i) | None \<Rightarrow> if x = c then Some 0 else None)"

fun index_of :: "char \<Rightarrow> string \<Rightarrow> nat option" where
  "index_of c [] = None"
| "index_of c (x # xs) = (if x = c then Some 0 else map_option Suc (index_of c xs))"

datatype addr_error = MissingPort | TooManyColons | MissingBracket | UnexpectedBracket

definition split_rest :: "string \<Rightarrow> string \<Rightarrow> nat \<Rightarrow> nat \<Rightarrow> nat \<Rightarrow> addr_error + string \<times> string" where
  "split_rest hostport host i j k =
     (if CHR ''['' \<in> set (drop j hostport) \<or> CHR '']'' \<in> set (drop k hostport) then Inl UnexpectedBracket
      else Inr (host, drop (i + 1) hostport))"

definition SplitHostPort :: "string \<Rightarrow> addr_error + string \<times> string" where
  "SplitHostPort hostport =
     (case last_index (CHR '':'') hostport of None \<Rightarrow> Inl MissingPort
      | Some i \<Rightarrow>
        if hd hostport = CHR ''['' then
          (case index_of (CHR '']'') hostport of None \<Rightarrow> Inl MissingBracket
           | Some e \<Rightarrow>
             if e + 1 = length hostport then Inl MissingPort
             else if e + 1 \<noteq> i then (if hostport ! (e + 1) = CHR '':'' then Inl TooManyColons else Inl MissingPort)
             else split_rest hostport (take (e - 1) (drop 1 hostport)) i 1 (e + 1))
        else if CHR '':'' \<in> set (take i hostport) then Inl TooManyColons
        else split_rest hostport (take i hostport) i 0 0)"

definition JoinHostPort :: "string \<Rightarrow> string \<Rightarrow> string" where
  "JoinHostPort host port =
     (if CHR '':'' \<in> set host then ''['' @ host @ '']:'' @ port else host @ '':'' @ port)"

lemma last_index_None: "last_index c xs = None \<longleftrightarrow> c \<notin> set xs"
  by (induction xs) (auto split: option.splits)

lemma last_index_append: "c \<notin> set ys \<Longrightarrow> last_index c (xs @ c # ys) = Some (length xs)"
proof (induction xs)
  case Nil
  then have "last_index c ys = None" by (simp add: last_index_None)
  then show ?case by simp
qed simp

lemma index_of_append: "c \<notin> set xs \<Longrightarrow> index_of c (xs @ c # ys) = Some (length xs)"
  by (induction xs) auto

lemma Split_Join:
  assumes "\<forall>c \<in> set host \<union> set port. c \<noteq> CHR ''['' \<and> c \<noteq> CHR '']''" "CHR '':'' \<notin> set port"
  shows "SplitHostPort (JoinHostPort host port) = Inr (host, port)"
proof (cases "CHR '':'' \<in> set host")
  case True
  define s where "s = ''['' @ host @ '']:'' @ port"
  have s1: "s = (CHR ''['' # host @ [CHR '']'']) @ CHR '':'' # port"
    and s2: "s = (CHR ''['' # host) @ CHR '']'' # CHR '':'' # port" by (simp_all add: s_def)
  have "last_index (CHR '':'') s = Some (length host + 2)"
    unfolding s1 by (subst last_index_append [OF assms(2)]) simp
  moreover have "index_of (CHR '']'') s = Some (length host + 1)"
    unfolding s2 using index_of_append [of "CHR '']''" "CHR ''['' # host"] assms(1) by auto
  moreover have "split_rest s host (length host + 2) 1 (length host + 2) = Inr (host, port)"
    using assms(1) by (auto simp: split_rest_def s_def)
  ultimately show ?thesis using True by (simp add: JoinHostPort_def SplitHostPort_def s_def)
next
  case False
  have "last_index (CHR '':'') (host @ '':'' @ port) = Some (length host)"
    using last_index_append [OF assms(2), of host] by simp
  moreover have "hd (host @ '':'' @ port) \<noteq> CHR ''[''" using assms(1) by (cases host) auto
  moreover have "split_rest (host @ '':'' @ port) host (length host) 0 0 = Inr (host, port)"
    using assms(1) by (auto simp: split_rest_def)
  ultimately show ?thesis using False by (simp add: JoinHostPort_def SplitHostPort_def)
qed

end
