(* ===== verification/Update.thy ===== *)
theory Update
  imports Release Service Go_Net
begin

text \<open>
  internal/cli/update.go and the exit codes of cli.go. The files are a map from paths to files; the
  rest of the host (systemd, the running service, the clock) is a state of its own, on which the
  service manager, the health probe and the waiting are steps. Waiting is a loop that may go on for
  ever, so it is a partial function, and what makes it end is stated. What is printed is not kept.
\<close>

section \<open>Calls on files\<close>

datatype os_error = NotExist | Exists | Denied

definition os_Remove :: "bool \<Rightarrow> string \<Rightarrow> fs \<Rightarrow> (os_error + unit) \<times> fs" where
  "os_Remove works p files =
     (if files p = None then (Inl NotExist, files) else if works then (Inr (), files(p := None)) else (Inl Denied, files))"

definition os_Link :: "bool \<Rightarrow> string \<Rightarrow> string \<Rightarrow> fs \<Rightarrow> (os_error + unit) \<times> fs" where
  "os_Link works p q files =
     (if files p = None then (Inl NotExist, files) else if files q \<noteq> None then (Inl Exists, files)
      else if works then (Inr (), files(q := files p)) else (Inl Denied, files))"

definition os_Rename :: "bool \<Rightarrow> string \<Rightarrow> string \<Rightarrow> fs \<Rightarrow> (os_error + unit) \<times> fs" where
  "os_Rename works p q files =
     (if files p = None then (Inl NotExist, files)
      else if works then (Inr (), (files(p := None))(q := files p)) else (Inl Denied, files))"

section \<open>Exit codes (cli.go)\<close>

datatype cli_error = FlagHelp | ErrNotImplemented | ErrRolledBack | ErrRollbackFailed | OtherError

definition exitCode :: "cli_error option \<Rightarrow> int" where
  "exitCode err = (case err of None \<Rightarrow> 0 | Some FlagHelp \<Rightarrow> 0 | Some ErrNotImplemented \<Rightarrow> 3
     | Some ErrRolledBack \<Rightarrow> 4 | Some ErrRollbackFailed \<Rightarrow> 5 | Some OtherError \<Rightarrow> 1)"

text \<open>Run: the subcommand that a name stands for, and what it exits with.\<close>

datatype command = Serve | InstallCmd | UninstallCmd | UpdateCmd | Publish | SetupTokenCmd

definition command_of :: "string \<Rightarrow> command option" where
  "command_of name = map_of [(''serve'', Serve), (''install'', InstallCmd), (''uninstall'', UninstallCmd),
     (''update'', UpdateCmd), (''publish'', Publish), (''setup-token'', SetupTokenCmd)] name"

definition Run :: "(command \<Rightarrow> string list \<Rightarrow> 'h \<Rightarrow> cli_error option \<times> 'h) \<Rightarrow> string list \<Rightarrow> 'h \<Rightarrow> int \<times> 'h" where
  "Run run args h =
     (case args of [] \<Rightarrow> (2, h)
      | name # rest \<Rightarrow>
        (case command_of name of
           Some c \<Rightarrow> (let (err, h) = run c rest h in (exitCode err, h))
         | None \<Rightarrow>
           if name \<in> {''version'', ''--version'', ''-v''} then (0, h)
           else if name \<in> {''help'', ''--help'', ''-h''} then (0, h)
           else (2, h)))"

section \<open>Waiting for the service (update.go)\<close>

definition defaultHealthTimeout :: int where "defaultHealthTimeout = 60000000000"
definition healthPollInterval :: int where "healthPollInterval = 1000000000"

datatype poll_error = ProbeFailed string | AnsweringAs string string
datatype wait_error = NotHealthy string poll_error

text \<open>
  What an update asks of the rest of the host. A wait ends through its deadline (True) or goes on at
  the next tick (False): the select of waitHealthy, given the deadline.
\<close>

record 'm Host =
  restartUnit :: "fs \<Rightarrow> 'm \<Rightarrow> (string + unit) \<times> 'm"
  resetFailed :: "fs \<Rightarrow> 'm \<Rightarrow> (string + unit) \<times> 'm"
  health :: "'m \<Rightarrow> (string + string) \<times> 'm"
  clock :: "'m \<Rightarrow> int"
  select :: "int \<Rightarrow> 'm \<Rightarrow> bool \<times> 'm"

definition judge :: "string \<Rightarrow> string + string \<Rightarrow> poll_error option" where
  "judge want r = (case r of Inl err \<Rightarrow> Some (ProbeFailed err)
     | Inr got \<Rightarrow> if SameVersion got want then None else Some (AnsweringAs got want))"

partial_function (option) poll_until :: "'m Host \<Rightarrow> string \<Rightarrow> int \<Rightarrow> 'm \<Rightarrow> ((wait_error + unit) \<times> 'm) option" where
  "poll_until u want deadline m =
     (let (r, m) = health u m in
      case judge want r of
        None \<Rightarrow> Some (Inr (), m)
      | Some cause \<Rightarrow>
        (let (done, m) = select u deadline m in
         if done then Some (Inl (NotHealthy want cause), m) else poll_until u want deadline m))"

definition waitHealthy :: "'m Host \<Rightarrow> string \<Rightarrow> int \<Rightarrow> 'm \<Rightarrow> ((wait_error + unit) \<times> 'm) option" where
  "waitHealthy u want timeout m = poll_until u want (clock u m + timeout) m"

section \<open>One update\<close>

text \<open>
  The source of releases, the faults of the calls on files, and the rest of the updater's fields.
\<close>

record ReleaseSource =
  rs_Latest :: "release_error + Release"
  rs_Resolve :: "string \<Rightarrow> release_error + Release"
  rs_Fetch :: "Release \<Rightarrow> string \<Rightarrow> fs \<Rightarrow> (fetch_error + Artifact) \<times> fs"

record calls =
  can_clear :: bool
  can_link :: bool
  can_install :: bool
  can_unlink :: bool
  can_restore :: bool
  can_discard :: bool

record updater =
  up_source :: ReleaseSource
  up_binary :: string
  up_entries :: "string list"   \<comment> \<open>the names in the directory of the binary\<close>
  up_dir :: string
  up_goarch :: string
  up_running :: string
  up_timeout :: int
  up_calls :: calls

datatype update_error =
    TargetFailed release_error
  | RefusedDowngrade string string
  | FetchFailed fetch_error
  | ClearingBackup os_error
  | KeepingCopy os_error
  | Installing os_error
  | RolledBack string
  | RestoreFailed os_error
  | RestartFailed string
  | NotAnswering wait_error

datatype update_done = NothingToDo | Updated bool

definition update_code :: "update_error + update_done \<Rightarrow> cli_error option" where
  "update_code r = (case r of Inr _ \<Rightarrow> None
     | Inl (RolledBack _) \<Rightarrow> Some ErrRolledBack
     | Inl (RestoreFailed _) \<Rightarrow> Some ErrRollbackFailed
     | Inl (RestartFailed _) \<Rightarrow> Some ErrRollbackFailed
     | Inl (NotAnswering _) \<Rightarrow> Some ErrRollbackFailed
     | Inl _ \<Rightarrow> Some OtherError)"

definition target :: "updater \<Rightarrow> string \<Rightarrow> release_error + Release" where
  "target up want = (if want \<noteq> [] then rs_Resolve (up_source up) want else rs_Latest (up_source up))"

datatype news = DevelopmentBuild | Newest | Available | Ahead

definition check :: "updater \<Rightarrow> string \<Rightarrow> release_error + news" where
  "check up want =
     (case target up want of Inl err \<Rightarrow> Inl err
      | Inr rel \<Rightarrow> Inr (if \<not> IsRelease (up_running up) then DevelopmentBuild
          else if SameVersion (Version rel) (up_running up) then Newest
          else if Newer (Version rel) (up_running up) then Available else Ahead))"

definition restart :: "'m Host \<Rightarrow> fs \<Rightarrow> 'm \<Rightarrow> (string + unit) \<times> 'm" where
  "restart u files m = (let (_, m) = resetFailed u files m in restartUnit u files m)"

definition swap :: "updater \<Rightarrow> string \<Rightarrow> fs \<Rightarrow> (update_error + string) \<times> fs" where
  "swap up downloaded files =
     (let c = up_calls up; previous = up_binary up @ PreviousSuffix;
          (r, files) = os_Remove (can_clear c) previous files in
      case r of Inl Denied \<Rightarrow> (Inl (ClearingBackup Denied), files) | _ \<Rightarrow>
        (case os_Link (can_link c) (up_binary up) previous files of
           (Inl err, files) \<Rightarrow> (Inl (KeepingCopy err), files)
         | (Inr _, files) \<Rightarrow>
           (case os_Rename (can_install c) downloaded (up_binary up) files of
              (Inl err, files) \<Rightarrow> (Inl (Installing err), snd (os_Remove (can_unlink c) previous files))
            | (Inr _, files) \<Rightarrow> (Inr previous, files))))"

definition rollback :: "'m Host \<Rightarrow> updater \<Rightarrow> string \<Rightarrow> fs \<Rightarrow> 'm \<Rightarrow> (update_error \<times> fs \<times> 'm) option" where
  "rollback u up previous files m =
     (case os_Rename (can_restore (up_calls up)) previous (up_binary up) files of
        (Inl err, files) \<Rightarrow> Some (RestoreFailed err, files, m)
      | (Inr _, files) \<Rightarrow>
        (case restart u files m of
           (Inl err, m) \<Rightarrow> Some (RestartFailed err, files, m)
         | (Inr _, m) \<Rightarrow>
           (case waitHealthy u (up_running up) (up_timeout up) m of
              None \<Rightarrow> None
            | Some (Inl err, m) \<Rightarrow> Some (NotAnswering err, files, m)
            | Some (Inr _, m) \<Rightarrow> Some (RolledBack (up_running up), files, m))))"

text \<open>What update does once a binary has been installed.\<close>

definition prove :: "'m Host \<Rightarrow> updater \<Rightarrow> Release \<Rightarrow> bool \<Rightarrow> string \<Rightarrow> fs \<Rightarrow> 'm
    \<Rightarrow> ((update_error + update_done) \<times> fs \<times> 'm) option" where
  "prove u up rel signed previous files m =
     (let undo = (\<lambda>m. map_option (\<lambda>(e, w). (Inl e, w)) (rollback u up previous files m)) in
      case restart u files m of
        (Inl _, m) \<Rightarrow> undo m
      | (Inr _, m) \<Rightarrow>
        (case waitHealthy u (Version rel) (up_timeout up) m of
           None \<Rightarrow> None
         | Some (Inl _, m) \<Rightarrow> undo m
         | Some (Inr _, m) \<Rightarrow> Some (Inr (Updated signed), files, m)))"

definition update :: "'m Host \<Rightarrow> updater \<Rightarrow> string \<Rightarrow> bool \<Rightarrow> fs \<Rightarrow> 'm
    \<Rightarrow> ((update_error + update_done) \<times> fs \<times> 'm) option" where
  "update u up want allowDowngrade files m =
     (case target up want of
        Inl err \<Rightarrow> Some (Inl (TargetFailed err), files, m)
      | Inr rel \<Rightarrow>
        if SameVersion (Version rel) (up_running up) \<and> IsRelease (up_running up)
        then Some (Inr NothingToDo, files, m)
        else if IsRelease (up_running up) \<and> \<not> Newer (Version rel) (up_running up) \<and> \<not> allowDowngrade
        then Some (Inl (RefusedDowngrade (up_running up) (Version rel)), files, m)
        else
          let files = SweepTemp (up_dir up) (up_entries up) files in
          (case rs_Fetch (up_source up) rel (up_goarch up) files of
             (Inl err, files) \<Rightarrow> Some (Inl (FetchFailed err), files, m)
           | (Inr a, files) \<Rightarrow>
             (case swap up (art_Path a) files of
                (Inl err, files) \<Rightarrow>
                  Some (Inl err, snd (os_Remove (can_discard (up_calls up)) (art_Path a) files), m)
              | (Inr previous, files) \<Rightarrow> prove u up rel (art_Signed a) previous files m)))"

section \<open>Waiting\<close>

lemma poll_until_eq:
  "poll_until u want d m = (case judge want (fst (health u m)) of
      None \<Rightarrow> Some (Inr (), snd (health u m))
    | Some cause \<Rightarrow> if fst (select u d (snd (health u m)))
        then Some (Inl (NotHealthy want cause), snd (select u d (snd (health u m))))
        else poll_until u want d (snd (select u d (snd (health u m)))))"
  by (subst poll_until.simps) (simp add: Let_def split_beta split: option.splits)

text \<open>The host as the n-th poll finds it, when no poll before it was answered and none was the last.\<close>

primrec polled :: "'m Host \<Rightarrow> int \<Rightarrow> nat \<Rightarrow> 'm \<Rightarrow> 'm" where
  "polled u d 0 m = m"
| "polled u d (Suc n) m = polled u d n (snd (select u d (snd (health u m))))"

lemma polled_Suc: "polled u d (Suc n) m = snd (select u d (snd (health u (polled u d n m))))"
  by (induction n arbitrary: m) simp_all

abbreviation answered :: "'m Host \<Rightarrow> string \<Rightarrow> 'm \<Rightarrow> bool" where
  "answered u want m \<equiv> judge want (fst (health u m)) = None"

abbreviation given_up :: "'m Host \<Rightarrow> int \<Rightarrow> 'm \<Rightarrow> bool" where
  "given_up u d m \<equiv> fst (select u d (snd (health u m)))"

text \<open>The first poll that ends the wait ends it.\<close>

lemma poll_until_first:
  assumes "\<forall>i < n. \<not> answered u want (polled u d i m) \<and> \<not> given_up u d (polled u d i m)"
  shows "poll_until u want d m = poll_until u want d (polled u d n m)"
  using assms
proof (induction n arbitrary: m)
  case (Suc n)
  define m1 where "m1 = snd (select u d (snd (health u m)))"
  have "\<not> answered u want m" "\<not> given_up u d m" using Suc.prems by (auto dest: spec [of _ 0])
  then have "poll_until u want d m = poll_until u want d m1"
    by (subst poll_until_eq) (auto simp: m1_def)
  also have "\<dots> = poll_until u want d (polled u d n m1)"
    using Suc.prems by (intro Suc.IH) (auto simp: m1_def dest: spec [of _ "Suc _"])
  finally show ?case by (simp add: m1_def)
qed simp

lemma poll_until_ends:
  assumes "answered u want (polled u d n m) \<or> given_up u d (polled u d n m)"
  obtains k where "k \<le> n" "poll_until u want d m = poll_until u want d (polled u d k m)"
    "answered u want (polled u d k m) \<or> given_up u d (polled u d k m)"
    "\<forall>i < k. \<not> answered u want (polled u d i m) \<and> \<not> given_up u d (polled u d i m)"
proof -
  define P where "P i \<longleftrightarrow> answered u want (polled u d i m) \<or> given_up u d (polled u d i m)" for i
  have "P n" using assms by (simp add: P_def)
  define k where "k = (LEAST i. P i)"
  have "P k" "k \<le> n" unfolding k_def using \<open>P n\<close> by (rule LeastI, rule Least_le)
  moreover have "\<forall>i < k. \<not> answered u want (polled u d i m) \<and> \<not> given_up u d (polled u d i m)"
    using not_less_Least [of _ P] by (auto simp: k_def P_def)
  ultimately show thesis using that [of k] poll_until_first [where n = k and u = u and d = d and m = m] by (simp add: P_def)
qed

text \<open>How a wait that ended has ended.\<close>

lemma poll_until_Some:
  "poll_until u want d m = Some r \<Longrightarrow> \<exists>k. let mk = polled u d k m in
     (answered u want mk \<and> r = (Inr (), snd (health u mk))) \<or>
     (\<exists>cause. judge want (fst (health u mk)) = Some cause \<and> given_up u d mk \<and>
        r = (Inl (NotHealthy want cause), snd (select u d (snd (health u mk)))))"
proof (induction rule: poll_until.raw_induct [rotated, consumes 1, case_names step])
  case (step self u want d m r)

  show ?case
  proof (cases "judge want (fst (health u m))")
    case None
    then show ?thesis using step(2) by (intro exI [of _ 0]) (auto simp: Let_def split_beta)
  next
    case (Some cause)
    show ?thesis
    proof (cases "given_up u d m")
      case True
      then show ?thesis using step(2) Some by (intro exI [of _ 0]) (auto simp: Let_def split_beta)
    next
      case False
      then have "self u want d (snd (select u d (snd (health u m)))) = Some r"
        using step(2) Some by (simp add: Let_def split_beta)
      from step(1) [OF this] obtain k where
        "let mk = polled u d (Suc k) m in
           (answered u want mk \<and> r = (Inr (), snd (health u mk))) \<or>
           (\<exists>cause. judge want (fst (health u mk)) = Some cause \<and> given_up u d mk \<and>
              r = (Inl (NotHealthy want cause), snd (select u d (snd (health u mk)))))"
        by auto
      then show ?thesis by blast
    qed
  qed
qed

lemma judge_None: "judge want r = None \<longleftrightarrow> (\<exists>got. r = Inr got \<and> SameVersion got want)"
  by (auto simp: judge_def split: sum.splits)

text \<open>A wait that succeeded saw the answer it was waiting for.\<close>

lemma poll_until_Inr:
  assumes "poll_until u want d m = Some (Inr x, m')"
  shows "\<exists>m0 got. health u m0 = (Inr got, m') \<and> SameVersion got want"
proof -
  obtain k where "answered u want (polled u d k m)" "m' = snd (health u (polled u d k m))"
    using poll_until_Some [OF assms] by (auto simp: Let_def)
  then show ?thesis by (intro exI [of _ "polled u d k m"]) (auto simp: judge_None prod_eq_iff)
qed

text \<open>
  C19: Waiting for the service ends. If ticks are at least an interval apart, and a tick is not taken
  for longer than some time after the deadline (select may take either when both are there), then
  waitHealthy answers after at most (timeout + that time) / interval polls and one, having polled at
  least once: it succeeds if the first poll that saw the version wanted comes before it gave up, and
  otherwise fails with the last poll's own reason.
\<close>

theorem waitHealthy_ends:
  assumes "interval > 0"
    and ticks: "\<And>n. \<forall>i < n. \<not> given_up u (clock u m + timeout) (polled u (clock u m + timeout) i m) \<Longrightarrow>
      clock u (polled u (clock u m + timeout) n m) \<ge> clock u m + int n * interval"
    and late: "\<And>h. \<not> fst (select u (clock u m + timeout) h) \<Longrightarrow> clock u (snd (select u (clock u m + timeout) h)) \<le> clock u m + timeout + slack"
  shows "\<exists>k r. int k \<le> max 0 ((timeout + slack) div interval) \<and> waitHealthy u want timeout m = Some r \<and>
     (let at = (\<lambda>i. polled u (clock u m + timeout) i m) in
      (\<forall>i < k. \<not> answered u want (at i)) \<and>
      (case judge want (fst (health u (at k))) of None \<Rightarrow> fst r = Inr ()
       | Some cause \<Rightarrow> given_up u (clock u m + timeout) (at k) \<and> fst r = Inl (NotHealthy want cause)))"
proof -
  define d where "d = clock u m + timeout"
  define n where "n = nat ((timeout + slack) div interval)"
  have "\<exists>i \<le> n. answered u want (polled u d i m) \<or> given_up u d (polled u d i m)"
  proof (rule ccontr)
    assume "\<not> ?thesis"
    then have on: "\<forall>i < Suc n. \<not> given_up u d (polled u d i m)" by (simp add: less_Suc_eq_le)
    then have "\<not> fst (select u d (snd (health u (polled u d n m))))" by simp
    from late [folded d_def, OF this] have "clock u (polled u d (Suc n) m) \<le> clock u m + timeout + slack"
      by (simp only: polled_Suc) (simp add: d_def)
    moreover have "clock u m + int (Suc n) * interval \<le> clock u (polled u d (Suc n) m)"
      using ticks [folded d_def, OF on] .
    ultimately have "int (Suc n) * interval \<le> timeout + slack" by simp
    then have "int (Suc n) \<le> (timeout + slack) div interval"
      using \<open>interval > 0\<close> by (simp add: zdiv_mono1 [of "int (Suc n) * interval" _ interval, simplified])
    then show False by (auto simp: n_def split: if_splits)
  qed
  then obtain i where "i \<le> n" "answered u want (polled u d i m) \<or> given_up u d (polled u d i m)" by blast
  from poll_until_ends [OF this(2)] obtain k where k: "k \<le> i" "poll_until u want d m = poll_until u want d (polled u d k m)"
    "answered u want (polled u d k m) \<or> given_up u d (polled u d k m)"
    "\<forall>i < k. \<not> answered u want (polled u d i m) \<and> \<not> given_up u d (polled u d i m)"
    by blast
  have "int k \<le> max 0 ((timeout + slack) div interval)" using k(1) \<open>i \<le> n\<close> by (simp add: n_def)
  moreover have "\<exists>r. poll_until u want d (polled u d k m) = Some r \<and>
      (case judge want (fst (health u (polled u d k m))) of None \<Rightarrow> fst r = Inr ()
       | Some cause \<Rightarrow> given_up u d (polled u d k m) \<and> fst r = Inl (NotHealthy want cause))"
    using k(3) by (subst poll_until_eq) (auto split: option.splits)
  ultimately show ?thesis using k(2,4) unfolding waitHealthy_def Let_def d_def [symmetric] by auto
qed
section \<open>The source of releases\<close>

text \<open>
  What an update relies on of its source: a fetch writes temporary files only, hands over an
  executable file whose bytes have been vouched for, and leaves nothing when it fails.
\<close>

locale release_source =
  fixes source :: ReleaseSource
    and temps :: "string set"
    and fresh :: "fs \<Rightarrow> bool"
    and genuine :: "Release \<Rightarrow> string \<Rightarrow> string \<Rightarrow> bool \<Rightarrow> bool"
  assumes fetched: "fresh files \<Longrightarrow> rs_Fetch source rel arch files = (Inr a, files') \<Longrightarrow>
      art_Path a \<in> temps \<and>
      (\<exists>data. files' (art_Path a) = Some \<lparr>f_data = data, f_mode = 493\<rparr> \<and> genuine rel arch data (art_Signed a)) \<and>
      (\<forall>x. x \<notin> temps \<longrightarrow> files' x = files x)"
    and not_fetched: "fresh files \<Longrightarrow> rs_Fetch source rel arch files = (Inl err, files') \<Longrightarrow> files' = files"
    and still_fresh: "fresh files \<Longrightarrow> (\<forall>x. files' x = None \<or> files' x = files x) \<Longrightarrow> fresh files'"

text \<open>internal/release meets it, whatever the network answers.\<close>

definition source_of :: "(string \<Rightarrow> string) \<Rightarrow> (string \<Rightarrow> bool) \<Rightarrow> network \<Rightarrow>
    (string \<Rightarrow> (string \<times> string \<times> bool) option) \<Rightarrow> fetch_env \<Rightarrow> Source \<Rightarrow> ReleaseSource" where
  "source_of sha256 loopback net decode e s =
     \<lparr>rs_Latest = Latest loopback net decode s, rs_Resolve = Resolve loopback net decode s,
      rs_Fetch = (\<lambda>rel arch. Fetch sha256 loopback net e s rel arch)\<rparr>"

definition temps_of :: "fetch_env \<Rightarrow> string set" where
  "temps_of e = {p. fe_temp e = Some p \<or> fe_bundle e = Some p}"

text \<open>os.CreateTemp names a file that was not there, a different one every time.\<close>

definition fresh_for :: "fetch_env \<Rightarrow> fs \<Rightarrow> bool" where
  "fresh_for e files \<longleftrightarrow> fe_bundle e \<noteq> fe_temp e \<and> fe_remove e \<and> (\<forall>p \<in> temps_of e. files p = None)"

definition genuine_from :: "(string \<Rightarrow> string) \<Rightarrow> network \<Rightarrow> fetch_env \<Rightarrow> Source \<Rightarrow> Release \<Rightarrow> string \<Rightarrow> string \<Rightarrow> bool \<Rightarrow> bool" where
  "genuine_from sha256 net e s rel arch data signed \<longleftrightarrow>
     (\<exists>name sums. AssetName arch = Some name \<and>
        ans_reply (net (baseURL s @ ''/download/'' @ rel_Tag rel @ ''/SHA256SUMS'')) = Some (200, sums, Complete) \<and>
        vouched sha256 sums name data \<and> signed = fe_cosign e \<and>
        (signed \<longrightarrow> (\<exists>bdl. fe_verdict e data bdl)))"

interpretation gh: release_source "source_of sha256 loopback net decode e s" "temps_of e" "fresh_for e"
    "genuine_from sha256 net e s" for sha256 loopback net decode e s
proof unfold_locales
  fix files files' :: fs and rel arch a err
  assume f: "fresh_for e files"
  show "fresh_for e files'" if "\<forall>x. files' x = None \<or> files' x = files x"
    using f that by (fastforce simp: fresh_for_def)
  {
    assume "rs_Fetch (source_of sha256 loopback net decode e s) rel arch files = (Inr a, files')"
    then have F: "Fetch sha256 loopback net e s rel arch files = (Inr a, files')" by (simp add: source_of_def)
    have "fe_bundle e \<noteq> fe_temp e" using f by (simp add: fresh_for_def)
    from Fetch_verified [OF F this] obtain name data sums where V: "AssetName arch = Some name"
      "ans_reply (net (baseURL s @ ''/download/'' @ rel_Tag rel @ ''/SHA256SUMS'')) = Some (200, sums, Complete)"
      "vouched sha256 sums name data" "files' (art_Path a) = Some \<lparr>f_data = data, f_mode = 493\<rparr>"
      "art_Signed a = fe_cosign e" "fe_cosign e \<longrightarrow> (\<exists>bdl. fe_verdict e data bdl)"
      "\<forall>x. Some x \<noteq> fe_temp e \<and> Some x \<noteq> fe_bundle e \<longrightarrow> files' x = files x"
      by blast
    obtain path where "fe_temp e = Some path" "art_Path a = path" using Fetch_Inr [OF F] by (metis Artifact.select_convs(1))
    then have "art_Path a \<in> temps_of e" by (simp add: temps_of_def)
    moreover have "genuine_from sha256 net e s rel arch data (art_Signed a)"
      unfolding genuine_from_def using V by blast
    moreover have "\<forall>x. x \<notin> temps_of e \<longrightarrow> files' x = files x"
      using V(7) unfolding temps_of_def mem_Collect_eq by metis
    ultimately show "art_Path a \<in> temps_of e \<and>
      (\<exists>data. files' (art_Path a) = Some \<lparr>f_data = data, f_mode = 493\<rparr> \<and> genuine_from sha256 net e s rel arch data (art_Signed a)) \<and>
      (\<forall>x. x \<notin> temps_of e \<longrightarrow> files' x = files x)"
      using V(4) by blast
  }
  assume "rs_Fetch (source_of sha256 loopback net decode e s) rel arch files = (Inl err, files')"
  then have "Fetch sha256 loopback net e s rel arch files = (Inl err, files')" by (simp add: source_of_def)
  then show "files' = files"
    by (rule Fetch_failure) (use f in \<open>auto simp: fresh_for_def temps_of_def\<close>)
qed

section \<open>What an update leaves\<close>

lemma prev_ne [simp]: "PreviousSuffix \<noteq> []" "p @ PreviousSuffix \<noteq> p" "p \<noteq> p @ PreviousSuffix"
  by (simp_all add: PreviousSuffix_def)

lemma os_simps:
  "snd (os_Remove b p files) x = (if x = p \<and> b then None else files x)"
  "fst (os_Rename b p q files) = Inr y \<Longrightarrow> snd (os_Rename b p q files) = (files(p := None))(q := files p) \<and> files p \<noteq> None"
  "fst (os_Rename b p q files) = Inl e \<Longrightarrow> snd (os_Rename b p q files) = files"
  by (auto simp: os_Remove_def os_Rename_def split: if_splits)

text \<open>A swap that worked has the new binary in place and the old one beside it.\<close>

lemma swap_Inr:
  assumes "swap up downloaded files = (Inr p, files')"
    and "downloaded \<noteq> up_binary up" "downloaded \<noteq> up_binary up @ PreviousSuffix"
  shows "p = up_binary up @ PreviousSuffix \<and> files' (up_binary up) = files downloaded \<and> files downloaded \<noteq> None \<and>
    files' (up_binary up @ PreviousSuffix) = files (up_binary up)"
proof -
  define prev where "prev = up_binary up @ PreviousSuffix"
  have ne: "prev \<noteq> up_binary up" "downloaded \<noteq> prev" using assms(3) by (simp_all add: prev_def)
  show ?thesis
    using assms(1,2) ne unfolding swap_def Let_def prev_def [symmetric]
    by (auto simp: os_Remove_def os_Link_def os_Rename_def split: if_splits sum.splits os_error.splits prod.splits)
qed

text \<open>A swap that failed has left the binary alone, and is not an outcome of a rollback.\<close>

lemma swap_Inl:
  assumes "swap up downloaded files = (Inl err, files')"
  shows "files' (up_binary up) = files (up_binary up) \<and>
    (err = ClearingBackup Denied \<or> (\<exists>e. err = KeepingCopy e \<or> err = Installing e))"
proof -
  define prev where "prev = up_binary up @ PreviousSuffix"
  have ne: "prev \<noteq> up_binary up" by (simp add: prev_def)
  show ?thesis
    using assms ne unfolding swap_def Let_def prev_def [symmetric]
    by (auto simp: os_Remove_def os_Link_def os_Rename_def split: if_splits sum.splits os_error.splits prod.splits)
qed

text \<open>The service was started from these files, and went on to answer as the version wanted.\<close>

definition came_up :: "'m Host \<Rightarrow> fs \<Rightarrow> string \<Rightarrow> 'm \<Rightarrow> bool" where
  "came_up u files want m' \<longleftrightarrow> (\<exists>m m1 d m2 got. restart u files m = (Inr (), m1) \<and>
     poll_until u want d m1 = Some (Inr (), m') \<and> health u m2 = (Inr got, m') \<and> SameVersion got want)"

lemma came_upI:
  assumes "restart u files m = (Inr x, m1)" "waitHealthy u want timeout m1 = Some (Inr y, m')"
  shows "came_up u files want m'"
  using assms poll_until_Inr [of u want _ m1 y m'] unfolding came_up_def waitHealthy_def by fastforce

text \<open>The outcomes of a rollback.\<close>

lemma rollback_cases:
  assumes "rollback u up (up_binary up @ PreviousSuffix) files m = Some (err, files', m')"
  obtains (undone) "err = RolledBack (up_running up)" "files' (up_binary up) = files (up_binary up @ PreviousSuffix)"
      "came_up u files' (up_running up) m'"
    | (stuck) e where "err = RestoreFailed e" "files' = files"
    | (down) "(\<exists>e. err = RestartFailed e) \<or> (\<exists>w. err = NotAnswering w)"
      "files' (up_binary up) = files (up_binary up @ PreviousSuffix)"
proof (cases "os_Rename (can_restore (up_calls up)) (up_binary up @ PreviousSuffix) (up_binary up) files")
  case (Pair r fs1)
  show thesis
  proof (cases r)
    case (Inl e)
    then have "fs1 = files" using Pair os_simps(3) [of "can_restore (up_calls up)" _ _ files e] by (metis fst_conv snd_conv)
    then show thesis using assms Pair Inl stuck [of e] by (simp add: rollback_def)
  next
    case (Inr x)
    then have f: "fs1 (up_binary up) = files (up_binary up @ PreviousSuffix)"
      using os_simps(2) [of "can_restore (up_calls up)" "up_binary up @ PreviousSuffix" "up_binary up" files x] Pair
      by simp
    obtain r2 m2 where m2: "restart u fs1 m = (r2, m2)" by fastforce
    show thesis
    proof (cases r2)
      case (Inl e)
      then show thesis using assms Pair Inr m2 f down by (auto simp: rollback_def)
    next
      case r2: (Inr y)
      obtain r3 m3 where m3: "waitHealthy u (up_running up) (up_timeout up) m2 = Some (r3, m3)"
        using assms Pair Inr m2 r2 by (auto simp: rollback_def split: option.splits)
      show thesis
      proof (cases r3)
        case (Inl e)
        then show thesis using assms Pair Inr m2 r2 m3 f down by (auto simp: rollback_def)
      next
        case r3: (Inr z)
        have "came_up u fs1 (up_running up) m3" using m2 m3 r2 r3 by (auto intro: came_upI)
        then show thesis using assms Pair Inr m2 r2 m3 r3 f undone by (simp add: rollback_def)
      qed
    qed
  qed
qed

lemma prove_cases:
  assumes "prove u up rel signed (up_binary up @ PreviousSuffix) files m = Some (r, files', m')"
  obtains (proved) "r = Inr (Updated signed)" "files' = files" "came_up u files (Version rel) m'"
    | (undone) "r = Inl (RolledBack (up_running up))" "files' (up_binary up) = files (up_binary up @ PreviousSuffix)"
      "came_up u files' (up_running up) m'"
    | (stuck) e where "r = Inl (RestoreFailed e)" "files' = files"
    | (down) "(\<exists>e. r = Inl (RestartFailed e)) \<or> (\<exists>w. r = Inl (NotAnswering w))"
      "files' (up_binary up) = files (up_binary up @ PreviousSuffix)"
proof -
  have rolled: thesis if rb: "map_option (\<lambda>(e, w). (Inl e, w)) (rollback u up (up_binary up @ PreviousSuffix) files m1) =
      Some (r, files', m')" for m1
  proof -
    obtain e where "rollback u up (up_binary up @ PreviousSuffix) files m1 = Some (e, files', m')" "r = Inl e"
      using rb by auto
    then show thesis by (cases rule: rollback_cases) (use undone stuck down in auto)
  qed
  obtain r1 m1 where m1: "restart u files m = (r1, m1)" by fastforce
  show thesis
  proof (cases r1)
    case (Inl e)
    then show thesis using assms m1 rolled by (simp add: prove_def Let_def)
  next
    case r1: (Inr x)
    obtain r2 m2 where m2: "waitHealthy u (Version rel) (up_timeout up) m1 = Some (r2, m2)"
      using assms m1 r1 by (auto simp: prove_def split: option.splits)
    show thesis
    proof (cases r2)
      case (Inl e)
      then show thesis using assms m1 r1 m2 rolled by (simp add: prove_def Let_def)
    next
      case (Inr y)
      have "came_up u files (Version rel) m2" using m1 m2 r1 Inr by (auto intro: came_upI)
      then show thesis using assms m1 r1 m2 Inr proved by (simp add: prove_def)
    qed
  qed
qed

lemma SweepTemp_eq:
  "SweepTemp dir entries files x = (if (\<exists>name \<in> set entries. (HasPrefix name TempPrefix \<or> HasPrefix name bundlePrefix) \<and>
     x = dir @ ''/'' @ name) then None else files x)"
proof -
  have "foldl (\<lambda>fs name. if HasPrefix name TempPrefix \<or> HasPrefix name bundlePrefix
      then fs(dir @ ''/'' @ name := None) else fs) files entries x =
     (if (\<exists>name \<in> set entries. (HasPrefix name TempPrefix \<or> HasPrefix name bundlePrefix) \<and> x = dir @ ''/'' @ name)
      then None else files x)"
    by (induction entries arbitrary: files) auto
  then show ?thesis by (simp only: SweepTemp_def)
qed

text \<open>The binary is in the directory, and neither it nor what is kept beside it has a temporary name.\<close>

definition well_placed :: "updater \<Rightarrow> string set \<Rightarrow> bool" where
  "well_placed up temps \<longleftrightarrow> (\<exists>base. up_binary up = up_dir up @ ''/'' @ base \<and>
     (\<forall>name \<in> {base, base @ PreviousSuffix}. \<not> HasPrefix name TempPrefix \<and> \<not> HasPrefix name bundlePrefix) \<and>
     up_binary up \<notin> temps \<and> up_binary up @ PreviousSuffix \<notin> temps)"

lemma SweepTemp_binary:
  "well_placed up temps \<Longrightarrow> SweepTemp (up_dir up) entries files (up_binary up) = files (up_binary up)"
  by (auto simp: well_placed_def SweepTemp_eq)

context release_source
begin

text \<open>
  What update leaves in each of its outcomes: old is the file the binary was. Where it succeeded, the
  new binary is a genuine one and has answered; where it rolled back, the old one has.
\<close>

lemma update_outcome:
  assumes "up_source up = source" "fresh files" "well_placed up temps" "files (up_binary up) = Some old"
    and "update u up want allowDowngrade files m = Some (r, files', m')"
  shows "case r of
      Inr NothingToDo \<Rightarrow> files' = files \<and> m' = m
    | Inr (Updated signed) \<Rightarrow> (\<exists>rel data. target up want = Inr rel \<and>
        (Newer (Version rel) (up_running up) \<or> allowDowngrade \<or> \<not> IsRelease (up_running up)) \<and> genuine rel (up_goarch up) data signed \<and>
        files' (up_binary up) = Some \<lparr>f_data = data, f_mode = 493\<rparr> \<and>
        files' (up_binary up @ PreviousSuffix) = Some old \<and> came_up u files' (Version rel) m')
    | Inl (RolledBack v) \<Rightarrow> v = up_running up \<and> files' (up_binary up) = Some old \<and> came_up u files' v m'
    | Inl (RestoreFailed _) \<Rightarrow> files' (up_binary up @ PreviousSuffix) = Some old
    | Inl (RestartFailed _) \<Rightarrow> files' (up_binary up) = Some old
    | Inl (NotAnswering _) \<Rightarrow> files' (up_binary up) = Some old
    | Inl _ \<Rightarrow> files' (up_binary up) = Some old \<and> m' = m"
proof (cases "target up want")
  case (Inl e)
  then show ?thesis using assms(4,5) by (auto simp: update_def)
next
  case rel: (Inr rel)
  define swept where "swept = SweepTemp (up_dir up) (up_entries up) files"
  have sw: "swept (up_binary up) = Some old" "fresh swept"
    using SweepTemp_binary [OF assms(3)] still_fresh [OF assms(2), of swept] assms(4)
    by (auto simp: swept_def SweepTemp_eq)
  show ?thesis
  proof (cases "SameVersion (Version rel) (up_running up) \<and> IsRelease (up_running up) \<or>
      IsRelease (up_running up) \<and> \<not> Newer (Version rel) (up_running up) \<and> \<not> allowDowngrade")
    case True
    then show ?thesis using assms(4,5) rel by (auto simp: update_def split: if_splits)
  next
    case go_on: False
    obtain r1 fs1 where f: "rs_Fetch source rel (up_goarch up) swept = (r1, fs1)" by fastforce
    show ?thesis
    proof (cases r1)
      case (Inl e)
      then have "fs1 = swept" using not_fetched [OF sw(2)] f by blast
      then show ?thesis using assms(1,5) rel go_on f Inl sw(1) by (auto simp: update_def Let_def swept_def [symmetric])
    next
      case a: (Inr a)
      have at: "art_Path a \<in> temps" "\<forall>x. x \<notin> temps \<longrightarrow> fs1 x = swept x" and
        ge: "\<exists>data. fs1 (art_Path a) = Some \<lparr>f_data = data, f_mode = 493\<rparr> \<and> genuine rel (up_goarch up) data (art_Signed a)"
        using fetched [OF sw(2) f [unfolded a]] by auto
      have ne: "art_Path a \<noteq> up_binary up" "art_Path a \<noteq> up_binary up @ PreviousSuffix"
        using at(1) assms(3) by (auto simp: well_placed_def)
      have old: "fs1 (up_binary up) = Some old" using at(2) assms(3) sw(1) by (auto simp: well_placed_def)
      obtain r2 fs2 where s: "swap up (art_Path a) fs1 = (r2, fs2)" by fastforce
      show ?thesis
      proof (cases r2)
        case (Inl e)
        have "r = Inl e" "files' = snd (os_Remove (can_discard (up_calls up)) (art_Path a) fs2)" "m' = m"
          using assms(1,5) rel go_on f a s Inl by (auto simp: update_def Let_def swept_def [symmetric])
        then show ?thesis using swap_Inl [OF s [unfolded Inl]] ne(1) old
          by (auto simp: os_simps split: update_error.splits)
      next
        case p: (Inr p)
        note S = swap_Inr [OF s [unfolded p] ne]
        have "prove u up rel (art_Signed a) (up_binary up @ PreviousSuffix) fs2 m = Some (r, files', m')"
          using assms(1,5) rel go_on f a s p S by (auto simp: update_def Let_def swept_def [symmetric])
        then show ?thesis by (cases rule: prove_cases) (use S old ge rel go_on in auto)
      qed
    qed
  qed
qed

end

section \<open>Where health is asked for\<close>

text \<open>What reading the unit gives: its content, or None when it cannot be read.\<close>

definition healthURLFromUnit :: "string option \<Rightarrow> string" where
  "healthURLFromUnit content =
     (let listen = (case content of None \<Rightarrow> DefaultListen
          | Some text \<Rightarrow> (case ListenFromUnit text of (found, True) \<Rightarrow> found | _ \<Rightarrow> DefaultListen))
      in case SplitHostPort listen of
           Inl _ \<Rightarrow> ''http://'' @ listen @ ''/api/health''
         | Inr (host, port) \<Rightarrow>
           let host = (if host = [] \<or> host = ''0.0.0.0'' \<or> host = ''::'' then ''127.0.0.1'' else host)
           in ''http://'' @ JoinHostPort host port @ ''/api/health'')"

text \<open>The reply of one probe: its status and body; decode is what encoding/json finds as dokkup.\<close>

definition probeHealth :: "(string \<Rightarrow> (int \<times> string) option) \<Rightarrow> (string \<Rightarrow> string option) \<Rightarrow> string \<Rightarrow> string + string" where
  "probeHealth get decode url =
     (case get url of None \<Rightarrow> Inl ''no reply''
      | Some (status, body) \<Rightarrow>
        if status \<noteq> 200 \<and> status \<noteq> 503 then Inl (url @ '': '' @ Itoa status)
        else case decode (take 1048576 body) of
          None \<Rightarrow> Inl ''reading the health response''
        | Some dokkup \<Rightarrow> if dokkup = [] then Inl (url @ '' answered without saying which dokkup it is'') else Inr dokkup)"

datatype preflight_error = NotLinux | NotRoot | NoBinary | NoUnit

definition preflight :: "string \<Rightarrow> int \<Rightarrow> (string \<Rightarrow> bool) \<Rightarrow> (string \<Rightarrow> bool) \<Rightarrow> preflight_error + unit" where
  "preflight goos euid regular there =
     (if goos \<noteq> ''linux'' then Inl NotLinux
      else if euid \<noteq> 0 then Inl NotRoot
      else if \<not> regular Binary then Inl NoBinary
      else if \<not> there Unit then Inl NoUnit
      else Inr ())"

text \<open>
  runUpdate, from its flags: what the flag package made of the arguments. The updater it builds has
  the binary, timeouts and running version of this host; probe asks one URL for health.
\<close>

record update_flags =
  uf_check :: bool
  uf_version :: string
  uf_allowDowngrade :: bool
  uf_timeout :: int
  uf_healthURL :: string

datatype update_report =
    BadFlags cli_error
  | Checked "release_error + news"
  | NotHere preflight_error
  | Ran "update_error + update_done"

definition runUpdate :: "string \<Rightarrow> int \<Rightarrow> (string \<Rightarrow> bool) \<Rightarrow> (string \<Rightarrow> bool) \<Rightarrow> string option \<Rightarrow>
    (string \<Rightarrow> 'm \<Rightarrow> (string + string) \<times> 'm) \<Rightarrow> 'm Host \<Rightarrow> updater \<Rightarrow> cli_error + update_flags \<Rightarrow> fs \<Rightarrow> 'm
    \<Rightarrow> (update_report \<times> fs \<times> 'm) option" where
  "runUpdate goos euid regular there unit_text probe u up flags files m =
     (case flags of Inl err \<Rightarrow> Some (BadFlags err, files, m)
      | Inr f \<Rightarrow>
        let up = up\<lparr>up_binary := Binary, up_dir := ''/usr/local/bin'', up_timeout := uf_timeout f\<rparr> in
        if uf_check f then Some (Checked (check up (uf_version f)), files, m)
        else case preflight goos euid regular there of Inl err \<Rightarrow> Some (NotHere err, files, m)
        | Inr _ \<Rightarrow>
          let url = (if uf_healthURL f = [] then healthURLFromUnit unit_text else uf_healthURL f)
          in map_option (\<lambda>(r, w). (Ran r, w))
               (update (u\<lparr>health := probe url\<rparr>) up (uf_version f) (uf_allowDowngrade f) files m))"

definition report_code :: "update_report \<Rightarrow> cli_error option" where
  "report_code r = (case r of BadFlags err \<Rightarrow> Some err
     | Checked (Inl _) \<Rightarrow> Some OtherError | Checked (Inr _) \<Rightarrow> None
     | NotHere _ \<Rightarrow> Some OtherError | Ran r \<Rightarrow> update_code r)"

text \<open>
  An update asks for health where the service was told to listen. For a unit written for the
  address host:port, IPv6 or not, the URL polled is that host's and port's, except that an address to
  listen on everywhere is asked for on the loopback, and for a unit without an address it is the
  default that serve uses.
\<close>

theorem health_asked_where_served:
  assumes "\<forall>c \<in> set host \<union> set port. \<not> is_space c \<and> c \<noteq> CHR ''['' \<and> c \<noteq> CHR '']''" "CHR '':'' \<notin> set port"
    and "uc_Listen cfg = JoinHostPort host port"
  shows "healthURLFromUnit (Some (UnitFile cfg)) =
      ''http://'' @ JoinHostPort (if host \<in> {[], ''0.0.0.0'', ''::''} then ''127.0.0.1'' else host) port @ ''/api/health'' \<and>
    healthURLFromUnit (Some (UnitFile (cfg\<lparr>uc_Listen := []\<rparr>))) = ''http://'' @ DefaultListen @ ''/api/health'' \<and>
    healthURLFromUnit None = ''http://'' @ DefaultListen @ ''/api/health''"
proof -
  have "\<forall>c \<in> set (uc_Listen cfg). \<not> is_space c" "uc_Listen cfg \<noteq> []"
    using assms(1,3) by (auto simp: JoinHostPort_def is_space_def split: if_splits)
  then have "ListenFromUnit (UnitFile cfg) = (JoinHostPort host port, True)"
    using unit_listen_roundtrip [of cfg] assms(3) by simp
  moreover have "SplitHostPort (JoinHostPort host port) = Inr (host, port)"
    using assms(1,2) by (intro Split_Join) auto
  ultimately have "healthURLFromUnit (Some (UnitFile cfg)) =
      ''http://'' @ JoinHostPort (if host \<in> {[], ''0.0.0.0'', ''::''} then ''127.0.0.1'' else host) port @ ''/api/health''"
    by (simp add: healthURLFromUnit_def Let_def)
  moreover have "SplitHostPort DefaultListen = Inr (''127.0.0.1'', ''8080'')"
    using Split_Join [of "''127.0.0.1''" "''8080''"] by (simp add: JoinHostPort_def DefaultListen_def)
  moreover have "ListenFromUnit (UnitFile (cfg\<lparr>uc_Listen := []\<rparr>)) = (DefaultListen, True)"
    using unit_listen_roundtrip [of "cfg\<lparr>uc_Listen := []\<rparr>"] by simp
  ultimately show ?thesis
    by (simp add: healthURLFromUnit_def Let_def JoinHostPort_def DefaultListen_def)
qed

section \<open>The properties of an update\<close>

text \<open>
  C16: What an update exits with is what it left. 0: nothing was to be done, or a genuine binary is in
  place, newer than the running one unless a downgrade was allowed, the old one is kept beside it,
  and the service, restarted from it, has answered as the new version. 4: the old binary is back, and
  the service, restarted from it, has answered as the old version. 1: the binary is the old one and
  the service was never touched. 5: the old binary is in its place or, when it could not be moved
  back, beside it. So whatever happens, at whichever call, the old binary is not lost.
\<close>

theorem update_exit_codes:
  assumes "up_source up = source_of sha256 loopback net decode e s" "fresh_for e files" "well_placed up (temps_of e)"
    and "files (up_binary up) = Some old" "update u up want allowDowngrade files m = Some (r, files', m')"
  shows "(exitCode (update_code r) = 0 \<longrightarrow> (r = Inr NothingToDo \<and> files' = files \<and> m' = m) \<or>
      (\<exists>rel data signed. r = Inr (Updated signed) \<and> target up want = Inr rel \<and>
        (Newer (Version rel) (up_running up) \<or> allowDowngrade \<or> \<not> IsRelease (up_running up)) \<and>
        genuine_from sha256 net e s rel (up_goarch up) data signed \<and>
        files' (up_binary up) = Some \<lparr>f_data = data, f_mode = 493\<rparr> \<and>
        files' (up_binary up @ PreviousSuffix) = Some old \<and> came_up u files' (Version rel) m')) \<and>
    (exitCode (update_code r) = 4 \<longrightarrow> files' (up_binary up) = Some old \<and> came_up u files' (up_running up) m') \<and>
    (exitCode (update_code r) = 1 \<longrightarrow> files' (up_binary up) = Some old \<and> m' = m) \<and>
    (exitCode (update_code r) = 5 \<longrightarrow> Some old \<in> {files' (up_binary up), files' (up_binary up @ PreviousSuffix)}) \<and>
    exitCode (update_code r) \<in> {0, 1, 4, 5}"
proof -
  note O = gh.update_outcome [OF assms]
  show ?thesis
  proof (cases r)
    case (Inl err)
    then show ?thesis using O by (cases err) (auto simp: update_code_def exitCode_def)
  next
    case (Inr ok)
    then show ?thesis using O by (cases ok) (auto simp: update_code_def exitCode_def)
  qed
qed

text \<open>A wait that sees the version it waits for before it gives up succeeds.\<close>

lemma waitHealthy_answered:
  assumes "answered u want (polled u (clock u m + timeout) n m)"
    and "\<forall>i < n. \<not> given_up u (clock u m + timeout) (polled u (clock u m + timeout) i m)"
  shows "\<exists>m'. waitHealthy u want timeout m = Some (Inr (), m')"
proof -
  define d where "d = clock u m + timeout"
  have "answered u want (polled u d n m) \<or> given_up u d (polled u d n m)" using assms(1) by (simp add: d_def)
  from poll_until_ends [OF this] obtain k where k: "k \<le> n" "poll_until u want d m = poll_until u want d (polled u d k m)"
    "answered u want (polled u d k m) \<or> given_up u d (polled u d k m)"
    by blast
  have "answered u want (polled u d k m)"
  proof (cases "k = n")
    case False
    then have "k < n" using k(1) by simp
    then show ?thesis using k(3) assms(2) unfolding d_def by blast
  qed (use assms(1) in \<open>simp add: d_def\<close>)
  then have "poll_until u want d (polled u d k m) = Some (Inr (), snd (health u (polled u d k m)))"
    by (subst poll_until_eq) simp
  with k(2) show ?thesis by (auto simp: waitHealthy_def d_def)
qed

text \<open>A service started from these files answers as this version before a wait for it gives up.\<close>

definition comes_up :: "'m Host \<Rightarrow> fs \<Rightarrow> string \<Rightarrow> int \<Rightarrow> 'm \<Rightarrow> bool" where
  "comes_up u files want timeout m \<longleftrightarrow> (\<exists>m1 n. restart u files m = (Inr (), m1) \<and>
     answered u want (polled u (clock u m1 + timeout) n m1) \<and>
     (\<forall>i < n. \<not> given_up u (clock u m1 + timeout) (polled u (clock u m1 + timeout) i m1)))"

lemma comes_upE:
  assumes "comes_up u files want timeout m"
  obtains m1 m2 where "restart u files m = (Inr (), m1)" "waitHealthy u want timeout m1 = Some (Inr (), m2)"
  using assms waitHealthy_answered unfolding comes_up_def by metis

text \<open>No call on files fails.\<close>

definition calls_work :: "updater \<Rightarrow> bool" where
  "calls_work up \<longleftrightarrow> can_clear (up_calls up) \<and> can_link (up_calls up) \<and> can_install (up_calls up) \<and> can_restore (up_calls up)"

lemma swap_works:
  assumes "calls_work up" "files (up_binary up) = Some old" "files downloaded = Some new"
    and "downloaded \<noteq> up_binary up" "downloaded \<noteq> up_binary up @ PreviousSuffix"
  shows "\<exists>files'. swap up downloaded files = (Inr (up_binary up @ PreviousSuffix), files') \<and>
    files' (up_binary up) = Some new \<and> files' (up_binary up @ PreviousSuffix) = Some old"
proof -
  define prev where "prev = up_binary up @ PreviousSuffix"
  have ne: "prev \<noteq> up_binary up" "downloaded \<noteq> prev" using assms(5) by (simp_all add: prev_def)
  show ?thesis
    using assms(1-4) ne unfolding swap_def Let_def prev_def [symmetric] calls_work_def
    by (auto simp: os_Remove_def os_Link_def os_Rename_def split: if_splits)
qed

lemma rollback_works:
  assumes "calls_work up" "files (up_binary up @ PreviousSuffix) = Some old"
    and "\<forall>files m. files (up_binary up) = Some old \<longrightarrow> comes_up u files (up_running up) (up_timeout up) m"
  shows "\<exists>files' m'. rollback u up (up_binary up @ PreviousSuffix) files m = Some (RolledBack (up_running up), files', m') \<and>
    files' (up_binary up) = Some old"
proof -
  define fs1 where "fs1 = (files(up_binary up @ PreviousSuffix := None))(up_binary up := files (up_binary up @ PreviousSuffix))"
  have r: "os_Rename (can_restore (up_calls up)) (up_binary up @ PreviousSuffix) (up_binary up) files = (Inr (), fs1)"
    using assms(1,2) by (simp add: os_Rename_def calls_work_def fs1_def)
  have "fs1 (up_binary up) = Some old" using assms(2) by (simp add: fs1_def)
  with assms(3) have "comes_up u fs1 (up_running up) (up_timeout up) m" by blast
  then obtain m1 m2 where "restart u fs1 m = (Inr (), m1)" "waitHealthy u (up_running up) (up_timeout up) m1 = Some (Inr (), m2)"
    by (rule comes_upE)
  with r \<open>fs1 (up_binary up) = Some old\<close> show ?thesis by (simp add: rollback_def)
qed

lemma prove_works:
  assumes "calls_work up" and s: "fs2 (up_binary up) = Some new" "fs2 (up_binary up @ PreviousSuffix) = Some old"
    and old_works: "\<forall>files m. files (up_binary up) = Some old \<longrightarrow> comes_up u files (up_running up) (up_timeout up) m"
    and waits_end: "\<forall>m. waitHealthy u (Version rel) (up_timeout up) m \<noteq> None"
  shows "\<exists>r files' m'. prove u up rel signed (up_binary up @ PreviousSuffix) fs2 m = Some (r, files', m') \<and>
    (r = Inr (Updated signed) \<and> files' (up_binary up) = Some new \<or>
     r = Inl (RolledBack (up_running up)) \<and> files' (up_binary up) = Some old) \<and>
    (comes_up u fs2 (Version rel) (up_timeout up) m \<longrightarrow> r = Inr (Updated signed))"
proof -
  obtain r1 m1 where r1: "restart u fs2 m = (r1, m1)" by fastforce
  have undo: "\<exists>files' m'. map_option (\<lambda>(e, w). (Inl e, w)) (rollback u up (up_binary up @ PreviousSuffix) fs2 m0) =
      Some (Inl (RolledBack (up_running up)), files', m') \<and> files' (up_binary up) = Some old" for m0
    using rollback_works [where up = up and files = fs2 and old = old and u = u and m = m0, OF assms(1) s(2) old_works]
    by auto
  show ?thesis
  proof (cases r1)
    case (Inl e)
    then have "prove u up rel signed (up_binary up @ PreviousSuffix) fs2 m =
        map_option (\<lambda>(e, w). (Inl e, w)) (rollback u up (up_binary up @ PreviousSuffix) fs2 m1)"
      "\<not> comes_up u fs2 (Version rel) (up_timeout up) m"
      using r1 by (simp_all add: prove_def comes_up_def)
    then show ?thesis using undo [of m1] by auto
  next
    case (Inr x)
    obtain r2 m2 where w: "waitHealthy u (Version rel) (up_timeout up) m1 = Some (r2, m2)"
      using waits_end by (metis option.exhaust prod.collapse)
    show ?thesis
    proof (cases r2)
      case r2: (Inl e)
      then have "prove u up rel signed (up_binary up @ PreviousSuffix) fs2 m =
          map_option (\<lambda>(e, w). (Inl e, w)) (rollback u up (up_binary up @ PreviousSuffix) fs2 m2)"
        using r1 Inr w by (simp add: prove_def)
      moreover have "\<not> comes_up u fs2 (Version rel) (up_timeout up) m"
        using r1 Inr w r2 by (auto elim!: comes_upE)
      ultimately show ?thesis using undo [of m2] by auto
    next
      case r2: (Inr y)
      then show ?thesis using r1 Inr w s(1) by (simp add: prove_def)
    qed
  qed
qed


end
