(* ===== verification/Update_Examples.thy ===== *)
theory Update_Examples
  imports Update
begin

text \<open>The properties of an update at work, with a release of one small binary.\<close>


text \<open>
  A host whose service answers as the version of the binary it was started from, and which waits for
  one tick: the state is the version that runs and the time.
\<close>

definition demo_version :: "string \<Rightarrow> fs \<Rightarrow> string" where
  "demo_version p files = (case files p of Some f \<Rightarrow> if f_data f = ''binary'' then ''1.2.3'' else ''1.0.0'' | None \<Rightarrow> [])"

definition demo_host :: "(string \<times> int) Host" where
  "demo_host = \<lparr>restartUnit = (\<lambda>files m. (Inr (), (demo_version ''/b/dokkup'' files, snd m))),
     resetFailed = (\<lambda>files m. (Inr (), m)), health = (\<lambda>m. (Inr (fst m), m)), clock = snd,
     select = (\<lambda>d m. (snd m \<ge> d, (fst m, snd m + 1)))\<rparr>"

definition demo_updater :: "string \<Rightarrow> updater" where
  "demo_updater running = \<lparr>up_source = source_of demo_sha (\<lambda>_. False) demo_net (\<lambda>_. Some (''v1.2.3'', [], False)) demo_fetch demo_source,
     up_binary = ''/b/dokkup'', up_entries = [], up_dir = ''/b'', up_goarch = ''amd64'', up_running = running,
     up_timeout = 3, up_calls = \<lparr>can_clear = True, can_link = True, can_install = True, can_unlink = True,
       can_restore = True, can_discard = True\<rparr>\<rparr>"

definition demo_files :: fs where
  "demo_files = [''/b/dokkup'' \<mapsto> \<lparr>f_data = ''old'', f_mode = 493\<rparr>]"

lemma demo_updater_simps [simp]:
  "up_binary (demo_updater r) = ''/b/dokkup''" "up_running (demo_updater r) = r" "up_timeout (demo_updater r) = 3"
  "up_dir (demo_updater r) = ''/b''" "up_entries (demo_updater r) = []" "up_goarch (demo_updater r) = ''amd64''"
  "up_source (demo_updater r) = source_of demo_sha (\<lambda>_. False) demo_net (\<lambda>_. Some (''v1.2.3'', [], False)) demo_fetch demo_source"
  "calls_work (demo_updater r)"
  by (simp_all add: demo_updater_def calls_work_def)

lemma demo_host_simps [simp]:
  "restart demo_host files m = (Inr (), (demo_version ''/b/dokkup'' files, snd m))"
  "health demo_host m = (Inr (fst m), m)" "clock demo_host m = snd m"
  "select demo_host d m = (snd m \<ge> d, (fst m, snd m + 1))"
  by (simp_all add: demo_host_def restart_def)

lemma demo_polled: "polled demo_host d n m = (fst m, snd m + int n)"
  by (induction n arbitrary: m) auto

lemma demo_versions:
  "SameVersion v v" "\<not> SameVersion ''1.0.0'' ''9.9.9''" "Newer ''1.2.3'' ''1.0.0''" "IsRelease ''1.0.0''"
  "\<not> SameVersion ''1.2.3'' ''1.0.0''" "\<not> SameVersion ''1.0.0'' ''1.2.3''"
  by (simp_all add: Newer_def SameVersion_def compare_version_def parseVersion_def Let_def go_simps cut_at_def
      parse_parts_def Atoi_def read_nat_def compare_triple_def IsRelease_def split: option.splits)

theorem waitHealthy_ends_witness:
  "\<exists>k r. int k \<le> 3 \<and> waitHealthy demo_host ''9.9.9'' 3 (''1.0.0'', 0) = Some r \<and>
     fst r = Inl (NotHealthy ''9.9.9'' (AnsweringAs ''1.0.0'' ''9.9.9''))"
proof -
  have j: "judge ''9.9.9'' (Inr ''1.0.0'') = Some (AnsweringAs ''1.0.0'' ''9.9.9'')"
    by (simp add: judge_def demo_versions)
  have "\<exists>k r. int k \<le> max 0 ((3 + 0) div 1) \<and> waitHealthy demo_host ''9.9.9'' 3 (''1.0.0'', 0) = Some r \<and>
     (let at = (\<lambda>i. polled demo_host (clock demo_host (''1.0.0'', 0) + 3) i (''1.0.0'', 0)) in
      (\<forall>i < k. \<not> answered demo_host ''9.9.9'' (at i)) \<and>
      (case judge ''9.9.9'' (fst (health demo_host (at k))) of None \<Rightarrow> fst r = Inr ()
       | Some cause \<Rightarrow> given_up demo_host (clock demo_host (''1.0.0'', 0) + 3) (at k) \<and> fst r = Inl (NotHealthy ''9.9.9'' cause)))"
    by (rule waitHealthy_ends) (auto simp: demo_polled)
  then show ?thesis by (simp add: demo_polled j) (metis fst_conv)
qed

theorem health_asked_where_served_witness:
  "healthURLFromUnit (Some (UnitFile \<lparr>uc_Listen = ''[::]:80'', uc_Mode = [], uc_Domain = [], uc_PlainHTTP = True,
     uc_ManageCertificate = False, uc_ACMEEmail = [], uc_ACMEDirectory = []\<rparr>)) = ''http://127.0.0.1:80/api/health''"
  using health_asked_where_served [of "''::''" "''80''" "\<lparr>uc_Listen = ''[::]:80'', uc_Mode = [], uc_Domain = [], uc_PlainHTTP = True,
     uc_ManageCertificate = False, uc_ACMEEmail = [], uc_ACMEDirectory = []\<rparr>"]
  by (simp add: JoinHostPort_def is_space_def)

lemma demo_latest: "target (demo_updater r) [] = Inr demo_release"
proof -
  have "tagPattern ''v1.2.3''" using demo_parts(2) by simp
  then show ?thesis
    by (simp add: target_def source_of_def Latest_def release_def client_Do_def demo_net_def RoundTrip_def allowURL_def
        allowedHost_def Let_def demo_release_def)
qed

lemma demo_target_version: "Version demo_release = ''1.2.3''"
  by (simp add: Version_def demo_release_def TrimPrefix_def HasPrefix_def)

lemma demo_fetched:
  "rs_Fetch (up_source (demo_updater r)) demo_release ''amd64'' files =
     (Inr \<lparr>art_Path = ''/b/.dokkup.new-1'', art_Name = ''dokkup_linux_amd64'', art_Signed = False\<rparr>,
      files(''/b/.dokkup.new-1'' \<mapsto> \<lparr>f_data = ''binary'', f_mode = 493\<rparr>))"
  using demo_Fetch by (simp add: source_of_def)

lemma demo_wait: "waitHealthy demo_host want 3 m \<noteq> None"
proof -
  have "answered demo_host want (polled demo_host (snd m + 3) 3 m) \<or> given_up demo_host (snd m + 3) (polled demo_host (snd m + 3) 3 m)"
    by (simp add: demo_polled)
  from poll_until_ends [OF this] obtain k where
    "poll_until demo_host want (snd m + 3) m = poll_until demo_host want (snd m + 3) (polled demo_host (snd m + 3) k m)"
    "answered demo_host want (polled demo_host (snd m + 3) k m) \<or> given_up demo_host (snd m + 3) (polled demo_host (snd m + 3) k m)"
    by blast
  then show ?thesis by (auto simp: waitHealthy_def poll_until_eq [of _ _ _ "polled _ _ k m"] split: option.splits)
qed

lemma demo_comes_up:
  "demo_version ''/b/dokkup'' files = want \<Longrightarrow> comes_up demo_host files want 3 m"
  unfolding comes_up_def by (intro exI [of _ "(want, snd m)"] exI [of _ 0]) (simp add: judge_def demo_versions)

lemma demo_swept: "SweepTemp ''/b'' [] files = files"
  by (simp add: SweepTemp_def)


lemma demo_update:
  "update demo_host (demo_updater ''1.0.0'') [] False demo_files ([], 0) = Some (Inr (Updated False),
     [''/b/dokkup'' \<mapsto> \<lparr>f_data = ''binary'', f_mode = 493\<rparr>, ''/b/dokkup.previous'' \<mapsto> \<lparr>f_data = ''old'', f_mode = 493\<rparr>],
     (''1.2.3'', 0))"
proof -
  define new old where "new = \<lparr>f_data = ''binary'', f_mode = 493\<rparr>" and "old = \<lparr>f_data = ''old'', f_mode = 493\<rparr>"
  define fs2 where "fs2 = [''/b/dokkup'' \<mapsto> new, ''/b/dokkup.previous'' \<mapsto> old]"
  have "swap (demo_updater ''1.0.0'') ''/b/.dokkup.new-1'' (demo_files(''/b/.dokkup.new-1'' \<mapsto> new)) =
      (Inr ''/b/dokkup.previous'', fs2)"
    by (auto simp: swap_def Let_def demo_updater_def PreviousSuffix_def os_Remove_def os_Link_def os_Rename_def
        demo_files_def fs2_def old_def fun_eq_iff)
  moreover have "demo_version ''/b/dokkup'' fs2 = ''1.2.3''" by (simp add: demo_version_def fs2_def new_def)
  moreover have "waitHealthy demo_host ''1.2.3'' 3 (''1.2.3'', 0) = Some (Inr (), (''1.2.3'', 0))"
    by (simp add: waitHealthy_def poll_until_eq judge_def demo_versions)
  ultimately show ?thesis
    by (simp add: update_def demo_latest demo_target_version demo_versions demo_swept demo_fetched [simplified]
        prove_def new_def [symmetric] old_def [symmetric] fs2_def [symmetric])
qed

theorem update_exit_codes_witness:
  "exitCode (update_code (Inr (Updated False))) = 0 \<and>
   genuine_from demo_sha demo_net demo_fetch demo_source demo_release ''amd64'' ''binary'' False"
proof -
  define files' where "files' = [''/b/dokkup'' \<mapsto> \<lparr>f_data = ''binary'', f_mode = 493\<rparr>,
    ''/b/dokkup.previous'' \<mapsto> \<lparr>f_data = ''old'', f_mode = 493\<rparr>]"
  have e: "exitCode (update_code (Inr (Updated False))) = 0" by (simp add: exitCode_def update_code_def)
  have w: "well_placed (demo_updater ''1.0.0'') (temps_of demo_fetch)"
    unfolding well_placed_def by (intro exI [of _ "''dokkup''"])
      (simp add: PreviousSuffix_def HasPrefix_def TempPrefix_def bundlePrefix_def temps_of_def)
  have f: "fresh_for demo_fetch demo_files" by (simp add: fresh_for_def temps_of_def demo_files_def)
  have "demo_files (up_binary (demo_updater ''1.0.0'')) = Some \<lparr>f_data = ''old'', f_mode = 493\<rparr>"
    by (simp add: demo_files_def)
  from update_exit_codes [OF demo_updater_simps(7) f w this demo_update] e
  obtain rel data where "target (demo_updater ''1.0.0'') [] = Inr rel"
    "genuine_from demo_sha demo_net demo_fetch demo_source rel ''amd64'' data False"
    "files' ''/b/dokkup'' = Some \<lparr>f_data = data, f_mode = 493\<rparr>"
    by (auto simp: files'_def)
  with e show ?thesis by (simp add: demo_latest files'_def)
qed

end
