(* ===== verification/Proxy.thy ===== *)
theory Proxy
  imports Service Base64
begin

text \<open>
  internal/proxy: the one file dokkup writes for nginx, in its three forms, and the fingerprint a
  browser shows. Keys and certificates are made by crypto/x509 and are not modelled.
\<close>

definition DefaultTLSPort :: int where "DefaultTLSPort = 8443"
definition certPath :: string where "certPath = ''/var/lib/dokkup/tls/cert.pem''"
definition keyPath :: string where "keyPath = ''/var/lib/dokkup/tls/key.pem''"
definition ChallengePath :: string where "ChallengePath = ''/.well-known/acme-challenge/''"

datatype Reachability = AtDomain | AtIPWithTLS | AtIPPlain

record VhostConfig =
  vc_How :: Reachability
  vc_Domain :: string
  vc_IP :: string
  vc_Port :: int
  vc_Listen :: string

definition vhostHeader :: "string list" where
  "vhostHeader =
    [''# /etc/nginx/conf.d/dokkup.conf -- written by dokkup.'',
     ''#'',
     ''# Deleting this file and reloading nginx removes dokkup from the proxy entirely.'',
     ''# dokkup writes nothing else anywhere under /etc/nginx.'',
     '''',
     ''map $http_upgrade $dokkup_connection_upgrade {'',
     ''    default upgrade;'',
     ''    \"\"      close;'',
     ''}'']"

definition tls_lines :: "string list" where
  "tls_lines =
    [''    ssl_certificate     '' @ certPath @ '';'',
     ''    ssl_certificate_key '' @ keyPath @ '';'',
     ''    ssl_protocols       TLSv1.2 TLSv1.3;'',
     '''']"

definition domainServers :: "string \<Rightarrow> string \<Rightarrow> string list" where
  "domainServers domain listen =
    ['''', ''server {'', ''    listen      80;'', ''    listen      [::]:80;'',
     ''    server_name '' @ domain @ '';'',
     '''',
     ''    location ^~ '' @ ChallengePath @ '' {'',
     ''        proxy_pass http://'' @ listen @ '';'',
     ''        proxy_set_header Host $http_host;'',
     ''    }'',
     '''',
     ''    location / { return 301 https://$host$request_uri; }'',
     ''}'',
     '''', ''server {'', ''    listen      443 ssl;'', ''    listen      [::]:443 ssl;'',
     ''    server_name '' @ domain @ '';'',
     ''''] @ tls_lines"

definition ipTLSServer :: "int \<Rightarrow> string list" where
  "ipTLSServer port =
    ['''', ''server {'', ''    listen      '' @ Itoa port @ '' ssl;'', ''    listen      [::]:'' @ Itoa port @ '' ssl;'',
     ''    server_name _;'',
     ''''] @ tls_lines"

definition ipPlainServer :: "string \<Rightarrow> string list" where
  "ipPlainServer ip =
    ['''', ''server {'', ''    listen      80;'', ''    listen      [::]:80;'', ''    server_name '' @ ip @ '';'', '''']"

definition proxyBody :: "string \<Rightarrow> string list" where
  "proxyBody listen =
    [''    client_max_body_size 10m;'',
     '''',
     ''    location / {'',
     ''        proxy_pass http://'' @ listen @ '';'',
     '''',
     ''        proxy_http_version 1.1;'',
     ''        proxy_set_header Host              $http_host;'',
     ''        proxy_set_header X-Real-IP         $remote_addr;'',
     ''        proxy_set_header X-Forwarded-For   $proxy_add_x_forwarded_for;'',
     ''        proxy_set_header X-Forwarded-Proto $scheme;'',
     ''        proxy_set_header X-Forwarded-Port  $server_port;'',
     ''        proxy_set_header Upgrade           $http_upgrade;'',
     ''        proxy_set_header Connection        $dokkup_connection_upgrade;'',
     '''',
     ''        proxy_buffering off;'',
     ''        proxy_read_timeout 3600s;'',
     ''        proxy_send_timeout 3600s;'',
     ''    }'',
     ''}'']"

definition VhostFile :: "VhostConfig \<Rightarrow> string" where
  "VhostFile cfg =
     (let listen = (if vc_Listen cfg = [] then DefaultListen else vc_Listen cfg);
          servers = (case vc_How cfg of
              AtIPWithTLS \<Rightarrow> ipTLSServer (if vc_Port cfg = 0 then DefaultTLSPort else vc_Port cfg)
            | AtIPPlain \<Rightarrow> ipPlainServer (vc_IP cfg)
            | AtDomain \<Rightarrow> domainServers (vc_Domain cfg) listen)
      in unlines (vhostHeader @ servers @ proxyBody listen))"

definition upper_hex :: "nat \<Rightarrow> string" where
  "upper_hex b = (let d = (\<lambda>n. if n < 10 then char_of (48 + n) else char_of (55 + n)) in [d (b div 16), d (b mod 16)])"

definition Fingerprint :: "(string \<Rightarrow> string) \<Rightarrow> string \<Rightarrow> string" where
  "Fingerprint sha256 der = Join (map (\<lambda>c. upper_hex (of_char c)) (sha256 der)) '':''"

text \<open>The vhost names the places an installation writes to.\<close>

lemma vhost_paths: "certPath = TLSCert" "keyPath = TLSKey"
  by (simp_all add: certPath_def keyPath_def TLSCert_def TLSKey_def TLSDir_def DataDir_def)

section \<open>The file is well formed\<close>

text \<open>How deep in braces a text leaves one who starts at a depth, unless it closes what is not open.\<close>

fun braces :: "nat \<Rightarrow> string \<Rightarrow> nat option" where
  "braces n [] = Some n"
| "braces n (c # cs) = (if c = CHR ''{'' then braces (Suc n) cs
     else if c = CHR ''}'' then (case n of 0 \<Rightarrow> None | Suc k \<Rightarrow> braces k cs) else braces n cs)"

text \<open>A line of a configuration: blank, a comment, or one that ends a directive or opens or closes a block.\<close>

definition config_line :: "string \<Rightarrow> bool" where
  "config_line l \<longleftrightarrow> l = [] \<or> hd l = CHR 0x23 \<or> last l \<in> {CHR '';'', CHR ''{'', CHR ''}''}"

text \<open>A value that stays within its line and its directive.\<close>

definition plain_value :: "string \<Rightarrow> bool" where
  "plain_value s \<longleftrightarrow> CHR ''{'' \<notin> set s \<and> CHR ''}'' \<notin> set s \<and> CHR 0x0A \<notin> set s"

lemma braces_append: "braces n (s @ t) = (case braces n s of None \<Rightarrow> None | Some k \<Rightarrow> braces k t)"
  by (induction n s rule: braces.induct) (auto split: nat.split)

lemma braces_plain: "plain_value s \<Longrightarrow> braces n s = Some n"
  by (induction s) (auto simp: plain_value_def)

lemma plain_number: "plain_value (Itoa i)"
proof -
  have "c \<notin> set (show_nat n)" if "\<not> is_digit c" for c n using show_nat_digits that by blast
  then show ?thesis by (simp add: plain_value_def Itoa_def is_digit_def)
qed

lemma plain_paths: "plain_value certPath" "plain_value keyPath" "plain_value ChallengePath" "plain_value DefaultListen"
  by (simp_all add: plain_value_def certPath_def keyPath_def ChallengePath_def DefaultListen_def)

text \<open>The parts: each ends at the depth it starts from, but for the last server, which the body closes.\<close>

lemma braces_unlines: "braces n (unlines ls) = foldl (\<lambda>d l. case d of None \<Rightarrow> None | Some k \<Rightarrow> braces k l) (Some n) ls"
proof -
  have none: "foldl (\<lambda>d l. case d of None \<Rightarrow> None | Some k \<Rightarrow> braces k l) None ls = None" for ls by (induction ls) auto
  show ?thesis by (induction ls arbitrary: n) (auto simp: unlines_def braces_append none split: option.split)
qed

lemma braces_concat: "braces n (a @ x @ b) = (case braces n a of None \<Rightarrow> None | Some k \<Rightarrow> braces k b)" if "plain_value x"
  by (simp add: braces_append braces_plain [OF that] split: option.split)

lemma braces_header: "braces 0 (unlines vhostHeader) = Some 0"
  by (simp add: vhostHeader_def unlines_def)

lemma braces_tls: "braces n (unlines tls_lines) = Some n"
  by (simp add: tls_lines_def unlines_def braces_append braces_plain plain_paths)

lemma braces_servers:
  assumes "plain_value d" "plain_value l"
  shows "braces 0 (unlines (domainServers d l)) = Some 1" "braces 0 (unlines (ipTLSServer port)) = Some 1"
    "braces 0 (unlines (ipPlainServer d)) = Some 1"
proof -
  note parts = unlines_def braces_append braces_plain plain_paths plain_number assms
  have split: "unlines (a @ b) = unlines a @ unlines b" for a b by (simp add: unlines_def)
  show "braces 0 (unlines (domainServers d l)) = Some 1"
    unfolding domainServers_def split braces_append by (simp add: parts braces_tls [unfolded unlines_def])
  show "braces 0 (unlines (ipTLSServer port)) = Some 1"
    unfolding ipTLSServer_def split braces_append by (simp add: parts braces_tls [unfolded unlines_def])
  show "braces 0 (unlines (ipPlainServer d)) = Some 1"
    unfolding ipPlainServer_def by (simp add: parts)
qed

lemma braces_body: "plain_value l \<Longrightarrow> braces 1 (unlines (proxyBody l)) = Some 0"
  by (simp add: proxyBody_def unlines_def braces_append braces_plain)

definition good_line :: "string \<Rightarrow> bool" where
  "good_line l \<longleftrightarrow> config_line l \<and> CHR 0x0A \<notin> set l"

lemma good_parts:
  assumes "plain_value d" "plain_value l"
  shows "list_all good_line vhostHeader" "list_all good_line (domainServers d l)" "list_all good_line (ipTLSServer port)"
    "list_all good_line (ipPlainServer d)" "list_all good_line (proxyBody l)"
proof -
  have nl: "CHR 0x0A \<notin> set s" if "plain_value s" for s using that by (simp add: plain_value_def)
  note plain = nl [OF plain_paths(1)] nl [OF plain_paths(2)] nl [OF plain_paths(3)] nl [OF plain_number] nl [OF assms(1)] nl [OF assms(2)]
  note g = good_line_def config_line_def
  show "list_all good_line vhostHeader" by (simp add: vhostHeader_def g)
  show "list_all good_line (domainServers d l)" by (simp add: domainServers_def tls_lines_def g plain)
  show "list_all good_line (ipTLSServer port)" by (simp add: ipTLSServer_def tls_lines_def g plain)
  show "list_all good_line (ipPlainServer d)" by (simp add: ipPlainServer_def g plain)
  show "list_all good_line (proxyBody l)" by (simp add: proxyBody_def g plain)
qed

lemma vhost_parts:
  assumes "plain_value (vc_Domain cfg)" "plain_value (vc_IP cfg)" "plain_value (vc_Listen cfg)"
  shows "\<exists>servers l. VhostFile cfg = unlines (vhostHeader @ servers @ proxyBody l) \<and> plain_value l \<and>
    braces 0 (unlines servers) = Some 1 \<and> list_all good_line servers"
proof -
  define l where "l = (if vc_Listen cfg = [] then DefaultListen else vc_Listen cfg)"
  have l: "plain_value l" using assms(3) plain_paths(4) by (simp add: l_def)
  have ok: ?thesis if "VhostFile cfg = unlines (vhostHeader @ servers @ proxyBody l)" "braces 0 (unlines servers) = Some 1"
    "list_all good_line servers" for servers
    using that l by blast
  show ?thesis
  proof (cases "vc_How cfg")
    case AtDomain
    then show ?thesis using braces_servers(1) [OF assms(1) l] good_parts(2) [OF assms(1) l]
      by (intro ok) (simp_all add: VhostFile_def l_def Let_def)
  next
    case AtIPWithTLS
    then show ?thesis using braces_servers(2) [OF assms(1) l] good_parts(3) [OF assms(1) l]
      by (intro ok) (simp_all add: VhostFile_def l_def Let_def)
  next
    case AtIPPlain
    then show ?thesis using braces_servers(3) [OF assms(2) l] good_parts(4) [OF assms(2) l]
      by (intro ok) (simp_all add: VhostFile_def l_def Let_def)
  qed
qed

lemma vhost_lines:
  assumes "plain_value (vc_Domain cfg)" "plain_value (vc_IP cfg)" "plain_value (vc_Listen cfg)"
  shows "braces 0 (VhostFile cfg) = Some 0 \<and> list_all config_line (Split (CHR 0x0A) (VhostFile cfg))"
proof -
  obtain servers l where v: "VhostFile cfg = unlines (vhostHeader @ servers @ proxyBody l)" "plain_value l"
    "braces 0 (unlines servers) = Some 1" "list_all good_line servers"
    using vhost_parts [OF assms] by blast
  have split: "unlines (a @ b) = unlines a @ unlines b" for a b by (simp add: unlines_def)
  have "braces 0 (VhostFile cfg) = Some 0"
    unfolding v(1) split by (simp add: braces_append braces_header v(3) braces_body [OF v(2), unfolded One_nat_def])
  moreover have good: "list_all good_line (vhostHeader @ servers @ proxyBody l)"
    using v(4) good_parts [OF v(2) v(2)] by simp
  then have "Split (CHR 0x0A) (VhostFile cfg) = (vhostHeader @ servers @ proxyBody l) @ Split (CHR 0x0A) []"
    using Split_unlines [of "vhostHeader @ servers @ proxyBody l" "[]"] unfolding v(1) by (simp add: good_line_def list_all_iff)
  with good have "list_all config_line (Split (CHR 0x0A) (VhostFile cfg))"
    by (auto simp: good_line_def list_all_iff config_line_def)
  ultimately show ?thesis ..
qed


definition test_vhost :: VhostConfig where
  "test_vhost = \<lparr>vc_How = AtDomain, vc_Domain = ''example.org'', vc_IP = [], vc_Port = 0, vc_Listen = []\<rparr>"


end
