(* ===== verification/Dokku.thy ===== *)
theory Dokku
  imports Service "HOL-Library.AList" "HOL-Library.Char_ord" "HOL-Library.List_Lexorder"
begin

text \<open>
  internal/dokku: the one seam through which Dokku is invoked. Names are validated, commands are
  argument vectors, and what Dokku prints is read back. Running a program is a step on a host that
  is an argument; what a JSON report decodes to is one too. The contract of a client is a locale,
  which the client that runs the binary and the in-memory one both meet.
\<close>

section \<open>Names (dokku.go)\<close>

definition lower_alnum :: "char \<Rightarrow> bool" where
  "lower_alnum c \<longleftrightarrow> is_digit c \<or> (let n = of_char c :: nat in 97 \<le> n \<and> n \<le> 122)"

definition alnum :: "char \<Rightarrow> bool" where
  "alnum c \<longleftrightarrow> lower_alnum c \<or> (let n = of_char c :: nat in 65 \<le> n \<and> n \<le> 90)"

definition appName :: "string \<Rightarrow> bool" where
  "appName s \<longleftrightarrow> (case s of [] \<Rightarrow> False
     | c # cs \<Rightarrow> lower_alnum c \<and> (\<forall>d \<in> set cs. lower_alnum d \<or> d = CHR ''-''))"

definition processType :: "string \<Rightarrow> bool" where
  "processType s \<longleftrightarrow> (case s of [] \<Rightarrow> False
     | c # cs \<Rightarrow> alnum c \<and> (\<forall>d \<in> set cs. alnum d \<or> d = CHR ''-'' \<or> d = CHR ''_''))"

datatype stream_error = Exited run_error | LineTooLong | NotStarted

datatype 'e dokku_error =
    EmptyName
  | NameTooLong string
  | BadName string
  | BadProcessType string
  | CommandFailed "string list" string stream_error
  | BadReport "string list"
  | ErrAppNotFound string
  | Canceled
  | Caller 'e
  | Told string

definition ValidateAppName :: "string \<Rightarrow> 'e dokku_error + unit" where
  "ValidateAppName name =
     (if name = [] then Inl EmptyName
      else if length name > 63 then Inl (NameTooLong name)
      else if \<not> appName name then Inl (BadName name)
      else Inr ())"

definition validateProcessType :: "string \<Rightarrow> 'e dokku_error + unit" where
  "validateProcessType name = (if \<not> processType name then Inl (BadProcessType name) else Inr ())"

record LogOptions =
  lo_ProcessType :: string
  lo_Tail :: int
  lo_Follow :: bool

section \<open>The client that runs the binary (exec.go)\<close>

definition DefaultDokku :: string where "DefaultDokku = ''/usr/bin/dokku''"
definition DefaultRunAs :: string where "DefaultRunAs = ''dokku''"
definition DefaultSudo :: string where "DefaultSudo = ''/usr/bin/sudo''"
definition dokkuTimeout :: int where "dokkuTimeout = 30000000000"

record ExecClient =
  ec_Binary :: string
  ec_RunAs :: string
  ec_Sudo :: string
  ec_Timeout :: int

definition NewExecClient :: ExecClient where
  "NewExecClient = \<lparr>ec_Binary = DefaultDokku, ec_RunAs = DefaultRunAs, ec_Sudo = DefaultSudo, ec_Timeout = dokkuTimeout\<rparr>"

definition dokku_command :: "ExecClient \<Rightarrow> string list \<Rightarrow> string \<times> string list" where
  "dokku_command c args =
     (let binary = (if ec_Binary c = [] then DefaultDokku else ec_Binary c) in
      if ec_RunAs c = [] then (binary, args)
      else ((if ec_Sudo c = [] then DefaultSudo else ec_Sudo c), [''-n'', ''-u'', ec_RunAs c, binary] @ args))"

definition dokku_run :: "'h exec \<Rightarrow> ExecClient \<Rightarrow> string list \<Rightarrow> 'h \<Rightarrow> ('e dokku_error + string) \<times> 'h" where
  "dokku_run exec c args h =
     (let timeout = (if ec_Timeout c \<le> 0 then dokkuTimeout else ec_Timeout c);
          (program, vector) = dokku_command c args;
          (r, h) = exec timeout program vector h
      in (case out_err r of
            Some err \<Rightarrow> Inl (CommandFailed args (TrimSpace (out_stderr r)) (Exited err))
          | None \<Rightarrow> Inr (out_stdout r), h))"

type_synonym report = "(string \<times> string) list"   \<comment> \<open>a Go map: no key twice\<close>

definition runJSON :: "(string \<Rightarrow> report option) \<Rightarrow> 'h exec \<Rightarrow> ExecClient \<Rightarrow> string list \<Rightarrow> 'h
    \<Rightarrow> ('e dokku_error + report) \<times> 'h" where
  "runJSON decode exec c args h =
     (case dokku_run exec c (args @ [''--format'', ''json'']) h of
        (Inl err, h) \<Rightarrow> (Inl err, h)
      | (Inr out, h) \<Rightarrow> (case decode out of None \<Rightarrow> Inl (BadReport args) | Some r \<Rightarrow> Inr r, h))"

definition ec_Version :: "'h exec \<Rightarrow> ExecClient \<Rightarrow> 'h \<Rightarrow> ('e dokku_error + string) \<times> 'h" where
  "ec_Version exec c h =
     (case dokku_run exec c [''version''] h of
        (Inl err, h) \<Rightarrow> (Inl err, h)
      | (Inr out, h) \<Rightarrow> (Inr (TrimPrefix (TrimSpace out) ''dokku version ''), h))"

definition isDokkuNarration :: "string \<Rightarrow> bool" where
  "isDokkuNarration line \<longleftrightarrow>
     (\<exists>prefix \<in> set [''=====>'', ''----->'', ''!'', ''NOTE:'', ''WARN:'']. HasPrefix line prefix)"

definition app_lines :: "string \<Rightarrow> string list" where
  "app_lines out = filter (\<lambda>name. name \<noteq> [] \<and> \<not> isDokkuNarration name) (map TrimSpace (Split (CHR 0x0A) out))"

definition ec_Apps :: "'h exec \<Rightarrow> ExecClient \<Rightarrow> 'h \<Rightarrow> ('e dokku_error + string list) \<times> 'h" where
  "ec_Apps exec c h =
     (case dokku_run exec c [''apps:list''] h of
        (Inl err, h) \<Rightarrow> (Inl err, h)
      | (Inr out, h) \<Rightarrow> (Inr (app_lines out), h))"

definition ec_AppReport :: "(string \<Rightarrow> report option) \<Rightarrow> 'h exec \<Rightarrow> ExecClient \<Rightarrow> string \<Rightarrow> 'h
    \<Rightarrow> ('e dokku_error + report) \<times> 'h" where
  "ec_AppReport decode exec c app h =
     (case ValidateAppName app of Inl err \<Rightarrow> (Inl err, h)
      | Inr _ \<Rightarrow> runJSON decode exec c [''apps:report'', app] h)"

text \<open>The regular expression \<^verbatim>\<open>^status-(.+)\.\d+$\<close>, and its group.\<close>

definition processStatus :: "string \<Rightarrow> string option" where
  "processStatus key =
     (if \<not> HasPrefix key ''status-'' then None
      else let back = rev (drop 7 key); ds = takeWhile is_digit back in
        case drop (length ds) back of
          [] \<Rightarrow> None
        | dot # t \<Rightarrow> if ds \<noteq> [] \<and> dot = CHR ''.'' \<and> t \<noteq> [] \<and> CHR 0x0A \<notin> set t then Some (rev t) else None)"

text \<open>types[match[1]]++ for every key that matches.\<close>

definition count_types :: "string list \<Rightarrow> string \<rightharpoonup> nat" where
  "count_types keys = fold (\<lambda>key types. case processStatus key of None \<Rightarrow> types
     | Some t \<Rightarrow> types(t \<mapsto> Suc (case types t of None \<Rightarrow> 0 | Some n \<Rightarrow> n))) keys Map.empty"

definition ec_ProcessTypes :: "(string \<Rightarrow> report option) \<Rightarrow> 'h exec \<Rightarrow> ExecClient \<Rightarrow> string \<Rightarrow> 'h
    \<Rightarrow> ('e dokku_error + (string \<rightharpoonup> nat)) \<times> 'h" where
  "ec_ProcessTypes decode exec c app h =
     (case ValidateAppName app of Inl err \<Rightarrow> (Inl err, h)
      | Inr _ \<Rightarrow> (case runJSON decode exec c [''ps:report'', app] h of
          (Inl err, h) \<Rightarrow> (Inl err, h)
        | (Inr r, h) \<Rightarrow> (Inr (count_types (map fst r)), h)))"

definition ec_Domains :: "(string \<Rightarrow> report option) \<Rightarrow> 'h exec \<Rightarrow> ExecClient \<Rightarrow> string \<Rightarrow> 'h
    \<Rightarrow> ('e dokku_error + string list) \<times> 'h" where
  "ec_Domains decode exec c app h =
     (case ValidateAppName app of Inl err \<Rightarrow> (Inl err, h)
      | Inr _ \<Rightarrow> (case runJSON decode exec c [''domains:report'', app] h of
          (Inl err, h) \<Rightarrow> (Inl err, h)
        | (Inr r, h) \<Rightarrow> (Inr (Fields (case map_of r ''app-vhosts'' of None \<Rightarrow> [] | Some v \<Rightarrow> v)), h)))"

definition logArgs :: "string \<Rightarrow> LogOptions \<Rightarrow> string list" where
  "logArgs app opts =
     [''logs''] @ (if lo_Follow opts then [''--tail''] else []) @
     (if lo_Tail opts > 0 then [''--num'', Itoa (lo_Tail opts)] else []) @
     (if lo_ProcessType opts \<noteq> [] then [''--ps'', lo_ProcessType opts] else []) @ [app]"

section \<open>Streams (exec.go)\<close>

text \<open>Removing every match of \<^verbatim>\<open>\x1b\[[0-9;]*m\<close>, from the left.\<close>

definition sgr :: "char \<Rightarrow> bool" where "sgr c \<longleftrightarrow> is_digit c \<or> c = CHR '';''"

lemma length_tl_dropWhile: "length (tl (dropWhile P xs)) < Suc (Suc (length xs))"
  using length_dropWhile_le [of P xs] by simp

function ansiColour :: "string \<Rightarrow> string" where
  "ansiColour [] = []"
| "ansiColour (c # cs) =
     (case cs of
        b # rest \<Rightarrow>
          let after = dropWhile sgr rest in
          if c = CHR 0x1B \<and> b = CHR ''['' \<and> after \<noteq> [] \<and> hd after = CHR ''m'' then ansiColour (tl after)
          else c # ansiColour cs
      | [] \<Rightarrow> [c])"
  by pat_completeness auto

termination
  by (relation "measure length") (auto simp del: length_tl simp: length_tl_dropWhile)

definition maxLogLine :: nat where "maxLogLine = 1048576"
definition maxStreamStderr :: nat where "maxStreamStderr = 4096"

text \<open>
  bufio.Scanner over a finished output: lines without their end, a final line only when it is not
  empty, and an error at the first line that does not fit the buffer.
\<close>

definition drop_cr :: "string \<Rightarrow> string" where
  "drop_cr l = (if l \<noteq> [] \<and> last l = CHR 0x0D then butlast l else l)"

definition scan_lines :: "string \<Rightarrow> string list \<times> bool" where
  "scan_lines out =
     (let ls = Split (CHR 0x0A) out;
          ls = (if last ls = [] then butlast ls else ls);
          fits = takeWhile (\<lambda>l. length l < maxLogLine) ls
      in (map drop_cr fits, length fits < length ls))"

fun deliver :: "(string \<Rightarrow> 's \<Rightarrow> 'e option \<times> 's) \<Rightarrow> string list \<Rightarrow> 's \<Rightarrow> 'e option \<times> 's" where
  "deliver fn [] s = (None, s)"
| "deliver fn (l # ls) s = (case fn l s of (Some err, s) \<Rightarrow> (Some err, s) | (None, s) \<Rightarrow> deliver fn ls s)"

text \<open>How a streamed command goes: it starts or not, what it writes until it ends or is stopped, how
  it ends, what of its standard error is kept, and whether the caller has gone away by then.\<close>

record streamed =
  st_starts :: bool
  st_out :: string
  st_stderr :: string
  st_wait :: "run_error option"
  st_gone :: bool

type_synonym 'h start = "string \<Rightarrow> string list \<Rightarrow> 'h \<Rightarrow> streamed \<times> 'h"

definition neverRan :: "bool \<Rightarrow> string list \<Rightarrow> 'e dokku_error" where
  "neverRan gone args = (if gone then Canceled else CommandFailed args [] NotStarted)"

definition stream :: "'h start \<Rightarrow> ExecClient \<Rightarrow> (string \<Rightarrow> 's \<Rightarrow> 'e option \<times> 's) \<Rightarrow> string list \<Rightarrow> 'h \<Rightarrow> 's
    \<Rightarrow> ('e dokku_error + unit) \<times> 'h \<times> 's" where
  "stream start c fn args h s =
     (let (program, vector) = dokku_command c args;
          (r, h) = start program vector h in
      if \<not> st_starts r then (Inl (neverRan (st_gone r) args), h, s)
      else let (lines, tooLong) = scan_lines (st_out r);
               (fnErr, s) = deliver fn lines s in
        (case fnErr of Some err \<Rightarrow> Inl (Caller err)
         | None \<Rightarrow>
           if st_wait r = None \<and> \<not> tooLong then Inr ()
           else if st_gone r then Inl Canceled
           else if tooLong then Inl (CommandFailed args (st_stderr r) LineTooLong)
           else Inl (CommandFailed args (st_stderr r) (Exited (the (st_wait r)))), h, s))"

definition ec_Logs :: "'h start \<Rightarrow> ExecClient \<Rightarrow> string \<Rightarrow> LogOptions \<Rightarrow> (string \<Rightarrow> 's \<Rightarrow> 'e option \<times> 's) \<Rightarrow> 'h \<Rightarrow> 's
    \<Rightarrow> ('e dokku_error + unit) \<times> 'h \<times> 's" where
  "ec_Logs start c app opts fn h s =
     (case ValidateAppName app of Inl err \<Rightarrow> (Inl err, h, s)
      | Inr _ \<Rightarrow>
        (case (if lo_ProcessType opts \<noteq> [] then validateProcessType (lo_ProcessType opts) else Inr ()) of
           Inl err \<Rightarrow> (Inl err, h, s)
         | Inr _ \<Rightarrow> stream start c (\<lambda>line. fn (ansiColour line)) (logArgs app opts) h s))"

text \<open>cappedBuffer.\<close>

record cappedBuffer =
  cb_limit :: nat
  cb_buf :: string

definition cb_Write :: "string \<Rightarrow> cappedBuffer \<Rightarrow> nat \<times> cappedBuffer" where
  "cb_Write p b =
     (let buf = cb_buf b @ p; excess = int (length buf) - int (cb_limit b)
      in (length p, b\<lparr>cb_buf := if excess > 0 then drop (nat excess) buf else buf\<rparr>))"

definition cb_String :: "cappedBuffer \<Rightarrow> string" where
  "cb_String b = TrimSpace (cb_buf b)"

section \<open>The in-memory client (fake.go)\<close>

record Fake_Dokku =
  fd_DokkuVersion :: string
  fd_apps :: "(string \<times> report) list"   \<comment> \<open>no name twice\<close>
  fd_processTypes :: "string \<rightharpoonup> (string \<rightharpoonup> nat)"
  fd_domains :: "string \<rightharpoonup> string list"
  fd_logs :: "string \<rightharpoonup> string list"
  fd_Calls :: "string list"
  fd_Err :: "string option"

definition NewFake :: Fake_Dokku where
  "NewFake = \<lparr>fd_DokkuVersion = ''0.38.7'', fd_apps = [], fd_processTypes = Map.empty,
     fd_domains = Map.empty, fd_logs = Map.empty, fd_Calls = [], fd_Err = None\<rparr>"

definition AddApp :: "string \<Rightarrow> report \<Rightarrow> Fake_Dokku \<Rightarrow> Fake_Dokku" where
  "AddApp name r f = f\<lparr>fd_apps := AList.update name r (fd_apps f)\<rparr>"

definition fd_ensure :: "string \<Rightarrow> Fake_Dokku \<Rightarrow> Fake_Dokku" where
  "fd_ensure app f = (if map_of (fd_apps f) app = None then f\<lparr>fd_apps := AList.update app [] (fd_apps f)\<rparr> else f)"

definition SetProcessTypes :: "string \<Rightarrow> (string \<rightharpoonup> nat) \<Rightarrow> Fake_Dokku \<Rightarrow> Fake_Dokku" where
  "SetProcessTypes app scale f = (let f = fd_ensure app f in f\<lparr>fd_processTypes := (fd_processTypes f)(app \<mapsto> scale)\<rparr>)"

definition SetDomains :: "string \<Rightarrow> string list \<Rightarrow> Fake_Dokku \<Rightarrow> Fake_Dokku" where
  "SetDomains app domains f = (let f = fd_ensure app f in f\<lparr>fd_domains := (fd_domains f)(app \<mapsto> domains)\<rparr>)"

definition SetLogs :: "string \<Rightarrow> string list \<Rightarrow> Fake_Dokku \<Rightarrow> Fake_Dokku" where
  "SetLogs app ls f = (let f = fd_ensure app f in f\<lparr>fd_logs := (fd_logs f)(app \<mapsto> ls)\<rparr>)"

definition fd_record :: "string \<Rightarrow> Fake_Dokku \<Rightarrow> ('e dokku_error + unit) \<times> Fake_Dokku" where
  "fd_record c f = (case fd_Err f of None \<Rightarrow> Inr () | Some e \<Rightarrow> Inl (Told e), f\<lparr>fd_Calls := fd_Calls f @ [c]\<rparr>)"

definition fd_Version :: "Fake_Dokku \<Rightarrow> ('e dokku_error + string) \<times> Fake_Dokku" where
  "fd_Version f = (case fd_record ''version'' f of (Inl e, f) \<Rightarrow> (Inl e, f) | (Inr _, f) \<Rightarrow> (Inr (fd_DokkuVersion f), f))"

definition fd_Apps :: "Fake_Dokku \<Rightarrow> ('e dokku_error + string list) \<times> Fake_Dokku" where
  "fd_Apps f = (case fd_record ''apps:list'' f of (Inl e, f) \<Rightarrow> (Inl e, f) | (Inr _, f) \<Rightarrow> (Inr (sort (map fst (fd_apps f))), f))"

text \<open>What the three methods that take an app have in common.\<close>

definition fd_ask :: "string \<Rightarrow> (Fake_Dokku \<Rightarrow> 'a) \<Rightarrow> string \<Rightarrow> Fake_Dokku \<Rightarrow> ('e dokku_error + 'a) \<times> Fake_Dokku" where
  "fd_ask command answer app f =
     (case ValidateAppName app of Inl err \<Rightarrow> (Inl err, f)
      | Inr _ \<Rightarrow>
        (case fd_record (command @ '' '' @ app) f of
           (Inl err, f) \<Rightarrow> (Inl err, f)
         | (Inr _, f) \<Rightarrow> (if map_of (fd_apps f) app = None then Inl (ErrAppNotFound app) else Inr (answer f), f)))"

definition fd_AppReport :: "string \<Rightarrow> Fake_Dokku \<Rightarrow> ('e dokku_error + report) \<times> Fake_Dokku" where
  "fd_AppReport app = fd_ask ''apps:report'' (\<lambda>f. the (map_of (fd_apps f) app)) app"

definition fd_ProcessTypes :: "string \<Rightarrow> Fake_Dokku \<Rightarrow> ('e dokku_error + (string \<rightharpoonup> nat)) \<times> Fake_Dokku" where
  "fd_ProcessTypes app = fd_ask ''ps:report'' (\<lambda>f. case fd_processTypes f app of None \<Rightarrow> Map.empty | Some t \<Rightarrow> t) app"

definition fd_Domains :: "string \<Rightarrow> Fake_Dokku \<Rightarrow> ('e dokku_error + string list) \<times> Fake_Dokku" where
  "fd_Domains app = fd_ask ''domains:report'' (\<lambda>f. case fd_domains f app of None \<Rightarrow> [] | Some d \<Rightarrow> d) app"

definition fd_logLines :: "string \<Rightarrow> LogOptions \<Rightarrow> Fake_Dokku \<Rightarrow> ('e dokku_error + string list) \<times> Fake_Dokku" where
  "fd_logLines app opts f =
     (case fd_record (Join (logArgs app opts) '' '') f of
        (Inl err, f) \<Rightarrow> (Inl err, f)
      | (Inr _, f) \<Rightarrow>
        (if map_of (fd_apps f) app = None then Inl (ErrAppNotFound app)
         else let lines = (case fd_logs f app of None \<Rightarrow> [] | Some l \<Rightarrow> l);
                  lines = (if lo_ProcessType opts \<noteq> [] then filter (\<lambda>l. Contains l (''['' @ lo_ProcessType opts @ ''.'')) lines else lines);
                  lines = (if lo_Tail opts > 0 \<and> int (length lines) > lo_Tail opts
                           then drop (length lines - nat (lo_Tail opts)) lines else lines)
              in Inr lines, f))"

text \<open>gone: whether the context is done before the n-th line is delivered.\<close>

fun fd_deliver :: "(nat \<Rightarrow> bool) \<Rightarrow> nat \<Rightarrow> (string \<Rightarrow> 's \<Rightarrow> 'e option \<times> 's) \<Rightarrow> string list \<Rightarrow> 's
    \<Rightarrow> ('e dokku_error + unit) \<times> 's" where
  "fd_deliver gone n fn [] s = (Inr (), s)"
| "fd_deliver gone n fn (l # ls) s =
     (if gone n then (Inl Canceled, s)
      else case fn (ansiColour l) s of (Some err, s) \<Rightarrow> (Inl (Caller err), s)
         | (None, s) \<Rightarrow> fd_deliver gone (Suc n) fn ls s)"

definition fd_Logs :: "(nat \<Rightarrow> bool) \<Rightarrow> string \<Rightarrow> LogOptions \<Rightarrow> (string \<Rightarrow> 's \<Rightarrow> 'e option \<times> 's) \<Rightarrow> Fake_Dokku \<Rightarrow> 's
    \<Rightarrow> ('e dokku_error + unit) \<times> Fake_Dokku \<times> 's" where
  "fd_Logs gone app opts fn f s =
     (case ValidateAppName app of Inl err \<Rightarrow> (Inl err, f, s)
      | Inr _ \<Rightarrow>
        (case (if lo_ProcessType opts \<noteq> [] then validateProcessType (lo_ProcessType opts) else Inr ()) of
           Inl err \<Rightarrow> (Inl err, f, s)
         | Inr _ \<Rightarrow>
           (case fd_logLines app opts f of
              (Inl err, f) \<Rightarrow> (Inl err, f, s)
            | (Inr lines, f) \<Rightarrow>
              (case fd_deliver gone 0 fn lines s of
                 (Inl err, s) \<Rightarrow> (Inl err, f, s)
               | (Inr _, s) \<Rightarrow> (if lo_Follow opts then Inl Canceled else Inr (), f, s)))))"

section \<open>The contract of a client\<close>

definition valid_app :: "string \<Rightarrow> bool" where
  "valid_app app \<longleftrightarrow> app \<noteq> [] \<and> length app \<le> 63 \<and> appName app"

lemma ValidateAppName_iff:
  "ValidateAppName app = Inr () \<longleftrightarrow> valid_app app"
  "(\<exists>err. ValidateAppName app = Inl err) \<longleftrightarrow> \<not> valid_app app"
  by (auto simp: ValidateAppName_def valid_app_def)

lemma valid_Inr [simp]: "valid_app app \<Longrightarrow> ValidateAppName app = Inr ()"
  by (simp add: ValidateAppName_iff)

lemma Inr_valid: "ValidateAppName app = Inr u \<Longrightarrow> valid_app app"
  by (auto simp: ValidateAppName_def valid_app_def split: if_splits)

text \<open>
  Every implementation rejects an invalid name before invoking anything, and an operation on a valid
  one reaches Dokku once.
\<close>

locale dokku_client =
  fixes ask_report :: "string \<Rightarrow> 's \<Rightarrow> ('e dokku_error + report) \<times> 's"
    and ask_types :: "string \<Rightarrow> 's \<Rightarrow> ('e dokku_error + (string \<rightharpoonup> nat)) \<times> 's"
    and ask_domains :: "string \<Rightarrow> 's \<Rightarrow> ('e dokku_error + string list) \<times> 's"
    and reached :: "'s \<Rightarrow> nat"
  assumes rejected: "ValidateAppName app = Inl err \<Longrightarrow> ask_report app s = (Inl err, s)"
      "ValidateAppName app = Inl err \<Longrightarrow> ask_types app s = (Inl err, s)"
      "ValidateAppName app = Inl err \<Longrightarrow> ask_domains app s = (Inl err, s)"
    and once: "ValidateAppName app = (Inr () :: 'e dokku_error + unit) \<Longrightarrow> reached (snd (ask_report app s)) = Suc (reached s)"
      "ValidateAppName app = (Inr () :: 'e dokku_error + unit) \<Longrightarrow> reached (snd (ask_types app s)) = Suc (reached s)"
      "ValidateAppName app = (Inr () :: 'e dokku_error + unit) \<Longrightarrow> reached (snd (ask_domains app s)) = Suc (reached s)"
begin

definition looked_up :: "string \<Rightarrow> 's \<Rightarrow> 's" where
  "looked_up app s = snd (ask_domains app (snd (ask_types app (snd (ask_report app s)))))"

lemma looked_up_reached: "reached (looked_up app s) = reached s + (if valid_app app then 3 else 0)"
proof (cases "valid_app app")
  case True
  then have "ValidateAppName app = (Inr () :: 'e dokku_error + unit)" by (simp add: ValidateAppName_iff)
  with True show ?thesis by (simp add: looked_up_def once)
next
  case False
  then obtain err :: "'e dokku_error" where "ValidateAppName app = Inl err" using ValidateAppName_iff(2) by blast
  with False show ?thesis by (simp add: looked_up_def rejected)
qed

lemma reached_only_valid:
  "reached (fold looked_up apps s) = reached s + 3 * length (filter valid_app apps)"
  by (induction apps arbitrary: s) (auto simp: looked_up_reached)

end

text \<open>The client that runs the binary, on a host that remembers what was run.\<close>

type_synonym 'h traced = "(string \<times> string list) list \<times> 'h"

definition traced :: "'h exec \<Rightarrow> 'h traced exec" where
  "traced exec timeout program vector w =
     (let (r, h) = exec timeout program vector (snd w) in (r, fst w @ [(program, vector)], h))"

definition traced_start :: "'h start \<Rightarrow> 'h traced start" where
  "traced_start start program vector w =
     (let (r, h) = start program vector (snd w) in (r, fst w @ [(program, vector)], h))"

lemma dokku_run_trace:
  "dokku_run (traced exec) c args w = (r, w') \<Longrightarrow> fst w' = fst w @ [dokku_command c args]"
  by (auto simp: dokku_run_def Let_def traced_def split_beta)

lemma runJSON_trace:
  "runJSON decode (traced exec) c args w = (r, w') \<Longrightarrow> fst w' = fst w @ [dokku_command c (args @ [''--format'', ''json''])]"
  by (auto simp: runJSON_def split: prod.splits sum.splits dest!: dokku_run_trace)

lemma ec_trace:
  "ec_Version (traced exec) c w = (r1, w') \<Longrightarrow> fst w' = fst w @ [dokku_command c [''version'']]"
  "ec_Apps (traced exec) c w = (r2, w') \<Longrightarrow> fst w' = fst w @ [dokku_command c [''apps:list'']]"
  "ec_AppReport decode (traced exec) c app w = (r3, w') \<Longrightarrow> fst w' = fst w @
     (if valid_app app then [dokku_command c [''apps:report'', app, ''--format'', ''json'']] else [])"
  "ec_ProcessTypes decode (traced exec) c app w = (r4, w') \<Longrightarrow> fst w' = fst w @
     (if valid_app app then [dokku_command c [''ps:report'', app, ''--format'', ''json'']] else [])"
  "ec_Domains decode (traced exec) c app w = (r5, w') \<Longrightarrow> fst w' = fst w @
     (if valid_app app then [dokku_command c [''domains:report'', app, ''--format'', ''json'']] else [])"
proof -
  show "ec_Version (traced exec) c w = (r1, w') \<Longrightarrow> fst w' = fst w @ [dokku_command c [''version'']]"
    by (auto simp: ec_Version_def split: prod.splits sum.splits dest!: dokku_run_trace)
  show "ec_Apps (traced exec) c w = (r2, w') \<Longrightarrow> fst w' = fst w @ [dokku_command c [''apps:list'']]"
    by (auto simp: ec_Apps_def split: prod.splits sum.splits dest!: dokku_run_trace)
  show "ec_AppReport decode (traced exec) c app w = (r3, w') \<Longrightarrow> fst w' = fst w @
     (if valid_app app then [dokku_command c [''apps:report'', app, ''--format'', ''json'']] else [])"
    by (cases "valid_app app") (auto simp: ec_AppReport_def split: prod.splits sum.splits dest: Inr_valid dest!: runJSON_trace)
  show "ec_ProcessTypes decode (traced exec) c app w = (r4, w') \<Longrightarrow> fst w' = fst w @
     (if valid_app app then [dokku_command c [''ps:report'', app, ''--format'', ''json'']] else [])"
    by (cases "valid_app app") (auto simp: ec_ProcessTypes_def split: prod.splits sum.splits dest: Inr_valid dest!: runJSON_trace)
  show "ec_Domains decode (traced exec) c app w = (r5, w') \<Longrightarrow> fst w' = fst w @
     (if valid_app app then [dokku_command c [''domains:report'', app, ''--format'', ''json'']] else [])"
    by (cases "valid_app app") (auto simp: ec_Domains_def split: prod.splits sum.splits dest: Inr_valid dest!: runJSON_trace)
qed

interpretation ec: dokku_client
    "ec_AppReport decode (traced exec) c :: string \<Rightarrow> 'h traced \<Rightarrow> ('e dokku_error + report) \<times> 'h traced" "ec_ProcessTypes decode (traced exec) c"
    "ec_Domains decode (traced exec) c" "\<lambda>w. length (fst w)" for decode exec c
proof unfold_locales
  fix app and err :: "'e dokku_error" and s :: "'h traced"
  {
    assume v: "ValidateAppName app = Inl err"
    show "ec_AppReport decode (traced exec) c app s = (Inl err, s)" using v by (simp add: ec_AppReport_def)
    show "ec_ProcessTypes decode (traced exec) c app s = (Inl err, s)" using v by (simp add: ec_ProcessTypes_def)
    show "ec_Domains decode (traced exec) c app s = (Inl err, s)" using v by (simp add: ec_Domains_def)
  }
  assume "ValidateAppName app = (Inr () :: 'e dokku_error + unit)"
  then have v: "valid_app app" by (simp add: ValidateAppName_iff)
  show "length (fst (snd (ec_AppReport decode (traced exec) c app s))) = Suc (length (fst s))"
    using v by (simp add: ec_trace(3) [OF prod.collapse [symmetric]])
  show "length (fst (snd (ec_ProcessTypes decode (traced exec) c app s))) = Suc (length (fst s))"
    using v by (simp add: ec_trace(4) [OF prod.collapse [symmetric]])
  show "length (fst (snd (ec_Domains decode (traced exec) c app s))) = Suc (length (fst s))"
    using v by (simp add: ec_trace(5) [OF prod.collapse [symmetric]])
qed

lemma fd_ask_laws:
  "ValidateAppName app = Inl err \<Longrightarrow> fd_ask command answer app f = (Inl err, f)"
  "ValidateAppName app = (Inr () :: 'e dokku_error + unit) \<Longrightarrow>
    length (fd_Calls (snd (fd_ask command answer app f :: ('e dokku_error + 'a) \<times> Fake_Dokku))) = Suc (length (fd_Calls f))"
  by (simp add: fd_ask_def) (simp add: fd_ask_def fd_record_def split: option.splits)

interpretation fd: dokku_client fd_AppReport fd_ProcessTypes fd_Domains "\<lambda>f. length (fd_Calls f)"
  by unfold_locales (simp_all add: fd_AppReport_def fd_ProcessTypes_def fd_Domains_def fd_ask_laws)

section \<open>What Dokku is asked\<close>

datatype asked = AskVersion | AskApps | AskReport string | AskTypes string | AskDomains string | AskLogs string LogOptions

text \<open>One call of a client, for what it does to the host; lines of logs go to a caller that takes them.\<close>

definition ask :: "(string \<Rightarrow> report option) \<Rightarrow> 'h exec \<Rightarrow> 'h start \<Rightarrow> ExecClient \<Rightarrow> asked \<Rightarrow> 'h traced \<Rightarrow> 'h traced" where
  "ask decode exec start c a w = (case a of
       AskVersion \<Rightarrow> snd (ec_Version (traced exec) c w :: (unit dokku_error + _) \<times> _)
     | AskApps \<Rightarrow> snd (ec_Apps (traced exec) c w :: (unit dokku_error + _) \<times> _)
     | AskReport app \<Rightarrow> snd (ec_AppReport decode (traced exec) c app w :: (unit dokku_error + _) \<times> _)
     | AskTypes app \<Rightarrow> snd (ec_ProcessTypes decode (traced exec) c app w :: (unit dokku_error + _) \<times> _)
     | AskDomains app \<Rightarrow> snd (ec_Domains decode (traced exec) c app w :: (unit dokku_error + _) \<times> _)
     | AskLogs app opts \<Rightarrow> fst (snd (ec_Logs (traced_start start) c app opts (\<lambda>_ s. (None, s)) w () :: (unit dokku_error + _) \<times> _)))"

text \<open>The commands of Dokku there are: five of a fixed shape, and logs.\<close>

definition permitted :: "string list \<Rightarrow> bool" where
  "permitted cmd \<longleftrightarrow> cmd = [''version''] \<or> cmd = [''apps:list''] \<or>
     (\<exists>app. valid_app app \<and>
       (cmd = [''apps:report'', app, ''--format'', ''json''] \<or> cmd = [''ps:report'', app, ''--format'', ''json''] \<or>
        cmd = [''domains:report'', app, ''--format'', ''json''] \<or>
        (\<exists>opts. (lo_ProcessType opts = [] \<or> processType (lo_ProcessType opts)) \<and> cmd = logArgs app opts)))"

definition dokku_flags :: "string set" where
  "dokku_flags = {''--format'', ''--tail'', ''--num'', ''--ps''}"

lemma no_dash:
  "is_digit c \<Longrightarrow> c \<noteq> CHR ''-''" "lower_alnum c \<Longrightarrow> c \<noteq> CHR ''-''" "alnum c \<Longrightarrow> c \<noteq> CHR ''-''"
  by (auto simp: is_digit_def lower_alnum_def alnum_def)

lemma dash_iff: "HasPrefix w ''-'' \<longleftrightarrow> w \<noteq> [] \<and> hd w = CHR ''-''"
  by (cases w) (auto simp: HasPrefix_def)

lemma values_no_dash:
  "valid_app app \<Longrightarrow> \<not> HasPrefix app ''-''"
  "processType t \<Longrightarrow> \<not> HasPrefix t ''-''"
  "n > 0 \<Longrightarrow> \<not> HasPrefix (Itoa n) ''-''"
proof -
  show "valid_app app \<Longrightarrow> \<not> HasPrefix app ''-''"
    by (cases app) (auto simp: dash_iff valid_app_def appName_def dest: no_dash)
  show "processType t \<Longrightarrow> \<not> HasPrefix t ''-''"
    by (cases t) (auto simp: dash_iff processType_def dest: no_dash)
  have "is_digit (hd (show_nat m))" for m using show_nat_digits [of m] by simp
  then show "n > 0 \<Longrightarrow> \<not> HasPrefix (Itoa n) ''-''"
    using no_dash(1) by (auto simp: dash_iff Itoa_def)
qed

definition safe_word :: "string \<Rightarrow> bool" where
  "safe_word w \<longleftrightarrow> w \<in> dokku_flags \<or> \<not> HasPrefix w ''-''"

lemma safe_words [simp]:
  "safe_word ''version''" "safe_word ''apps:list''" "safe_word ''apps:report''" "safe_word ''ps:report''"
  "safe_word ''domains:report''" "safe_word ''json''" "safe_word ''logs''"
  "safe_word ''--format''" "safe_word ''--tail''" "safe_word ''--num''" "safe_word ''--ps''"
  by (simp_all add: safe_word_def dash_iff dokku_flags_def)

lemma safe_values:
  "valid_app app \<Longrightarrow> safe_word app" "processType t \<Longrightarrow> safe_word t" "n > 0 \<Longrightarrow> safe_word (Itoa n)"
  by (simp_all add: safe_word_def values_no_dash)

lemma safe_logArgs:
  "valid_app app \<Longrightarrow> lo_ProcessType opts = [] \<or> processType (lo_ProcessType opts) \<Longrightarrow> list_all safe_word (logArgs app opts)"
  by (auto simp: logArgs_def safe_values)

lemma permitted_flags: "permitted cmd \<Longrightarrow> list_all safe_word cmd"
  by (auto simp only: permitted_def list.pred_inject safe_words safe_values safe_logArgs simp_thms)

lemma ec_Logs_trace:
  "fst (fst (snd (ec_Logs (traced_start start) c app opts fn w s))) = fst w \<or>
   (valid_app app \<and> (lo_ProcessType opts = [] \<or> processType (lo_ProcessType opts)) \<and>
    fst (fst (snd (ec_Logs (traced_start start) c app opts fn w s))) = fst w @ [dokku_command c (logArgs app opts)])"
proof -
  have st: "fst (fst (snd (stream (traced_start start) c g args w s))) = fst w @ [dokku_command c args]" for g args
    by (simp add: stream_def traced_start_def Let_def split_beta)
  show ?thesis
    by (auto simp: ec_Logs_def st validateProcessType_def split: sum.splits if_splits dest: Inr_valid)
qed

text \<open>One call adds one permitted command to the trace, or nothing.\<close>

lemma ask_trace:
  "fst (ask decode exec start c a w) = fst w \<or> (\<exists>cmd. permitted cmd \<and> fst (ask decode exec start c a w) = fst w @ [dokku_command c cmd])"
proof (cases a)
  case (AskLogs app opts)
  then show ?thesis using ec_Logs_trace [of start c app opts "\<lambda>_ s. (None, s)" w "()"] unfolding ask_def permitted_def by auto
qed (auto simp: ask_def ec_trace [OF prod.collapse [symmetric]] permitted_def)

text \<open>
  C20: Nothing a request says reaches Dokku as anything but the name it claims to be. Whatever is asked
  of the client, in whatever order and with whatever names and options, each call runs at most one
  program: sudo, without a password prompt, as the account dokku, on the dokku binary, with a command
  of one of six shapes whose app is a valid name; and no argument that begins with a dash is anything
  but one of the four flags the client itself writes.
\<close>

theorem dokku_asked_safely:
  "let trace = fst (fold (ask decode exec start NewExecClient) asks ([], h)) in
     length trace \<le> length asks \<and>
     (\<forall>(program, vector) \<in> set trace. program = ''/usr/bin/sudo'' \<and>
        (\<exists>cmd. vector = [''-n'', ''-u'', ''dokku'', ''/usr/bin/dokku''] @ cmd \<and> permitted cmd \<and>
           (\<forall>w \<in> set cmd. HasPrefix w ''-'' \<longrightarrow> w \<in> dokku_flags)))"
proof -
  define ok where "ok pv \<longleftrightarrow> (\<exists>cmd. pv = dokku_command NewExecClient cmd \<and> permitted cmd)" for pv
  have "length (fst (fold (ask decode exec start NewExecClient) asks w)) \<le> length (fst w) + length asks \<and>
      (Ball (set (fst w)) ok \<longrightarrow> Ball (set (fst (fold (ask decode exec start NewExecClient) asks w))) ok)" for w
  proof (induction asks arbitrary: w)
    case (Cons a asks)
    define w1 where "w1 = ask decode exec start NewExecClient a w"
    have "length (fst w1) \<le> Suc (length (fst w)) \<and> (Ball (set (fst w)) ok \<longrightarrow> Ball (set (fst w1)) ok)"
    proof -
      from ask_trace [of decode exec start NewExecClient a w, folded w1_def] consider "fst w1 = fst w"
        | cmd where "permitted cmd" "fst w1 = fst w @ [dokku_command NewExecClient cmd]" by blast
      then show ?thesis
      proof cases
        case 2
        then have "ok (dokku_command NewExecClient cmd)" by (auto simp only: ok_def)
        with 2 show ?thesis by simp
      qed simp
    qed
    moreover have f: "fold (ask decode exec start NewExecClient) (a # asks) w = fold (ask decode exec start NewExecClient) asks w1"
      by (simp add: w1_def)
    ultimately show ?case using Cons.IH [of w1] unfolding f by (auto simp only: list.size)
  qed simp
  from this [of "([], h)"] have len: "length (fst (fold (ask decode exec start NewExecClient) asks ([], h))) \<le> length asks"
    and "Ball (set (fst (fold (ask decode exec start NewExecClient) asks ([], h)))) ok" by simp_all
  moreover have "\<exists>cmd. pv = (''/usr/bin/sudo'', [''-n'', ''-u'', ''dokku'', ''/usr/bin/dokku''] @ cmd) \<and> permitted cmd \<and>
      (\<forall>w \<in> set cmd. HasPrefix w ''-'' \<longrightarrow> w \<in> dokku_flags)" if "ok pv" for pv
  proof -
    obtain cmd where "pv = dokku_command NewExecClient cmd" "permitted cmd" using \<open>ok pv\<close> by (auto simp: ok_def)
    moreover have "dokku_command NewExecClient cmd = (''/usr/bin/sudo'', [''-n'', ''-u'', ''dokku'', ''/usr/bin/dokku''] @ cmd)"
      by (simp add: dokku_command_def NewExecClient_def DefaultSudo_def DefaultRunAs_def DefaultDokku_def)
    ultimately show ?thesis using permitted_flags by (auto simp: list_all_iff safe_word_def)
  qed
  ultimately show ?thesis unfolding Let_def by blast
qed

theorem dokku_asked_safely_witness:
  "fst (fold (ask (\<lambda>_. None) (\<lambda>_ _ _ h. (\<lparr>out_err = None, out_stdout = [], out_stderr = []\<rparr>, h))
      (\<lambda>_ _ h. (\<lparr>st_starts = False, st_out = [], st_stderr = [], st_wait = None, st_gone = False\<rparr>, h)) NewExecClient)
      [AskReport ''--all'', AskDomains ''shop''] ([], ())) =
     [(''/usr/bin/sudo'', [''-n'', ''-u'', ''dokku'', ''/usr/bin/dokku'', ''domains:report'', ''shop'', ''--format'', ''json''])] \<and>
   permitted [''domains:report'', ''shop'', ''--format'', ''json'']"
proof -
  define trace where "trace = fst (fold (ask (\<lambda>_. None) (\<lambda>_ _ _ h. (\<lparr>out_err = None, out_stdout = [], out_stderr = []\<rparr>, h))
      (\<lambda>_ _ h. (\<lparr>st_starts = False, st_out = [], st_stderr = [], st_wait = None, st_gone = False\<rparr>, h)) NewExecClient)
      [AskReport ''--all'', AskDomains ''shop''] ([], ()))"
  have "valid_app ''shop''" "\<not> valid_app ''--all''"
    by (simp_all add: valid_app_def appName_def lower_alnum_def is_digit_def Let_def)
  then have t: "trace = [(''/usr/bin/sudo'', [''-n'', ''-u'', ''dokku'', ''/usr/bin/dokku'', ''domains:report'', ''shop'', ''--format'', ''json''])]"
    by (simp add: trace_def ask_def ec_trace [OF prod.collapse [symmetric]] dokku_command_def NewExecClient_def DefaultSudo_def
        DefaultRunAs_def DefaultDokku_def)
  from dokku_asked_safely [of "\<lambda>_. None" "\<lambda>_ _ _ h. (\<lparr>out_err = None, out_stdout = [], out_stderr = []\<rparr>, h)"
      "\<lambda>_ _ h. (\<lparr>st_starts = False, st_out = [], st_stderr = [], st_wait = None, st_gone = False\<rparr>, h)"
      "[AskReport ''--all'', AskDomains ''shop'']" "()", folded trace_def] t
  show ?thesis by (simp add: trace_def Let_def)
qed

section \<open>The two clients agree\<close>

text \<open>
  What Dokku 0.38.7 is recorded to print: a report of processes has a key status-type.index for each
  running container, a list of apps has a header, and domains are words on one line.
\<close>

definition status_keys :: "(string \<times> nat) list \<Rightarrow> string list" where
  "status_keys scale = concat (map (\<lambda>(t, n). map (\<lambda>i. ''status-'' @ t @ ''.'' @ show_nat (Suc i)) [0..<n]) scale)"

definition good_scale :: "(string \<times> nat) list \<Rightarrow> bool" where
  "good_scale scale \<longleftrightarrow> distinct (map fst scale) \<and> (\<forall>(t, n) \<in> set scale. processType t \<and> n > 0)"

definition word :: "string \<Rightarrow> bool" where
  "word w \<longleftrightarrow> w \<noteq> [] \<and> (\<forall>c \<in> set w. \<not> is_space c)"

lemma alnum_plain: "lower_alnum c \<Longrightarrow> \<not> is_space c" "alnum c \<Longrightarrow> \<not> is_space c" "\<not> is_space (CHR ''-'')" "\<not> is_space (CHR ''_'')"
  by (auto simp: lower_alnum_def alnum_def is_digit_def is_space_def Let_def)

lemma processType_word: "processType t \<Longrightarrow> word t"
  by (cases t) (auto simp: processType_def word_def alnum_plain)

lemma valid_app_word: "valid_app app \<Longrightarrow> word app"
  by (cases app) (auto simp: valid_app_def appName_def word_def alnum_plain)

lemma processStatus_key:
  assumes "word t"
  shows "processStatus (''status-'' @ t @ ''.'' @ show_nat n) = Some t"
proof -
  have p: "HasPrefix (''status-'' @ t @ ''.'' @ show_nat n) ''status-''" by (rule HasPrefix_append)
  have d: "drop 7 (''status-'' @ t @ ''.'' @ show_nat n) = t @ ''.'' @ show_nat n" by simp
  have "takeWhile is_digit (rev (t @ ''.'' @ show_nat n)) = rev (show_nat n)"
  proof -
    have "\<not> is_digit (CHR ''.'')" by (simp add: is_digit_def)
    then show ?thesis using show_nat_digits [of n] by (simp add: takeWhile_append)
  qed
  moreover have "rev t \<noteq> []" "CHR 0x0A \<notin> set (rev t)" using assms by (auto simp: word_def is_space_def)
  ultimately show ?thesis using p unfolding processStatus_def d Let_def by simp
qed

lemma count_types_append:
  "fold f (xs @ ys) m = fold f ys (fold f xs m)"
  by simp

definition count_key :: "string \<Rightarrow> (string \<rightharpoonup> nat) \<Rightarrow> (string \<rightharpoonup> nat)" where
  "count_key key types = (case processStatus key of None \<Rightarrow> types
     | Some t \<Rightarrow> types(t \<mapsto> Suc (case types t of None \<Rightarrow> 0 | Some n \<Rightarrow> n)))"

lemma count_types_eq: "count_types keys = fold count_key keys Map.empty"
  by (simp add: count_types_def count_key_def [abs_def])

lemma count_one_type:
  assumes "word t" "types t = None" "n > 0"
  shows "fold count_key (map (\<lambda>i. ''status-'' @ t @ ''.'' @ show_nat (Suc i)) [0..<n]) types = types(t \<mapsto> n)"
  using assms(3)
proof (induction n)
  case (Suc n)
  have k: "count_key (''status-'' @ t @ ''.'' @ show_nat (Suc n)) m = m(t \<mapsto> Suc (case m t of None \<Rightarrow> 0 | Some n \<Rightarrow> n))" for m
    unfolding count_key_def processStatus_key [OF assms(1)] by simp
  show ?case
  proof (cases "n = 0")
    case True
    then show ?thesis using k [of types] assms(2) by simp
  next
    case False
    then have "n > 0" by simp
    then have "fold count_key (map (\<lambda>i. ''status-'' @ t @ ''.'' @ show_nat (Suc i)) [0..<n]) types = types(t \<mapsto> n)"
      by (rule Suc.IH)
    moreover have "count_key (''status-'' @ t @ ''.'' @ show_nat (Suc n)) (types(t \<mapsto> n)) = types(t \<mapsto> Suc n)"
      unfolding k by (rule ext) simp
    ultimately show ?thesis by (simp only: upt_Suc_append [OF le0] map_append fold_append comp_apply list.map fold_simps)
  qed
qed simp

lemma count_scale:
  assumes "good_scale scale" "\<forall>t \<in> set (map fst scale). types t = None"
  shows "fold count_key (status_keys scale) types = types ++ map_of (rev scale)"
  using assms
proof (induction scale arbitrary: types)
  case (Cons tn scale)
  obtain t n where tn: "tn = (t, n)" by fastforce
  have t: "word t" "types t = None" "n > 0" using Cons.prems by (auto simp: tn good_scale_def processType_word)
  have "good_scale scale" "\<forall>t' \<in> set (map fst scale). (types(t \<mapsto> n)) t' = None"
    using Cons.prems by (auto simp: tn good_scale_def)
  from Cons.IH [OF this] have "fold count_key (status_keys scale) (types(t \<mapsto> n)) = (types(t \<mapsto> n)) ++ map_of (rev scale)" .
  moreover have "fold count_key (status_keys (tn # scale)) types = fold count_key (status_keys scale) (types(t \<mapsto> n))"
    using count_one_type [where t = t and types = types and n = n, OF t] by (simp only: tn status_keys_def list.map prod.case concat.simps fold_append comp_apply)
  ultimately show ?case by (simp add: tn map_add_assoc)
qed (simp add: status_keys_def)

lemma other_keys: "\<forall>k \<in> set keys. \<not> HasPrefix k ''status-'' \<Longrightarrow> fold count_key keys types = types"
  by (induction keys) (auto simp: count_key_def processStatus_def)

lemma count_types_report:
  assumes "good_scale scale" "\<forall>k \<in> set others. \<not> HasPrefix k ''status-''"
  shows "count_types (others @ status_keys scale) = map_of scale"
proof -
  have "map_of (rev scale) = map_of scale" using assms(1)
    by (simp add: good_scale_def map_of_inject_set rev_map [symmetric])
  then show ?thesis using count_scale [OF assms(1), of Map.empty] other_keys [OF assms(2)]
    by (simp add: count_types_eq)
qed

lemma Fields_Join:
  "\<forall>w \<in> set ws. word w \<Longrightarrow> Fields (Join ws '' '') = ws"
proof (induction ws rule: induct_list012)
  case (2 w)
  then show ?case by (simp add: word_def Fields_def fields_word [of w "[]" "[]", simplified])
next
  case (3 s t ts)
  have "is_space CHR '' ''" by (simp add: is_space_def)
  with 3 show ?case using Fields_word [of s "CHR '' ''"] by (simp add: word_def)
qed (simp add: Fields_def)

lemma TrimSpace_word: "word w \<Longrightarrow> TrimSpace w = w"
  by (simp add: TrimSpace_def word_def dropWhile_eq_self_iff hd_in_set)
    (metis dropWhile_eq_self_iff hd_in_set rev_rev_ident set_rev)

lemma app_lines_list:
  assumes "\<forall>n \<in> set names. valid_app n"
  shows "app_lines (unlines (''=====> My Apps'' # names)) = names"
proof -
  have newline: "is_space (CHR 0x0A)" by (simp add: is_space_def)
  have nl: "\<forall>l \<in> set (''=====> My Apps'' # names). CHR 0x0A \<notin> set l"
    using assms valid_app_word newline by (fastforce simp: word_def)
  have s: "Split (CHR 0x0A) (unlines (''=====> My Apps'' # names)) = (''=====> My Apps'' # names) @ [[]]"
    using Split_unlines [OF nl, of "[]"] by simp
  have n: "TrimSpace n = n \<and> n \<noteq> [] \<and> \<not> isDokkuNarration n" if "n \<in> set names" for n
  proof -
    have "valid_app n" using assms that by blast
    then obtain c cs where c: "n = c # cs" "lower_alnum c" by (cases n) (auto simp: valid_app_def appName_def)
    then have "\<not> isDokkuNarration n"
      by (auto simp: isDokkuNarration_def HasPrefix_def lower_alnum_def is_digit_def Let_def)
    with \<open>valid_app n\<close> c(1) show ?thesis by (simp add: TrimSpace_word valid_app_word)
  qed
  have "map TrimSpace names = names" using n by (simp add: map_idI)
  moreover have "filter (\<lambda>name. name \<noteq> [] \<and> \<not> isDokkuNarration name) names = names" using n by (simp add: filter_True_conv)
  moreover have "TrimSpace ''=====> My Apps'' = ''=====> My Apps''" "isDokkuNarration ''=====> My Apps''"
    by (simp_all add: TrimSpace_def is_space_def isDokkuNarration_def HasPrefix_def)
  ultimately show ?thesis unfolding app_lines_def s by (simp add: TrimSpace_def)
qed

text \<open>What a command prints on success, on a host where the client is the one of NewExecClient.\<close>

definition prints :: "'h exec \<Rightarrow> 'h \<Rightarrow> string list \<Rightarrow> string \<Rightarrow> bool" where
  "prints exec h args out \<longleftrightarrow> (\<forall>t. let r = fst (exec t ''/usr/bin/sudo'' ([''-n'', ''-u'', ''dokku'', ''/usr/bin/dokku''] @ args) h)
     in out_err r = None \<and> out_stdout r = out)"

definition refuses :: "'h exec \<Rightarrow> 'h \<Rightarrow> string list \<Rightarrow> bool" where
  "refuses exec h args \<longleftrightarrow>
     (\<forall>t. out_err (fst (exec t ''/usr/bin/sudo'' ([''-n'', ''-u'', ''dokku'', ''/usr/bin/dokku''] @ args) h)) \<noteq> None)"

definition processes_of :: "Fake_Dokku \<Rightarrow> string \<Rightarrow> string \<rightharpoonup> nat" where
  "processes_of f app = (case fd_processTypes f app of None \<Rightarrow> Map.empty | Some t \<Rightarrow> t)"

definition domains_of :: "Fake_Dokku \<Rightarrow> string \<Rightarrow> string list" where
  "domains_of f app = (case fd_domains f app of None \<Rightarrow> [] | Some d \<Rightarrow> d)"

text \<open>A host whose Dokku has the apps of f, as Dokku is recorded to print them.\<close>

definition dokku_has :: "(string \<Rightarrow> report option) \<Rightarrow> 'h exec \<Rightarrow> 'h \<Rightarrow> Fake_Dokku \<Rightarrow> string \<Rightarrow> report \<Rightarrow> bool" where
  "dokku_has decode exec h f app r \<longleftrightarrow>
     (\<exists>out. prints exec h [''apps:report'', app, ''--format'', ''json''] out \<and> decode out = Some r) \<and>
     (\<exists>out vals others scale. prints exec h [''ps:report'', app, ''--format'', ''json''] out \<and> decode out = Some vals \<and>
        map fst vals = others @ status_keys scale \<and> good_scale scale \<and>
        (\<forall>k \<in> set others. \<not> HasPrefix k ''status-'') \<and> processes_of f app = map_of scale) \<and>
     (\<exists>out vals. prints exec h [''domains:report'', app, ''--format'', ''json''] out \<and> decode out = Some vals \<and>
        map_of vals ''app-vhosts'' = Some (Join (domains_of f app) '' '') \<and> (\<forall>d \<in> set (domains_of f app). word d))"

definition dokku_is :: "(string \<Rightarrow> report option) \<Rightarrow> 'h exec \<Rightarrow> 'h \<Rightarrow> Fake_Dokku \<Rightarrow> bool" where
  "dokku_is decode exec h f \<longleftrightarrow> fd_Err f = None \<and> (\<forall>name \<in> set (map fst (fd_apps f)). valid_app name) \<and>
     word (fd_DokkuVersion f) \<and>
     prints exec h [''version''] (''dokku version '' @ fd_DokkuVersion f @ [CHR 0x0A]) \<and>
     prints exec h [''apps:list''] (unlines (''=====> My Apps'' # sort (map fst (fd_apps f)))) \<and>
     (\<forall>app. valid_app app \<longrightarrow> (case map_of (fd_apps f) app of
         Some r \<Rightarrow> dokku_has decode exec h f app r
       | None \<Rightarrow> refuses exec h [''apps:report'', app, ''--format'', ''json''] \<and>
           refuses exec h [''ps:report'', app, ''--format'', ''json''] \<and>
           refuses exec h [''domains:report'', app, ''--format'', ''json'']))"

text \<open>Two answers are the same one, or two refusals.\<close>

definition agree :: "('e + 'a) \<times> 'h \<Rightarrow> ('e + 'a) \<times> 's \<Rightarrow> bool" where
  "agree r r' \<longleftrightarrow> (if is_ok (fst r') then fst r = fst r' else \<not> is_ok (fst r))"

lemma dokku_run_prints:
  "prints exec h args out \<Longrightarrow> fst (dokku_run exec NewExecClient args h) = Inr out"
  by (simp add: prints_def dokku_run_def dokku_command_def NewExecClient_def DefaultSudo_def DefaultRunAs_def
      DefaultDokku_def Let_def split_beta)

lemma dokku_run_refuses:
  assumes "refuses exec h args"
  shows "\<not> is_ok (fst (dokku_run exec NewExecClient args h))"
  using assms
  by (auto simp: refuses_def dokku_run_def dokku_command_def NewExecClient_def DefaultSudo_def DefaultRunAs_def
      DefaultDokku_def Let_def split_beta split: option.splits)

lemma fst_runJSON:
  "fst (runJSON decode exec c args h :: ('e dokku_error + report) \<times> 'h) =
     (case fst (dokku_run exec c (args @ [''--format'', ''json'']) h :: ('e dokku_error + string) \<times> 'h) of
        Inl err \<Rightarrow> Inl err | Inr out \<Rightarrow> (case decode out of None \<Rightarrow> Inl (BadReport args) | Some r \<Rightarrow> Inr r))"
  by (auto simp: runJSON_def split: prod.splits sum.splits)

lemma runJSON_prints:
  "prints exec h (args @ [''--format'', ''json'']) out \<Longrightarrow> decode out = Some r \<Longrightarrow> fst (runJSON decode exec NewExecClient args h) = Inr r"
  by (simp add: fst_runJSON dokku_run_prints)

lemma runJSON_refuses:
  "refuses exec h (args @ [''--format'', ''json'']) \<Longrightarrow>
    \<not> is_ok (fst (runJSON decode exec NewExecClient args h :: ('e dokku_error + report) \<times> 'h))"
  using dokku_run_refuses [of exec h "args @ [''--format'', ''json'']", where 'b = 'e]
  by (auto simp: fst_runJSON not_is_ok_iff)

lemma fst_ec:
  "fst (ec_Version exec c h :: ('e dokku_error + string) \<times> 'h) =
     (case fst (dokku_run exec c [''version''] h :: ('e dokku_error + string) \<times> 'h) of
        Inl err \<Rightarrow> Inl err | Inr out \<Rightarrow> Inr (TrimPrefix (TrimSpace out) ''dokku version ''))"
  "fst (ec_Apps exec c h :: ('e dokku_error + string list) \<times> 'h) =
     (case fst (dokku_run exec c [''apps:list''] h :: ('e dokku_error + string) \<times> 'h) of
        Inl err \<Rightarrow> Inl err | Inr out \<Rightarrow> Inr (app_lines out))"
  by (simp_all add: ec_Version_def ec_Apps_def split: prod.splits sum.splits)

text \<open>What an operation that takes an app answers, from its report.\<close>

lemma ask_agrees:
  fixes exec :: "'h exec" and h :: 'h and ecop :: "'h \<Rightarrow> ('e dokku_error + 'a) \<times> 'h"
  assumes "fd_Err f = None"
    and ec: "\<And>x. ValidateAppName app = (Inr x :: 'e dokku_error + unit) \<Longrightarrow> fst (ecop h) = (case fst (runJSON decode exec NewExecClient [command, app] h) of Inl e \<Rightarrow> Inl e | Inr r \<Rightarrow> Inr (read r))"
      "\<And>err. ValidateAppName app = Inl err \<Longrightarrow> fst (ecop h) = Inl err"
    and known: "\<And>r. valid_app app \<Longrightarrow> map_of (fd_apps f) app = Some r \<Longrightarrow>
      \<exists>out vals. prints exec h [command, app, ''--format'', ''json''] out \<and> decode out = Some vals \<and> read vals = answer f"
    and unknown: "valid_app app \<Longrightarrow> map_of (fd_apps f) app = None \<Longrightarrow> refuses exec h [command, app, ''--format'', ''json'']"
    and answer: "\<And>c. answer (f\<lparr>fd_Calls := c\<rparr>) = answer f"
  shows "agree (ecop h) (fd_ask command answer app f)"
proof (cases "ValidateAppName app :: 'e dokku_error + unit")
  case (Inl err)
  then show ?thesis using ec(2) [OF Inl] by (simp add: agree_def fd_ask_def)
next
  case (Inr x)
  then have v: "valid_app app" by (rule Inr_valid)
  show ?thesis
  proof (cases "map_of (fd_apps f) app")
    case None
    have "\<not> is_ok (fst (runJSON decode exec NewExecClient [command, app] h :: ('e dokku_error + report) \<times> 'h))"
      using runJSON_refuses [of exec h "[command, app]" decode] unknown [OF v None] by simp
    then show ?thesis using ec(1) [OF Inr] assms(1) None v
      by (auto simp: agree_def fd_ask_def fd_record_def is_ok_iff not_is_ok_iff split: sum.splits)
  next
    case (Some r)
    obtain out vals where o: "prints exec h [command, app, ''--format'', ''json''] out" "decode out = Some vals" "read vals = answer f"
      using known [OF v Some] by blast
    have "fst (runJSON decode exec NewExecClient [command, app] h :: ('e dokku_error + report) \<times> 'h) = Inr vals"
      using runJSON_prints [of exec h "[command, app]" out decode vals] o(1,2) by simp
    then show ?thesis using ec(1) [OF Inr] assms(1) Some v o(3) answer
      by (auto simp: agree_def fd_ask_def fd_record_def)
  qed
qed

lemma TrimSpace_line:
  assumes "x \<noteq> []" "\<not> is_space (hd x)" "\<not> is_space (last x)" "is_space sp"
  shows "TrimSpace (x @ [sp]) = x"
proof -
  have "dropWhile is_space (x @ [sp]) = x @ [sp]" using assms(1,2) by (cases x) auto
  moreover have "dropWhile is_space (rev x) = rev x"
    using assms(1,3) by (simp add: dropWhile_eq_self_iff hd_rev)
  ultimately show ?thesis using assms(4) by (simp add: TrimSpace_def)
qed

text \<open>
  C21: The client that runs Dokku and the one the tests of the rest use are the same client. On a host
  whose Dokku has the apps, processes and domains of the in-memory one, and prints them as Dokku
  does, every operation gives the same answer on both, and is refused by both or by neither: reading
  what Dokku prints loses nothing and makes nothing up.
\<close>

theorem clients_agree:
  assumes "dokku_is decode exec h f"
  shows "agree (ec_Version exec NewExecClient h) (fd_Version f) \<and>
    agree (ec_Apps exec NewExecClient h) (fd_Apps f) \<and>
    agree (ec_AppReport decode exec NewExecClient app h) (fd_AppReport app f) \<and>
    agree (ec_ProcessTypes decode exec NewExecClient app h) (fd_ProcessTypes app f) \<and>
    agree (ec_Domains decode exec NewExecClient app h) (fd_Domains app f)"
proof -
  have D: "fd_Err f = None" "\<forall>name \<in> set (map fst (fd_apps f)). valid_app name" "word (fd_DokkuVersion f)"
    "prints exec h [''version''] (''dokku version '' @ fd_DokkuVersion f @ [CHR 0x0A])"
    "prints exec h [''apps:list''] (unlines (''=====> My Apps'' # sort (map fst (fd_apps f))))"
    and known: "\<And>r. valid_app app \<Longrightarrow> map_of (fd_apps f) app = Some r \<Longrightarrow> dokku_has decode exec h f app r"
    and unknown: "valid_app app \<Longrightarrow> map_of (fd_apps f) app = None \<Longrightarrow>
      refuses exec h [''apps:report'', app, ''--format'', ''json''] \<and> refuses exec h [''ps:report'', app, ''--format'', ''json''] \<and>
      refuses exec h [''domains:report'', app, ''--format'', ''json'']"
    using assms unfolding dokku_is_def by (auto split: option.splits)
  have "agree (ec_Version exec NewExecClient h) (fd_Version f)"
  proof -
    have "TrimSpace (''dokku version '' @ fd_DokkuVersion f @ [CHR 0x0A]) = ''dokku version '' @ fd_DokkuVersion f"
      using D(3) TrimSpace_line [of "''dokku version '' @ fd_DokkuVersion f" "CHR 0x0A"]
      by (auto simp: word_def is_space_def)
    moreover have "TrimPrefix (''dokku version '' @ v) ''dokku version '' = v" for v
      by (simp add: TrimPrefix_def HasPrefix_def)
    ultimately show ?thesis using D(1)
      by (simp only: agree_def fst_ec dokku_run_prints [OF D(4)]) (simp add: fd_Version_def fd_record_def)
  qed
  moreover have "agree (ec_Apps exec NewExecClient h) (fd_Apps f)"
    using D(1,2) app_lines_list [of "sort (map fst (fd_apps f))"]
    by (simp only: agree_def fst_ec dokku_run_prints [OF D(5)]) (simp add: fd_Apps_def fd_record_def)
  moreover have "agree (ec_AppReport decode exec NewExecClient app h) (fd_AppReport app f)"
    unfolding fd_AppReport_def
    by (rule ask_agrees [where read = id and decode = decode and exec = exec])
      (use D(1) known unknown in \<open>auto simp: ec_AppReport_def dokku_has_def split: sum.splits\<close>)
  moreover have "agree (ec_ProcessTypes decode exec NewExecClient app h) (fd_ProcessTypes app f)"
    unfolding fd_ProcessTypes_def
    by (rule ask_agrees [where read = "\<lambda>r. count_types (map fst r)" and decode = decode and exec = exec])
      (use D(1) known unknown in \<open>auto simp: ec_ProcessTypes_def dokku_has_def processes_of_def count_types_report split: sum.splits prod.splits\<close>)
  moreover have "agree (ec_Domains decode exec NewExecClient app h) (fd_Domains app f)"
    unfolding fd_Domains_def
    by (rule ask_agrees [where read = "\<lambda>r. Fields (case map_of r ''app-vhosts'' of None \<Rightarrow> [] | Some v \<Rightarrow> v)" and decode = decode and exec = exec])
      (use D(1) known unknown in \<open>auto simp: ec_Domains_def dokku_has_def domains_of_def Fields_Join split: sum.splits prod.splits\<close>)
  ultimately show ?thesis by blast
qed

text \<open>A Dokku with one app, of one process and one domain.\<close>

definition demo_fake :: Fake_Dokku where
  "demo_fake = SetDomains ''shop'' [''shop.example''] (SetProcessTypes ''shop'' [''web'' \<mapsto> 1] (AddApp ''shop'' [] NewFake))"

definition demo_exec :: "unit exec" where
  "demo_exec t program vector h = (let args = drop 4 vector; ok = (\<lambda>out. \<lparr>out_err = None, out_stdout = out, out_stderr = []\<rparr>) in
     (if args = [''version''] then ok (''dokku version 0.38.7'' @ [CHR 0x0A])
      else if args = [''apps:list''] then ok (unlines [''=====> My Apps'', ''shop''])
      else if args ! 1 = ''shop'' then ok (hd args)
      else \<lparr>out_err = Some (ExitError 20), out_stdout = [], out_stderr = ''does not exist''\<rparr>, h))"

definition demo_decode :: "string \<Rightarrow> report option" where
  "demo_decode out = Some (if out = ''ps:report'' then [(''status-web.1'', ''running'')]
     else if out = ''domains:report'' then [(''app-vhosts'', ''shop.example'')] else [])"

lemma demo_dokku_is: "dokku_is demo_decode demo_exec () demo_fake"
proof -
  have f: "fd_apps demo_fake = [(''shop'', [])]" "fd_DokkuVersion demo_fake = ''0.38.7''" "fd_Err demo_fake = None"
    "processes_of demo_fake ''shop'' = map_of [(''web'', 1)]" "domains_of demo_fake ''shop'' = [''shop.example'']"
    by (simp_all add: demo_fake_def SetDomains_def SetProcessTypes_def AddApp_def NewFake_def fd_ensure_def Let_def
        processes_of_def domains_of_def)
  have v: "valid_app ''shop''" by (simp add: valid_app_def appName_def lower_alnum_def is_digit_def Let_def)
  have p: "prints demo_exec () [''version''] (''dokku version 0.38.7'' @ [CHR 0x0A])"
    "prints demo_exec () [''apps:list''] (unlines [''=====> My Apps'', ''shop''])"
    "prints demo_exec () [''apps:report'', ''shop'', ''--format'', ''json''] ''apps:report''"
    "prints demo_exec () [''ps:report'', ''shop'', ''--format'', ''json''] ''ps:report''"
    "prints demo_exec () [''domains:report'', ''shop'', ''--format'', ''json''] ''domains:report''"
    by (simp_all add: prints_def demo_exec_def Let_def)
  have "dokku_has demo_decode demo_exec () demo_fake ''shop'' []"
    unfolding dokku_has_def
  proof (intro conjI)
    show "\<exists>out. prints demo_exec () [''apps:report'', ''shop'', ''--format'', ''json''] out \<and> demo_decode out = Some []"
      by (rule exI, rule conjI, rule p) (simp add: demo_decode_def)
    have k: "status_keys [(''web'', 1)] = [''status-web.1'']"
      by (simp add: status_keys_def show_nat.simps digit_char_def char_eval)
    have g: "good_scale [(''web'', 1)]"
      by (simp add: good_scale_def processType_def alnum_def lower_alnum_def is_digit_def Let_def)
    show "\<exists>out vals others scale. prints demo_exec () [''ps:report'', ''shop'', ''--format'', ''json''] out \<and> demo_decode out = Some vals \<and>
        map fst vals = others @ status_keys scale \<and> good_scale scale \<and>
        (\<forall>k \<in> set others. \<not> HasPrefix k ''status-'') \<and> processes_of demo_fake ''shop'' = map_of scale"
      by (intro exI [of _ "''ps:report''"] exI [of _ "[(''status-web.1'', ''running'')]"] exI [of _ "[] :: string list"] exI [of _ "[(''web'', 1)]"])
        (simp add: p k [simplified] g [simplified] f demo_decode_def)
    show "\<exists>out vals. prints demo_exec () [''domains:report'', ''shop'', ''--format'', ''json''] out \<and> demo_decode out = Some vals \<and>
        map_of vals ''app-vhosts'' = Some (Join (domains_of demo_fake ''shop'') '' '') \<and> (\<forall>d \<in> set (domains_of demo_fake ''shop''). word d)"
      by (intro exI [of _ "''domains:report''"] exI [of _ "[(''app-vhosts'', ''shop.example'')]"])
        (simp add: p f demo_decode_def word_def is_space_def)
  qed
  moreover have "refuses demo_exec () [c, app, ''--format'', ''json'']" if "app \<noteq> ''shop''" "c \<noteq> ''version''" for c app
    using that by (simp add: refuses_def demo_exec_def Let_def)
  ultimately show ?thesis using p v unfolding dokku_is_def f by (simp add: word_def is_space_def)
qed

theorem clients_agree_witness:
  "agree (ec_ProcessTypes demo_decode demo_exec NewExecClient ''shop'' ()) (fd_ProcessTypes ''shop'' demo_fake) \<and>
   agree (ec_Apps demo_exec NewExecClient ()) (fd_Apps demo_fake)"
  using clients_agree [OF demo_dokku_is] by blast

section \<open>What is kept of standard error\<close>

text \<open>
  The capped buffer keeps the end. After any writes, in whatever pieces, what a buffer of a given
  limit holds is the last limit bytes of all that was written, and every write is accepted whole.
\<close>

theorem capped_buffer_keeps_the_end:
  "cb_buf (fold (\<lambda>p b. snd (cb_Write p b)) ps \<lparr>cb_limit = n, cb_buf = []\<rparr>) =
     drop (length (concat ps) - n) (concat ps) \<and>
   fst (cb_Write p b) = length p"
proof -
  have "cb_buf (fold (\<lambda>p b. snd (cb_Write p b)) ps \<lparr>cb_limit = n, cb_buf = drop (length s - n) s\<rparr>) =
     drop (length (s @ concat ps) - n) (s @ concat ps)" for s
  proof (induction ps arbitrary: s)
    case (Cons p ps)
    have "snd (cb_Write p \<lparr>cb_limit = n, cb_buf = drop (length s - n) s\<rparr>) =
        \<lparr>cb_limit = n, cb_buf = drop (length (s @ p) - n) (s @ p)\<rparr>"
    proof (cases "n < length (drop (length s - n) s @ p)")
      case False
      then have "length s - n = length s + length p - n" by (simp; arith)
      then show ?thesis using False by (simp add: cb_Write_def Let_def)
    qed (auto simp: cb_Write_def Let_def nat_diff_distrib nat_int_add)
    then show ?case using Cons.IH [of "s @ p"] by simp
  qed simp
  from this [of "[]"] show ?thesis by (simp add: cb_Write_def Let_def)
qed

end
