(* ===== verification/Host.thy ===== *)
theory Host
  imports Release Dokku "HOL-Library.AList"
begin

text \<open>
  internal/host: the seam through which dokkup drives the programs that own a host's identities and
  its proxy. A machine is its files and directories, and the rest of the host, on which programs act;
  programs read files and do not write dokkup's. The seam Ops is a record of functions, as the Go
  interface is; tools.go and fake.go are two values of it.
\<close>

section \<open>Machines\<close>

record world =
  w_files :: fs
  w_dirs :: "string \<rightharpoonup> nat"    \<comment> \<open>directories and their modes\<close>

type_synonym 'h machine = "world \<times> 'h"

definition put_file :: "string \<Rightarrow> host_file \<Rightarrow> 'h machine \<Rightarrow> 'h machine" where
  "put_file p f m = ((fst m)\<lparr>w_files := (w_files (fst m))(p \<mapsto> f)\<rparr>, snd m)"

definition del_file :: "string \<Rightarrow> 'h machine \<Rightarrow> 'h machine" where
  "del_file p m = ((fst m)\<lparr>w_files := (w_files (fst m))(p := None)\<rparr>, snd m)"

definition put_dir :: "string \<Rightarrow> nat \<Rightarrow> 'h machine \<Rightarrow> 'h machine" where
  "put_dir p mode m = ((fst m)\<lparr>w_dirs := (w_dirs (fst m))(p \<mapsto> mode)\<rparr>, snd m)"

abbreviation file_at :: "'h machine \<Rightarrow> string \<Rightarrow> host_file option" where
  "file_at m \<equiv> w_files (fst m)"

abbreviation dir_at :: "'h machine \<Rightarrow> string \<Rightarrow> nat option" where
  "dir_at m \<equiv> w_dirs (fst m)"

lemma machine_simps [simp]:
  "file_at (put_file p f m) = (file_at m)(p \<mapsto> f)" "dir_at (put_file p f m) = dir_at m" "snd (put_file p f m) = snd m"
  "file_at (del_file p m) = (file_at m)(p := None)" "dir_at (del_file p m) = dir_at m" "snd (del_file p m) = snd m"
  "file_at (put_dir p mode m) = file_at m" "dir_at (put_dir p mode m) = (dir_at m)(p \<mapsto> mode)" "snd (put_dir p mode m) = snd m"
  by (simp_all add: put_file_def del_file_def put_dir_def)

text \<open>filepath.Dir and filepath.Base of a clean absolute path of at least two parts.\<close>

definition path_base :: "string \<Rightarrow> string" where
  "path_base p = rev (takeWhile ((\<noteq>) (CHR ''/'')) (rev p))"

definition path_dir :: "string \<Rightarrow> string" where
  "path_dir p = rev (tl (dropWhile ((\<noteq>) (CHR ''/'')) (rev p)))"

section \<open>The seam (host.go)\<close>

definition Groupadd :: string where "Groupadd = ''/usr/sbin/groupadd''"
definition Useradd :: string where "Useradd = ''/usr/sbin/useradd''"
definition Usermod :: string where "Usermod = ''/usr/sbin/usermod''"
definition Userdel :: string where "Userdel = ''/usr/sbin/userdel''"
definition Groupdel :: string where "Groupdel = ''/usr/sbin/groupdel''"
definition Visudo :: string where "Visudo = ''/usr/sbin/visudo''"
definition Runuser :: string where "Runuser = ''/usr/sbin/runuser''"
definition Sudo :: string where "Sudo = ''/usr/bin/sudo''"
definition Nginx :: string where "Nginx = ''/usr/sbin/nginx''"
definition Nologin :: string where "Nologin = ''/usr/sbin/nologin''"

record Account =
  ac_Name :: string
  ac_Uid :: int
  ac_Gid :: int

record UserSpec =
  us_Name :: string
  us_Group :: string
  us_Shell :: string
  us_Home :: string

datatype host_error =
    ErrNoSuchUser string
  | ErrNoSuchGroup string
  | ErrUserBusy
  | ErrSudoRefused
  | HostCommand "string list" string run_error
  | LookupFailed
  | BadAccount string
  | FileCall string string      \<comment> \<open>which call, on which path\<close>
  | RuleRefused
  | ToldToFail string

record 'h Ops =
  LookupUser :: "string \<Rightarrow> 'h machine \<Rightarrow> (host_error + Account) \<times> 'h machine"
  LookupGroup :: "string \<Rightarrow> 'h machine \<Rightarrow> (host_error + Account) \<times> 'h machine"
  EnsureGroup :: "string \<Rightarrow> 'h machine \<Rightarrow> (host_error + unit) \<times> 'h machine"
  EnsureUser :: "UserSpec \<Rightarrow> 'h machine \<Rightarrow> (bool \<times> host_error option) \<times> 'h machine"
  JoinGroup :: "string \<Rightarrow> string \<Rightarrow> 'h machine \<Rightarrow> (host_error + unit) \<times> 'h machine"
  EnsureDir :: "string \<Rightarrow> nat \<Rightarrow> Account \<Rightarrow> 'h machine \<Rightarrow> (host_error + unit) \<times> 'h machine"
  WriteSudoers :: "string \<Rightarrow> string \<Rightarrow> 'h machine \<Rightarrow> (host_error + unit) \<times> 'h machine"
  ProveSudo :: "string \<Rightarrow> string \<Rightarrow> string \<Rightarrow> string list \<Rightarrow> 'h machine \<Rightarrow> (host_error + unit) \<times> 'h machine"
  RemoveUser :: "string \<Rightarrow> 'h machine \<Rightarrow> (host_error + bool) \<times> 'h machine"
  RemoveGroup :: "string \<Rightarrow> 'h machine \<Rightarrow> (host_error + bool) \<times> 'h machine"
  CheckProxy :: "'h machine \<Rightarrow> (host_error + unit) \<times> 'h machine"
  CheckProxyFragment :: "string \<Rightarrow> 'h machine \<Rightarrow> (host_error + unit) \<times> 'h machine"

section \<open>The host's own programs (tools.go)\<close>

record Tools =
  tl_Bin :: "string \<rightharpoonup> string"
  tl_Timeout :: int

definition NewTools :: Tools where
  "NewTools = \<lparr>tl_Bin = Map.empty, tl_Timeout = defaultTimeout\<rparr>"

text \<open>
  What tools.go rests on: running a program, which sees the files; the passwd and group databases as
  os/user reads them; which calls on files work; and whether the process is root.
\<close>

datatype lookup = Unknown | Unreadable_db | Entry string string string

record 'h tools_env =
  te_exec :: "int \<Rightarrow> string \<Rightarrow> string list \<Rightarrow> world \<Rightarrow> 'h \<Rightarrow> completed \<times> 'h"
  te_user :: "string \<Rightarrow> 'h \<Rightarrow> lookup"
  te_group :: "string \<Rightarrow> 'h \<Rightarrow> lookup"
  te_works :: "string \<Rightarrow> string \<Rightarrow> bool"
  te_root :: bool

definition tl_path :: "Tools \<Rightarrow> string \<Rightarrow> string" where
  "tl_path t program = (case tl_Bin t program of Some override \<Rightarrow> override | None \<Rightarrow> program)"

definition tl_run :: "'h tools_env \<Rightarrow> Tools \<Rightarrow> string \<Rightarrow> string list \<Rightarrow> 'h machine \<Rightarrow> (host_error + unit) \<times> 'h machine" where
  "tl_run e t program args m =
     (let timeout = (if tl_Timeout t \<le> 0 then defaultTimeout else tl_Timeout t);
          path = tl_path t program;
          (r, h) = te_exec e timeout path args (fst m) (snd m)
      in (case out_err r of None \<Rightarrow> Inr () | Some err \<Rightarrow> Inl (HostCommand (path # args) (TrimSpace (out_stderr r)) err), fst m, h))"

definition exitStatus :: "host_error \<Rightarrow> int" where
  "exitStatus err = (case err of HostCommand _ _ (ExitError n) \<Rightarrow> n | _ \<Rightarrow> -1)"

definition account :: "string \<Rightarrow> string \<Rightarrow> string \<Rightarrow> host_error + Account" where
  "account name uid gid = (case Atoi uid of None \<Rightarrow> Inl (BadAccount name)
     | Some n \<Rightarrow> (case Atoi gid of None \<Rightarrow> Inl (BadAccount name) | Some g \<Rightarrow> Inr \<lparr>ac_Name = name, ac_Uid = n, ac_Gid = g\<rparr>))"

definition tl_LookupUser :: "'h tools_env \<Rightarrow> string \<Rightarrow> 'h machine \<Rightarrow> (host_error + Account) \<times> 'h machine" where
  "tl_LookupUser e name m = (case te_user e name (snd m) of
       Unknown \<Rightarrow> Inl (ErrNoSuchUser name) | Unreadable_db \<Rightarrow> Inl LookupFailed
     | Entry n uid gid \<Rightarrow> account n uid gid, m)"

definition tl_LookupGroup :: "'h tools_env \<Rightarrow> string \<Rightarrow> 'h machine \<Rightarrow> (host_error + Account) \<times> 'h machine" where
  "tl_LookupGroup e name m = (case te_group e name (snd m) of
       Unknown \<Rightarrow> Inl (ErrNoSuchGroup name) | Unreadable_db \<Rightarrow> Inl LookupFailed
     | Entry n _ gid \<Rightarrow> (case Atoi gid of None \<Rightarrow> Inl (BadAccount name)
         | Some g \<Rightarrow> Inr \<lparr>ac_Name = n, ac_Uid = -1, ac_Gid = g\<rparr>), m)"

definition tl_EnsureGroup :: "'h tools_env \<Rightarrow> Tools \<Rightarrow> string \<Rightarrow> 'h machine \<Rightarrow> (host_error + unit) \<times> 'h machine" where
  "tl_EnsureGroup e t name m = tl_run e t Groupadd [''-f'', ''--system'', name] m"

definition tl_Usermod :: "'h tools_env \<Rightarrow> Tools \<Rightarrow> UserSpec \<Rightarrow> bool \<Rightarrow> 'h machine \<Rightarrow> (bool \<times> host_error option) \<times> 'h machine" where
  "tl_Usermod e t spec created m =
     (case tl_run e t Usermod [''--shell'', us_Shell spec, ''--home'', us_Home spec, us_Name spec] m of
        (Inl err, m) \<Rightarrow> ((created, Some err), m) | (Inr _, m) \<Rightarrow> ((created, None), m))"

definition tl_EnsureUser :: "'h tools_env \<Rightarrow> Tools \<Rightarrow> UserSpec \<Rightarrow> 'h machine \<Rightarrow> (bool \<times> host_error option) \<times> 'h machine" where
  "tl_EnsureUser e t spec m =
     (case tl_LookupUser e (us_Name spec) m of
        (Inr _, m) \<Rightarrow> tl_Usermod e t spec False m
      | (Inl err, m) \<Rightarrow>
        if err \<noteq> ErrNoSuchUser (us_Name spec) then ((False, Some err), m)
        else (case tl_run e t Useradd [''--system'', ''--gid'', us_Group spec, ''--shell'', us_Shell spec,
                  ''--home-dir'', us_Home spec, ''--no-create-home'', us_Name spec] m of
            (Inr _, m) \<Rightarrow> tl_Usermod e t spec True m
          | (Inl err, m) \<Rightarrow> if exitStatus err = 9 then tl_Usermod e t spec False m else ((False, Some err), m)))"

definition tl_JoinGroup :: "'h tools_env \<Rightarrow> Tools \<Rightarrow> string \<Rightarrow> string \<Rightarrow> 'h machine \<Rightarrow> (host_error + unit) \<times> 'h machine" where
  "tl_JoinGroup e t user grp m =
     (case tl_run e t Usermod [''-aG'', grp, user] m of
        (Inl err, m) \<Rightarrow> (Inl (if exitStatus err = 6 then ErrNoSuchGroup grp else err), m)
      | (Inr _, m) \<Rightarrow> (Inr (), m))"

text \<open>MkdirAll, then the mode and the owner, each of which may fail.\<close>

definition MkdirAll :: "string \<Rightarrow> nat \<Rightarrow> 'h machine \<Rightarrow> 'h machine" where
  "MkdirAll p mode m = (case dir_at m p of Some _ \<Rightarrow> m | None \<Rightarrow> put_dir p mode m)"

definition tl_EnsureDir :: "'h tools_env \<Rightarrow> string \<Rightarrow> nat \<Rightarrow> Account \<Rightarrow> 'h machine \<Rightarrow> (host_error + unit) \<times> 'h machine" where
  "tl_EnsureDir e p mode owner m =
     (if \<not> te_works e ''mkdir'' p then (Inl (FileCall ''mkdir'' p), m)
      else let m = MkdirAll p mode m in
        if \<not> te_works e ''chmod'' p then (Inl (FileCall ''chmod'' p), m)
        else let m = put_dir p mode m in
          if \<not> te_works e ''chown'' p then (Inl (FileCall ''chown'' p), m)
          else (Inr (), m))"

definition sudoers_staging :: "string \<Rightarrow> string" where
  "sudoers_staging p = path_dir p @ ''/'' @ ''.'' @ path_base p @ ''.tmp''"

definition tl_WriteSudoers :: "'h tools_env \<Rightarrow> Tools \<Rightarrow> string \<Rightarrow> string \<Rightarrow> 'h machine \<Rightarrow> (host_error + unit) \<times> 'h machine" where
  "tl_WriteSudoers e t p rule m =
     (let staging = sudoers_staging p; staged = \<lparr>f_data = rule, f_mode = 288\<rparr> in
      if \<not> te_works e ''write'' staging then (Inl (FileCall ''write'' staging), m)
      else let m = put_file staging staged m in
        if \<not> te_works e ''chmod'' staging then (Inl (FileCall ''chmod'' staging), del_file staging m)
        else if te_root e \<and> \<not> te_works e ''chown'' staging then (Inl (FileCall ''chown'' staging), del_file staging m)
        else (case tl_run e t Visudo [''-cf'', staging] m of
            (Inl _, m) \<Rightarrow> (Inl RuleRefused, del_file staging m)
          | (Inr _, m) \<Rightarrow>
            if \<not> te_works e ''rename'' staging then (Inl (FileCall ''rename'' p), del_file staging m)
            else (Inr (), put_file p staged (del_file staging m))))"

definition tl_ProveSudo :: "'h tools_env \<Rightarrow> Tools \<Rightarrow> string \<Rightarrow> string \<Rightarrow> string \<Rightarrow> string list \<Rightarrow> 'h machine
    \<Rightarrow> (host_error + unit) \<times> 'h machine" where
  "tl_ProveSudo e t user runAs program args m =
     (case tl_run e t Runuser ([''-u'', user, ''--'', tl_path t Sudo, ''-n'', ''-u'', runAs, program] @ args) m of
        (Inl _, m) \<Rightarrow> (Inl ErrSudoRefused, m) | (Inr _, m) \<Rightarrow> (Inr (), m))"

definition tl_RemoveUser :: "'h tools_env \<Rightarrow> Tools \<Rightarrow> string \<Rightarrow> 'h machine \<Rightarrow> (host_error + bool) \<times> 'h machine" where
  "tl_RemoveUser e t name m =
     (case tl_run e t Userdel [name] m of
        (Inr _, m) \<Rightarrow> (Inr True, m)
      | (Inl err, m) \<Rightarrow> (if exitStatus err = 6 then Inr False else if exitStatus err = 8 then Inl ErrUserBusy else Inl err, m))"

definition tl_RemoveGroup :: "'h tools_env \<Rightarrow> Tools \<Rightarrow> string \<Rightarrow> 'h machine \<Rightarrow> (host_error + bool) \<times> 'h machine" where
  "tl_RemoveGroup e t name m =
     (case tl_run e t Groupdel [name] m of
        (Inr _, m) \<Rightarrow> (Inr True, m)
      | (Inl err, m) \<Rightarrow> (if exitStatus err = 6 then Inr False else Inl err, m))"

definition tl_CheckProxy :: "'h tools_env \<Rightarrow> Tools \<Rightarrow> 'h machine \<Rightarrow> (host_error + unit) \<times> 'h machine" where
  "tl_CheckProxy e t m = tl_run e t Nginx [''-t''] m"

definition wrapperConfig :: "string \<Rightarrow> string" where
  "wrapperConfig p = ''events { worker_connections 32; }'' @ [CHR 0x0A] @
     ''http { access_log off; error_log /dev/null; include '' @ p @ ''; }'' @ [CHR 0x0A]"

definition tl_CheckProxyFragment :: "'h tools_env \<Rightarrow> Tools \<Rightarrow> string \<Rightarrow> 'h machine \<Rightarrow> (host_error + unit) \<times> 'h machine" where
  "tl_CheckProxyFragment e t p m =
     (let wrapper = p @ ''.wrapper'' in
      if \<not> te_works e ''write'' wrapper then (Inl (FileCall ''write'' wrapper), m)
      else let (r, m) = tl_run e t Nginx [''-t'', ''-c'', wrapper] (put_file wrapper \<lparr>f_data = wrapperConfig p, f_mode = 420\<rparr> m)
        in (r, if te_works e ''remove'' wrapper then del_file wrapper m else m))"

definition tools_ops :: "'h tools_env \<Rightarrow> Tools \<Rightarrow> 'h Ops" where
  "tools_ops e t = \<lparr>LookupUser = tl_LookupUser e, LookupGroup = tl_LookupGroup e, EnsureGroup = tl_EnsureGroup e t,
     EnsureUser = tl_EnsureUser e t, JoinGroup = tl_JoinGroup e t, EnsureDir = tl_EnsureDir e,
     WriteSudoers = tl_WriteSudoers e t, ProveSudo = tl_ProveSudo e t, RemoveUser = tl_RemoveUser e t,
     RemoveGroup = tl_RemoveGroup e t, CheckProxy = tl_CheckProxy e t, CheckProxyFragment = tl_CheckProxyFragment e t\<rparr>"

section \<open>Only validated rules are installed\<close>

lemma tl_run_world: "tl_run e t program args m = (r, m') \<Longrightarrow> fst m' = fst m"
  by (auto simp: tl_run_def Let_def split_beta)

text \<open>The program behind a run that succeeds: it was given these arguments and these files.\<close>

definition ran :: "'h tools_env \<Rightarrow> string \<Rightarrow> string list \<Rightarrow> world \<Rightarrow> bool" where
  "ran e path args w \<longleftrightarrow> (\<exists>timeout h. out_err (fst (te_exec e timeout path args w h)) = None)"

lemma tl_run_ran: "tl_run e t program args m = (Inr u, m') \<Longrightarrow> ran e (tl_path t program) args (fst m)"
  unfolding tl_run_def ran_def Let_def split_beta by (auto split: option.splits)

lemma restored_staging:
  assumes "fst m2 = fst (put_file s f m)" "file_at m s = None"
  shows "file_at (del_file s m2) = file_at m" "dir_at m2 = dir_at m"
  using assms by (auto simp: put_file_def del_file_def)

lemma WriteSudoers_outcome:
  assumes "tl_WriteSudoers e t p rule m = (r, m')" "file_at m (sudoers_staging p) = None" "sudoers_staging p \<noteq> p"
  shows "dir_at m' = dir_at m"
    and "r = Inl err \<Longrightarrow> file_at m' = file_at m"
    and "r = Inr u \<Longrightarrow> file_at m' = (file_at m)(p \<mapsto> \<lparr>f_data = rule, f_mode = 288\<rparr>) \<and>
      (\<exists>w. w_files w (sudoers_staging p) = Some \<lparr>f_data = rule, f_mode = 288\<rparr> \<and> ran e (tl_path t Visudo) [''-cf'', sudoers_staging p] w)"
proof -
  define s where "s = sudoers_staging p"
  define m1 where "m1 = put_file s \<lparr>f_data = rule, f_mode = 288\<rparr> m"
  obtain rv m2 where v: "tl_run e t Visudo [''-cf'', s] m1 = (rv, m2)" by (rule prod.exhaust)
  then have "fst m2 = fst m1" by (rule tl_run_world)
  then have staged: "file_at (del_file s m2) = file_at m" "dir_at m2 = dir_at m"
    using restored_staging assms(2) unfolding m1_def s_def by metis+
  have clean: "file_at (del_file s m1) = file_at m" "dir_at m1 = dir_at m" "file_at m1 s = Some \<lparr>f_data = rule, f_mode = 288\<rparr>"
    using assms(2) by (auto simp: m1_def s_def)
  note run = assms(1) [unfolded tl_WriteSudoers_def Let_def, folded s_def, folded m1_def, unfolded v]
  show "dir_at m' = dir_at m"
    using run staged clean by (cases rv) (simp_all add: m1_def split: if_splits, safe, simp_all add: m1_def)
  show "r = Inl err \<Longrightarrow> file_at m' = file_at m"
    using run staged(1) clean(1) by (cases rv) (simp_all split: if_splits, safe, simp_all)
  assume r: "r = Inr u"
  then obtain x where rv: "rv = Inr x" using run by (cases rv) (simp_all split: if_splits)
  then have "m' = put_file p \<lparr>f_data = rule, f_mode = 288\<rparr> (del_file s m2)" using run r by (simp split: if_splits)
  then have "file_at m' = (file_at m)(p \<mapsto> \<lparr>f_data = rule, f_mode = 288\<rparr>)" using staged(1) by simp
  moreover have "ran e (tl_path t Visudo) [''-cf'', s] (fst m1)" using v [unfolded rv] by (rule tl_run_ran)
  ultimately show "file_at m' = (file_at m)(p \<mapsto> \<lparr>f_data = rule, f_mode = 288\<rparr>) \<and>
      (\<exists>w. w_files w (sudoers_staging p) = Some \<lparr>f_data = rule, f_mode = 288\<rparr> \<and> ran e (tl_path t Visudo) [''-cf'', sudoers_staging p] w)"
    using clean(3) unfolding s_def by blast
qed


section \<open>The in-memory host (fake.go)\<close>

record Fake_Host =
  fh_Users :: "(string \<times> Account) list"
  fh_Groups :: "(string \<times> Account) list"
  fh_Dirs :: "string \<rightharpoonup> nat \<times> Account"
  fh_Sudoers :: "(string \<times> string) list"
  fh_Memberships :: "(string \<times> string list) list"
  fh_Calls :: "string list"
  fh_Err :: "string option"
  fh_FailAt :: string

definition fh_NewFake :: Fake_Host where
  "fh_NewFake = \<lparr>fh_Users = [(''dokku'', \<lparr>ac_Name = ''dokku'', ac_Uid = 1001, ac_Gid = 1001\<rparr>)],
     fh_Groups = [(''dokku'', \<lparr>ac_Name = ''dokku'', ac_Uid = -1, ac_Gid = 1001\<rparr>)], fh_Dirs = Map.empty, fh_Sudoers = [],
     fh_Memberships = [], fh_Calls = [], fh_Err = None, fh_FailAt = []\<rparr>"

definition fh_record :: "string \<Rightarrow> Fake_Host machine \<Rightarrow> (host_error + unit) \<times> Fake_Host machine" where
  "fh_record c m =
     (let f = snd m in
      (if fh_FailAt f \<noteq> [] \<and> (c = fh_FailAt f \<or> HasPrefix c (fh_FailAt f @ '' '')) then Inl (ToldToFail (fh_FailAt f))
       else case fh_Err f of Some e \<Rightarrow> Inl (ToldToFail e) | None \<Rightarrow> Inr (),
       (fst m, f\<lparr>fh_Calls := fh_Calls f @ [c]\<rparr>)))"

text \<open>The largest unused id from 999 down to 101, or 0.\<close>

definition nextID :: "Fake_Host \<Rightarrow> int" where
  "nextID f = (case filter (\<lambda>n. \<not> (\<exists>a \<in> set (map snd (fh_Users f)). ac_Uid a = n) \<and> \<not> (\<exists>a \<in> set (map snd (fh_Groups f)). ac_Gid a = n))
       (rev [101..999]) of [] \<Rightarrow> 0 | n # _ \<Rightarrow> n)"

text \<open>A method: the call is recorded, and what follows happens if it was not told to fail.\<close>

definition fh_method :: "string \<Rightarrow> (Fake_Host machine \<Rightarrow> (host_error + 'a) \<times> Fake_Host machine) \<Rightarrow> Fake_Host machine
    \<Rightarrow> (host_error + 'a) \<times> Fake_Host machine" where
  "fh_method c body m = (case fh_record c m of (Inl err, m) \<Rightarrow> (Inl err, m) | (Inr _, m) \<Rightarrow> body m)"

definition on_fake :: "(Fake_Host \<Rightarrow> Fake_Host) \<Rightarrow> Fake_Host machine \<Rightarrow> Fake_Host machine" where
  "on_fake g m = (fst m, g (snd m))"

definition fh_LookupUser :: "string \<Rightarrow> Fake_Host machine \<Rightarrow> (host_error + Account) \<times> Fake_Host machine" where
  "fh_LookupUser name = fh_method (''lookup-user '' @ name) (\<lambda>m.
     (case map_of (fh_Users (snd m)) name of None \<Rightarrow> Inl (ErrNoSuchUser name) | Some a \<Rightarrow> Inr a, m))"

definition fh_LookupGroup :: "string \<Rightarrow> Fake_Host machine \<Rightarrow> (host_error + Account) \<times> Fake_Host machine" where
  "fh_LookupGroup name = fh_method (''lookup-group '' @ name) (\<lambda>m.
     (case map_of (fh_Groups (snd m)) name of None \<Rightarrow> Inl (ErrNoSuchGroup name) | Some a \<Rightarrow> Inr a, m))"

definition fh_EnsureGroup :: "string \<Rightarrow> Fake_Host machine \<Rightarrow> (host_error + unit) \<times> Fake_Host machine" where
  "fh_EnsureGroup name = fh_method (''ensure-group '' @ name) (\<lambda>m.
     (Inr (), if map_of (fh_Groups (snd m)) name = None
        then on_fake (\<lambda>f. f\<lparr>fh_Groups := AList.update name \<lparr>ac_Name = name, ac_Uid = -1, ac_Gid = nextID f\<rparr> (fh_Groups f)\<rparr>) m
        else m))"

definition fh_EnsureUser :: "UserSpec \<Rightarrow> Fake_Host machine \<Rightarrow> (bool \<times> host_error option) \<times> Fake_Host machine" where
  "fh_EnsureUser spec m =
     (case fh_record (''ensure-user '' @ us_Name spec) m of
        (Inl err, m) \<Rightarrow> ((False, Some err), m)
      | (Inr _, m) \<Rightarrow>
        if map_of (fh_Users (snd m)) (us_Name spec) \<noteq> None then ((False, None), m)
        else case map_of (fh_Groups (snd m)) (us_Group spec) of
          None \<Rightarrow> ((False, Some (ErrNoSuchGroup (us_Group spec))), m)
        | Some g \<Rightarrow> ((True, None), on_fake (\<lambda>f. f\<lparr>fh_Users := AList.update (us_Name spec)
              \<lparr>ac_Name = us_Name spec, ac_Uid = nextID f, ac_Gid = ac_Gid g\<rparr> (fh_Users f)\<rparr>) m))"

definition joined :: "Fake_Host \<Rightarrow> string \<Rightarrow> string list" where
  "joined f user = (case map_of (fh_Memberships f) user of None \<Rightarrow> [] | Some gs \<Rightarrow> gs)"

definition fh_JoinGroup :: "string \<Rightarrow> string \<Rightarrow> Fake_Host machine \<Rightarrow> (host_error + unit) \<times> Fake_Host machine" where
  "fh_JoinGroup user grp = fh_method (''join-group '' @ user @ '' '' @ grp) (\<lambda>m.
     if map_of (fh_Users (snd m)) user = None then (Inl (ErrNoSuchUser user), m)
     else if map_of (fh_Groups (snd m)) grp = None then (Inl (ErrNoSuchGroup grp), m)
     else if grp \<in> set (joined (snd m) user) then (Inr (), m)
     else (Inr (), on_fake (\<lambda>f. f\<lparr>fh_Memberships := AList.update user (joined f user @ [grp]) (fh_Memberships f)\<rparr>) m))"

definition fh_EnsureDir :: "string \<Rightarrow> nat \<Rightarrow> Account \<Rightarrow> Fake_Host machine \<Rightarrow> (host_error + unit) \<times> Fake_Host machine" where
  "fh_EnsureDir p mode owner = fh_method (''ensure-dir '' @ p) (\<lambda>m.
     (Inr (), on_fake (\<lambda>f. f\<lparr>fh_Dirs := (fh_Dirs f)(p \<mapsto> (mode, owner))\<rparr>) (put_dir p mode (MkdirAll p mode m))))"

definition fh_WriteSudoers :: "string \<Rightarrow> string \<Rightarrow> Fake_Host machine \<Rightarrow> (host_error + unit) \<times> Fake_Host machine" where
  "fh_WriteSudoers p rule = fh_method (''write-sudoers '' @ p) (\<lambda>m.
     (Inr (), on_fake (\<lambda>f. f\<lparr>fh_Sudoers := AList.update p rule (fh_Sudoers f)\<rparr>) m))"

definition fh_ProveSudo :: "string \<Rightarrow> string \<Rightarrow> string \<Rightarrow> string list \<Rightarrow> Fake_Host machine \<Rightarrow> (host_error + unit) \<times> Fake_Host machine" where
  "fh_ProveSudo user runAs program args = fh_method (''prove-sudo '' @ user @ '' '' @ runAs @ '' '' @ program) (\<lambda>m.
     (if \<exists>rule \<in> set (map snd (fh_Sudoers (snd m))). HasPrefix rule (user @ '' '') \<and> Contains rule program
      then Inr () else Inl ErrSudoRefused, m))"

definition stillHasMembers :: "string \<Rightarrow> int \<Rightarrow> Fake_Host \<Rightarrow> bool" where
  "stillHasMembers name gid f \<longleftrightarrow> (\<exists>a \<in> set (map snd (fh_Users f)). ac_Gid a = gid) \<or>
     (\<exists>gs \<in> set (map snd (fh_Memberships f)). name \<in> set gs)"

definition fh_RemoveUser :: "string \<Rightarrow> Fake_Host machine \<Rightarrow> (host_error + bool) \<times> Fake_Host machine" where
  "fh_RemoveUser name = fh_method (''remove-user '' @ name) (\<lambda>m.
     case map_of (fh_Users (snd m)) name of None \<Rightarrow> (Inr False, m)
     | Some a \<Rightarrow> (Inr True, on_fake (\<lambda>f.
         let f = f\<lparr>fh_Users := AList.delete name (fh_Users f), fh_Memberships := AList.delete name (fh_Memberships f)\<rparr> in
         case map_of (fh_Groups f) name of None \<Rightarrow> f
         | Some g \<Rightarrow> if ac_Gid g = ac_Gid a \<and> \<not> stillHasMembers name (ac_Gid g) f
             then f\<lparr>fh_Groups := AList.delete name (fh_Groups f)\<rparr> else f) m))"

definition fh_RemoveGroup :: "string \<Rightarrow> Fake_Host machine \<Rightarrow> (host_error + bool) \<times> Fake_Host machine" where
  "fh_RemoveGroup name = fh_method (''remove-group '' @ name) (\<lambda>m.
     if map_of (fh_Groups (snd m)) name = None then (Inr False, m)
     else (Inr True, on_fake (\<lambda>f. f\<lparr>fh_Groups := AList.delete name (fh_Groups f)\<rparr>) m))"

definition fh_CheckProxy :: "Fake_Host machine \<Rightarrow> (host_error + unit) \<times> Fake_Host machine" where
  "fh_CheckProxy m = fh_record ''check-proxy'' m"

definition fh_CheckProxyFragment :: "string \<Rightarrow> Fake_Host machine \<Rightarrow> (host_error + unit) \<times> Fake_Host machine" where
  "fh_CheckProxyFragment p m = fh_record (''check-proxy-fragment '' @ p) m"

definition fake_ops :: "Fake_Host Ops" where
  "fake_ops = \<lparr>LookupUser = fh_LookupUser, LookupGroup = fh_LookupGroup, EnsureGroup = fh_EnsureGroup,
     EnsureUser = fh_EnsureUser, JoinGroup = fh_JoinGroup, EnsureDir = fh_EnsureDir, WriteSudoers = fh_WriteSudoers,
     ProveSudo = fh_ProveSudo, RemoveUser = fh_RemoveUser, RemoveGroup = fh_RemoveGroup, CheckProxy = fh_CheckProxy,
     CheckProxyFragment = fh_CheckProxyFragment\<rparr>"

text \<open>The theorem at a host where visudo accepts everything, on which a rule is installed twice.\<close>

definition easy_tools :: "unit tools_env" where
  "easy_tools = \<lparr>te_exec = (\<lambda>timeout path args w h. (\<lparr>out_err = None, out_stdout = [], out_stderr = []\<rparr>, h)),
     te_user = (\<lambda>n h. Unknown), te_group = (\<lambda>n h. Unknown), te_works = (\<lambda>c p. True), te_root = True\<rparr>"


section \<open>The contract of the seam\<close>

text \<open>
  What an installation relies on, of the accounts and of the files: a call that only asks changes
  nothing, one that fails changes nothing, and one that succeeds changes what it names. RemoveUser may
  take the group of the same name with it, as userdel does.
\<close>

definition same_host :: "('h \<Rightarrow> string set) \<Rightarrow> ('h \<Rightarrow> string set) \<Rightarrow> 'h machine \<Rightarrow> 'h machine \<Rightarrow> bool" where
  "same_host users groups m m' \<longleftrightarrow> fst m' = fst m \<and> users (snd m') = users (snd m) \<and> groups (snd m') = groups (snd m)"

definition same_but :: "('h \<Rightarrow> string set) \<Rightarrow> ('h \<Rightarrow> string set) \<Rightarrow> string set \<Rightarrow> 'h machine \<Rightarrow> 'h machine \<Rightarrow> bool" where
  "same_but users groups A m m' \<longleftrightarrow> (\<forall>q. q \<notin> A \<longrightarrow> file_at m' q = file_at m q) \<and> dir_at m' = dir_at m \<and>
     users (snd m') = users (snd m) \<and> groups (snd m') = groups (snd m)"

locale host_ops =
  fixes ops :: "'h Ops" and users groups :: "'h \<Rightarrow> string set"
  assumes looked_user: "LookupUser ops n m = (r, m') \<Longrightarrow> same_host users groups m m' \<and>
      (\<forall>a. r = Inr a \<longrightarrow> n \<in> users (snd m)) \<and> (\<forall>x. r = Inl (ErrNoSuchUser x) \<longrightarrow> n \<notin> users (snd m))"
    and looked_group: "LookupGroup ops n m = (r, m') \<Longrightarrow> same_host users groups m m' \<and>
      (\<forall>a. r = Inr a \<longrightarrow> n \<in> groups (snd m)) \<and> (\<forall>x. r = Inl (ErrNoSuchGroup x) \<longrightarrow> n \<notin> groups (snd m))"
    and ensured_group: "EnsureGroup ops n m = (r', m') \<Longrightarrow> fst m' = fst m \<and> users (snd m') = users (snd m) \<and>
      groups (snd m') = (case r' of Inl _ \<Rightarrow> groups (snd m) | Inr _ \<Rightarrow> insert n (groups (snd m)))"
    and ensured_user: "EnsureUser ops spec m = ((created, None), m') \<Longrightarrow> fst m' = fst m \<and> groups (snd m') = groups (snd m) \<and>
      users (snd m') = insert (us_Name spec) (users (snd m)) \<and> (created \<longleftrightarrow> us_Name spec \<notin> users (snd m))"
    and refused_user: "EnsureUser ops spec m = ((created, Some err), m') \<Longrightarrow> same_host users groups m m'"
    and joined_group: "JoinGroup ops n g m = (r', m') \<Longrightarrow> same_host users groups m m'"
    and ensured_dir: "EnsureDir ops p mode a m = (r', m') \<Longrightarrow> file_at m' = file_at m \<and>
      dir_at m' = (case r' of Inl _ \<Rightarrow> dir_at m | Inr _ \<Rightarrow> (dir_at m)(p \<mapsto> mode)) \<and>
      users (snd m') = users (snd m) \<and> groups (snd m') = groups (snd m)"
    and wrote_sudoers: "WriteSudoers ops p rule m = (r', m') \<Longrightarrow> same_but users groups {p, sudoers_staging p} m m' \<and>
      (\<forall>err. r' = Inl err \<longrightarrow> file_at m' p = file_at m p)"
    and proved_sudo: "ProveSudo ops u ra prog args m = (r', m') \<Longrightarrow> same_host users groups m m'"
    and removed_user: "RemoveUser ops n m = (r'', m') \<Longrightarrow> fst m' = fst m \<and>
      (case r'' of Inl _ \<Rightarrow> users (snd m') = users (snd m) \<and> groups (snd m') = groups (snd m)
       | Inr _ \<Rightarrow> users (snd m') = users (snd m) - {n} \<and> groups (snd m') \<subseteq> groups (snd m) \<and> groups (snd m) \<subseteq> insert n (groups (snd m')))"
    and removed_group: "RemoveGroup ops n m = (r'', m') \<Longrightarrow> fst m' = fst m \<and> users (snd m') = users (snd m) \<and>
      groups (snd m') = (case r'' of Inl _ \<Rightarrow> groups (snd m) | Inr _ \<Rightarrow> groups (snd m) - {n})"
    and checked_proxy: "CheckProxy ops m = (r', m') \<Longrightarrow> same_host users groups m m'"
    and checked_fragment: "CheckProxyFragment ops p m = (r', m') \<Longrightarrow> same_but users groups {p @ ''.wrapper''} m m'"
begin

text \<open>A group and its user, made and taken back, leave the accounts as they were.\<close>

lemma accounts_undone:
  assumes "RemoveUser ops n m = (Inr b, m1)" "RemoveGroup ops n m1 = (Inr c, m2)"
  shows "fst m2 = fst m \<and> users (snd m2) = users (snd m) - {n} \<and> groups (snd m2) = groups (snd m) - {n}"
  using removed_user [OF assms(1)] removed_group [OF assms(2)] by auto

end

text \<open>fake.go meets it.\<close>

definition fh_users :: "Fake_Host \<Rightarrow> string set" where "fh_users f = dom (map_of (fh_Users f))"
definition fh_groups :: "Fake_Host \<Rightarrow> string set" where "fh_groups f = dom (map_of (fh_Groups f))"

lemma fh_accounts_simps [simp]:
  "fh_users (f\<lparr>fh_Groups := gs\<rparr>) = fh_users f" "fh_groups (f\<lparr>fh_Users := us\<rparr>) = fh_groups f"
  "fh_users (f\<lparr>fh_Memberships := ms\<rparr>) = fh_users f" "fh_groups (f\<lparr>fh_Memberships := ms\<rparr>) = fh_groups f"
  "fh_users (f\<lparr>fh_Sudoers := s\<rparr>) = fh_users f" "fh_groups (f\<lparr>fh_Sudoers := s\<rparr>) = fh_groups f"
  "fh_users (f\<lparr>fh_Dirs := d\<rparr>) = fh_users f" "fh_groups (f\<lparr>fh_Dirs := d\<rparr>) = fh_groups f"
  "fh_users (f\<lparr>fh_Calls := c\<rparr>) = fh_users f" "fh_groups (f\<lparr>fh_Calls := c\<rparr>) = fh_groups f"
  by (simp_all add: fh_users_def fh_groups_def)

lemma fh_accounts_updates [simp]:
  "fh_users (f\<lparr>fh_Users := AList.update n a (fh_Users f)\<rparr>) = insert n (fh_users f)"
  "fh_groups (f\<lparr>fh_Groups := AList.update n a (fh_Groups f)\<rparr>) = insert n (fh_groups f)"
  "fh_groups (f\<lparr>fh_Groups := AList.delete n (fh_Groups f)\<rparr>) = fh_groups f - {n}"
  "fh_users (f\<lparr>fh_Users := AList.delete n (fh_Users f)\<rparr>) = fh_users f - {n}"
  by (auto simp: fh_users_def fh_groups_def update_conv' delete_conv' split: if_splits)

lemma fh_known: "map_of (fh_Users f) n = None \<longleftrightarrow> n \<notin> fh_users f" "map_of (fh_Groups f) n = None \<longleftrightarrow> n \<notin> fh_groups f"
  by (auto simp: fh_users_def fh_groups_def domIff)

lemma on_fake_simps [simp]: "fst (on_fake g m) = fst m" "snd (on_fake g m) = g (snd m)"
  by (simp_all add: on_fake_def)

lemma fh_record_same: "same_host fh_users fh_groups m (snd (fh_record c m))"
  by (simp add: fh_record_def same_host_def Let_def fh_users_def fh_groups_def)

lemma fh_method_cases:
  assumes "fh_method c body m = (r, m')"
  obtains (failed) err where "r = Inl err" "same_host fh_users fh_groups m m'"
    | (performed) m1 where "same_host fh_users fh_groups m m1" "body m1 = (r, m')"
proof -
  obtain a m1 where Pair: "fh_record c m = (a, m1)" by (rule prod.exhaust)
  then have "same_host fh_users fh_groups m m1" using fh_record_same [of m c] by simp
  with assms Pair that show thesis by (cases a) (auto simp: fh_method_def)
qed


lemma same_host_trans: "same_host u g m m1 \<Longrightarrow> same_host u g m1 m2 \<Longrightarrow> same_host u g m m2"
  by (simp add: same_host_def)

lemma fh_asks:
  assumes "fh_method c (\<lambda>m. (f m, m)) m = (r, m')"
  shows "same_host fh_users fh_groups m m'"
  using assms by (cases rule: fh_method_cases) auto

lemma fh_looked:
  assumes "fh_method c (\<lambda>m. (case map_of (sel (snd m)) n of None \<Rightarrow> Inl (mk n) | Some a \<Rightarrow> Inr a, m)) m = (r, m')"
    and "\<And>m1. same_host fh_users fh_groups m m1 \<Longrightarrow> dom (map_of (sel (snd m1))) = dom (map_of (sel (snd m)))"
    and "\<And>x y. mk x \<noteq> ToldToFail y"
  shows "same_host fh_users fh_groups m m' \<and> (\<forall>a. r = Inr a \<longrightarrow> n \<in> dom (map_of (sel (snd m)))) \<and> (\<forall>x. r = Inl (mk x) \<longrightarrow> n \<notin> dom (map_of (sel (snd m))))"
proof -
  obtain a m1 where Pair: "fh_record c m = (a, m1)" by (rule prod.exhaust)
  then have "dom (map_of (sel (snd m1))) = dom (map_of (sel (snd m)))"
    using fh_record_same [of m c] assms(2) by simp
  moreover have "a = Inl err \<Longrightarrow> err \<noteq> mk x" for err x
    using Pair assms(3) [THEN not_sym] by (auto simp: fh_record_def Let_def split: if_splits option.splits)
  ultimately show ?thesis using assms(1) Pair fh_asks [OF assms(1)]
    by (auto simp: fh_method_def split: sum.splits option.splits)
qed

lemma fh_EnsureGroup_laws:
  assumes "fh_EnsureGroup n m = (r, m')"
  shows "fst m' = fst m \<and> fh_users (snd m') = fh_users (snd m) \<and>
    fh_groups (snd m') = (case r of Inl _ \<Rightarrow> fh_groups (snd m) | Inr _ \<Rightarrow> insert n (fh_groups (snd m)))"
  using assms unfolding fh_EnsureGroup_def
proof (cases rule: fh_method_cases)
  case (performed m1)
  then show ?thesis
    by (cases "n \<in> fh_groups (snd m1)") (auto simp: same_host_def fh_known insert_absorb)
qed (simp add: same_host_def)

lemma fh_EnsureUser_laws:
  assumes "fh_EnsureUser spec m = ((created, err), m')"
  shows "(case err of Some _ \<Rightarrow> same_host fh_users fh_groups m m'
    | None \<Rightarrow> fst m' = fst m \<and> fh_groups (snd m') = fh_groups (snd m) \<and>
        fh_users (snd m') = insert (us_Name spec) (fh_users (snd m)) \<and> (created \<longleftrightarrow> us_Name spec \<notin> fh_users (snd m)))"
proof -
  obtain a m1 where Pair: "fh_record (''ensure-user '' @ us_Name spec) m = (a, m1)" by (rule prod.exhaust)
  then have "same_host fh_users fh_groups m m1" using fh_record_same [of m] by (metis snd_conv)
  then have s: "fst m1 = fst m" "fh_users (snd m1) = fh_users (snd m)" "fh_groups (snd m1) = fh_groups (snd m)"
    by (simp_all add: same_host_def)
  note run = assms [unfolded fh_EnsureUser_def Pair prod.case]
  show ?thesis
  proof (cases a)
    case (Inl e)
    with run s show ?thesis by (auto simp: same_host_def)
  next
    case (Inr u)
    show ?thesis
    proof (cases "us_Name spec \<in> fh_users (snd m1)")
      case True
      then obtain x where "map_of (fh_Users (snd m1)) (us_Name spec) = Some x" by (auto simp: fh_users_def)
      with run Inr s True show ?thesis by (auto simp: insert_absorb)
    next
      case False
      then have "map_of (fh_Users (snd m1)) (us_Name spec) = None" by (auto simp: fh_users_def domIff)
      with run Inr s False show ?thesis
        by (auto simp: same_host_def split: option.splits)
    qed
  qed
qed

lemma fh_JoinGroup_laws: "fh_JoinGroup u g m = (r, m') \<Longrightarrow> same_host fh_users fh_groups m m'"
  unfolding fh_JoinGroup_def
  by (erule fh_method_cases, assumption)
    (auto simp: same_host_def split: if_splits)

lemma fh_EnsureDir_laws:
  assumes "fh_EnsureDir p mode a m = (r, m')"
  shows "file_at m' = file_at m \<and> dir_at m' = (case r of Inl _ \<Rightarrow> dir_at m | Inr _ \<Rightarrow> (dir_at m)(p \<mapsto> mode)) \<and>
    fh_users (snd m') = fh_users (snd m) \<and> fh_groups (snd m') = fh_groups (snd m)"
  using assms unfolding fh_EnsureDir_def
  by (cases rule: fh_method_cases)
    (auto simp: same_host_def MkdirAll_def put_dir_def split: option.splits)

lemma fh_WriteSudoers_laws: "fh_WriteSudoers p rule m = (r, m') \<Longrightarrow> same_host fh_users fh_groups m m'"
  unfolding fh_WriteSudoers_def
  by (erule fh_method_cases, assumption) (auto simp: same_host_def)

lemma fh_RemoveUser_laws:
  assumes "fh_RemoveUser n m = (r, m')"
  shows "fst m' = fst m \<and>
      (case r of Inl _ \<Rightarrow> fh_users (snd m') = fh_users (snd m) \<and> fh_groups (snd m') = fh_groups (snd m)
       | Inr _ \<Rightarrow> fh_users (snd m') = fh_users (snd m) - {n} \<and> fh_groups (snd m') \<subseteq> fh_groups (snd m) \<and>
           fh_groups (snd m) \<subseteq> insert n (fh_groups (snd m')))"
  using assms unfolding fh_RemoveUser_def
proof (cases rule: fh_method_cases)
  case (performed m1)
  then have m1: "fst m1 = fst m" "fh_users (snd m1) = fh_users (snd m)" "fh_groups (snd m1) = fh_groups (snd m)"
    by (simp_all add: same_host_def)
  show ?thesis
  proof (cases "map_of (fh_Users (snd m1)) n")
    case None
    with performed(2) m1 fh_known(1) [of "snd m1" n] show ?thesis by auto
  next
    case (Some a)
    define f where "f = (snd m1)\<lparr>fh_Users := AList.delete n (fh_Users (snd m1)),
      fh_Memberships := AList.delete n (fh_Memberships (snd m1))\<rparr>"
    have f: "fh_users f = fh_users (snd m) - {n}" "fh_groups f = fh_groups (snd m)" using m1 by (simp_all add: f_def)
    have "r = Inr True" "fst m' = fst m" "snd m' = f \<or> snd m' = f\<lparr>fh_Groups := AList.delete n (fh_Groups f)\<rparr>"
      using performed(2) Some m1 by (auto simp: Let_def f_def [symmetric] split: option.splits if_splits)
    with f show ?thesis by auto
  qed
qed (simp add: same_host_def)

lemma fh_RemoveGroup_laws:
  assumes "fh_RemoveGroup n m = (r, m')"
  shows "fst m' = fst m \<and> fh_users (snd m') = fh_users (snd m) \<and>
      fh_groups (snd m') = (case r of Inl _ \<Rightarrow> fh_groups (snd m) | Inr _ \<Rightarrow> fh_groups (snd m) - {n})"
  using assms unfolding fh_RemoveGroup_def
proof (cases rule: fh_method_cases)
  case (performed m1)
  then show ?thesis
    by (auto simp: same_host_def fh_known split: if_splits)
qed (simp add: same_host_def)

lemma fh_checked: "fh_CheckProxy m = (r, m') \<Longrightarrow> same_host fh_users fh_groups m m'"
  "fh_CheckProxyFragment p m = (r, m') \<Longrightarrow> same_host fh_users fh_groups m m'"
  unfolding fh_CheckProxy_def fh_CheckProxyFragment_def using fh_record_same by (metis snd_conv)+

lemma same_host_but: "same_host u g m m' \<Longrightarrow> same_but u g A m m'"
  by (simp add: same_host_def same_but_def)

lemma fh_LookupUser_laws:
  assumes "fh_LookupUser n m = (r, m')"
  shows "same_host fh_users fh_groups m m' \<and> (\<forall>a. r = Inr a \<longrightarrow> n \<in> fh_users (snd m)) \<and>
      (\<forall>x. r = Inl (ErrNoSuchUser x) \<longrightarrow> n \<notin> fh_users (snd m))"
  using assms unfolding fh_LookupUser_def fh_users_def [of "snd m"]
  by (rule fh_looked) (simp_all add: same_host_def fh_users_def)

lemma fh_LookupGroup_laws:
  assumes "fh_LookupGroup n m = (r, m')"
  shows "same_host fh_users fh_groups m m' \<and> (\<forall>a. r = Inr a \<longrightarrow> n \<in> fh_groups (snd m)) \<and>
      (\<forall>x. r = Inl (ErrNoSuchGroup x) \<longrightarrow> n \<notin> fh_groups (snd m))"
  using assms unfolding fh_LookupGroup_def fh_groups_def [of "snd m"]
  by (rule fh_looked) (simp_all add: same_host_def fh_groups_def)

lemma fh_ProveSudo_laws: "fh_ProveSudo u ra prog args m = (r, m') \<Longrightarrow> same_host fh_users fh_groups m m'"
  unfolding fh_ProveSudo_def by (rule fh_asks)

lemma fh_WriteSudoers_but:
  "fh_WriteSudoers p rule m = (r, m') \<Longrightarrow> same_but fh_users fh_groups A m m' \<and> (\<forall>err. r = Inl err \<longrightarrow> file_at m' p = file_at m p)"
  using fh_WriteSudoers_laws [of p rule m r m'] by (simp add: same_host_but) (simp add: same_host_def)

interpretation fh: host_ops fake_ops fh_users fh_groups
  by unfold_locales (simp_all only: fake_ops_def Ops.simps,
    fact fh_LookupUser_laws, fact fh_LookupGroup_laws, fact fh_EnsureGroup_laws,
    fact fh_EnsureUser_laws [where err = None, simplified], fact fh_EnsureUser_laws [where err = "Some _", simplified],
    fact fh_JoinGroup_laws, fact fh_EnsureDir_laws, fact fh_WriteSudoers_but, fact fh_ProveSudo_laws,
    fact fh_RemoveUser_laws, fact fh_RemoveGroup_laws, fact fh_checked(1), fact fh_checked(2) [THEN same_host_but])

end
