(* ===== verification/Install.thy ===== *)
theory Install
  imports Update Proxy Host
begin

text \<open>
  internal/cli/install.go: the installer, whose run is a list of steps that change a machine, each of
  which registers how to undo it, and the unwinding of a run that fails. A step is a function of the
  undo list and of the machine, which may not return, as waiting may not. A call on a file that fails
  has no effect; what is printed is not kept, and the answers of package net and of crypto/x509 are
  fields of the installer.
\<close>

section \<open>Calls on the machine\<close>

definition on_files :: "(fs \<Rightarrow> 'r \<times> fs) \<Rightarrow> 'h machine \<Rightarrow> 'r \<times> 'h machine" where
  "on_files f m = (let (r, files) = f (file_at m) in (r, ((fst m)\<lparr>w_files := files\<rparr>, snd m)))"

text \<open>WriteFile keeps the mode of a file that is there.\<close>

definition os_Write :: "bool \<Rightarrow> string \<Rightarrow> string \<Rightarrow> nat \<Rightarrow> fs \<Rightarrow> (os_error + unit) \<times> fs" where
  "os_Write works p data mode files =
     (if works then (Inr (), files(p \<mapsto> \<lparr>f_data = data, f_mode = (case files p of None \<Rightarrow> mode | Some f \<Rightarrow> f_mode f)\<rparr>))
      else (Inl Denied, files))"

definition os_Chmod :: "bool \<Rightarrow> string \<Rightarrow> nat \<Rightarrow> fs \<Rightarrow> (os_error + unit) \<times> fs" where
  "os_Chmod works p mode files =
     (case files p of None \<Rightarrow> (Inl NotExist, files)
      | Some f \<Rightarrow> if works then (Inr (), files(p \<mapsto> f\<lparr>f_mode := mode\<rparr>)) else (Inl Denied, files))"

definition os_Read :: "bool \<Rightarrow> string \<Rightarrow> fs \<Rightarrow> os_error + string" where
  "os_Read works p files = (case files p of None \<Rightarrow> Inl NotExist | Some f \<Rightarrow> if works then Inr (f_data f) else Inl Denied)"

definition under :: "string \<Rightarrow> string \<Rightarrow> bool" where
  "under p q \<longleftrightarrow> q = p \<or> HasPrefix q (p @ ''/'')"

definition RemoveAll :: "bool \<Rightarrow> string \<Rightarrow> 'h machine \<Rightarrow> (os_error + unit) \<times> 'h machine" where
  "RemoveAll works p m =
     (if works then (Inr (), ((fst m)\<lparr>w_files := (\<lambda>q. if under p q then None else file_at m q),
                              w_dirs := (\<lambda>q. if under p q then None else dir_at m q)\<rparr>, snd m))
      else (Inl Denied, m))"

definition exists :: "string \<Rightarrow> 'h machine \<Rightarrow> bool" where
  "exists p m \<longleftrightarrow> file_at m p \<noteq> None \<or> dir_at m p \<noteq> None"

text \<open>What is at a path, if anything is.\<close>

definition readIfExists :: "bool \<Rightarrow> string \<Rightarrow> fs \<Rightarrow> os_error + string option" where
  "readIfExists works p files = (case os_Read works p files of
     Inr content \<Rightarrow> Inr (Some content) | Inl NotExist \<Rightarrow> Inr None | Inl err \<Rightarrow> Inl err)"

definition copyFile :: "(string \<Rightarrow> string \<Rightarrow> bool) \<Rightarrow> string \<Rightarrow> string \<Rightarrow> nat \<Rightarrow> fs \<Rightarrow> (os_error + unit) \<times> fs" where
  "copyFile works src dst mode files =
     (case os_Read (works ''open'' src) src files of
        Inl err \<Rightarrow> (Inl err, files)
      | Inr content \<Rightarrow>
        (case os_Write (works ''write'' dst) dst content mode files of
           (Inl err, files) \<Rightarrow> (Inl err, files)
         | (Inr _, files) \<Rightarrow> os_Chmod (works ''chmod'' dst) dst mode files))"

section \<open>The seam to systemd\<close>

datatype manager_error = SystemctlFailed CommandError | FakeFailed string

record 'h Manager =
  mg_IsActive :: "'h machine \<Rightarrow> (manager_error + bool) \<times> 'h machine"
  mg_Enable :: "'h machine \<Rightarrow> (manager_error + unit) \<times> 'h machine"
  mg_Disable :: "'h machine \<Rightarrow> (manager_error + unit) \<times> 'h machine"
  mg_Restart :: "'h machine \<Rightarrow> (manager_error + unit) \<times> 'h machine"
  mg_DaemonReload :: "'h machine \<Rightarrow> (manager_error + unit) \<times> 'h machine"
  mg_Reload :: "string \<Rightarrow> 'h machine \<Rightarrow> (manager_error + unit) \<times> 'h machine"

text \<open>systemctl, run by the programs' interface of tools.go, and the in-memory manager.\<close>

definition by_systemctl :: "('h \<Rightarrow> (CommandError + 'a) \<times> 'h) \<Rightarrow> 'h machine \<Rightarrow> (manager_error + 'a) \<times> 'h machine" where
  "by_systemctl f m = (let (r, h) = f (snd m) in (case r of Inl e \<Rightarrow> Inl (SystemctlFailed e) | Inr x \<Rightarrow> Inr x, fst m, h))"

definition systemctl_manager :: "'h tools_env \<Rightarrow> Systemctl \<Rightarrow> 'h Manager" where
  "systemctl_manager e s =
     \<lparr>mg_IsActive = (\<lambda>m. by_systemctl (sys_IsActive (\<lambda>t b a. te_exec e t b a (fst m)) s) m),
      mg_Enable = (\<lambda>m. by_systemctl (sys_Enable (\<lambda>t b a. te_exec e t b a (fst m)) s) m),
      mg_Disable = (\<lambda>m. by_systemctl (sys_Disable (\<lambda>t b a. te_exec e t b a (fst m)) s) m),
      mg_Restart = (\<lambda>m. by_systemctl (sys_Restart (\<lambda>t b a. te_exec e t b a (fst m)) s) m),
      mg_DaemonReload = (\<lambda>m. by_systemctl (sys_DaemonReload (\<lambda>t b a. te_exec e t b a (fst m)) s) m),
      mg_Reload = (\<lambda>u m. by_systemctl (sys_Reload (\<lambda>t b a. te_exec e t b a (fst m)) s u) m)\<rparr>"

section \<open>The installer\<close>

definition dataDirMode :: nat where "dataDirMode = 488"
definition readableMode :: nat where "readableMode = 420"
definition keyMode :: nat where "keyMode = 384"
definition binaryMode :: nat where "binaryMode = 493"
definition systemDirMode :: nat where "systemDirMode = 493"
definition nonexistentHome :: string where "nonexistentHome = ''/nonexistent''"
definition nginxUnit :: string where "nginxUnit = ''nginx''"
definition certificateWaitTimeout :: int where "certificateWaitTimeout = 90000000000"
definition proxyConfirmTimeout :: int where "proxyConfirmTimeout = 10000000000"

definition Rooted :: "string \<Rightarrow> string \<Rightarrow> string" where "Rooted root p = root @ p"

record installConfig =
  cf_domain :: string
  cf_cert :: string
  cf_key :: string
  cf_acmeEmail :: string
  cf_acmeDirectory :: string
  cf_ip :: string
  cf_selfSigned :: bool
  cf_plainHTTP :: bool
  cf_listen :: string

record site =
  st_how :: Reachability
  st_domain :: string
  st_ip :: string
  st_certPEM :: "string option"
  st_keyPEM :: string
  st_fingerprint :: string
  st_manageCert :: bool
  st_mode :: string
  st_url :: string

datatype install_error =
    NotLinux | NotRoot | NoDokkuGroup | NoDokkuUser | NoDokkuBinary
  | HostFailed host_error | FileFailed string os_error | ManagerFailed manager_error
  | FlagsDisagree | OnlyOneOfCertAndKey | CertificateAndKeyApart | UnreadableCertificate | NotCovered
  | DoesNotResolve | NoLocalAddresses | NoLocalAddress | NotAnAddress string | CouldNotGenerate
  | NoAnswer | NotYesOrNo string | StoppedAtAnswer
  | ProxyAlreadyBroken host_error | FragmentRefused host_error | VhostRefused host_error | SudoDoesNotWork host_error
  | Unhealthy wait_error | Unreachable wait_error

text \<open>What the resolver says, and what crypto/x509 reads in a certificate.\<close>

datatype dns = NoSuchHost | CouldNotLookUp | Addresses "string list"

record leaf =
  lf_covers :: "string \<Rightarrow> bool"
  lf_selfSigned :: bool
  lf_commonName :: string
  lf_organization :: "string list"

record crypto =
  cr_keyPair :: "string \<Rightarrow> string \<Rightarrow> string option"
  cr_pemDecode :: "string \<Rightarrow> string option"
  cr_parseCertificate :: "string \<Rightarrow> leaf option"
  cr_selfSignedIP :: "string \<Rightarrow> (string \<times> string \<times> string) option"
  cr_selfSignedForDomain :: "string \<Rightarrow> (string \<times> string) option"

record network_env =
  ne_resolve :: "string \<Rightarrow> dns"
  ne_local :: "string list option"
  ne_localIP :: "string option"
  ne_parseIP :: "string \<Rightarrow> string option"

record 'h undoStep =
  ud_what :: string
  ud_run :: "'h machine \<Rightarrow> (install_error + unit) \<times> 'h machine"

text \<open>
  The installer's fields. in_wait is what waiting asks of the host, given the files, as the address
  probed is read back out of the unit; in_tick is one wait of the watch for the certificate, during
  which the service may write it.
\<close>

record ('h, 't) installer =
  in_ops :: "'h Ops"
  in_manager :: "'h Manager"
  in_wait :: "world \<Rightarrow> 'h Host"
  in_confirmProxy :: "site \<Rightarrow> 'h machine \<Rightarrow> ((wait_error + unit) \<times> 'h machine) option"
  in_issueToken :: "'h machine \<Rightarrow> 't \<times> 'h machine"
  in_tick :: "int \<Rightarrow> 'h machine \<Rightarrow> bool \<times> 'h machine"
  in_now :: "'h machine \<Rightarrow> int"
  in_net :: network_env
  in_crypto :: crypto
  in_works :: "string \<Rightarrow> string \<Rightarrow> bool"
  in_sameFile :: "string \<Rightarrow> string \<Rightarrow> world \<Rightarrow> bool"
  in_stdin :: string
  in_root :: string
  in_self :: string
  in_version :: string
  in_cfg :: installConfig
  in_timeout :: int
  in_certWait :: int

definition path :: "('h, 't) installer \<Rightarrow> string \<Rightarrow> string" where
  "path i p = Rooted (in_root i) p"

section \<open>Questions\<close>

text \<open>readLine takes one line, and not a byte more; the end of input ends a line.\<close>

fun readLine :: "string \<Rightarrow> string \<times> string" where
  "readLine [] = ([], [])"
| "readLine (c # cs) = (if c = CHR 0x0A then ([], cs) else (let (line, rest) = readLine cs in (c # line, rest)))"

datatype answer = Yes | No | ErrNoAnswer | NotAnAnswer string

definition yesOrNo :: "string \<Rightarrow> answer \<times> string" where
  "yesOrNo stdin =
     (let (line, rest) = readLine stdin; s = ToLower (TrimSpace line) in
      (if s = ''y'' \<or> s = ''yes'' then Yes else if s = ''n'' \<or> s = ''no'' then No
       else if s = [] then ErrNoAnswer else NotAnAnswer (TrimSpace line), rest))"

definition confirm :: "string \<Rightarrow> install_error + bool" where
  "confirm stdin = (case fst (yesOrNo stdin) of Yes \<Rightarrow> Inr True | No \<Rightarrow> Inr False
     | ErrNoAnswer \<Rightarrow> Inl NoAnswer | NotAnAnswer s \<Rightarrow> Inl (NotYesOrNo s))"

definition mustConfirm :: "string \<Rightarrow> install_error + unit" where
  "mustConfirm stdin = (case confirm stdin of Inl err \<Rightarrow> Inl err | Inr yes \<Rightarrow> if yes then Inr () else Inl StoppedAtAnswer)"

section \<open>How it will be reached\<close>

definition checkDomainResolves :: "('h, 't) installer \<Rightarrow> string \<Rightarrow> install_error + unit" where
  "checkDomainResolves i domain =
     (case ne_resolve (in_net i) domain of
        NoSuchHost \<Rightarrow> Inl DoesNotResolve
      | CouldNotLookUp \<Rightarrow> mustConfirm (in_stdin i)
      | Addresses addrs \<Rightarrow>
        (case ne_local (in_net i) of
           None \<Rightarrow> Inl NoLocalAddresses
         | Some mine \<Rightarrow> if \<exists>a \<in> set addrs. a \<in> set mine then Inr () else mustConfirm (in_stdin i)))"

definition resolveManagedDomainSite :: "('h, 't) installer \<Rightarrow> install_error + site" where
  "resolveManagedDomainSite i =
     (let domain = cf_domain (in_cfg i) in
      case checkDomainResolves i domain of Inl err \<Rightarrow> Inl err
      | Inr _ \<Rightarrow>
        (case cr_selfSignedForDomain (in_crypto i) domain of
           None \<Rightarrow> Inl CouldNotGenerate
         | Some (certPEM, keyPEM) \<Rightarrow> Inr \<lparr>st_how = AtDomain, st_domain = domain, st_ip = [], st_certPEM = Some certPEM,
             st_keyPEM = keyPEM, st_fingerprint = [], st_manageCert = True, st_mode = ''published'',
             st_url = ''https://'' @ domain @ ''/''\<rparr>))"

definition resolveDomainSite :: "('h, 't) installer \<Rightarrow> 'h machine \<Rightarrow> install_error + site" where
  "resolveDomainSite i m =
     (let cfg = in_cfg i; domain = cf_domain cfg; cr = in_crypto i; read = (\<lambda>p. os_Read (in_works i ''read'' p) p (file_at m)) in
      if cf_cert cfg = [] \<and> cf_key cfg = [] then resolveManagedDomainSite i
      else if cf_cert cfg = [] \<or> cf_key cfg = [] then Inl OnlyOneOfCertAndKey
      else (case read (cf_cert cfg) of Inl err \<Rightarrow> Inl (FileFailed (cf_cert cfg) err)
        | Inr certPEM \<Rightarrow>
          (case read (cf_key cfg) of Inl err \<Rightarrow> Inl (FileFailed (cf_key cfg) err)
           | Inr keyPEM \<Rightarrow>
             (case cr_keyPair cr certPEM keyPEM of None \<Rightarrow> Inl CertificateAndKeyApart
              | Some der \<Rightarrow>
                (case cr_parseCertificate cr der of None \<Rightarrow> Inl UnreadableCertificate
                 | Some lf \<Rightarrow>
                   if \<not> lf_covers lf domain then Inl NotCovered
                   else (case checkDomainResolves i domain of Inl err \<Rightarrow> Inl err
                     | Inr _ \<Rightarrow> Inr \<lparr>st_how = AtDomain, st_domain = domain, st_ip = [], st_certPEM = Some certPEM,
                         st_keyPEM = keyPEM, st_fingerprint = [], st_manageCert = False, st_mode = ''published'',
                         st_url = ''https://'' @ domain @ ''/''\<rparr>))))))"

definition chooseIP :: "('h, 't) installer \<Rightarrow> install_error + string" where
  "chooseIP i =
     (if cf_ip (in_cfg i) \<noteq> []
      then (case ne_parseIP (in_net i) (cf_ip (in_cfg i)) of None \<Rightarrow> Inl (NotAnAddress (cf_ip (in_cfg i))) | Some ip \<Rightarrow> Inr ip)
      else (case ne_localIP (in_net i) of None \<Rightarrow> Inl NoLocalAddress | Some ip \<Rightarrow> Inr ip))"

definition plain_site :: "string \<Rightarrow> site" where
  "plain_site ip = \<lparr>st_how = AtIPPlain, st_domain = [], st_ip = ip, st_certPEM = None, st_keyPEM = [], st_fingerprint = [],
     st_manageCert = False, st_mode = ''ip'', st_url = ''http://'' @ ip @ ''/''\<rparr>"

definition resolveIPSite :: "('h, 't) installer \<Rightarrow> install_error + site" where
  "resolveIPSite i =
     (let cfg = in_cfg i in
      if cf_selfSigned cfg \<and> cf_plainHTTP cfg then Inl FlagsDisagree
      else (case chooseIP i of Inl err \<Rightarrow> Inl err
        | Inr ip \<Rightarrow>
          if cf_plainHTTP cfg then Inr (plain_site ip)
          else (case (if cf_selfSigned cfg then Inr True else confirm (in_stdin i)) of
              Inl err \<Rightarrow> Inl err
            | Inr want \<Rightarrow>
              if \<not> want then Inr (plain_site ip)
              else (case cr_selfSignedIP (in_crypto i) ip of
                  None \<Rightarrow> Inl CouldNotGenerate
                | Some (certPEM, keyPEM, fingerprint) \<Rightarrow> Inr \<lparr>st_how = AtIPWithTLS, st_domain = [], st_ip = ip,
                    st_certPEM = Some certPEM, st_keyPEM = keyPEM, st_fingerprint = fingerprint, st_manageCert = False,
                    st_mode = ''ip'', st_url = ''https://'' @ JoinHostPort ip (Itoa DefaultTLSPort) @ ''/''\<rparr>))))"

definition resolveSite :: "('h, 't) installer \<Rightarrow> 'h machine \<Rightarrow> install_error + site" where
  "resolveSite i m =
     (let cfg = in_cfg i in
      if cf_domain cfg \<noteq> []
      then (if cf_selfSigned cfg \<or> cf_plainHTTP cfg \<or> cf_ip cfg \<noteq> [] then Inl FlagsDisagree else resolveDomainSite i m)
      else resolveIPSite i)"

text \<open>Where the proxy is asked, and for which URL.\<close>

definition proxyProbe :: "site \<Rightarrow> string \<times> string" where
  "proxyProbe s =
     (let (name, port, scheme) = (case st_how s of
          AtDomain \<Rightarrow> (st_domain s, ''443'', ''https'')
        | AtIPWithTLS \<Rightarrow> (st_ip s, Itoa DefaultTLSPort, ''https'')
        | AtIPPlain \<Rightarrow> (st_ip s, ''80'', ''http''))
      in (JoinHostPort ''127.0.0.1'' port, scheme @ ''://'' @ JoinHostPort name port @ ''/api/health''))"

datatype fingerprint_error = NothingServed | OtherCertificate string

definition verifyFingerprint :: "(string \<Rightarrow> string) \<Rightarrow> string \<Rightarrow> string list \<Rightarrow> fingerprint_error + unit" where
  "verifyFingerprint sha256 want peers =
     (if want = [] then Inr ()
      else (case peers of [] \<Rightarrow> Inl NothingServed
        | der # _ \<Rightarrow> let got = Fingerprint sha256 der in if got \<noteq> want then Inl (OtherCertificate got) else Inr ()))"

section \<open>Steps\<close>

type_synonym ('h, 'a) action = "'h undoStep list \<times> 'h machine \<Rightarrow> ((install_error + 'a) \<times> 'h undoStep list \<times> 'h machine) option"

definition returnI :: "'a \<Rightarrow> ('h, 'a) action" where
  "returnI x = (\<lambda>s. Some (Inr x, s))"

definition thenI :: "('h, 'a) action \<Rightarrow> ('a \<Rightarrow> ('h, 'b) action) \<Rightarrow> ('h, 'b) action" where
  "thenI a f = (\<lambda>s. case a s of None \<Rightarrow> None | Some (Inl err, s) \<Rightarrow> Some (Inl err, s) | Some (Inr x, s) \<Rightarrow> f x s)"

text \<open>A call on the machine, with what its error becomes.\<close>

definition call :: "('e \<Rightarrow> install_error) \<Rightarrow> ('h machine \<Rightarrow> ('e + 'a) \<times> 'h machine) \<Rightarrow> ('h, 'a) action" where
  "call wrap f = (\<lambda>(us, m). case f m of (Inl err, m) \<Rightarrow> Some (Inl (wrap err), us, m) | (Inr x, m) \<Rightarrow> Some (Inr x, us, m))"

definition asking :: "('h machine \<Rightarrow> 'a) \<Rightarrow> ('h, 'a) action" where
  "asking f = (\<lambda>(us, m). Some (Inr (f m), us, m))"

text \<open>A call that may fail in a way the step goes on from.\<close>

definition attempt :: "('h machine \<Rightarrow> 'r \<times> 'h machine) \<Rightarrow> ('h, 'r) action" where
  "attempt f = (\<lambda>(us, m). let (r, m) = f m in Some (Inr r, us, m))"

definition failI :: "install_error \<Rightarrow> ('h, 'a) action" where
  "failI err = (\<lambda>s. Some (Inl err, s))"

definition undoing :: "string \<Rightarrow> ('h machine \<Rightarrow> (install_error + unit) \<times> 'h machine) \<Rightarrow> ('h, unit) action" where
  "undoing what f = (\<lambda>(us, m). Some (Inr (), us @ [\<lparr>ud_what = what, ud_run = f\<rparr>], m))"

definition wrapped :: "('e \<Rightarrow> install_error) \<Rightarrow> ('h machine \<Rightarrow> ('e + 'a) \<times> 'h machine) \<Rightarrow> 'h machine \<Rightarrow> (install_error + unit) \<times> 'h machine" where
  "wrapped wrap f m = (case f m of (Inl err, m) \<Rightarrow> (Inl (wrap err), m) | (Inr _, m) \<Rightarrow> (Inr (), m))"

definition mkdir_for :: "('h, 't) installer \<Rightarrow> string \<Rightarrow> ('h, unit) action" where
  "mkdir_for i p =
     (let dir = path_dir p in
      if in_works i ''mkdir'' dir then attempt (\<lambda>m. ((), MkdirAll dir systemDirMode m)) else failI (FileFailed dir Denied))"

section \<open>The steps of an installation\<close>

definition requireDokku :: "('h, 't) installer \<Rightarrow> ('h, unit) action" where
  "requireDokku i =
     thenI (call (\<lambda>err. case err of ErrNoSuchGroup _ \<Rightarrow> NoDokkuGroup | _ \<Rightarrow> HostFailed err) (LookupGroup (in_ops i) DokkuGroup)) (\<lambda>_.
     thenI (call (\<lambda>err. case err of ErrNoSuchUser _ \<Rightarrow> NoDokkuUser | _ \<Rightarrow> HostFailed err) (LookupUser (in_ops i) DefaultRunAs)) (\<lambda>_.
     thenI (asking (exists (path i DefaultDokku))) (\<lambda>there.
     if there then returnI () else failI NoDokkuBinary)))"

definition remove_group :: "('h, 't) installer \<Rightarrow> 'h machine \<Rightarrow> (install_error + unit) \<times> 'h machine" where
  "remove_group i = wrapped HostFailed (RemoveGroup (in_ops i) Group)"

definition remove_user :: "('h, 't) installer \<Rightarrow> 'h machine \<Rightarrow> (install_error + unit) \<times> 'h machine" where
  "remove_user i = wrapped HostFailed (RemoveUser (in_ops i) User)"

definition had_group :: "host_error + Account \<Rightarrow> ('h, bool) action" where
  "had_group r = (case r of Inr _ \<Rightarrow> returnI True | Inl (ErrNoSuchGroup _) \<Rightarrow> returnI False | Inl err \<Rightarrow> failI (HostFailed err))"

definition account_spec :: UserSpec where
  "account_spec = \<lparr>us_Name = User, us_Group = Group, us_Shell = Nologin, us_Home = nonexistentHome\<rparr>"

definition ensureGroup :: "('h, 't) installer \<Rightarrow> ('h, unit) action" where
  "ensureGroup i =
     thenI (attempt (LookupGroup (in_ops i) Group)) (\<lambda>r.
     thenI (had_group r) (\<lambda>hadGroup.
     thenI (call HostFailed (EnsureGroup (in_ops i) Group)) (\<lambda>_.
     if hadGroup then returnI () else undoing (''removing the group '' @ Group) (remove_group i))))"

definition ensureUser :: "('h, 't) installer \<Rightarrow> ('h, unit) action" where
  "ensureUser i =
     thenI (attempt (EnsureUser (in_ops i) account_spec)) (\<lambda>(created, err).
     case err of Some err \<Rightarrow> failI (HostFailed err)
     | None \<Rightarrow> if created then undoing (''removing the user '' @ User) (remove_user i) else returnI ())"

definition ensureAccount :: "('h, 't) installer \<Rightarrow> ('h, Account) action" where
  "ensureAccount i =
     thenI (ensureGroup i) (\<lambda>_.
     thenI (ensureUser i) (\<lambda>_.
     thenI (call HostFailed (JoinGroup (in_ops i) User DokkuGroup)) (\<lambda>_.
     call HostFailed (LookupUser (in_ops i) User))))"

text \<open>One directory of the loop of ensureDataDir.\<close>

definition ensure_dir :: "('h, 't) installer \<Rightarrow> Account \<Rightarrow> string \<Rightarrow> ('h, unit) action" where
  "ensure_dir i owner dir =
     (let p = path i dir in
      thenI (asking (exists p)) (\<lambda>had.
      thenI (call HostFailed (EnsureDir (in_ops i) p dataDirMode owner)) (\<lambda>_.
      if had then returnI ()
      else undoing (''removing '' @ dir) (wrapped (FileFailed p) (RemoveAll (in_works i ''removeall'' p) p)))))"

definition ensureDataDir :: "('h, 't) installer \<Rightarrow> Account \<Rightarrow> ('h, unit) action" where
  "ensureDataDir i owner = thenI (ensure_dir i owner DataDir) (\<lambda>_. ensure_dir i owner TLSDir)"

definition remove_missing_ok :: "('h, 't) installer \<Rightarrow> string \<Rightarrow> 'h machine \<Rightarrow> (install_error + unit) \<times> 'h machine" where
  "remove_missing_ok i p m = (case on_files (os_Remove (in_works i ''remove'' p) p) m of
     (Inl Denied, m) \<Rightarrow> (Inl (FileFailed p Denied), m) | (_, m) \<Rightarrow> (Inr (), m))"

definition restorer :: "('h, 't) installer \<Rightarrow> string \<Rightarrow> string option \<Rightarrow> nat \<Rightarrow> 'h machine \<Rightarrow> (install_error + unit) \<times> 'h machine" where
  "restorer i p previous mode m =
     (case previous of
        None \<Rightarrow> remove_missing_ok i p m
      | Some content \<Rightarrow>
        (case on_files (os_Write (in_works i ''write'' p) p content mode) m of
           (Inl err, m) \<Rightarrow> (Inl (FileFailed p err), m)
         | (Inr _, m) \<Rightarrow> wrapped (FileFailed p) (on_files (os_Chmod (in_works i ''chmod'' p) p mode)) m))"

definition read_previous :: "('h, 't) installer \<Rightarrow> string \<Rightarrow> ('h, string option) action" where
  "read_previous i p = call (FileFailed p) (\<lambda>m. (readIfExists (in_works i ''read'' p) p (file_at m), m))"

definition write_file :: "('h, 't) installer \<Rightarrow> string \<Rightarrow> string \<Rightarrow> nat \<Rightarrow> ('h, unit) action" where
  "write_file i p data mode = call (FileFailed p) (on_files (os_Write (in_works i ''write'' p) p data mode))"

definition sudo_rule :: string where
  "sudo_rule = User @ '' ALL=('' @ DefaultRunAs @ '') NOPASSWD: '' @ DefaultDokku @ [CHR 0x0A] @
     User @ '' ALL=(root) NOPASSWD: '' @ DefaultBinary @ '' reload '' @ nginxUnit @ [CHR 0x0A]"

definition ensureSudoers :: "('h, 't) installer \<Rightarrow> ('h, unit) action" where
  "ensureSudoers i =
     (let p = path i Sudoers in
      thenI (mkdir_for i p) (\<lambda>_.
      thenI (read_previous i p) (\<lambda>previous.
      thenI (call HostFailed (WriteSudoers (in_ops i) p sudo_rule)) (\<lambda>_.
      thenI (undoing (''putting back '' @ Sudoers) (restorer i p previous 288)) (\<lambda>_.
      call SudoDoesNotWork (ProveSudo (in_ops i) User DefaultRunAs DefaultDokku [''version'']))))))"

text \<open>A failure after which the staged file is taken away, whatever comes of that.\<close>

definition discarding :: "('h, 't) installer \<Rightarrow> string \<Rightarrow> ('e \<Rightarrow> install_error) \<Rightarrow> ('h machine \<Rightarrow> ('e + 'a) \<times> 'h machine) \<Rightarrow> ('h, 'a) action" where
  "discarding i staged wrap f = (\<lambda>(us, m). case f m of
       (Inl err, m) \<Rightarrow> Some (Inl (wrap err), us, snd (on_files (os_Remove (in_works i ''remove'' staged) staged) m))
     | (Inr x, m) \<Rightarrow> Some (Inr x, us, m))"

definition keep_previous :: "('h, 't) installer \<Rightarrow> ('h, unit) action" where
  "keep_previous i =
     (let target = path i Binary; previous = path i PreviousBinary; staged = target @ ''.new'' in
      thenI (discarding i staged (FileFailed previous) (\<lambda>m. case on_files (os_Remove (in_works i ''remove'' previous) previous) m of
          (Inl Denied, m) \<Rightarrow> (Inl Denied, m) | (_, m) \<Rightarrow> (Inr (), m))) (\<lambda>_.
      discarding i staged (FileFailed previous) (on_files (os_Link (in_works i ''link'' previous) target previous))))"

definition installBinary :: "('h, 't) installer \<Rightarrow> ('h, unit) action" where
  "installBinary i =
     (let target = path i Binary; previous = path i PreviousBinary; staged = target @ ''.new'' in
      thenI (asking (\<lambda>m. exists (in_self i) m \<and> exists target m \<and> in_sameFile i (in_self i) target (fst m))) (\<lambda>same.
      if same then returnI ()
      else
        thenI (mkdir_for i target) (\<lambda>_.
        thenI (discarding i staged (FileFailed staged) (on_files (copyFile (in_works i) (in_self i) staged binaryMode))) (\<lambda>_.
        thenI (asking (exists target)) (\<lambda>hadBinary.
        thenI (if hadBinary then keep_previous i else returnI ()) (\<lambda>_.
        thenI (discarding i staged (FileFailed target) (on_files (os_Rename (in_works i ''rename'' staged) staged target))) (\<lambda>_.
        if hadBinary then undoing (''putting back the previous '' @ Binary)
            (wrapped (FileFailed target) (on_files (os_Rename (in_works i ''rename'' previous) previous target)))
        else undoing (''removing '' @ Binary)
            (wrapped (FileFailed target) (on_files (os_Remove (in_works i ''remove'' target) target))))))))))"

text \<open>writeOwnedFile gives what puts back what was there.\<close>

definition writeOwnedFile :: "('h, 't) installer \<Rightarrow> string \<Rightarrow> string \<Rightarrow> nat
    \<Rightarrow> ('h, 'h machine \<Rightarrow> (install_error + unit) \<times> 'h machine) action" where
  "writeOwnedFile i p content mode =
     thenI (mkdir_for i p) (\<lambda>_.
     thenI (read_previous i p) (\<lambda>previous.
     thenI (write_file i p content mode) (\<lambda>_.
     thenI (call (FileFailed p) (on_files (os_Chmod (in_works i ''chmod'' p) p mode))) (\<lambda>_.
     returnI (restorer i p previous mode)))))"

definition replaceFile :: "('h, 't) installer \<Rightarrow> string \<Rightarrow> string \<Rightarrow> nat \<Rightarrow> ('h, unit) action" where
  "replaceFile i p content mode = thenI (writeOwnedFile i p content mode) (\<lambda>restore. undoing (''putting back '' @ p) restore)"

definition installCertificate :: "('h, 't) installer \<Rightarrow> site \<Rightarrow> ('h, unit) action" where
  "installCertificate i s =
     (case st_certPEM s of None \<Rightarrow> returnI ()
      | Some certPEM \<Rightarrow>
        thenI (replaceFile i (path i TLSCert) certPEM readableMode) (\<lambda>_.
        replaceFile i (path i TLSKey) (st_keyPEM s) keyMode))"
definition vhost_text :: "('h, 't) installer \<Rightarrow> site \<Rightarrow> string" where
  "vhost_text i s = VhostFile \<lparr>vc_How = st_how s, vc_Domain = st_domain s, vc_IP = st_ip s, vc_Port = 0, vc_Listen = cf_listen (in_cfg i)\<rparr>"

definition candidate :: "('h, 't) installer \<Rightarrow> string" where
  "candidate i = path i DataDir @ ''/vhost.candidate''"

definition vhostRestorer :: "('h, 't) installer \<Rightarrow> string \<Rightarrow> string option \<Rightarrow> 'h machine \<Rightarrow> (install_error + unit) \<times> 'h machine" where
  "vhostRestorer i p previous m =
     (case restorer i p previous readableMode m of
        (Inl err, m) \<Rightarrow> (Inl err, m)
      | (Inr _, m) \<Rightarrow> wrapped VhostRefused (CheckProxy (in_ops i)) m)"

text \<open>The step up to the removal of the candidate, which is deferred.\<close>

definition putVhost :: "('h, 't) installer \<Rightarrow> site \<Rightarrow> ('h, unit) action" where
  "putVhost i s =
     (let target = path i Vhost; staging = path i VhostStaging; text = vhost_text i s in
      thenI (call FragmentRefused (CheckProxyFragment (in_ops i) (candidate i))) (\<lambda>_.
      thenI (read_previous i target) (\<lambda>previous.
      thenI (mkdir_for i target) (\<lambda>_.
      thenI (write_file i staging text readableMode) (\<lambda>_.
      thenI (discarding i staging (FileFailed target) (on_files (os_Rename (in_works i ''rename'' staging) staging target))) (\<lambda>_.
      thenI (undoing (''taking '' @ Vhost @ '' back out'') (vhostRestorer i target previous)) (\<lambda>_.
      call VhostRefused (CheckProxy (in_ops i)))))))))"

definition deferring :: "('h machine \<Rightarrow> 'h machine) \<Rightarrow> ('h, 'a) action \<Rightarrow> ('h, 'a) action" where
  "deferring d a = (\<lambda>s. case a s of None \<Rightarrow> None | Some (r, us, m) \<Rightarrow> Some (r, us, d m))"

definition installVhost :: "('h, 't) installer \<Rightarrow> site \<Rightarrow> ('h, unit) action" where
  "installVhost i s =
     thenI (write_file i (candidate i) (vhost_text i s) readableMode) (\<lambda>_.
     deferring (\<lambda>m. snd (on_files (os_Remove (in_works i ''remove'' (candidate i)) (candidate i)) m)) (putVhost i s))"

definition unit_text :: "('h, 't) installer \<Rightarrow> site \<Rightarrow> string" where
  "unit_text i s = UnitFile \<lparr>uc_Listen = cf_listen (in_cfg i), uc_Mode = st_mode s, uc_Domain = st_domain s,
     uc_PlainHTTP = (st_how s = AtIPPlain), uc_ManageCertificate = st_manageCert s,
     uc_ACMEEmail = cf_acmeEmail (in_cfg i), uc_ACMEDirectory = cf_acmeDirectory (in_cfg i)\<rparr>"

definition unit_restorer :: "('h, 't) installer \<Rightarrow> ('h machine \<Rightarrow> (install_error + unit) \<times> 'h machine)
    \<Rightarrow> 'h machine \<Rightarrow> (install_error + unit) \<times> 'h machine" where
  "unit_restorer i restore m = (case restore m of (Inl err, m) \<Rightarrow> (Inl err, m)
     | (Inr _, m) \<Rightarrow> wrapped ManagerFailed (mg_DaemonReload (in_manager i)) m)"

definition installUnit :: "('h, 't) installer \<Rightarrow> site \<Rightarrow> ('h, unit) action" where
  "installUnit i s =
     thenI (writeOwnedFile i (path i Unit) (unit_text i s) readableMode) (\<lambda>restore.
     thenI (undoing (''putting back '' @ Unit) (unit_restorer i restore)) (\<lambda>_.
     call ManagerFailed (mg_DaemonReload (in_manager i))))"

definition reloadProxy :: "('h, 't) installer \<Rightarrow> ('h, unit) action" where
  "reloadProxy i = call ManagerFailed (mg_Reload (in_manager i) nginxUnit)"

definition wait_service :: "('h, 't) installer \<Rightarrow> ('h, unit) action" where
  "wait_service i = (\<lambda>(us, m). case waitHealthy (in_wait i (fst m)) (in_version i) (in_timeout i) (snd m) of
     None \<Rightarrow> None
   | Some (Inl err, h) \<Rightarrow> Some (Inl (Unhealthy err), us, fst m, h)
   | Some (Inr _, h) \<Rightarrow> Some (Inr (), us, fst m, h))"

definition startService :: "('h, 't) installer \<Rightarrow> ('h, unit) action" where
  "startService i =
     thenI (call ManagerFailed (mg_IsActive (in_manager i))) (\<lambda>running.
     thenI (call ManagerFailed (mg_Enable (in_manager i))) (\<lambda>_.
     thenI (undoing (''stopping and disabling '' @ Name) (wrapped ManagerFailed (mg_Disable (in_manager i)))) (\<lambda>_.
     thenI (if running then call ManagerFailed (mg_Restart (in_manager i)) else returnI ()) (\<lambda>_.
     wait_service i))))"

definition confirmSite :: "('h, 't) installer \<Rightarrow> site \<Rightarrow> ('h, unit) action" where
  "confirmSite i s = (\<lambda>(us, m). case in_confirmProxy i s m of
     None \<Rightarrow> None
   | Some (Inl err, m) \<Rightarrow> Some (Inl (Unreachable err), us, m)
   | Some (Inr _, m) \<Rightarrow> Some (Inr (), us, m))"

text \<open>Who signed the certificate on disk, if anyone but this host did.\<close>

definition issuedCertificate :: "('h, 't) installer \<Rightarrow> 'h machine \<Rightarrow> string option" where
  "issuedCertificate i m =
     (case os_Read (in_works i ''read'' (path i TLSCert)) (path i TLSCert) (file_at m) of
        Inl _ \<Rightarrow> None
      | Inr pem \<Rightarrow>
        (case cr_pemDecode (in_crypto i) pem of None \<Rightarrow> None
         | Some der \<Rightarrow>
           (case cr_parseCertificate (in_crypto i) der of None \<Rightarrow> None
            | Some lf \<Rightarrow> if lf_selfSigned lf then None
                else Some (case lf_organization lf of org # _ \<Rightarrow> org | [] \<Rightarrow> lf_commonName lf))))"

partial_function (option) await_until :: "('h, 't) installer \<Rightarrow> int \<Rightarrow> 'h machine \<Rightarrow> (string option \<times> 'h machine) option" where
  "await_until i deadline m =
     (case issuedCertificate i m of
        Some issuer \<Rightarrow> Some (Some issuer, m)
      | None \<Rightarrow> (let (done, m) = in_tick i deadline m in if done then Some (None, m) else await_until i deadline m))"

definition awaitCertificate :: "('h, 't) installer \<Rightarrow> 'h machine \<Rightarrow> (string option \<times> 'h machine) option" where
  "awaitCertificate i m =
     await_until i (in_now i m + (if in_certWait i \<le> 0 then certificateWaitTimeout else in_certWait i)) m"

text \<open>The steps that may fail, and then the two that do not.\<close>

definition change_host :: "('h, 't) installer \<Rightarrow> site \<Rightarrow> ('h, unit) action" where
  "change_host i s =
     thenI (ensureAccount i) (\<lambda>account.
     thenI (ensureDataDir i account) (\<lambda>_.
     thenI (ensureSudoers i) (\<lambda>_.
     thenI (installBinary i) (\<lambda>_.
     thenI (installCertificate i s) (\<lambda>_.
     thenI (installVhost i s) (\<lambda>_.
     thenI (installUnit i s) (\<lambda>_.
     thenI (reloadProxy i) (\<lambda>_.
     thenI (startService i) (\<lambda>_.
     confirmSite i s)))))))))"

definition finish :: "('h, 't) installer \<Rightarrow> site \<Rightarrow> 'h machine \<Rightarrow> ('t \<times> 'h machine) option" where
  "finish i s m =
     (case (if st_manageCert s then awaitCertificate i m else Some (None, m)) of
        None \<Rightarrow> None | Some (_, m) \<Rightarrow> Some (in_issueToken i m))"

text \<open>Unwinding: the newest step first, and a step that fails is reported and does not stop the rest.\<close>

fun undo_all :: "'h undoStep list \<Rightarrow> 'h machine \<Rightarrow> string list \<times> 'h machine" where
  "undo_all [] m = ([], m)"
| "undo_all (u # us) m = (case ud_run u m of (r, m) \<Rightarrow>
     (case undo_all us m of (fs, m) \<Rightarrow> (case r of Inl _ \<Rightarrow> ud_what u # fs | Inr _ \<Rightarrow> fs, m)))"

definition unwind :: "'h undoStep list \<Rightarrow> 'h machine \<Rightarrow> string list \<times> 'h machine" where
  "unwind us m = undo_all (rev us) m"

datatype ('t) installed = Installed site 't

text \<open>The whole of it: what it comes to, the undo steps that could not be done, and the machine.\<close>

definition install :: "('h, 't) installer \<Rightarrow> 'h machine \<Rightarrow> ((install_error + 't installed) \<times> string list \<times> 'h machine) option" where
  "install i m =
     (case requireDokku i ([], m) of
        None \<Rightarrow> None
      | Some (Inl err, _, m) \<Rightarrow> Some (Inl err, [], m)
      | Some (Inr _, _, m) \<Rightarrow>
        (case resolveSite i m of
           Inl err \<Rightarrow> Some (Inl err, [], m)
         | Inr s \<Rightarrow>
           (case CheckProxy (in_ops i) m of
              (Inl err, m) \<Rightarrow> Some (Inl (ProxyAlreadyBroken err), [], m)
            | (Inr _, m) \<Rightarrow>
              (case change_host i s ([], m) of
                 None \<Rightarrow> None
               | Some (Inl err, us, m) \<Rightarrow> (let (couldnot, m) = unwind us m in Some (Inl err, couldnot, m))
               | Some (Inr _, _, m) \<Rightarrow>
                 (case finish i s m of None \<Rightarrow> None | Some (token, m) \<Rightarrow> Some (Inr (Installed s token), [], m))))))"

definition installPreflight :: "string \<Rightarrow> int \<Rightarrow> install_error + unit" where
  "installPreflight goos euid = (if goos \<noteq> ''linux'' then Inl NotLinux else if euid \<noteq> 0 then Inl NotRoot else Inr ())"

definition runInstall :: "string \<Rightarrow> int \<Rightarrow> ('h, 't) installer \<Rightarrow> 'h machine
    \<Rightarrow> ((install_error + 't installed) \<times> string list \<times> 'h machine) option" where
  "runInstall goos euid i m = (case installPreflight goos euid of Inl err \<Rightarrow> Some (Inl err, [], m) | Inr _ \<Rightarrow> install i m)"

end
