(* ===== verification/Authn.thy ===== *)
theory Authn
  imports Install
begin

text \<open>
  internal/authn: the challenge put to the operator before anything is removed. The environment, the
  passwd database, the search of the PATH, the opening of the terminal and the run of sudo are fields;
  what the model keeps of a run is whether sudo accepted, refused, or did not run.
\<close>

section \<open>The challenge of the host's name\<close>

datatype refusal = NothingTyped | NotThisHost string | PasswordNotAccepted | NoTerminal
datatype confirm_error = ErrNotConfirmed refusal | HostnameUnreadable | SudoNotRun string

text \<open>cm_In is what is left of the standard input; cm_osHostname is what os.Hostname answers.\<close>

record 'h Confirmer =
  cm_In :: string
  cm_Password :: "('h machine \<Rightarrow> (confirm_error + unit) \<times> 'h machine) option"
  cm_Hostname :: string
  cm_osHostname :: "string option"

text \<open>strings.Cut at the first dot, of which the part before it is kept.\<close>

definition firstLabel :: "string \<Rightarrow> string" where
  "firstLabel name = cut_before (CHR ''.'') name"

text \<open>ReadString up to a newline, kept, or up to the end of the input.\<close>

fun ReadString :: "string \<Rightarrow> string" where
  "ReadString [] = []"
| "ReadString (c # cs) = (if c = CHR 0x0A then [c] else c # ReadString cs)"

definition confirmHostname :: "'h Confirmer \<Rightarrow> confirm_error + unit" where
  "confirmHostname c =
     (case (if cm_Hostname c = [] then cm_osHostname c else Some (cm_Hostname c)) of
        None \<Rightarrow> Inl HostnameUnreadable
      | Some want \<Rightarrow>
        (let got = TrimSpace (ReadString (cm_In c)) in
         if got = [] then Inl (ErrNotConfirmed NothingTyped)
         else if \<not> EqualFold got want \<and> \<not> EqualFold got (firstLabel want) then Inl (ErrNotConfirmed (NotThisHost got))
         else Inr ()))"

definition Confirm :: "'h Confirmer \<Rightarrow> 'h machine \<Rightarrow> (confirm_error + unit) \<times> 'h machine" where
  "Confirm c m =
     (case cm_Password c of
        None \<Rightarrow> (confirmHostname c, m)
      | Some prompt \<Rightarrow>
        (case prompt m of
           (Inr _, m) \<Rightarrow> (Inr (), m)
         | (Inl (ErrNotConfirmed why), m) \<Rightarrow> (Inl (ErrNotConfirmed why), m)
         | (Inl _, m) \<Rightarrow> (confirmHostname c, m)))"

section \<open>The challenge of the password\<close>

text \<open>strconv.ParseUint in base 10: digits alone, and a value of that many bits.\<close>

definition ParseUint :: "string \<Rightarrow> nat \<Rightarrow> nat option" where
  "ParseUint s bits = (if s \<noteq> [] \<and> (\<forall>c \<in> set s. is_digit c) \<and> read_nat s < 2 ^ bits then Some (read_nat s) else None)"

record passwd_entry =
  pw_Username :: string
  pw_HomeDir :: string

text \<open>A process to start: its program and arguments, the account it is dropped to, and its environment.\<close>

record command =
  co_path :: string
  co_args :: "string list"
  co_uid :: nat
  co_gid :: nat
  co_env :: "string list"

record 'h sudo_env =
  se_Getenv :: "string \<Rightarrow> string"
  se_LookupId :: "string \<Rightarrow> passwd_entry option"
  se_LookPath :: "string \<Rightarrow> string option"
  se_tty :: bool
  se_run :: "command \<Rightarrow> 'h machine \<Rightarrow> run_error option \<times> 'h machine"

definition passwordPrompt :: string where
  "passwordPrompt = ''dokkup uninstall: password for %p: ''"

definition refuseWithoutTerminal :: "'h machine \<Rightarrow> (confirm_error + unit) \<times> 'h machine" where
  "refuseWithoutTerminal m = (Inl (ErrNotConfirmed NoTerminal), m)"

definition sudo_command :: "'h sudo_env \<Rightarrow> string \<Rightarrow> nat \<Rightarrow> nat \<Rightarrow> passwd_entry \<Rightarrow> command" where
  "sudo_command e sudo uid gid invoker =
     \<lparr>co_path = sudo, co_args = [''-k'', ''-p'', passwordPrompt, ''-v''], co_uid = uid, co_gid = gid,
      co_env = [''PATH=/usr/sbin:/usr/bin:/sbin:/bin'', ''HOME='' @ pw_HomeDir invoker, ''USER='' @ pw_Username invoker,
        ''LOGNAME='' @ pw_Username invoker, ''TERM='' @ se_Getenv e ''TERM'', ''LANG='' @ se_Getenv e ''LANG'']\<rparr>"

definition askPassword :: "'h sudo_env \<Rightarrow> string \<Rightarrow> nat \<Rightarrow> nat \<Rightarrow> passwd_entry \<Rightarrow> 'h machine \<Rightarrow> (confirm_error + unit) \<times> 'h machine" where
  "askPassword e sudo uid gid invoker m =
     (case se_run e (sudo_command e sudo uid gid invoker) m of
        (None, m) \<Rightarrow> (Inr (), m)
      | (Some (ExitError _), m) \<Rightarrow> (Inl (ErrNotConfirmed PasswordNotAccepted), m)
      | (Some NotRun, m) \<Rightarrow> (Inl (SudoNotRun sudo), m))"

definition SudoPassword :: "'h sudo_env \<Rightarrow> ('h machine \<Rightarrow> (confirm_error + unit) \<times> 'h machine) option" where
  "SudoPassword e =
     (case ParseUint (se_Getenv e ''SUDO_UID'') 32 of
        None \<Rightarrow> None
      | Some uid \<Rightarrow>
        if uid = 0 then None
        else (case ParseUint (se_Getenv e ''SUDO_GID'') 32 of
            None \<Rightarrow> None
          | Some gid \<Rightarrow>
            (case se_LookupId e (Itoa (int uid)) of
               None \<Rightarrow> None
             | Some invoker \<Rightarrow>
               if pw_Username invoker \<noteq> se_Getenv e ''SUDO_USER'' then None
               else (case se_LookPath e ''sudo'' of
                   None \<Rightarrow> None
                 | Some sudo \<Rightarrow> if se_tty e then Some (askPassword e sudo uid gid invoker) else Some refuseWithoutTerminal))))"

section \<open>What a confirmation proves\<close>

text \<open>The name typed: what the first line says, which is this host's name or the first label of it.\<close>

definition typed_name :: "'h Confirmer \<Rightarrow> bool" where
  "typed_name c \<longleftrightarrow> (\<exists>want. (if cm_Hostname c = [] then cm_osHostname c else Some (cm_Hostname c)) = Some want \<and>
     TrimSpace (ReadString (cm_In c)) \<noteq> [] \<and>
     (EqualFold (TrimSpace (ReadString (cm_In c))) want \<or> EqualFold (TrimSpace (ReadString (cm_In c))) (firstLabel want)))"

lemma confirmHostname_iff: "confirmHostname c = Inr u \<longleftrightarrow> typed_name c"
  by (auto simp: confirmHostname_def typed_name_def Let_def split: option.splits if_splits)

text \<open>sudo, asked as the account that started this command, which is not root.\<close>

definition sudo_asked :: "'h sudo_env \<Rightarrow> command \<Rightarrow> bool" where
  "sudo_asked e c \<longleftrightarrow> (\<exists>sudo uid gid invoker. c = sudo_command e sudo uid gid invoker \<and> 0 < uid \<and> uid < 2 ^ 32 \<and>
     ParseUint (se_Getenv e ''SUDO_UID'') 32 = Some uid \<and> ParseUint (se_Getenv e ''SUDO_GID'') 32 = Some gid \<and>
     se_LookupId e (Itoa (int uid)) = Some invoker \<and> pw_Username invoker = se_Getenv e ''SUDO_USER'' \<and>
     se_LookPath e ''sudo'' = Some sudo \<and> se_tty e)"

lemma SudoPassword_cases:
  assumes "SudoPassword e = Some prompt"
  obtains (no_terminal) "prompt = refuseWithoutTerminal" "\<not> se_tty e"
    | (asks) sudo uid gid invoker where "prompt = askPassword e sudo uid gid invoker" "sudo_asked e (sudo_command e sudo uid gid invoker)"
proof -
  obtain uid gid invoker sudo where s: "ParseUint (se_Getenv e ''SUDO_UID'') 32 = Some uid" "uid \<noteq> 0"
    "ParseUint (se_Getenv e ''SUDO_GID'') 32 = Some gid" "se_LookupId e (Itoa (int uid)) = Some invoker"
    "pw_Username invoker = se_Getenv e ''SUDO_USER''" "se_LookPath e ''sudo'' = Some sudo"
    and a: "prompt = (if se_tty e then askPassword e sudo uid gid invoker else refuseWithoutTerminal)"
    using assms by (auto simp: SudoPassword_def split: option.splits if_splits)
  have "uid < 2 ^ 32" using s(1) by (simp add: ParseUint_def split: if_splits)
  with s a that show thesis unfolding sudo_asked_def by (cases "se_tty e") auto
qed

lemma confirmed_by:
  assumes "Confirm c m = (Inr (), m')" "cm_Password c = SudoPassword e"
  shows "(\<exists>com. sudo_asked e com \<and> se_run e com m = (None, m')) \<or>
    (typed_name c \<and> (SudoPassword e = None \<and> m' = m \<or> (\<exists>com. sudo_asked e com \<and> se_run e com m = (Some NotRun, m'))))"
proof (cases "SudoPassword e")
  case None
  with assms show ?thesis by (auto simp: Confirm_def confirmHostname_iff)
next
  case (Some prompt)
  then show ?thesis
  proof (cases rule: SudoPassword_cases)
    case no_terminal
    with assms Some show ?thesis by (simp add: Confirm_def refuseWithoutTerminal_def)
  next
    case (asks sudo uid gid invoker)
    obtain r m1 where r: "se_run e (sudo_command e sudo uid gid invoker) m = (r, m1)" by (rule prod.exhaust)
    show ?thesis
    proof (cases r)
      case None
      with assms Some asks r have "m1 = m'" by (simp add: Confirm_def askPassword_def)
      with asks(2) r None show ?thesis by blast
    next
      case (Some x)
      with assms asks r \<open>SudoPassword e = Some prompt\<close> have "x = NotRun" "confirmHostname c = Inr ()" "m1 = m'"
        by (cases x; simp add: Confirm_def askPassword_def)+
      with asks(2) r Some show ?thesis by (auto simp: confirmHostname_iff)
    qed
  qed
qed

text \<open>
  A confirmation is evidence. Confirm succeeds in two ways only. Either sudo itself accepted a
  password: a sudo found on the PATH, run as `sudo -k -v` on a terminal and dropped to the account that
  SUDO_UID names, which is not root, is within 32 bits and is in the passwd database under the name in
  SUDO_USER. Or the first line typed is, but for case and blanks, this host's name or its first label,
  and not nothing; and this is asked only where there is no sudo session, or where sudo did not run:
  a password that sudo refused, or a session with no terminal, is never downgraded to the name.
\<close>

theorem confirmation_is_evidence:
  assumes "Confirm c m = (Inr (), m')" "cm_Password c = SudoPassword e"
  shows "(\<exists>com. sudo_asked e com \<and> se_run e com m = (None, m')) \<or>
    (typed_name c \<and> (SudoPassword e = None \<and> m' = m \<or> (\<exists>com. sudo_asked e com \<and> se_run e com m = (Some NotRun, m'))))"
  by (rule confirmed_by [OF assms])

text \<open>A closed input confirms nothing, whatever challenge is left.\<close>

lemma nothing_typed: "cm_In c = [] \<Longrightarrow> confirmHostname c \<noteq> Inr ()"
  by (auto simp: confirmHostname_iff typed_name_def TrimSpace_def)

definition test_session :: "string \<Rightarrow> bool \<Rightarrow> unit sudo_env" where
  "test_session uid tty = \<lparr>se_Getenv = (\<lambda>v. if v = ''SUDO_UID'' then uid else if v = ''SUDO_GID'' then ''1000''
       else if v = ''SUDO_USER'' then ''ana'' else []),
     se_LookupId = (\<lambda>i. if i = ''1000'' then Some \<lparr>pw_Username = ''ana'', pw_HomeDir = ''/home/ana''\<rparr> else None),
     se_LookPath = (\<lambda>p. Some ''/usr/bin/sudo''), se_tty = tty, se_run = (\<lambda>c m. (None, m))\<rparr>"

definition test_confirmer :: "unit sudo_env \<Rightarrow> string \<Rightarrow> unit Confirmer" where
  "test_confirmer e stdin = \<lparr>cm_In = stdin, cm_Password = SudoPassword e, cm_Hostname = [], cm_osHostname = Some ''dokku.example.com''\<rparr>"

text \<open>
  At a sudo session of uid 1000 with a terminal; and at one of uid 0, where the name is asked, typed in
  capitals and without its domain.
\<close>

lemma confirmation_is_evidence_witness:
  "(\<exists>com. sudo_asked (test_session ''1000'' True) com) \<and> typed_name (test_confirmer (test_session ''0'' True) ''DOKKU '')"
proof -
  obtain w :: "unit machine" where "w = w" by simp
  have "Itoa 1000 = ''1000''" by code_simp
  then have uid: "ParseUint ''1000'' 32 = Some 1000" "Itoa (int 1000) = ''1000''" "ParseUint ''0'' 32 = Some 0"
    by (simp_all add: ParseUint_def is_digit_def digit_val_def read_nat_def)
  have 1: "Confirm (test_confirmer (test_session ''1000'' True) []) w = (Inr (), w)"
    using uid by (simp add: Confirm_def test_confirmer_def test_session_def SudoPassword_def askPassword_def)
  have 2: "SudoPassword (test_session ''0'' True) = None"
    using uid by (simp add: test_session_def SudoPassword_def)
  have 3: "Confirm (test_confirmer (test_session ''0'' True) ''DOKKU '') w = (Inr (), w)"
    using 2 by (simp add: Confirm_def test_confirmer_def) (simp add: confirmHostname_def test_confirmer_def go_simps firstLabel_def Let_def)
  have "SudoPassword (test_session ''1000'' True) \<noteq> None"
    using uid by (simp add: test_session_def SudoPassword_def)
  moreover have "\<not> typed_name (test_confirmer (test_session ''1000'' True) [])"
    by (simp add: typed_name_def test_confirmer_def TrimSpace_def)
  moreover have "cm_Password (test_confirmer e i) = SudoPassword e" for e i by (simp add: test_confirmer_def)
  moreover have "\<not> sudo_asked (test_session ''0'' True) com" for com
    using uid(3) by (simp add: sudo_asked_def test_session_def)
  ultimately show ?thesis
    using confirmation_is_evidence [OF 1] confirmation_is_evidence [OF 3] by blast
qed

end
