(* ===== verification/Install_Unwind.thy ===== *)
theory Install_Unwind
  imports Install
begin

text \<open>
  A failed installation leaves the host as it found it: for each step, that what it registers undoes
  what it changed, composed along the run as the code composes the steps.
\<close>

section \<open>As it was found\<close>

text \<open>
  The same contents of every file outside a set, the same directories, users and groups. Modes and
  owners of what was there already are set again by an installation and are not put back.
\<close>

definition found :: "('h \<Rightarrow> string set) \<Rightarrow> ('h \<Rightarrow> string set) \<Rightarrow> string set \<Rightarrow> 'h machine \<Rightarrow> 'h machine \<Rightarrow> bool" where
  "found users groups A m m' \<longleftrightarrow>
     (\<forall>q. q \<notin> A \<longrightarrow> map_option f_data (file_at m' q) = map_option f_data (file_at m q)) \<and>
     (\<forall>d. dir_at m' d = None \<longleftrightarrow> dir_at m d = None) \<and>
     users (snd m') = users (snd m) \<and> groups (snd m') = groups (snd m)"

lemma found_refl [simp]: "found u g A m m"
  by (simp add: found_def)

lemma found_trans: "found u g A m1 m2 \<Longrightarrow> found u g A m2 m3 \<Longrightarrow> found u g A m1 m3"
  by (simp add: found_def)

lemma found_mono: "found u g A m m' \<Longrightarrow> A \<subseteq> B \<Longrightarrow> found u g B m m'"
  by (auto simp: found_def)

lemma found_same_host: "same_host u g m m' \<Longrightarrow> found u g A m m'"
  by (simp add: found_def same_host_def)

lemma found_same_but: "same_but u g B m m' \<Longrightarrow> B \<subseteq> A \<Longrightarrow> found u g A m m'"
  by (auto simp: found_def same_but_def)

section \<open>Undoing\<close>

definition undoes :: "('h \<Rightarrow> string set) \<Rightarrow> ('h \<Rightarrow> string set) \<Rightarrow> string set \<Rightarrow> string set \<Rightarrow> 'h undoStep list
    \<Rightarrow> 'h machine \<Rightarrow> 'h machine \<Rightarrow> bool" where
  "undoes u g A C new m' m \<longleftrightarrow>
     (\<forall>x. found u g A m' x \<longrightarrow> fst (unwind new x) = [] \<longrightarrow> found u g C m (snd (unwind new x)))"

lemma undo_all_append: "undo_all (a @ b) m =
    (fst (undo_all a m) @ fst (undo_all b (snd (undo_all a m))), snd (undo_all b (snd (undo_all a m))))"
  by (induction a arbitrary: m) (auto simp: split_beta split: sum.splits)

lemma unwind_append: "unwind (a @ b) m =
    (fst (unwind b m) @ fst (unwind a (snd (unwind b m))), snd (unwind a (snd (unwind b m))))"
  by (simp add: unwind_def undo_all_append)

lemma undoes_append: "undoes u g A B b m2 m1 \<Longrightarrow> undoes u g B C a m1 m \<Longrightarrow> undoes u g A C (a @ b) m2 m"
  unfolding undoes_def unwind_append fst_conv snd_conv append_is_Nil_conv by blast

lemma undoes_nothing: "found u g C m m' \<Longrightarrow> A \<subseteq> C \<Longrightarrow> undoes u g A C [] m' m"
  by (auto simp: undoes_def unwind_def intro: found_trans found_mono)

lemma undoes_mono: "undoes u g B C new m' m \<Longrightarrow> A \<subseteq> B \<Longrightarrow> undoes u g A C new m' m"
  by (auto simp: undoes_def intro: found_mono)

lemma undoes_after: "undoes u g A C new m1 m \<Longrightarrow> found u g A m1 m2 \<Longrightarrow> undoes u g A C new m2 m"
  unfolding undoes_def by (blast intro: found_trans)

lemma undoes_one:
  assumes "\<And>x y v. found u g A m' x \<Longrightarrow> f x = (Inr v, y) \<Longrightarrow> found u g C m y"
  shows "undoes u g A C [\<lparr>ud_what = w, ud_run = f\<rparr>] m' m"
  using assms by (fastforce simp: undoes_def unwind_def split_beta prod_eq_iff split: sum.splits)

text \<open>A step that, run where P holds, registers what undoes it, and leaves Q when it succeeds.\<close>

definition undoable :: "('h \<Rightarrow> string set) \<Rightarrow> ('h \<Rightarrow> string set) \<Rightarrow> string set \<Rightarrow> string set \<Rightarrow> ('h machine \<Rightarrow> bool)
    \<Rightarrow> ('a \<Rightarrow> 'h machine \<Rightarrow> bool) \<Rightarrow> ('h, 'a) action \<Rightarrow> bool" where
  "undoable u g A C P Q a \<longleftrightarrow> (\<forall>us m r us' m'. P m \<longrightarrow> a (us, m) = Some (r, us', m') \<longrightarrow>
     (\<exists>new. us' = us @ new \<and> undoes u g A C new m' m) \<and> (\<forall>x. r = Inr x \<longrightarrow> Q x m'))"

lemma undoableE:
  assumes "undoable u g A C P Q a" "P m" "a (us, m) = Some (r, us', m')"
  obtains new where "us' = us @ new" "undoes u g A C new m' m" "\<forall>x. r = Inr x \<longrightarrow> Q x m'"
  using assms(1) [unfolded undoable_def, rule_format, OF assms(2,3)] that by metis

named_theorems undoing_steps \<open>the steps of an installation are undoable\<close>

lemma undoable_then:
  assumes "undoable u g B C P Q a" "\<And>x. undoable u g A B (Q x) R (f x)" "A \<subseteq> B"
  shows "undoable u g A C P R (thenI a f)"
  unfolding undoable_def
proof (intro allI impI)
  fix us m r us' m'
  assume "P m" and run: "thenI a f (us, m) = Some (r, us', m')"
  obtain r1 us1 m1 where a: "a (us, m) = Some (r1, us1, m1)"
    using run by (cases "a (us, m)") (auto simp: thenI_def)
  obtain new where new: "us1 = us @ new" "undoes u g B C new m1 m" "\<forall>x. r1 = Inr x \<longrightarrow> Q x m1"
    using assms(1) \<open>P m\<close> a by (rule undoableE)
  show "(\<exists>new. us' = us @ new \<and> undoes u g A C new m' m) \<and> (\<forall>x. r = Inr x \<longrightarrow> R x m')"
  proof (cases r1)
    case (Inl err)
    with run a have "us' = us1" "m' = m1" "\<forall>x. r \<noteq> Inr x" by (auto simp: thenI_def)
    with new undoes_mono [OF new(2) assms(3)] show ?thesis by auto
  next
    case (Inr x)
    with run a have f: "f x (us1, m1) = Some (r, us', m')" by (simp add: thenI_def)
    have q: "Q x m1" using new(3) Inr by simp
    obtain new2 where "us' = us1 @ new2" "undoes u g A B new2 m' m1" "\<forall>x. r = Inr x \<longrightarrow> R x m'"
      using assms(2) q f by (rule undoableE)
    then show ?thesis
      using undoes_append [OF _ new(2)] by (intro conjI exI [of _ "new @ new2"]) (simp_all add: new(1))
  qed
qed

lemma undoable_quiet:
  assumes "\<And>us m r us' m'. P m \<Longrightarrow> a (us, m) = Some (r, us', m') \<Longrightarrow>
      us' = us \<and> found u g A m m' \<and> (\<forall>x. r = Inr x \<longrightarrow> Q x m')"
  shows "undoable u g A A P Q a"
  using assms undoes_nothing [of u g A _ _ A] unfolding undoable_def by (metis append.right_neutral order_refl)

lemma undoable_call:
  assumes "\<And>m r m'. P m \<Longrightarrow> f m = (r, m') \<Longrightarrow> found u g A m m' \<and> (\<forall>x. r = Inr x \<longrightarrow> Q x m')"
  shows "undoable u g A A P Q (call w f)"
proof (rule undoable_quiet)
  fix us m r us' m'
  assume "P m" "call w f (us, m) = Some (r, us', m')"
  then show "us' = us \<and> found u g A m m' \<and> (\<forall>x. r = Inr x \<longrightarrow> Q x m')"
    using assms [of m] by (cases "f m") (auto simp: call_def split: sum.splits)
qed

lemma undoable_return: "(\<And>m. P m \<Longrightarrow> Q x m) \<Longrightarrow> undoable u g A A P Q (returnI x)"
  by (rule undoable_quiet) (auto simp: returnI_def)

lemma undoable_fail: "undoable u g A A P Q (failI err)"
  by (rule undoable_quiet) (auto simp: failI_def)

lemma undoable_asking: "(\<And>m. P m \<Longrightarrow> Q (f m) m) \<Longrightarrow> undoable u g A A P Q (asking f)"
  by (rule undoable_quiet) (auto simp: asking_def)

lemma undoable_if:
  "(b \<Longrightarrow> undoable u g A C P Q a1) \<Longrightarrow> (\<not> b \<Longrightarrow> undoable u g A C P Q a2) \<Longrightarrow> undoable u g A C P Q (if b then a1 else a2)"
  by simp

lemma undoable_weaken: "undoable u g A C P Q a \<Longrightarrow> (\<And>m. P' m \<Longrightarrow> P m) \<Longrightarrow> (\<And>x m. Q x m \<Longrightarrow> Q' x m) \<Longrightarrow> undoable u g A C P' Q' a"
  unfolding undoable_def by blast

text \<open>A change that the next step registers.\<close>

lemma undoable_registered:
  assumes "\<And>us m r us' m'. P m \<Longrightarrow> a (us, m) = Some (r, us', m') \<Longrightarrow> us' = us \<and>
      (case r of Inl _ \<Rightarrow> found u g C m m'
       | Inr v \<Rightarrow> (\<forall>x y z. found u g A m' x \<longrightarrow> h v x = (Inr z, y) \<longrightarrow> found u g C m y) \<and> Q () m')"
    and "A \<subseteq> C"
  shows "undoable u g A C P Q (thenI a (\<lambda>v. undoing what (h v)))"
  unfolding undoable_def
proof (intro allI impI)
  fix us m r us' m'
  assume "P m" and run: "thenI a (\<lambda>v. undoing what (h v)) (us, m) = Some (r, us', m')"
  obtain r1 us1 m1 where a: "a (us, m) = Some (r1, us1, m1)"
    using run by (cases "a (us, m)") (auto simp: thenI_def)
  note c = assms(1) [OF \<open>P m\<close> a]
  show "(\<exists>new. us' = us @ new \<and> undoes u g A C new m' m) \<and> (\<forall>x. r = Inr x \<longrightarrow> Q x m')"
  proof (cases r1)
    case (Inl err)
    with run a c undoes_nothing [OF _ assms(2), of u g m m'] show ?thesis by (auto simp: thenI_def)
  next
    case (Inr v)
    with run a c have "us' = us @ [\<lparr>ud_what = what, ud_run = h v\<rparr>]" "m' = m1" "Q () m'"
      by (auto simp: thenI_def undoing_def)
    moreover have "undoes u g A C [\<lparr>ud_what = what, ud_run = h v\<rparr>] m1 m"
      using c Inr by (intro undoes_one) auto
    ultimately show ?thesis by auto
  qed
qed

lemma undoable_deferring:
  assumes "undoable u g A C P Q a" "\<And>m. found u g A m (d m)" "\<And>x m. Q x m \<Longrightarrow> Q x (d m)"
  shows "undoable u g A C P Q (deferring d a)"
  unfolding undoable_def
proof (intro allI impI)
  fix us m r us' m'
  assume "P m" "deferring d a (us, m) = Some (r, us', m')"
  then obtain m1 where a: "a (us, m) = Some (r, us', m1)" "m' = d m1"
    by (auto simp: deferring_def split: option.splits)
  obtain new where "us' = us @ new" "undoes u g A C new m1 m" "\<forall>x. r = Inr x \<longrightarrow> Q x m1"
    using assms(1) \<open>P m\<close> a(1) by (rule undoableE)
  moreover have "undoes u g A C new m' m" unfolding a(2) using calculation(2) assms(2) by (rule undoes_after)
  ultimately show "(\<exists>new. us' = us @ new \<and> undoes u g A C new m' m) \<and> (\<forall>x. r = Inr x \<longrightarrow> Q x m')"
    using assms(3) a(2) by (intro conjI exI [of _ new]) simp_all
qed

section \<open>Single calls\<close>

lemma on_files_simps [simp]:
  "fst (on_files f m) = fst (f (file_at m))" "file_at (snd (on_files f m)) = snd (f (file_at m))"
  "dir_at (snd (on_files f m)) = dir_at m" "snd (snd (on_files f m)) = snd m"
  by (simp_all add: on_files_def split_beta Let_def)

lemma os_Remove_snd: "snd (os_Remove works p files) = files \<or> snd (os_Remove works p files) = files(p := None)"
  by (simp add: os_Remove_def)

lemma found_removed: "p \<in> A \<Longrightarrow> found u g A m (snd (on_files (os_Remove works p) m))"
  using os_Remove_snd [of works p "file_at m"] by (auto simp: found_def)

text \<open>What restoring a file comes to, when it can be done.\<close>

lemma restorer_result:
  assumes "restorer i p previous mode x = (Inr v, y)"
  shows "\<exists>f. file_at y = (file_at x)(p := f) \<and> map_option f_data f = previous \<and> dir_at y = dir_at x \<and> snd y = snd x"
proof (cases previous)
  case None
  have "y = snd (on_files (os_Remove (in_works i ''remove'' p) p) x)" "fst (os_Remove (in_works i ''remove'' p) p (file_at x)) \<noteq> Inl Denied"
    using assms None unfolding restorer_def remove_missing_ok_def
    by (auto simp: on_files_def split_beta Let_def split: sum.splits os_error.splits)
  with None show ?thesis by (intro exI [of _ None]) (auto simp: os_Remove_def split: if_splits)
next
  case (Some content)
  have "in_works i ''write'' p" "in_works i ''chmod'' p"
    using assms Some unfolding restorer_def
    by (auto simp: on_files_def os_Write_def os_Chmod_def wrapped_def split_beta Let_def split: if_splits sum.splits option.splits)
  with assms Some show ?thesis
    by (intro exI [of _ "Some \<lparr>f_data = content, f_mode = mode\<rparr>"])
      (auto simp: restorer_def on_files_def os_Write_def os_Chmod_def wrapped_def split_beta Let_def)
qed

lemma restorer_restores:
  assumes "restorer i p previous mode x = (Inr v, y)" "previous = map_option f_data (file_at m p)"
    "found u g (insert p A) m m'" "found u g A m' x"
  shows "found u g A m y"
proof -
  obtain f where "file_at y = (file_at x)(p := f)" "map_option f_data f = map_option f_data (file_at m p)"
    "dir_at y = dir_at x" "snd y = snd x"
    using restorer_result [OF assms(1)] assms(2) by auto
  with assms(3,4) show ?thesis by (auto simp: found_def)
qed

lemma mkdir_for_run:
  "dir_at m (path_dir p) \<noteq> None \<Longrightarrow> mkdir_for i p (us, m) = Some (r, us', m') \<Longrightarrow> us' = us \<and> m' = m"
  by (auto simp: mkdir_for_def attempt_def failI_def MkdirAll_def Let_def split: if_splits)

lemma undoable_mkdir:
  assumes "\<And>m. P m \<Longrightarrow> dir_at m (path_dir p) \<noteq> None"
  shows "undoable u g A A P (\<lambda>_. P) (mkdir_for i p)"
proof (rule undoable_quiet)
  fix us m r us' m'
  assume "P m" "mkdir_for i p (us, m) = Some (r, us', m')"
  with mkdir_for_run [OF assms] have "us' = us" "m' = m" by blast+
  with \<open>P m\<close> show "us' = us \<and> found u g A m m' \<and> (\<forall>x. r = Inr x \<longrightarrow> P m')" by simp
qed

lemma readIfExists_Inr: "readIfExists w p files = Inr x \<Longrightarrow> x = map_option f_data (files p)"
  by (auto simp: readIfExists_def os_Read_def split: option.splits if_splits)

lemma undoable_read_previous:
  "undoable u g A A P (\<lambda>previous m. P m \<and> previous = map_option f_data (file_at m p)) (read_previous i p)"
  unfolding read_previous_def by (rule undoable_call) (auto dest: readIfExists_Inr)

lemma os_Write_cases:
  obtains "os_Write w p d mode files = (Inl Denied, files)"
  | f where "os_Write w p d mode files = (Inr (), files(p \<mapsto> f))" "f_data f = d"
  by (cases w) (auto simp: os_Write_def)

text \<open>Writing a file that is not observed.\<close>

lemma undoable_write_scratch:
  assumes "p \<in> A" "\<And>m f. P m \<Longrightarrow> Q () (put_file p f m)"
  shows "undoable u g A A P Q (write_file i p d mode)"
  unfolding write_file_def
proof (rule undoable_call)
  fix m m' :: "'a machine" and r
  assume "P m" and w: "on_files (os_Write (in_works i ''write'' p) p d mode) m = (r, m')"
  show "found u g A m m' \<and> (\<forall>x. r = Inr x \<longrightarrow> Q x m')"
    using os_Write_cases [of "in_works i ''write'' p" p d mode "file_at m"]
  proof cases
    case 1
    with w show ?thesis by (auto simp: on_files_def)
  next
    case (2 f)
    with w have "m' = put_file p f m" "r = Inr ()" by (auto simp: on_files_def put_file_def)
    with assms(1) assms(2) [OF \<open>P m\<close>, of f] show ?thesis by (auto simp: found_def)
  qed
qed

lemma undoable_discarding:
  assumes "staged \<in> A"
    and "\<And>m r m'. P m \<Longrightarrow> f m = (r, m') \<Longrightarrow> found u g A m m' \<and> (\<forall>x. r = Inr x \<longrightarrow> Q x m')"
  shows "undoable u g A A P Q (discarding i staged w f)"
proof (rule undoable_quiet)
  fix us m r us' m'
  assume "P m" and run: "discarding i staged w f (us, m) = Some (r, us', m')"
  obtain r1 m1 where f: "f m = (r1, m1)" by (rule prod.exhaust)
  note c = assms(2) [OF \<open>P m\<close> f]
  show "us' = us \<and> found u g A m m' \<and> (\<forall>x. r = Inr x \<longrightarrow> Q x m')"
  proof (cases r1)
    case (Inl err)
    with run f have "us' = us" "m' = snd (on_files (os_Remove (in_works i ''remove'' staged) staged) m1)" "\<forall>x. r \<noteq> Inr x"
      by (auto simp: discarding_def)
    with c found_removed [OF assms(1)] show ?thesis using found_trans by blast
  next
    case (Inr x)
    with run f c show ?thesis by (auto simp: discarding_def)
  qed
qed

text \<open>A file of its own, written whole and registered.\<close>

lemma writeOwnedFile_run:
  assumes "dir_at m (path_dir p) \<noteq> None" "in_works i ''chmod'' p" "writeOwnedFile i p d mode (us, m) = Some (r, us', m')"
  shows "us' = us \<and> (case r of Inl _ \<Rightarrow> m' = m
    | Inr restore \<Rightarrow> restore = restorer i p (map_option f_data (file_at m p)) mode \<and> m' = put_file p \<lparr>f_data = d, f_mode = mode\<rparr> m)"
proof -
  have mk: "mkdir_for i p (us, m) = Some (Inr (), us, m) \<or> (\<exists>err. mkdir_for i p (us, m) = Some (Inl err, us, m))"
    using assms(1) by (auto simp: mkdir_for_def attempt_def failI_def MkdirAll_def Let_def)
  have rd: "read_previous i p (us, m) = Some (Inr (map_option f_data (file_at m p)), us, m) \<or>
      (\<exists>err. read_previous i p (us, m) = Some (Inl err, us, m))"
    using readIfExists_Inr [of "in_works i ''read'' p" p "file_at m"]
    by (cases "readIfExists (in_works i ''read'' p) p (file_at m)") (auto simp: read_previous_def call_def)
  show ?thesis
    using mk
  proof
    assume m: "mkdir_for i p (us, m) = Some (Inr (), us, m)"
    show ?thesis using rd
    proof
      assume "read_previous i p (us, m) = Some (Inr (map_option f_data (file_at m p)), us, m)"
      with m assms(2,3) show ?thesis
        by (cases "in_works i ''write'' p")
          (auto simp: writeOwnedFile_def thenI_def write_file_def call_def on_files_def os_Write_def os_Chmod_def returnI_def put_file_def)
    qed (use m assms(3) in \<open>auto simp: writeOwnedFile_def thenI_def\<close>)
  qed (use assms(3) in \<open>auto simp: writeOwnedFile_def thenI_def\<close>)
qed
section \<open>What the rest of the host keeps\<close>

definition scratch :: "('h, 't) installer \<Rightarrow> string set" where
  "scratch i = {path i Binary @ ''.new'', path i VhostStaging, candidate i, candidate i @ ''.wrapper'', sudoers_staging (path i Sudoers)}"

text \<open>
  The seams keep what is observed: systemd, the probes and the proxy's answer change no file of dokkup's
  and no account, and a mode can be set on a file that has just been written.
\<close>

locale installing = host_ops "in_ops i" users groups
  for i :: "('h, 't) installer" and users groups :: "'h \<Rightarrow> string set" +
  assumes manager_asked: "mg_IsActive (in_manager i) m = (rb, m') \<Longrightarrow> same_host users groups m m'"
    and manager_enabled: "mg_Enable (in_manager i) m = (ru, m') \<Longrightarrow> same_host users groups m m'"
    and manager_disabled: "mg_Disable (in_manager i) m = (ru, m') \<Longrightarrow> same_host users groups m m'"
    and manager_restarted: "mg_Restart (in_manager i) m = (ru, m') \<Longrightarrow> same_host users groups m m'"
    and manager_reloaded: "mg_DaemonReload (in_manager i) m = (ru, m') \<Longrightarrow> same_host users groups m m'"
      "mg_Reload (in_manager i) n m = (ru, m') \<Longrightarrow> same_host users groups m m'"
    and probed: "users (snd (health (in_wait i w) h)) = users h" "groups (snd (health (in_wait i w) h)) = groups h"
      "users (snd (select (in_wait i w) d h)) = users h" "groups (snd (select (in_wait i w) d h)) = groups h"
    and confirmed: "in_confirmProxy i s m = Some (rw, m') \<Longrightarrow> same_host users groups m m'"
    and chmods: "in_works i ''chmod'' p"
begin

abbreviation (input) "tidy \<equiv> undoable users groups"

lemma polled_kept: "users (polled (in_wait i w) d n h) = users h \<and> groups (polled (in_wait i w) d n h) = groups h"
  by (induction n arbitrary: h) (simp_all add: probed)

lemma waited:
  assumes "waitHealthy (in_wait i w) v t h = Some (r, h')"
  shows "users h' = users h \<and> groups h' = groups h"
proof -
  from poll_until_Some [OF assms [unfolded waitHealthy_def]] obtain k where
    "h' = snd (health (in_wait i w) (polled (in_wait i w) (clock (in_wait i w) h + t) k h)) \<or>
     h' = snd (select (in_wait i w) (clock (in_wait i w) h + t)
       (snd (health (in_wait i w) (polled (in_wait i w) (clock (in_wait i w) h + t) k h))))"
    by (auto simp: Let_def)
  with polled_kept show ?thesis by (auto simp: probed)
qed

text \<open>A call on the machine that keeps it keeps a property of the files.\<close>

lemma tidy_kept:
  assumes "\<And>m r m'. f m = (r, m') \<Longrightarrow> same_host users groups m m'"
  shows "tidy A A (\<lambda>m. R (fst m)) (\<lambda>_ m. R (fst m)) (call w f)"
  using assms by (intro undoable_call) (auto simp: same_host_def intro: found_same_host)

lemma tidy_wait: "tidy A A (\<lambda>m. R (fst m)) (\<lambda>_ m. R (fst m)) (wait_service i)"
proof (rule undoable_quiet)
  fix us m r us' m'
  assume "R (fst m)" and run: "wait_service i (us, m) = Some (r, us', m')"
  obtain r1 h where w: "waitHealthy (in_wait i (fst m)) (in_version i) (in_timeout i) (snd m) = Some (r1, h)"
    using run by (auto simp: wait_service_def split: option.splits)
  with run have "us' = us" "m' = (fst m, h)" by (auto simp: wait_service_def split: sum.splits)
  with waited [OF w] \<open>R (fst m)\<close> show "us' = us \<and> found users groups A m m' \<and> (\<forall>x. r = Inr x \<longrightarrow> R (fst m'))"
    by (simp add: found_def)
qed

lemma tidy_confirm: "tidy A A (\<lambda>m. R (fst m)) (\<lambda>_ m. R (fst m)) (confirmSite i s)"
proof (rule undoable_quiet)
  fix us m r us' m'
  assume "R (fst m)" and run: "confirmSite i s (us, m) = Some (r, us', m')"
  obtain r1 m1 where c: "in_confirmProxy i s m = Some (r1, m1)"
    using run by (auto simp: confirmSite_def split: option.splits)
  with run have "us' = us" "m' = m1" by (auto simp: confirmSite_def split: sum.splits)
  with confirmed [OF c] \<open>R (fst m)\<close> show "us' = us \<and> found users groups A m m' \<and> (\<forall>x. r = Inr x \<longrightarrow> R (fst m'))"
    by (auto simp: same_host_def intro: found_same_host)
qed

lemma wrapped_Inr: "wrapped w f x = (Inr v, y) \<Longrightarrow> \<exists>u. f x = (Inr u, y)"
  by (auto simp: wrapped_def split: prod.splits sum.splits)

lemma found_via: "same_host users groups m m' \<Longrightarrow> found users groups A m' x \<Longrightarrow> same_host users groups x y \<Longrightarrow> found users groups A m y"
  by (blast intro: found_trans found_same_host)

lemma tidy_enable: "tidy A A (\<lambda>m. R (fst m)) (\<lambda>_ m. R (fst m))
    (thenI (call ManagerFailed (mg_Enable (in_manager i))) (\<lambda>_. undoing w (wrapped ManagerFailed (mg_Disable (in_manager i)))))"
proof (rule undoable_registered)
  fix us m r us' m'
  assume "R (fst m)" and run: "call ManagerFailed (mg_Enable (in_manager i)) (us, m) = Some (r, us', m')"
  obtain r1 m1 where e: "mg_Enable (in_manager i) m = (r1, m1)" by (rule prod.exhaust)
  then have "us' = us" "m' = m1" using run by (auto simp: call_def split: sum.splits)
  moreover have "same_host users groups m m1" by (rule manager_enabled [OF e])
  moreover have "wrapped ManagerFailed (mg_Disable (in_manager i)) x = (Inr z, y) \<Longrightarrow> same_host users groups x y" for x z y
    using manager_disabled by (blast dest: wrapped_Inr)
  moreover have "R (fst m1)" using \<open>R (fst m)\<close> calculation(3) by (simp add: same_host_def)
  ultimately show "us' = us \<and> (case r of Inl _ \<Rightarrow> found users groups A m m'
     | Inr v \<Rightarrow> (\<forall>x y z. found users groups A m' x \<longrightarrow> wrapped ManagerFailed (mg_Disable (in_manager i)) x = (Inr z, y) \<longrightarrow>
         found users groups A m y) \<and> R (fst m'))"
    by (cases r) (simp_all add: found_same_host, blast intro: found_via)
qed simp

lemma thenI_assoc: "thenI (thenI a f) k = thenI a (\<lambda>x. thenI (f x) k)"
  by (rule ext) (auto simp: thenI_def split: option.splits sum.splits)

lemma tidy_start: "tidy A A (\<lambda>m. R (fst m)) (\<lambda>_ m. R (fst m)) (startService i)"
proof -
  have rest: "tidy A A (\<lambda>m. R (fst m)) (\<lambda>_ m. R (fst m))
      (thenI (if running then call ManagerFailed (mg_Restart (in_manager i)) else returnI ()) (\<lambda>_. wait_service i))" for running
    by (intro undoable_then [OF _ tidy_wait] undoable_if tidy_kept undoable_return) (auto dest: manager_restarted)
  have run: "tidy A A (\<lambda>m. R (fst m)) (\<lambda>_ m. R (fst m))
      (thenI (thenI (call ManagerFailed (mg_Enable (in_manager i))) (\<lambda>_. undoing w (wrapped ManagerFailed (mg_Disable (in_manager i)))))
        (\<lambda>_. thenI (if running then call ManagerFailed (mg_Restart (in_manager i)) else returnI ()) (\<lambda>_. wait_service i)))" for running w
    by (rule undoable_then [OF tidy_enable rest order_refl])
  show ?thesis
    unfolding startService_def
    by (rule undoable_then [OF tidy_kept [OF manager_asked] run [unfolded thenI_assoc] order_refl])
qed

end

section \<open>The steps\<close>

text \<open>Where dokkup's files go: the directories that a host with Dokku on it has.\<close>

definition system_dirs :: "('h, 't) installer \<Rightarrow> world \<Rightarrow> bool" where
  "system_dirs i w \<longleftrightarrow> (\<forall>p \<in> {Sudoers, Binary, Unit, Vhost}. w_dirs w (path_dir (path i p)) \<noteq> None)"

text \<open>A directory that is not there has nothing under it.\<close>

definition fresh_dir :: "string \<Rightarrow> world \<Rightarrow> bool" where
  "fresh_dir p w \<longleftrightarrow> (w_dirs w p = None \<longrightarrow> (\<forall>q. under p q \<longrightarrow> w_files w q = None \<and> w_dirs w q = None))"

lemma under_length: "under p q \<Longrightarrow> length p \<le> length q"
  by (auto simp: under_def HasPrefix_def dest!: arg_cong [where f = length])

lemma not_under_TLSDir: "\<not> under (path i TLSDir) (path i DataDir)"
  by (auto dest!: under_length simp: path_def Rooted_def TLSDir_def)

context installing begin

definition removing_group :: "'h undoStep" where
  "removing_group = \<lparr>ud_what = ''removing the group '' @ Group, ud_run = remove_group i\<rparr>"

definition removing_user :: "'h undoStep" where
  "removing_user = \<lparr>ud_what = ''removing the user '' @ User, ud_run = remove_user i\<rparr>"

lemma ensureGroup_cases:
  assumes "ensureGroup i (us, m) = Some (r, us', m')"
  obtains (kept) "us' = us" "same_host users groups m m'" "r = Inr () \<Longrightarrow> Group \<in> groups (snd m)"
    | (made) "us' = us @ [removing_group]" "r = Inr ()" "fst m' = fst m" "users (snd m') = users (snd m)"
        "groups (snd m') = insert Group (groups (snd m))" "Group \<notin> groups (snd m)"
proof -
  obtain r1 m1 where l: "LookupGroup (in_ops i) Group m = (r1, m1)" by (rule prod.exhaust)
  obtain r2 m2 where e: "EnsureGroup (in_ops i) Group m1 = (r2, m2)" by (rule prod.exhaust)
  have l1: "same_host users groups m m1" "\<And>a. r1 = Inr a \<Longrightarrow> Group \<in> groups (snd m)"
      "\<And>x. r1 = Inl (ErrNoSuchGroup x) \<Longrightarrow> Group \<notin> groups (snd m)"
    using looked_group [OF l] by auto
  have e1: "fst m2 = fst m" "users (snd m2) = users (snd m)"
      "groups (snd m2) = (case r2 of Inl _ \<Rightarrow> groups (snd m) | Inr _ \<Rightarrow> insert Group (groups (snd m)))"
    using ensured_group [OF e] l1(1) by (simp_all add: same_host_def split: sum.splits)
  note run = assms [unfolded ensureGroup_def thenI_def attempt_def call_def undoing_def returnI_def failI_def had_group_def
    prod.case l e Let_def, folded removing_group_def]
  show thesis
  proof (cases r1)
    case (Inr a)
    with run e l1 e1 kept show thesis by (auto simp: same_host_def insert_absorb split: sum.splits)
  next
    case (Inl err)
    show thesis
    proof (cases "\<exists>x. err = ErrNoSuchGroup x")
      case True
      with run e Inl l1 e1 kept made show thesis
        by (cases r2) (auto simp: same_host_def returnI_def undoing_def removing_group_def)
    next
      case False
      then have "us' = us" "m' = m1" "r \<noteq> Inr ()" using run Inl by (auto simp: failI_def split: host_error.splits)
      with kept l1(1) show thesis by auto
    qed
  qed
qed

lemma ensureUser_cases:
  assumes "ensureUser i (us, m) = Some (r, us', m')"
  obtains (kept) "us' = us" "same_host users groups m m'"
    | (made) "us' = us @ [removing_user]" "r = Inr ()" "fst m' = fst m" "groups (snd m') = groups (snd m)"
        "users (snd m') = insert User (users (snd m))" "User \<notin> users (snd m)"
proof -
  obtain created err m1 where u: "EnsureUser (in_ops i) account_spec m = ((created, err), m1)" by (metis surj_pair)
  have name: "us_Name account_spec = User" by (simp add: account_spec_def)
  note run = assms [unfolded ensureUser_def thenI_def attempt_def prod.case u Let_def option.case sum.case]
  show thesis
  proof (cases err)
    case None
    note laws = ensured_user [OF u [unfolded None], unfolded name]
    show thesis
    proof (cases created)
      case True
      with run None laws made show thesis by (auto simp: undoing_def removing_user_def)
    next
      case False
      with run None laws kept show thesis by (auto simp: returnI_def same_host_def insert_absorb)
    qed
  next
    case (Some e)
    with run refused_user [OF u [unfolded Some]] kept show thesis by (auto simp: failI_def)
  qed
qed

lemma undo_group:
  assumes "fst x = fst m" "users (snd x) = users (snd m)" "groups (snd x) = insert Group (groups (snd m))" "Group \<notin> groups (snd m)"
  shows "undoes users groups A A [removing_group] x m"
  unfolding removing_group_def
proof (rule undoes_one)
  fix y z v
  assume y: "found users groups A x y" and "remove_group i y = (Inr v, z)"
  then obtain b where "RemoveGroup (in_ops i) Group y = (Inr b, z)" by (auto simp: remove_group_def dest!: wrapped_Inr)
  from removed_group [OF this] y assms show "found users groups A m z" by (auto simp: found_def)
qed

lemma undo_accounts:
  assumes "fst x = fst m" "users (snd x) = insert User (users (snd m))" "User \<notin> users (snd m)"
    "groups (snd x) = insert Group (groups (snd m))" "Group \<notin> groups (snd m)"
  shows "undoes users groups A A [removing_group, removing_user] x m"
  unfolding undoes_def
proof (intro allI impI)
  fix y
  assume y: "found users groups A x y" and ok: "fst (unwind [removing_group, removing_user] y) = []"
  obtain s1 y1 where s1: "RemoveUser (in_ops i) User y = (s1, y1)" by (rule prod.exhaust)
  obtain s2 z where s2: "RemoveGroup (in_ops i) Group y1 = (s2, z)" by (rule prod.exhaust)
  have "snd (unwind [removing_group, removing_user] y) = z" "\<exists>b. s1 = Inr b" "\<exists>b. s2 = Inr b"
    using ok s1 s2
    by (auto simp: unwind_def removing_group_def removing_user_def remove_group_def remove_user_def wrapped_def split: sum.splits)
  then obtain b c where bc: "s1 = Inr b" "s2 = Inr c" "snd (unwind [removing_group, removing_user] y) = z" by blast
  have "User = Group" by (simp add: User_def Group_def)
  with accounts_undone [of User y b y1 c z] s1 s2 bc have "fst z = fst y" "users (snd z) = users (snd y) - {User}"
    "groups (snd z) = groups (snd y) - {Group}" by auto
  with y assms show "found users groups A m (snd (unwind [removing_group, removing_user] y))" by (auto simp: found_def bc(3))
qed

text \<open>
  The accounts. A group that was there already is not taken back, but the removal of a user takes its
  group with it, so that there must not be a group that waits for its user.
\<close>

lemma tidy_accounts:
  "tidy A A (\<lambda>m. R (fst m) \<and> (Group \<in> groups (snd m) \<longrightarrow> User \<in> users (snd m))) (\<lambda>_ m. R (fst m))
    (thenI (ensureGroup i) (\<lambda>_. ensureUser i))"
  unfolding undoable_def
proof (intro allI impI)
  fix us m r us' m'
  assume pre: "R (fst m) \<and> (Group \<in> groups (snd m) \<longrightarrow> User \<in> users (snd m))"
    and run: "thenI (ensureGroup i) (\<lambda>_. ensureUser i) (us, m) = Some (r, us', m')"
  have one: "undoes users groups A A [] m' m" if "same_host users groups m m'"
    using that by (intro undoes_nothing found_same_host) simp_all
  obtain r1 us1 m1 where g: "ensureGroup i (us, m) = Some (r1, us1, m1)"
    using run by (cases "ensureGroup i (us, m)") (auto simp: thenI_def)
  have failed: "us' = us1 \<and> m' = m1 \<and> (\<forall>x. r \<noteq> Inr x)" if "r1 \<noteq> Inr ()"
    using that run g by (cases r1) (auto simp: thenI_def)
  have on: "ensureUser i (us1, m1) = Some (r, us', m')" if "r1 = Inr ()"
    using that run g by (simp add: thenI_def)
  have "(\<exists>new. us' = us @ new \<and> undoes users groups A A new m' m) \<and> fst m' = fst m"
    using g
  proof (cases rule: ensureGroup_cases)
    case kept
    show ?thesis
    proof (cases "r1 = Inr ()")
      case True
      from on [OF True] show ?thesis
      proof (cases rule: ensureUser_cases)
        case kept
        with \<open>us1 = us\<close> \<open>same_host users groups m m1\<close> have "same_host users groups m m'" "us' = us @ []"
          by (simp_all add: same_host_def)
        with one show ?thesis by (auto simp: same_host_def)
      next
        case made
        with kept True pre have False by (auto simp: same_host_def)
        then show ?thesis ..
      qed
    next
      case False
      with failed kept one show ?thesis by (auto simp: same_host_def)
    qed
  next
    case made
    from on [OF made(2)] show ?thesis
    proof (cases rule: ensureUser_cases)
      case kept
      with made undo_group [of m' m A] have "undoes users groups A A [removing_group] m' m" "us' = us @ [removing_group]" "fst m' = fst m"
        by (simp_all add: same_host_def)
      then show ?thesis by blast
    next
      case made2: made
      with made undo_accounts [of m' m A] have "undoes users groups A A [removing_group, removing_user] m' m"
          "us' = us @ [removing_group, removing_user]" "fst m' = fst m"
        by simp_all
      then show ?thesis by blast
    qed
  qed
  with pre show "(\<exists>new. us' = us @ new \<and> undoes users groups A A new m' m) \<and> (\<forall>x. r = Inr x \<longrightarrow> R (fst m'))"
    by simp
qed

end

section \<open>Paths\<close>

lemma path_split:
  assumes "CHR ''/'' \<notin> set b"
  shows "path_dir (d @ CHR ''/'' # b) = d" "path_base (d @ CHR ''/'' # b) = b"
proof -
  have "dropWhile ((\<noteq>) (CHR ''/'')) (rev b @ CHR ''/'' # rev d) = CHR ''/'' # rev d"
    "takeWhile ((\<noteq>) (CHR ''/'')) (rev b @ CHR ''/'' # rev d) = rev b"
    using assms by (subst dropWhile_append2 takeWhile_append2; auto)+
  then show "path_dir (d @ CHR ''/'' # b) = d" "path_base (d @ CHR ''/'' # b) = b"
    by (simp_all add: path_dir_def path_base_def)
qed

lemma path_dirs:
  "path_dir (path i TLSCert) = path i TLSDir" "path_dir (path i TLSKey) = path i TLSDir"
  "sudoers_staging (path i Sudoers) = in_root i @ ''/etc/sudoers.d/.dokkup.tmp''"
  using path_split [of "''cert.pem''" "path i TLSDir"] path_split [of "''key.pem''" "path i TLSDir"]
    path_split [of "''dokkup''" "in_root i @ ''/etc/sudoers.d''"]
  by (simp_all add: path_def Rooted_def TLSCert_def TLSKey_def sudoers_staging_def Sudoers_def)

lemma path_distinct:
  "path i Vhost \<noteq> path i VhostStaging" "path i PreviousBinary \<noteq> path i Binary"
  "path i Binary @ ''.new'' \<noteq> path i Binary" "path i Binary @ ''.new'' \<noteq> path i PreviousBinary"
  "path i PreviousBinary \<notin> scratch i"
  by (simp_all add: scratch_def path_dirs(3) candidate_def) (simp_all add: path_def Rooted_def Vhost_def VhostStaging_def PreviousBinary_def
    PreviousSuffix_def Binary_def DataDir_def)

context installing begin

lemma tidy_kept_dirs:
  assumes "\<And>m r m'. f m = (r, m') \<Longrightarrow> same_host users groups m m'"
  shows "tidy A A (\<lambda>m. R (dir_at m)) (\<lambda>_ m. R (dir_at m)) (call w f)"
  by (rule tidy_kept [OF assms])

lemma ensured_run:
  assumes "call HostFailed (EnsureDir (in_ops i) p mode owner) (us, m) = Some (r, us', m')"
  shows "us' = us" "file_at m' = file_at m" "users (snd m') = users (snd m)" "groups (snd m') = groups (snd m)"
    "r = Inl err \<Longrightarrow> dir_at m' = dir_at m"
    "r = Inr u \<Longrightarrow> dir_at m' = (dir_at m)(p \<mapsto> mode) \<and> fst m' = (fst m)\<lparr>w_dirs := (dir_at m)(p \<mapsto> mode)\<rparr>"
proof -
  obtain r1 m1 where e: "EnsureDir (in_ops i) p mode owner m = (r1, m1)" by (rule prod.exhaust)
  then have r: "us' = us" "m' = m1" "\<And>u. r = Inr u \<Longrightarrow> r1 = Inr ()" "\<And>err. r = Inl err \<Longrightarrow> \<exists>err. r1 = Inl err"
    using assms by (auto simp: call_def split: sum.splits)
  note law = ensured_dir [OF e]
  show "us' = us" "file_at m' = file_at m" "users (snd m') = users (snd m)" "groups (snd m') = groups (snd m)"
    using r law by simp_all
  show "r = Inl err \<Longrightarrow> dir_at m' = dir_at m" using r law by fastforce
  assume "r = Inr u"
  with r law have "dir_at m' = (dir_at m)(p \<mapsto> mode)" by simp
  with r law show "dir_at m' = (dir_at m)(p \<mapsto> mode) \<and> fst m' = (fst m)\<lparr>w_dirs := (dir_at m)(p \<mapsto> mode)\<rparr>"
    by (cases "fst m", cases "fst m'") simp
qed

text \<open>A directory that was there already, and one that was not.\<close>

lemma tidy_dir_there:
  assumes "\<And>w. S w \<Longrightarrow> S' (w\<lparr>w_dirs := (w_dirs w)(p \<mapsto> mode)\<rparr>)"
  shows "tidy A A (\<lambda>m. S (fst m) \<and> dir_at m p \<noteq> None) (\<lambda>_ m. S' (fst m)) (call HostFailed (EnsureDir (in_ops i) p mode owner))"
proof (rule undoable_quiet)
  fix us m r us' m'
  assume P: "S (fst m) \<and> dir_at m p \<noteq> None"
    and run: "call HostFailed (EnsureDir (in_ops i) p mode owner) (us, m) = Some (r, us', m')"
  have "found users groups A m m'" using P ensured_run [OF run] by (cases r) (auto simp: found_def)
  moreover have "\<forall>x. r = Inr x \<longrightarrow> S' (fst m')" using ensured_run(6) [OF run] assms [of "fst m"] P by simp
  ultimately show "us' = us \<and> found users groups A m m' \<and> (\<forall>x. r = Inr x \<longrightarrow> S' (fst m'))"
    using ensured_run(1) [OF run] by blast
qed

lemma tidy_dir_made:
  assumes "\<And>w. S w \<Longrightarrow> S' (w\<lparr>w_dirs := (w_dirs w)(p \<mapsto> mode)\<rparr>)"
  shows "tidy A A (\<lambda>m. S (fst m) \<and> (\<forall>q. under p q \<longrightarrow> file_at m q = None \<and> dir_at m q = None)) (\<lambda>_ m. S' (fst m))
    (thenI (call HostFailed (EnsureDir (in_ops i) p mode owner)) (\<lambda>_. undoing what (wrapped (FileFailed p) (RemoveAll works p))))"
proof (rule undoable_registered)
  fix us m r us' m'
  assume P: "S (fst m) \<and> (\<forall>q. under p q \<longrightarrow> file_at m q = None \<and> dir_at m q = None)"
    and run: "call HostFailed (EnsureDir (in_ops i) p mode owner) (us, m) = Some (r, us', m')"
  note e = ensured_run [OF run]
  have undone: "found users groups A m y"
    if "r = Inr v" "found users groups A m' x" "wrapped (FileFailed p) (RemoveAll works p) x = (Inr z, y)" for v x y z
  proof -
    have "file_at y = (\<lambda>q. if under p q then None else file_at x q)" "dir_at y = (\<lambda>q. if under p q then None else dir_at x q)"
      "snd y = snd x"
      using that(3) by (auto dest!: wrapped_Inr simp: RemoveAll_def split: if_splits)
    with that(1,2) e P show ?thesis by (auto simp: found_def under_def)
  qed
  show "us' = us \<and> (case r of Inl _ \<Rightarrow> found users groups A m m'
     | Inr v \<Rightarrow> (\<forall>x y z. found users groups A m' x \<longrightarrow> wrapped (FileFailed p) (RemoveAll works p) x = (Inr z, y) \<longrightarrow>
          found users groups A m y) \<and> S' (fst m'))"
  proof (cases r)
    case (Inl err)
    with e show ?thesis by (simp add: found_def)
  next
    case (Inr v)
    moreover have "S' (fst m')" using e(6) [OF Inr] assms [of "fst m"] P by simp
    ultimately show ?thesis using e(1) undone by (simp only: sum.case) blast
  qed
qed simp

lemma tidy_ensure_dir:
  assumes fresh: "\<And>w. S w \<Longrightarrow> fresh_dir (path i dir) w"
    and keeps: "\<And>w. S w \<Longrightarrow> S' (w\<lparr>w_dirs := (w_dirs w)(path i dir \<mapsto> dataDirMode)\<rparr>)"
  shows "tidy A A (\<lambda>m. S (fst m)) (\<lambda>_ m. S' (fst m)) (ensure_dir i owner dir)"
proof -
  have there: "S (fst m) \<and> exists (path i dir) m \<Longrightarrow> S (fst m) \<and> dir_at m (path i dir) \<noteq> None"
    and absent: "S (fst m) \<and> \<not> exists (path i dir) m \<Longrightarrow>
      S (fst m) \<and> (\<forall>q. under (path i dir) q \<longrightarrow> file_at m q = None \<and> dir_at m q = None)" for m :: "'h machine"
    using fresh [of "fst m"] by (auto simp: exists_def fresh_dir_def under_def)
  have "tidy A A (\<lambda>m. S (fst m) \<and> had = exists (path i dir) m) (\<lambda>_ m. S' (fst m))
      (thenI (call HostFailed (EnsureDir (in_ops i) (path i dir) dataDirMode owner)) (\<lambda>_.
       if had then returnI () else undoing what (wrapped (FileFailed (path i dir)) (RemoveAll works (path i dir)))))" for had what works
  proof (cases had)
    case True
    have "tidy A A (\<lambda>m. S (fst m) \<and> exists (path i dir) m) (\<lambda>_ m. S' (fst m))
        (call HostFailed (EnsureDir (in_ops i) (path i dir) dataDirMode owner))"
      by (rule undoable_weaken [OF tidy_dir_there [where S = S and S' = S']]) (use keeps there in simp_all)
    then have "tidy A A (\<lambda>m. S (fst m) \<and> exists (path i dir) m) (\<lambda>_ m. S' (fst m))
        (thenI (call HostFailed (EnsureDir (in_ops i) (path i dir) dataDirMode owner)) (\<lambda>_. returnI ()))"
      by (rule undoable_then) (simp_all add: undoable_return)
    with True show ?thesis by simp
  next
    case False
    have "tidy A A (\<lambda>m. S (fst m) \<and> \<not> exists (path i dir) m) (\<lambda>_ m. S' (fst m))
        (thenI (call HostFailed (EnsureDir (in_ops i) (path i dir) dataDirMode owner)) (\<lambda>_.
         undoing what (wrapped (FileFailed (path i dir)) (RemoveAll works (path i dir)))))"
      by (rule undoable_weaken [OF tidy_dir_made [where S = S and S' = S']]) (use keeps absent in simp_all)
    with False show ?thesis by simp
  qed
  then show ?thesis
    unfolding ensure_dir_def Let_def
    by (intro undoable_then [OF undoable_asking [where Q = "\<lambda>had m. S (fst m) \<and> had = exists (path i dir) m"]]) simp_all
qed

end

lemma found_insert: "found u g (insert p A) m m' \<Longrightarrow> file_at m' p = file_at m p \<Longrightarrow> found u g A m m'"
  unfolding found_def by (metis insert_iff)

context installing begin

lemma tidy_sudoers:
  assumes "\<And>ds. R ds \<Longrightarrow> ds (path_dir (path i Sudoers)) \<noteq> None" and "scratch i \<subseteq> A"
  shows "tidy A A (\<lambda>m. R (dir_at m)) (\<lambda>_ m. R (dir_at m)) (ensureSudoers i)"
proof -
  define p where "p = path i Sudoers"
  have staging: "sudoers_staging p \<in> A" using assms(2) by (simp add: scratch_def p_def)
  have wrote: "tidy A A (\<lambda>m. R (dir_at m) \<and> previous = map_option f_data (file_at m p)) (\<lambda>_ m. R (dir_at m))
      (thenI (call HostFailed (WriteSudoers (in_ops i) p sudo_rule)) (\<lambda>_. undoing what (restorer i p previous mode)))" for previous what mode
  proof (rule undoable_registered)
    fix us m r us' m'
    assume P: "R (dir_at m) \<and> previous = map_option f_data (file_at m p)"
      and run: "call HostFailed (WriteSudoers (in_ops i) p sudo_rule) (us, m) = Some (r, us', m')"
    obtain r1 m1 where w: "WriteSudoers (in_ops i) p sudo_rule m = (r1, m1)" by (rule prod.exhaust)
    have r: "us' = us" "m' = m1" "\<And>e. r = Inl e \<Longrightarrow> \<exists>e. r1 = Inl e" using run w by (auto simp: call_def split: sum.splits)
    have b: "same_but users groups {p, sudoers_staging p} m m'" using wrote_sudoers [OF w] r(2) by simp
    then have f: "found users groups (insert p A) m m'" using staging by (auto intro: found_same_but)
    show "us' = us \<and> (case r of Inl _ \<Rightarrow> found users groups A m m'
       | Inr v \<Rightarrow> (\<forall>x y z. found users groups A m' x \<longrightarrow> restorer i p previous mode x = (Inr z, y) \<longrightarrow> found users groups A m y) \<and> R (dir_at m'))"
    proof (cases r)
      case (Inl e)
      with r wrote_sudoers [OF w] have "file_at m' p = file_at m p" by auto
      with f have "found users groups A m m'" by (rule found_insert)
      with Inl r(1) show ?thesis by simp
    next
      case (Inr v)
      have "R (dir_at m')" using b P by (simp add: same_but_def)
      moreover have "found users groups A m y" if "found users groups A m' x" "restorer i p previous mode x = (Inr z, y)" for x y z
        using restorer_restores [OF that(2) _ f that(1)] P by simp
      ultimately show ?thesis using Inr r(1) by auto
    qed
  qed simp
  have prove: "tidy A A (\<lambda>m. R (dir_at m)) (\<lambda>_ m. R (dir_at m)) (call SudoDoesNotWork (ProveSudo (in_ops i) User DefaultRunAs DefaultDokku [''version'']))"
    by (rule tidy_kept_dirs) (rule proved_sudo)
  have "tidy A A (\<lambda>m. R (dir_at m) \<and> previous = map_option f_data (file_at m p)) (\<lambda>_ m. R (dir_at m))
      (thenI (thenI (call HostFailed (WriteSudoers (in_ops i) p sudo_rule)) (\<lambda>_. undoing what (restorer i p previous mode)))
        (\<lambda>_. call SudoDoesNotWork (ProveSudo (in_ops i) User DefaultRunAs DefaultDokku [''version''])))" for previous what mode
    by (rule undoable_then [OF wrote prove order_refl])
  note tail = this [unfolded thenI_assoc]
  have "tidy A A (\<lambda>m. R (dir_at m)) (\<lambda>_ m. R (dir_at m)) (mkdir_for i p)"
    by (rule undoable_mkdir) (simp add: assms(1) p_def)
  from undoable_then [OF this undoable_then [OF undoable_read_previous tail order_refl] order_refl]
  show ?thesis unfolding ensureSudoers_def Let_def p_def [symmetric] .
qed

text \<open>A file of its own and what puts it back, with something done after that.\<close>

lemma tidy_owned_file:
  assumes "\<And>ds. R ds \<Longrightarrow> ds (path_dir p) \<noteq> None"
    and "\<And>x y z restore. restore_of restore x = (Inr z, y) \<Longrightarrow> \<exists>y1 v. restore x = (Inr v, y1) \<and> found users groups A y1 y"
  shows "tidy A A (\<lambda>m. R (dir_at m)) (\<lambda>_ m. R (dir_at m))
    (thenI (writeOwnedFile i p d mode) (\<lambda>restore. undoing what (restore_of restore)))"
proof (rule undoable_registered)
  fix us m r us' m'
  assume P: "R (dir_at m)" and run: "writeOwnedFile i p d mode (us, m) = Some (r, us', m')"
  note w = writeOwnedFile_run [OF assms(1) [OF P] chmods run]
  show "us' = us \<and> (case r of Inl _ \<Rightarrow> found users groups A m m'
     | Inr v \<Rightarrow> (\<forall>x y z. found users groups A m' x \<longrightarrow> restore_of v x = (Inr z, y) \<longrightarrow> found users groups A m y) \<and> R (dir_at m'))"
  proof (cases r)
    case (Inl err)
    with w show ?thesis by simp
  next
    case (Inr v)
    with w have v: "v = restorer i p (map_option f_data (file_at m p)) mode" "m' = put_file p \<lparr>f_data = d, f_mode = mode\<rparr> m" by auto
    have f: "found users groups (insert p A) m m'" unfolding v(2) by (auto simp: found_def)
    have "found users groups A m y" if x: "found users groups A m' x" and y: "restore_of v x = (Inr z, y)" for x y z
    proof -
      obtain y1 u where y1: "v x = (Inr u, y1)" "found users groups A y1 y" using assms(2) [OF y] by blast
      have "found users groups A m y1" using restorer_restores [OF y1(1) [unfolded v(1)] refl f x] .
      then show ?thesis using y1(2) by (rule found_trans)
    qed
    moreover have "R (dir_at m')" using P v(2) by simp
    ultimately show ?thesis using Inr w by auto
  qed
qed simp

lemma tidy_certificate:
  assumes "\<And>ds. R ds \<Longrightarrow> ds (path i TLSDir) \<noteq> None"
  shows "tidy A A (\<lambda>m. R (dir_at m)) (\<lambda>_ m. R (dir_at m)) (installCertificate i s)"
proof -
  have file_of: "tidy A A (\<lambda>m. R (dir_at m)) (\<lambda>_ m. R (dir_at m)) (replaceFile i p d mode)" if "path_dir p = path i TLSDir" for p d mode
    unfolding replaceFile_def by (rule tidy_owned_file) (auto simp: that assms)
  show ?thesis
    unfolding installCertificate_def
    by (cases "st_certPEM s")
      (auto intro!: undoable_return undoable_then [OF file_of file_of order_refl] simp: path_dirs)
qed

lemma tidy_unit:
  assumes "\<And>ds. R ds \<Longrightarrow> ds (path_dir (path i Unit)) \<noteq> None"
  shows "tidy A A (\<lambda>m. R (dir_at m)) (\<lambda>_ m. R (dir_at m)) (installUnit i s)"
proof -
  have "\<exists>y1 v. restore x = (Inr v, y1) \<and> found users groups A y1 y" if "unit_restorer i restore x = (Inr z, y)" for restore x y z
  proof -
    obtain r1 y1 where y1: "restore x = (r1, y1)" by (rule prod.exhaust)
    with that obtain v where "r1 = Inr v" "wrapped ManagerFailed (mg_DaemonReload (in_manager i)) y1 = (Inr z, y)"
      by (auto simp: unit_restorer_def split: sum.splits)
    moreover from this(2) have "same_host users groups y1 y" using manager_reloaded(1) by (blast dest: wrapped_Inr)
    ultimately show ?thesis using y1 found_same_host by blast
  qed
  then have wrote: "tidy A A (\<lambda>m. R (dir_at m)) (\<lambda>_ m. R (dir_at m))
      (thenI (writeOwnedFile i (path i Unit) (unit_text i s) readableMode) (\<lambda>restore. undoing what (unit_restorer i restore)))" for what
    by (intro tidy_owned_file assms)
  have "tidy A A (\<lambda>m. R (dir_at m)) (\<lambda>_ m. R (dir_at m)) (call ManagerFailed (mg_DaemonReload (in_manager i)))"
    by (rule tidy_kept_dirs) (rule manager_reloaded(1))
  from undoable_then [OF wrote this order_refl] show ?thesis unfolding installUnit_def thenI_assoc .
qed

end

lemma os_Rename_cases:
  obtains (failed) err where "os_Rename w p q files = (Inl err, files)"
    | (moved) f where "os_Rename w p q files = (Inr (), (files(p := None))(q \<mapsto> f))" "files p = Some f"
  by (cases "files p"; cases w) (auto simp: os_Rename_def)

lemma on_files_result: "on_files f m = (r, m') \<Longrightarrow>
    r = fst (f (file_at m)) \<and> file_at m' = snd (f (file_at m)) \<and> dir_at m' = dir_at m \<and> snd m' = snd m"
  by (auto simp: on_files_def split_beta Let_def)

text \<open>A file put in place by a rename, where what is registered restores what was there.\<close>

lemma undoable_renamed:
  assumes "staged \<in> A" "staged \<noteq> p" "A \<subseteq> C"
    and undone: "\<And>m m' x z y f. P m \<Longrightarrow> file_at m' = (file_at m)(staged := None, p \<mapsto> f) \<Longrightarrow> dir_at m' = dir_at m \<Longrightarrow>
      snd m' = snd m \<Longrightarrow> found u g A m' x \<Longrightarrow> undo x = (Inr z, y) \<Longrightarrow> found u g C m y"
    and keeps: "\<And>m m'. P m \<Longrightarrow> dir_at m' = dir_at m \<Longrightarrow> snd m' = snd m \<Longrightarrow> Q () m'"
  shows "undoable u g A C P Q (thenI (discarding i staged w (on_files (os_Rename works staged p))) (\<lambda>_. undoing what undo))"
proof (rule undoable_registered)
  fix us m r us' m'
  assume P: "P m" and run: "discarding i staged w (on_files (os_Rename works staged p)) (us, m) = Some (r, us', m')"
  show "us' = us \<and> (case r of Inl _ \<Rightarrow> found u g C m m'
     | Inr v \<Rightarrow> (\<forall>x y z. found u g A m' x \<longrightarrow> undo x = (Inr z, y) \<longrightarrow> found u g C m y) \<and> Q () m')"
    using os_Rename_cases [of works staged p "file_at m"]
  proof cases
    case (failed err)
    have "snd (on_files (os_Rename works staged p) m) = m" "fst (on_files (os_Rename works staged p) m) = Inl err"
      by (simp_all add: on_files_def failed)
    then have "us' = us" "m' = snd (on_files (os_Remove (in_works i ''remove'' staged) staged) m)" "\<forall>x. r \<noteq> Inr x"
      using run by (auto simp: discarding_def split_beta)
    moreover have "staged \<in> C" using assms(1,3) by blast
    moreover have "found u g C m m'" unfolding calculation(2) using \<open>staged \<in> C\<close> by (rule found_removed)
    ultimately show ?thesis by (cases r) simp_all
  next
    case (moved f)
    have m1: "fst (on_files (os_Rename works staged p) m) = Inr ()" by (simp add: moved(1))
    then have "us' = us" "m' = snd (on_files (os_Rename works staged p) m)" "r = Inr ()"
      using run by (auto simp: discarding_def split_beta)
    then have m': "us' = us" "r = Inr ()" "file_at m' = (file_at m)(staged := None, p \<mapsto> f)" "dir_at m' = dir_at m" "snd m' = snd m"
      by (simp_all add: moved(1))
    show ?thesis using m' undone [OF P m'(3,4,5)] keeps [OF P m'(4,5)] by auto
  qed
qed (rule assms(3))

lemma undoable_widen:
  assumes "undoable u g A B P Q a" "B \<subseteq> C"
  shows "undoable u g A C P Q a"
  unfolding undoable_def
proof (intro allI impI)
  fix us m r us' m'
  assume "P m" "a (us, m) = Some (r, us', m')"
  with assms(1) obtain new where "us' = us @ new" "undoes u g A B new m' m" "\<forall>x. r = Inr x \<longrightarrow> Q x m'"
    by (rule undoableE)
  moreover from this(2) have "undoes u g A C new m' m" unfolding undoes_def using found_mono [OF _ assms(2)] by blast
  ultimately show "(\<exists>new. us' = us @ new \<and> undoes u g A C new m' m) \<and> (\<forall>x. r = Inr x \<longrightarrow> Q x m')" by blast
qed

lemma undoable_read_then:
  assumes "\<And>x. undoable u g A C (\<lambda>m. P m \<and> x = f m) Q (k x)" "A \<subseteq> C"
  shows "undoable u g A C P Q (thenI (asking f) k)"
  by (rule undoable_then [OF undoable_asking [where Q = "\<lambda>x m. P m \<and> x = f m"] assms]) simp

context installing begin

lemma tidy_keep_previous:
  assumes "path i PreviousBinary \<in> C" "scratch i \<subseteq> C"
  shows "tidy C C (\<lambda>m. R (dir_at m)) (\<lambda>_ m. R (dir_at m) \<and> file_at m (path i PreviousBinary) = file_at m (path i Binary)) (keep_previous i)"
proof -
  have staged: "path i Binary @ ''.new'' \<in> C" using assms(2) by (simp add: scratch_def)
  have link: "found users groups C m m' \<and> (\<forall>x. r = Inr x \<longrightarrow> R (dir_at m') \<and> file_at m' (path i PreviousBinary) = file_at m' (path i Binary))"
    if "R (dir_at m)" "on_files (os_Link w (path i Binary) (path i PreviousBinary)) m = (r, m')" for w m r m'
    using on_files_result [OF that(2)] that(1) assms(1) path_distinct(2)
    by (auto simp: os_Link_def found_def split: if_splits)
  have clear: "found users groups C m m' \<and> (\<forall>x. r = Inr x \<longrightarrow> R (dir_at m'))"
    if "R (dir_at m)" "(case on_files (os_Remove w (path i PreviousBinary)) m of (Inl Denied, m) \<Rightarrow> (Inl Denied, m) | (_, m) \<Rightarrow> (Inr (), m)) = (r, m')"
    for w m m' and r :: "os_error + unit"
  proof -
    have "m' = snd (on_files (os_Remove w (path i PreviousBinary)) m)"
      using that(2) by (auto split: prod.splits sum.splits os_error.splits)
    with found_removed [OF assms(1)] that(1) show ?thesis by simp
  qed
  show ?thesis
    unfolding keep_previous_def Let_def
    by (rule undoable_then [where Q = "\<lambda>_ m. R (dir_at m)"], (rule undoable_discarding [OF staged], erule (1) clear),
      (rule undoable_discarding [OF staged], erule (1) link)) simp
qed

text \<open>The rename of the binary, over one and over none.\<close>

lemma tidy_binary_over:
  assumes "staged \<in> A" "staged \<noteq> bin" "A \<subseteq> C" "staged \<noteq> previous" "previous \<noteq> bin" "previous \<notin> A" "previous \<in> C"
  shows "tidy A C (\<lambda>m. R (dir_at m) \<and> file_at m previous = file_at m bin) (\<lambda>_ m. R (dir_at m))
      (thenI (discarding i staged w1 (on_files (os_Rename w staged bin)))
        (\<lambda>_. undoing what (wrapped w2 (on_files (os_Rename w' previous bin)))))"
proof (rule undoable_renamed [OF assms(1-3)])
  fix m m' x y :: "'h machine" and z f
  assume P: "R (dir_at m) \<and> file_at m previous = file_at m bin" and m': "file_at m' = (file_at m)(staged := None, bin \<mapsto> f)"
    "dir_at m' = dir_at m" "snd m' = snd m" and x: "found users groups A m' x"
    and u: "wrapped w2 (on_files (os_Rename w' previous bin)) x = (Inr z, y)"
  obtain v where "on_files (os_Rename w' previous bin) x = (Inr v, y)" using wrapped_Inr [OF u] by blast
  note r = on_files_result [OF this]
  then obtain b where "file_at x previous = Some b" "file_at y = (file_at x)(previous := None, bin \<mapsto> b)"
    "dir_at y = dir_at x" "snd y = snd x"
    using os_Rename_cases [of w' previous bin "file_at x"] by (metis fst_conv snd_conv sum.distinct(1))
  moreover have "map_option f_data (file_at x previous) = map_option f_data (file_at m bin)"
    using x m'(1) assms P by (simp add: found_def)
  moreover have "q \<notin> A \<and> q \<noteq> staged \<and> q \<noteq> previous" if "q \<notin> C" for q using that assms by auto
  ultimately show "found users groups C m y"
    using x m' by (auto simp: found_def)
qed simp

lemma tidy_binary_new:
  assumes "staged \<in> A" "staged \<noteq> bin" "A \<subseteq> C"
  shows "tidy A C (\<lambda>m. R (dir_at m) \<and> file_at m bin = None) (\<lambda>_ m. R (dir_at m))
      (thenI (discarding i staged w1 (on_files (os_Rename w staged bin)))
        (\<lambda>_. undoing what (wrapped w2 (on_files (os_Remove w' bin)))))"
proof (rule undoable_renamed [OF assms])
  fix m m' x y :: "'h machine" and z f
  assume P: "R (dir_at m) \<and> file_at m bin = None" and m': "file_at m' = (file_at m)(staged := None, bin \<mapsto> f)"
    "dir_at m' = dir_at m" "snd m' = snd m" and x: "found users groups A m' x"
    and u: "wrapped w2 (on_files (os_Remove w' bin)) x = (Inr z, y)"
  obtain v where "on_files (os_Remove w' bin) x = (Inr v, y)" using wrapped_Inr [OF u] by blast
  from on_files_result [OF this] have "file_at y = (file_at x)(bin := None)" "dir_at y = dir_at x" "snd y = snd x"
    by (auto simp: os_Remove_def split: if_splits)
  moreover have "q \<notin> A \<and> q \<noteq> staged" if "q \<notin> C" for q using that assms by auto
  ultimately show "found users groups C m y" using x m' P by (auto simp: found_def)
qed simp

lemma tidy_copy:
  assumes "staged \<in> C"
  shows "tidy C C (\<lambda>m. R (dir_at m)) (\<lambda>_ m. R (dir_at m)) (discarding i staged w (on_files (copyFile works src staged mode)))"
proof (rule undoable_discarding [OF assms])
  fix m m' :: "'h machine" and r
  assume "R (dir_at m)" "on_files (copyFile works src staged mode) m = (r, m')"
  moreover have "q \<noteq> staged \<Longrightarrow> snd (copyFile works src staged mode files) q = files q" for q files
    by (auto simp: copyFile_def os_Read_def os_Write_def os_Chmod_def split: option.splits if_splits sum.splits prod.splits)
  moreover have "q \<noteq> staged" if "q \<notin> C" for q using that assms by auto
  ultimately show "found users groups C m m' \<and> (\<forall>x. r = Inr x \<longrightarrow> R (dir_at m'))"
    by (auto simp: found_def dest!: on_files_result)
qed

lemma tidy_binary:
  assumes "\<And>ds. R ds \<Longrightarrow> ds (path_dir (path i Binary)) \<noteq> None" "scratch i \<subseteq> A" "path i PreviousBinary \<notin> A"
    and "C = insert (path i PreviousBinary) A"
  shows "tidy A C (\<lambda>m. R (dir_at m)) (\<lambda>_ m. R (dir_at m)) (installBinary i)"
proof -
  define bin where "bin = path i Binary"
  define previous where "previous = path i PreviousBinary"
  define staged where "staged = bin @ ''.new''"
  note names = bin_def previous_def staged_def
  have d: "staged \<in> A" "staged \<in> C" "staged \<noteq> bin" "staged \<noteq> previous" "previous \<noteq> bin" "A \<subseteq> C" "previous \<notin> A" "previous \<in> C" "scratch i \<subseteq> C"
    using assms(2-4) path_distinct(2-4) [of i] by (auto simp: names scratch_def)
  have place: "tidy A C (\<lambda>m. R (dir_at m) \<and> had = exists bin m) (\<lambda>_ m. R (dir_at m))
      (thenI (if had then keep_previous i else returnI ()) (\<lambda>_.
       thenI (discarding i staged (FileFailed bin) (on_files (os_Rename w staged bin))) (\<lambda>_.
       if had then undoing w1 (wrapped (FileFailed bin) (on_files (os_Rename w2 previous bin)))
       else undoing w3 (wrapped (FileFailed bin) (on_files (os_Remove w4 bin))))))" for had w w1 w2 w3 w4
  proof (cases had)
    case True
    have "tidy C C (\<lambda>m. R (dir_at m)) (\<lambda>_ m. R (dir_at m) \<and> file_at m previous = file_at m bin) (keep_previous i)"
      unfolding names by (rule tidy_keep_previous) (use d names in simp_all)
    then have "tidy C C (\<lambda>m. R (dir_at m) \<and> exists bin m) (\<lambda>_ m. R (dir_at m) \<and> file_at m previous = file_at m bin) (keep_previous i)"
      by (rule undoable_weaken) simp_all
    with True show ?thesis
      using undoable_then [OF _ tidy_binary_over [OF d(1,3,6,4,5,7,8)] d(6)] by simp
  next
    case False
    have "tidy C C (\<lambda>m. R (dir_at m) \<and> \<not> exists bin m) (\<lambda>_ m. R (dir_at m) \<and> file_at m bin = None) (returnI ())"
      by (rule undoable_return) (simp add: exists_def)
    with False show ?thesis
      using undoable_then [OF _ tidy_binary_new [OF d(1,3,6)] d(6)] by simp
  qed
  have "tidy C C (\<lambda>m. R (dir_at m)) (\<lambda>_ m. R (dir_at m)) (mkdir_for i bin)"
    by (rule undoable_mkdir) (simp add: names assms(1))
  note put = undoable_then [OF this undoable_then [OF tidy_copy [OF d(2)] undoable_read_then [OF place d(6)] d(6)] d(6)]
  have "tidy A C (\<lambda>m. R (dir_at m) \<and> same = f m) (\<lambda>_ m. R (dir_at m)) (if same then returnI () else
      thenI (mkdir_for i bin) (\<lambda>_. thenI (discarding i staged w (on_files (copyFile works src staged mode))) (\<lambda>_.
      thenI (asking (exists bin)) (\<lambda>had.
      thenI (if had then keep_previous i else returnI ()) (\<lambda>_.
       thenI (discarding i staged (FileFailed bin) (on_files (os_Rename w0 staged bin))) (\<lambda>_.
       if had then undoing w1 (wrapped (FileFailed bin) (on_files (os_Rename w2 previous bin)))
       else undoing w3 (wrapped (FileFailed bin) (on_files (os_Remove w4 bin)))))))))"
    for same f w works src mode w0 w1 w2 w3 w4
    by (rule undoable_if, rule undoable_widen [OF undoable_return d(6)], simp, rule undoable_weaken [OF put]) simp_all
  from undoable_read_then [OF this d(6)] show ?thesis
    unfolding installBinary_def Let_def names [symmetric] .
qed

end

lemma fresh_dir_step: "fresh_dir q w \<Longrightarrow> \<not> under q p \<Longrightarrow> fresh_dir q (w\<lparr>w_dirs := (w_dirs w)(p \<mapsto> mode)\<rparr>)"
  by (auto simp: fresh_dir_def)

lemma system_dirs_step: "system_dirs i w \<Longrightarrow> system_dirs i (w\<lparr>w_dirs := (w_dirs w)(p \<mapsto> mode)\<rparr>)"
  by (simp add: system_dirs_def)

text \<open>
  Where an installation may start: the system's directories are there, a directory of dokkup's that is
  not there has nothing under it, and there is no group of dokkup's without its user.
\<close>

definition starts :: "('h, 't) installer \<Rightarrow> ('h \<Rightarrow> string set) \<Rightarrow> ('h \<Rightarrow> string set) \<Rightarrow> 'h machine \<Rightarrow> bool" where
  "starts i users groups m \<longleftrightarrow> system_dirs i (fst m) \<and> fresh_dir (path i DataDir) (fst m) \<and> fresh_dir (path i TLSDir) (fst m) \<and>
     (Group \<in> groups (snd m) \<longrightarrow> User \<in> users (snd m))"

context installing begin

lemma tidy_put_vhost:
  assumes "\<And>ds. R ds \<Longrightarrow> ds (path_dir (path i Vhost)) \<noteq> None" "scratch i \<subseteq> A"
  shows "tidy A A (\<lambda>m. R (dir_at m)) (\<lambda>_ m. R (dir_at m)) (putVhost i s)"
proof -
  define p where "p = path i Vhost"
  define staging where "staging = path i VhostStaging"
  have d: "staging \<in> A" "staging \<noteq> p" "candidate i @ ''.wrapper'' \<in> A"
    using assms(2) path_distinct(1) [of i] by (auto simp: scratch_def p_def staging_def)
  have restores: "found users groups A m y"
    if "R (dir_at m) \<and> previous = map_option f_data (file_at m p)" "file_at m' = (file_at m)(staging := None, p \<mapsto> f)" "dir_at m' = dir_at m"
      "snd m' = snd m" "found users groups A m' x" "vhostRestorer i p previous x = (Inr z, y)" for m m' x y :: "'h machine" and z f previous
  proof -
    obtain r1 y1 where y1: "restorer i p previous readableMode x = (r1, y1)" by (rule prod.exhaust)
    with that(6) obtain v where v: "r1 = Inr v" "wrapped VhostRefused (CheckProxy (in_ops i)) y1 = (Inr z, y)"
      by (auto simp: vhostRestorer_def split: sum.splits)
    from v(2) have y: "same_host users groups y1 y" using checked_proxy by (blast dest: wrapped_Inr)
    have "found users groups (insert p A) m m'" using that(2-4) d by (auto simp: found_def)
    from restorer_restores [OF y1 [unfolded v(1)] _ this that(5)] that(1) have "found users groups A m y1" by blast
    with y show ?thesis using found_trans found_same_host by blast
  qed
  have place: "tidy A A (\<lambda>m. R (dir_at m) \<and> previous = map_option f_data (file_at m p)) (\<lambda>_ m. R (dir_at m))
      (thenI (discarding i staging w (on_files (os_Rename works staging p))) (\<lambda>_. undoing what (vhostRestorer i p previous)))" for previous w works what
    using d(1,2) order_refl by (rule undoable_renamed) (fact restores, simp)
  have check: "tidy A A (\<lambda>m. R (dir_at m)) (\<lambda>_ m. R (dir_at m)) (call VhostRefused (CheckProxy (in_ops i)))"
    by (rule tidy_kept_dirs) (rule checked_proxy)
  note placed = undoable_then [OF place check order_refl, unfolded thenI_assoc]
  have stage: "tidy A A (\<lambda>m. R (dir_at m) \<and> previous = map_option f_data (file_at m p))
      (\<lambda>_ m. R (dir_at m) \<and> previous = map_option f_data (file_at m p)) (write_file i staging d mode)" for previous d mode
    by (rule undoable_write_scratch [OF d(1)]) (use d(2) in simp)
  have mk: "tidy A A (\<lambda>m. R (dir_at m) \<and> previous = map_option f_data (file_at m p))
      (\<lambda>_ m. R (dir_at m) \<and> previous = map_option f_data (file_at m p)) (mkdir_for i p)" for previous
    by (rule undoable_mkdir) (use assms(1) p_def in blast)
  have "found users groups A m m' \<and> (\<forall>x. r = Inr x \<longrightarrow> R (dir_at m'))"
    if "R (dir_at m)" "CheckProxyFragment (in_ops i) (candidate i) m = (r, m')" for m m' r
    using checked_fragment [OF that(2)] that(1) d(3) by (auto intro: found_same_but) (simp add: same_but_def)
  then have fragment: "tidy A A (\<lambda>m. R (dir_at m)) (\<lambda>_ m. R (dir_at m)) (call FragmentRefused (CheckProxyFragment (in_ops i) (candidate i)))"
    by (rule undoable_call)
  show ?thesis
    unfolding putVhost_def Let_def p_def [symmetric] staging_def [symmetric]
    by (rule undoable_then [OF fragment undoable_then [OF undoable_read_previous
        undoable_then [OF mk undoable_then [OF stage placed order_refl] order_refl] order_refl] order_refl])
qed

lemma tidy_vhost:
  assumes "\<And>ds. R ds \<Longrightarrow> ds (path_dir (path i Vhost)) \<noteq> None" "scratch i \<subseteq> A"
  shows "tidy A A (\<lambda>m. R (dir_at m)) (\<lambda>_ m. R (dir_at m)) (installVhost i s)"
proof -
  have c: "candidate i \<in> A" using assms(2) by (simp add: scratch_def)
  have "tidy A A (\<lambda>m. R (dir_at m)) (\<lambda>_ m. R (dir_at m)) (write_file i (candidate i) d mode)" for d mode
    by (rule undoable_write_scratch [OF c]) simp
  moreover have "tidy A A (\<lambda>m. R (dir_at m)) (\<lambda>_ m. R (dir_at m))
      (deferring (\<lambda>m. snd (on_files (os_Remove works (candidate i)) m)) (putVhost i s))" for works
    by (rule undoable_deferring [OF tidy_put_vhost [where R = R and A = A] found_removed [OF c]]) (use assms in simp_all)
  ultimately show ?thesis unfolding installVhost_def by (rule undoable_then) simp
qed

lemma tidy_data_dir:
  "tidy A A (\<lambda>m. system_dirs i (fst m) \<and> fresh_dir (path i DataDir) (fst m) \<and> fresh_dir (path i TLSDir) (fst m))
    (\<lambda>_ m. system_dirs i (fst m) \<and> dir_at m (path i TLSDir) \<noteq> None) (ensureDataDir i owner)"
proof -
  have one: "tidy A A (\<lambda>m. system_dirs i (fst m) \<and> fresh_dir (path i DataDir) (fst m) \<and> fresh_dir (path i TLSDir) (fst m))
      (\<lambda>_ m. system_dirs i (fst m) \<and> fresh_dir (path i TLSDir) (fst m)) (ensure_dir i owner DataDir)"
    by (rule tidy_ensure_dir [where S = "\<lambda>w. system_dirs i w \<and> fresh_dir (path i DataDir) w \<and> fresh_dir (path i TLSDir) w"
        and S' = "\<lambda>w. system_dirs i w \<and> fresh_dir (path i TLSDir) w"])
      (simp_all add: system_dirs_step fresh_dir_step not_under_TLSDir)
  have two: "tidy A A (\<lambda>m. system_dirs i (fst m) \<and> fresh_dir (path i TLSDir) (fst m))
      (\<lambda>_ m. system_dirs i (fst m) \<and> dir_at m (path i TLSDir) \<noteq> None) (ensure_dir i owner TLSDir)"
    by (rule tidy_ensure_dir [where S = "\<lambda>w. system_dirs i w \<and> fresh_dir (path i TLSDir) w"
        and S' = "\<lambda>w. system_dirs i w \<and> w_dirs w (path i TLSDir) \<noteq> None"])
      (simp_all add: system_dirs_step)
  show ?thesis unfolding ensureDataDir_def by (rule undoable_then [OF one two order_refl])
qed

lemma tidy_account:
  "tidy A A (starts i users groups) (\<lambda>_ m. system_dirs i (fst m) \<and> fresh_dir (path i DataDir) (fst m) \<and> fresh_dir (path i TLSDir) (fst m)) (ensureAccount i)"
proof -
  define R where "R w \<longleftrightarrow> system_dirs i w \<and> fresh_dir (path i DataDir) w \<and> fresh_dir (path i TLSDir) w" for w
  have a: "tidy A A (starts i users groups) (\<lambda>_ m. R (fst m)) (thenI (ensureGroup i) (\<lambda>_. ensureUser i))"
    by (rule undoable_weaken [OF tidy_accounts [of A R]]) (simp_all add: R_def starts_def)
  have j: "tidy A A (\<lambda>m. R (fst m)) (\<lambda>_ m. R (fst m)) (call HostFailed (JoinGroup (in_ops i) User DokkuGroup))"
    by (rule tidy_kept) (rule joined_group)
  have l: "tidy A A (\<lambda>m. R (fst m)) (\<lambda>_ m. R (fst m)) (call HostFailed (LookupUser (in_ops i) User))"
    by (rule tidy_kept) (use looked_user in blast)
  have "tidy A A (starts i users groups) (\<lambda>_ m. R (fst m)) (ensureAccount i)"
    using undoable_then [OF a undoable_then [OF j l order_refl] order_refl]
    unfolding ensureAccount_def thenI_assoc .
  then show ?thesis unfolding R_def .
qed

lemma tidy_change:
  "tidy (scratch i) (insert (path i PreviousBinary) (scratch i)) (starts i users groups) (\<lambda>_ m. system_dirs i (fst m)) (change_host i s)"
proof -
  define A where "A = scratch i"
  define C where "C = insert (path i PreviousBinary) A"
  define R where "R ds \<longleftrightarrow> (\<forall>p \<in> {Sudoers, Binary, Unit, Vhost}. ds (path_dir (path i p)) \<noteq> None) \<and> ds (path i TLSDir) \<noteq> (None :: nat option)" for ds
  have AC: "A \<subseteq> C" "scratch i \<subseteq> A" "scratch i \<subseteq> C" "path i PreviousBinary \<notin> A"
    using path_distinct(5) [of i] by (auto simp: A_def C_def)
  have R: "system_dirs i (fst m) \<and> dir_at m (path i TLSDir) \<noteq> None \<longleftrightarrow> R (dir_at m)" for m :: "'h machine"
    by (simp add: R_def system_dirs_def)
  have dirs: "ds (path_dir (path i Sudoers)) \<noteq> None" "ds (path_dir (path i Binary)) \<noteq> None" "ds (path_dir (path i Unit)) \<noteq> None"
    "ds (path_dir (path i Vhost)) \<noteq> None" "ds (path i TLSDir) \<noteq> None" if "R ds" for ds
    using that unfolding R_def by blast+
  have sudoers: "tidy C C (\<lambda>m. R (dir_at m)) (\<lambda>_ m. R (dir_at m)) (ensureSudoers i)"
    by (rule tidy_sudoers) (fact dirs AC)+
  have binary: "tidy A C (\<lambda>m. R (dir_at m)) (\<lambda>_ m. R (dir_at m)) (installBinary i)"
    by (rule tidy_binary) (fact dirs AC C_def)+
  have certificate: "tidy A A (\<lambda>m. R (dir_at m)) (\<lambda>_ m. R (dir_at m)) (installCertificate i s)"
    by (rule tidy_certificate) (fact dirs)
  have vhost: "tidy A A (\<lambda>m. R (dir_at m)) (\<lambda>_ m. R (dir_at m)) (installVhost i s)"
    by (rule tidy_vhost) (fact dirs AC)+
  have unit: "tidy A A (\<lambda>m. R (dir_at m)) (\<lambda>_ m. R (dir_at m)) (installUnit i s)"
    by (rule tidy_unit) (fact dirs)
  note start = tidy_start [of A "\<lambda>w. R (w_dirs w)"] and confirm = tidy_confirm [of A "\<lambda>w. R (w_dirs w)" s]
  have reload: "tidy A A (\<lambda>m. R (dir_at m)) (\<lambda>_ m. R (dir_at m)) (reloadProxy i)"
    unfolding reloadProxy_def by (rule tidy_kept_dirs) (rule manager_reloaded(2))
  have last: "tidy A A (\<lambda>m. R (dir_at m)) (\<lambda>_ m. R (dir_at m)) (thenI (installCertificate i s) (\<lambda>_. thenI (installVhost i s) (\<lambda>_.
     thenI (installUnit i s) (\<lambda>_. thenI (reloadProxy i) (\<lambda>_. thenI (startService i) (\<lambda>_. confirmSite i s))))))"
    by (rule undoable_then [OF certificate undoable_then [OF vhost undoable_then [OF unit undoable_then [OF reload
        undoable_then [OF start confirm order_refl] order_refl] order_refl] order_refl] order_refl])
  have data: "tidy C C (\<lambda>m. system_dirs i (fst m) \<and> fresh_dir (path i DataDir) (fst m) \<and> fresh_dir (path i TLSDir) (fst m))
      (\<lambda>_ m. R (dir_at m)) (ensureDataDir i owner)" for owner
    using tidy_data_dir [of C owner] unfolding R .
  have "tidy A C (starts i users groups) (\<lambda>_ m. R (dir_at m)) (change_host i s)"
    unfolding change_host_def
    by (rule undoable_then [OF tidy_account undoable_then [OF data undoable_then [OF sudoers undoable_then [OF binary last
        order_refl] AC(1)] AC(1)] AC(1)])
  then show ?thesis
    unfolding A_def [symmetric] C_def [symmetric, folded A_def]
    by (rule undoable_weaken) (simp_all add: R [symmetric])
qed

text \<open>The steps before the first change change nothing.\<close>

lemma requireDokku_same:
  assumes "requireDokku i (us, m) = Some (r, us', m')"
  shows "same_host users groups m m'"
proof -
  have l: "same_host users groups m m'" if "call w (LookupGroup (in_ops i) n) (us, m) = Some (r, us', m')" for w n us m r us' m'
    using that looked_group [of n m] by (cases "LookupGroup (in_ops i) n m") (auto simp: call_def split: sum.splits)
  have u: "same_host users groups m m'" if "call w (LookupUser (in_ops i) n) (us, m) = Some (r, us', m')" for w n us m r us' m'
    using that looked_user [of n m] by (cases "LookupUser (in_ops i) n m") (auto simp: call_def split: sum.splits)
  show ?thesis
    using assms unfolding requireDokku_def thenI_def asking_def returnI_def failI_def
    by (auto split: option.splits sum.splits if_splits dest!: l u simp: same_host_def)
qed

lemma change_undone:
  assumes "starts i users groups m" "change_host i s ([], m) = Some (Inl err, us, m')" "unwind us m' = ([], m'')"
  shows "found users groups (insert (path i PreviousBinary) (scratch i)) m m''"
proof -
  obtain new where "us = [] @ new" "undoes users groups (scratch i) (insert (path i PreviousBinary) (scratch i)) new m' m"
    using tidy_change assms(1,2) by (rule undoableE)
  then have "fst (unwind us m') = [] \<Longrightarrow> found users groups (insert (path i PreviousBinary) (scratch i)) m (snd (unwind us m'))"
    unfolding undoes_def using found_refl by (metis append_Nil)
  with assms(3) show ?thesis by simp
qed

lemma starts_same: "same_host users groups m m' \<Longrightarrow> starts i users groups m \<Longrightarrow> starts i users groups m'"
  by (simp add: same_host_def starts_def)

lemma install_restores:
  assumes "starts i users groups m" "install i m = Some (Inl err, [], m')"
  shows "found users groups (insert (path i PreviousBinary) (scratch i)) m m'"
proof -
  obtain r1 us1 m1 where q: "requireDokku i ([], m) = Some (r1, us1, m1)"
    using assms(2) by (auto simp: install_def split: option.splits)
  note s1 = requireDokku_same [OF q]
  obtain r2 m2 where c: "CheckProxy (in_ops i) m1 = (r2, m2)" by (rule prod.exhaust)
  note s2 = same_host_trans [OF s1 checked_proxy [OF c]]
  have early: "m' = m1 \<or> m' = m2 \<or> (\<exists>s us3 m3. change_host i s ([], m2) = Some (Inl err, us3, m3) \<and> unwind us3 m3 = ([], m'))"
    using assms(2) q c
    by (auto simp: install_def Let_def split_beta split: sum.splits option.splits prod.splits)
  then consider "m' = m1" | "m' = m2" | s us3 m3 where "change_host i s ([], m2) = Some (Inl err, us3, m3)" "unwind us3 m3 = ([], m')"
    by blast
  then show ?thesis
  proof cases
    case 3
    from change_undone [OF starts_same [OF s2 assms(1)] this] s2 show ?thesis by (blast intro: found_trans found_same_host)
  qed (use s1 s2 in \<open>auto intro: found_same_host\<close>)
qed

end


end
