(* ===== verification/Uninstall.thy ===== *)
theory Uninstall
  imports Authn Install_Unwind
begin

text \<open>
  internal/cli/uninstall.go: the removal of dokkup. A removal does not stop at what it cannot remove; it
  keeps what was removed, what was kept, what could not be removed and what it warned of. The sentences
  printed around these are not kept.
\<close>

section \<open>The uninstaller\<close>

datatype failure =
    CouldNotDisable manager_error
  | CouldNotRemove string os_error
  | UserStillBusy
  | UserNotRemoved host_error
  | GroupNotRemoved host_error

datatype warning = ProxyNotReloaded host_error | ProxyNotTold manager_error | SystemdNotTold manager_error

datatype uninstall_error =
    NotLinuxHost
  | NotRunAsRoot
  | NobodyAnswered
  | NotAYesOrNo string
  | NotConfirmed confirm_error
  | NotCompletelyRemoved "failure list"

record 'h uninstaller =
  un_ops :: "'h Ops"
  un_manager :: "'h Manager"
  un_confirm :: "string \<Rightarrow> 'h machine \<Rightarrow> (confirm_error + unit) \<times> 'h machine"
  un_works :: "string \<Rightarrow> string \<Rightarrow> bool"
  un_stdin :: string
  un_root :: string
  un_purge :: bool

record removal =
  rm_removed :: "string list"
  rm_kept :: "string list"
  rm_failed :: "failure list"
  rm_warned :: "warning list"

definition no_removal :: removal where
  "no_removal = \<lparr>rm_removed = [], rm_kept = [], rm_failed = [], rm_warned = []\<rparr>"

definition un_path :: "'h uninstaller \<Rightarrow> string \<Rightarrow> string" where
  "un_path u p = Rooted (un_root u) p"

definition note_removed :: "string \<Rightarrow> removal \<Rightarrow> removal" where
  "note_removed what r = r\<lparr>rm_removed := rm_removed r @ [what]\<rparr>"

definition note_kept :: "string \<Rightarrow> removal \<Rightarrow> removal" where
  "note_kept what r = r\<lparr>rm_kept := rm_kept r @ [what]\<rparr>"

definition failf :: "failure \<Rightarrow> removal \<Rightarrow> removal" where
  "failf why r = r\<lparr>rm_failed := rm_failed r @ [why]\<rparr>"

definition warnf :: "warning \<Rightarrow> removal \<Rightarrow> removal" where
  "warnf why r = r\<lparr>rm_warned := rm_warned r @ [why]\<rparr>"

section \<open>Before anything is removed\<close>

text \<open>What is decided about the data directory, and what is left of the standard input.\<close>

definition decideAboutData :: "'h uninstaller \<Rightarrow> 'h machine \<Rightarrow> uninstall_error + bool \<times> string" where
  "decideAboutData u m =
     (if un_purge u then Inr (True, un_stdin u)
      else if \<not> exists (un_path u DataDir) m then Inr (False, un_stdin u)
      else (case yesOrNo (un_stdin u) of
          (ErrNoAnswer, _) \<Rightarrow> Inl NobodyAnswered
        | (NotAnAnswer s, _) \<Rightarrow> Inl (NotAYesOrNo s)
        | (Yes, rest) \<Rightarrow> Inr (True, rest)
        | (No, rest) \<Rightarrow> Inr (False, rest)))"

section \<open>The steps\<close>

type_synonym 'h removing = "removal \<times> 'h machine"

text \<open>Whether there was one is the second result.\<close>

definition removeFile :: "'h uninstaller \<Rightarrow> string \<Rightarrow> 'h removing \<Rightarrow> bool \<times> 'h removing" where
  "removeFile u p = (\<lambda>(r, m).
     case on_files (os_Remove (un_works u ''remove'' (un_path u p)) (un_path u p)) m of
       (Inl err, m) \<Rightarrow> (False, if err = NotExist then r else failf (CouldNotRemove p err) r, m)
     | (Inr _, m) \<Rightarrow> (True, note_removed p r, m))"

definition removeTree :: "'h uninstaller \<Rightarrow> string \<Rightarrow> 'h removing \<Rightarrow> 'h removing" where
  "removeTree u p = (\<lambda>(r, m).
     let full = un_path u p in
     if \<not> exists full m then (r, m)
     else (case RemoveAll (un_works u ''removeall'' full) full m of
         (Inl err, m) \<Rightarrow> (failf (CouldNotRemove p err) r, m)
       | (Inr _, m) \<Rightarrow> (note_removed p r, m)))"

definition removeVhost :: "'h uninstaller \<Rightarrow> 'h removing \<Rightarrow> 'h removing" where
  "removeVhost u = (\<lambda>(r, m).
     let p = un_path u Vhost in
     if \<not> exists p m then (r, m)
     else (case on_files (os_Remove (un_works u ''remove'' p) p) m of
         (Inl err, m) \<Rightarrow> (failf (CouldNotRemove Vhost err) r, m)
       | (Inr _, m) \<Rightarrow>
         let r = note_removed Vhost r in
         (case CheckProxy (un_ops u) m of
            (Inl err, m) \<Rightarrow> (warnf (ProxyNotReloaded err) r, m)
          | (Inr _, m) \<Rightarrow>
            (case mg_Reload (un_manager u) nginxUnit m of
               (Inl err, m) \<Rightarrow> (warnf (ProxyNotTold err) r, m)
             | (Inr _, m) \<Rightarrow> (r, m)))))"

definition stopService :: "'h uninstaller \<Rightarrow> 'h removing \<Rightarrow> 'h removing" where
  "stopService u = (\<lambda>(r, m).
     if \<not> exists (un_path u Unit) m then (r, m)
     else (case mg_Disable (un_manager u) m of
         (Inl err, m) \<Rightarrow> (failf (CouldNotDisable err) r, m)
       | (Inr _, m) \<Rightarrow> (note_removed ''the running service, stopped and no longer started at boot'' r, m)))"

definition removeUnit :: "'h uninstaller \<Rightarrow> 'h removing \<Rightarrow> 'h removing" where
  "removeUnit u s =
     (case removeFile u Unit s of
        (False, s) \<Rightarrow> s
      | (True, r, m) \<Rightarrow>
        (case mg_DaemonReload (un_manager u) m of
           (Inl err, m) \<Rightarrow> (warnf (SystemdNotTold err) r, m)
         | (Inr _, m) \<Rightarrow> (r, m)))"

definition removeGroup :: "'h uninstaller \<Rightarrow> 'h removing \<Rightarrow> 'h removing" where
  "removeGroup u = (\<lambda>(r, m).
     case RemoveGroup (un_ops u) Group m of
       (Inl err, m) \<Rightarrow> (failf (GroupNotRemoved err) r, m)
     | (Inr took, m) \<Rightarrow> (if took then note_removed (''the system group '' @ Group) r else r, m))"

definition removeAccount :: "'h uninstaller \<Rightarrow> 'h removing \<Rightarrow> 'h removing" where
  "removeAccount u = (\<lambda>(r, m).
     case RemoveUser (un_ops u) User m of
       (Inl ErrUserBusy, m) \<Rightarrow> (failf UserStillBusy r, m)
     | (Inl err, m) \<Rightarrow> (failf (UserNotRemoved err) r, m)
     | (Inr took, m) \<Rightarrow> removeGroup u (if took then note_removed (''the system user '' @ User) r else r, m))"

definition removeDataDir :: "'h uninstaller \<Rightarrow> bool \<Rightarrow> 'h removing \<Rightarrow> 'h removing" where
  "removeDataDir u removeData = (\<lambda>(r, m).
     let full = un_path u DataDir in
     if \<not> exists full m then (r, m)
     else if \<not> removeData then (note_kept (DataDir @ '' -- operators, audit trail, deploy history'') r, m)
     else (case RemoveAll (un_works u ''removeall'' full) full m of
         (Inl err, m) \<Rightarrow> (failf (CouldNotRemove DataDir err) r, m)
       | (Inr _, m) \<Rightarrow> (note_removed DataDir r, m)))"

section \<open>The whole removal\<close>

definition remove_all :: "'h uninstaller \<Rightarrow> bool \<Rightarrow> 'h removing \<Rightarrow> 'h removing" where
  "remove_all u removeData s =
     (let s = removeVhost u s;
          s = stopService u s;
          s = removeUnit u s;
          s = snd (removeFile u Sudoers s);
          s = snd (removeFile u Binary s);
          s = snd (removeFile u PreviousBinary s);
          s = removeTree u TLSDir s;
          s = removeAccount u s
      in removeDataDir u removeData s)"

definition uninstall :: "'h uninstaller \<Rightarrow> 'h machine \<Rightarrow> (uninstall_error + unit) \<times> 'h removing" where
  "uninstall u m =
     (case decideAboutData u m of
        Inl err \<Rightarrow> (Inl err, no_removal, m)
      | Inr (removeData, stdin) \<Rightarrow>
        (case un_confirm u stdin m of
           (Inl err, m) \<Rightarrow> (Inl (NotConfirmed err), no_removal, m)
         | (Inr _, m) \<Rightarrow>
           (let s = remove_all u removeData (no_removal, m) in
            (if rm_failed (fst s) \<noteq> [] then Inl (NotCompletelyRemoved (rm_failed (fst s))) else Inr (), s))))"

definition uninstallPreflight :: "string \<Rightarrow> int \<Rightarrow> uninstall_error + unit" where
  "uninstallPreflight goos euid = (if goos \<noteq> ''linux'' then Inl NotLinuxHost else if euid \<noteq> 0 then Inl NotRunAsRoot else Inr ())"

definition runUninstall :: "string \<Rightarrow> int \<Rightarrow> 'h uninstaller \<Rightarrow> 'h machine \<Rightarrow> (uninstall_error + unit) \<times> 'h removing" where
  "runUninstall goos euid u m = (case uninstallPreflight goos euid of Inl err \<Rightarrow> (Inl err, no_removal, m) | Inr _ \<Rightarrow> uninstall u m)"

text \<open>The paths the report promises to take.\<close>

definition removalTargets :: "string list" where
  "removalTargets = filter (\<lambda>p. p \<noteq> DataDir) Owned @ Conditional"

section \<open>Only what is dokkup's\<close>

lemma under_trans: "under p q \<Longrightarrow> under q x \<Longrightarrow> under p x"
  by (auto simp: under_def HasPrefix_iff)

text \<open>
  A change of a host that only takes away: files and directories of a set, and the account. A
  directory goes with all that is under it.
\<close>

definition only_removed :: "('h \<Rightarrow> string set) \<Rightarrow> ('h \<Rightarrow> string set) \<Rightarrow> string set \<Rightarrow> 'h machine \<Rightarrow> 'h machine \<Rightarrow> bool" where
  "only_removed users groups A m m' \<longleftrightarrow>
     (\<forall>q. file_at m' q = file_at m q \<or> q \<in> A \<and> file_at m' q = None) \<and>
     (\<forall>q. dir_at m' q = dir_at m q \<or> q \<in> A \<and> dir_at m' q = None) \<and>
     (\<forall>d q. dir_at m d \<noteq> None \<longrightarrow> dir_at m' d = None \<longrightarrow> under d q \<longrightarrow> file_at m' q = None \<and> dir_at m' q = None) \<and>
     users (snd m') \<subseteq> users (snd m) \<and> users (snd m) \<subseteq> insert User (users (snd m')) \<and>
     groups (snd m') \<subseteq> groups (snd m) \<and> groups (snd m) \<subseteq> insert Group (groups (snd m'))"

lemma only_removedD:
  assumes "only_removed u g A m m'"
  shows "file_at m' q = file_at m q \<or> q \<in> A \<and> file_at m' q = None"
    "dir_at m' q = dir_at m q \<or> q \<in> A \<and> dir_at m' q = None"
    "dir_at m d \<noteq> None \<Longrightarrow> dir_at m' d = None \<Longrightarrow> under d q \<Longrightarrow> file_at m' q = None \<and> dir_at m' q = None"
    "u (snd m') \<subseteq> u (snd m)" "u (snd m) \<subseteq> insert User (u (snd m'))"
    "g (snd m') \<subseteq> g (snd m)" "g (snd m) \<subseteq> insert Group (g (snd m'))"
  using assms unfolding only_removed_def by simp_all

lemma only_removed_none:
  assumes "only_removed u g A m m'"
  shows "file_at m q = None \<Longrightarrow> file_at m' q = None" "dir_at m q = None \<Longrightarrow> dir_at m' q = None"
    "x \<notin> u (snd m) \<Longrightarrow> x \<notin> u (snd m')" "x \<notin> g (snd m) \<Longrightarrow> x \<notin> g (snd m')"
  using only_removedD(1,2) [OF assms, of q] only_removedD(4,6) [OF assms] by auto

lemma only_removed_same: "same_host u g m m' \<Longrightarrow> only_removed u g A m m'"
  by (auto simp: only_removed_def same_host_def)

lemma only_removed_refl: "only_removed u g A m m"
  by (rule only_removed_same) (simp add: same_host_def)

lemma only_removed_mono: "only_removed u g A m m' \<Longrightarrow> A \<subseteq> B \<Longrightarrow> only_removed u g B m m'"
  unfolding only_removed_def by blast

lemma only_removed_trans:
  assumes a: "only_removed u g A m m1" and b: "only_removed u g A m1 m2"
  shows "only_removed u g A m m2"
  unfolding only_removed_def
proof (intro conjI allI impI)
  fix q show "file_at m2 q = file_at m q \<or> q \<in> A \<and> file_at m2 q = None"
    using only_removedD(1) [OF a, of q] only_removedD(1) [OF b, of q] by auto
  show "dir_at m2 q = dir_at m q \<or> q \<in> A \<and> dir_at m2 q = None"
    using only_removedD(2) [OF a, of q] only_removedD(2) [OF b, of q] by auto
next
  fix d q
  assume d: "dir_at m d \<noteq> None" "dir_at m2 d = None" "under d q"
  have "file_at m1 q = None \<and> dir_at m1 q = None \<or> file_at m2 q = None \<and> dir_at m2 q = None"
    using only_removedD(3) [OF a d(1) _ d(3)] only_removedD(3) [OF b _ d(2,3)] by (cases "dir_at m1 d = None") blast+
  then show "file_at m2 q = None" "dir_at m2 q = None" using only_removed_none(1,2) [OF b, of q] by auto
next
  show "u (snd m2) \<subseteq> u (snd m)" "g (snd m2) \<subseteq> g (snd m)"
    using only_removedD(4,6) [OF a] only_removedD(4,6) [OF b] by auto
  show "u (snd m) \<subseteq> insert User (u (snd m2))" "g (snd m) \<subseteq> insert Group (g (snd m2))"
    using only_removedD(5,7) [OF a] only_removedD(5,7) [OF b] by auto
qed

text \<open>
  A step that only takes away of A, and that has done its part, G, unless it says what it could not do.
\<close>

definition takes :: "('h \<Rightarrow> string set) \<Rightarrow> ('h \<Rightarrow> string set) \<Rightarrow> string set \<Rightarrow> ('h machine \<Rightarrow> bool) \<Rightarrow> ('h removing \<Rightarrow> 'h removing) \<Rightarrow> bool" where
  "takes u g A G f \<longleftrightarrow> (\<forall>r m. only_removed u g A m (snd (f (r, m))) \<and>
     (\<exists>fs. rm_failed (fst (f (r, m))) = rm_failed r @ fs \<and> (fs = [] \<longrightarrow> G (snd (f (r, m))))))"

definition lasting :: "('h \<Rightarrow> string set) \<Rightarrow> ('h \<Rightarrow> string set) \<Rightarrow> ('h machine \<Rightarrow> bool) \<Rightarrow> bool" where
  "lasting u g G \<longleftrightarrow> (\<forall>A m m'. G m \<longrightarrow> only_removed u g A m m' \<longrightarrow> G m')"

lemma takes_then:
  assumes "takes u g A G f" "takes u g A H k" "lasting u g G"
  shows "takes u g A (\<lambda>m. G m \<and> H m) (\<lambda>s. k (f s))"
  unfolding takes_def
proof (intro allI conjI)
  fix r m
  obtain r1 m1 where f: "f (r, m) = (r1, m1)" by (rule prod.exhaust)
  obtain r2 m2 where k: "k (r1, m1) = (r2, m2)" by (rule prod.exhaust)
  obtain fs where a: "only_removed u g A m m1" "rm_failed r1 = rm_failed r @ fs" "fs = [] \<longrightarrow> G m1"
    using assms(1) f unfolding takes_def by (metis fst_conv snd_conv)
  obtain fs' where b: "only_removed u g A m1 m2" "rm_failed r2 = rm_failed r1 @ fs'" "fs' = [] \<longrightarrow> H m2"
    using assms(2) k unfolding takes_def by (metis fst_conv snd_conv)
  show "only_removed u g A m (snd (k (f (r, m))))" using only_removed_trans [OF a(1) b(1)] by (simp add: f k)
  have "fs = [] \<longrightarrow> G m2" using a(3) b(1) assms(3) unfolding lasting_def by blast
  then show "\<exists>fs. rm_failed (fst (k (f (r, m)))) = rm_failed r @ fs \<and> (fs = [] \<longrightarrow> G (snd (k (f (r, m)))) \<and> H (snd (k (f (r, m)))))"
    using a(2) b(2,3) by (intro exI [of _ "fs @ fs'"]) (simp add: f k)
qed

lemma takes_mono: "takes u g A G f \<Longrightarrow> A \<subseteq> B \<Longrightarrow> (\<And>m. G m \<Longrightarrow> H m) \<Longrightarrow> takes u g B H f"
  unfolding takes_def using only_removed_mono by metis

definition gone :: "string \<Rightarrow> 'h machine \<Rightarrow> bool" where
  "gone p m \<longleftrightarrow> file_at m p = None"

definition all_gone :: "string \<Rightarrow> 'h machine \<Rightarrow> bool" where
  "all_gone p m \<longleftrightarrow> (\<forall>q. under p q \<longrightarrow> file_at m q = None \<and> dir_at m q = None)"

definition no_account :: "('h \<Rightarrow> string set) \<Rightarrow> ('h \<Rightarrow> string set) \<Rightarrow> 'h machine \<Rightarrow> bool" where
  "no_account users groups m \<longleftrightarrow> User \<notin> users (snd m) \<and> Group \<notin> groups (snd m)"

lemma lastings: "lasting u g (\<lambda>m. True)" "lasting u g (gone p)" "lasting u g (all_gone p)" "lasting u g (no_account u g)"
  by (simp_all add: lasting_def gone_def all_gone_def no_account_def only_removed_none cong: conj_cong)

lemma lasting_conj: "lasting u g G \<Longrightarrow> lasting u g H \<Longrightarrow> lasting u g (\<lambda>m. G m \<and> H m)"
  unfolding lasting_def by fast

text \<open>Without a directory, nothing is under it: a removal keeps this.\<close>

lemma fresh_dir_lasting:
  assumes "only_removed u g A m m'" "fresh_dir p (fst m)"
  shows "fresh_dir p (fst m')"
  unfolding fresh_dir_def
proof (intro impI allI)
  fix q
  assume "dir_at m' p = None" "under p q"
  show "file_at m' q = None \<and> dir_at m' q = None"
  proof (cases "dir_at m p = None")
    case True
    with assms(2) \<open>under p q\<close> have "file_at m q = None" "dir_at m q = None" by (auto simp: fresh_dir_def)
    then show ?thesis using only_removed_none(1,2) [OF assms(1), of q] by simp
  next
    case False
    then show ?thesis using only_removedD(3) [OF assms(1) _ \<open>dir_at m' p = None\<close> \<open>under p q\<close>] by simp
  qed
qed
section \<open>The steps take what they name\<close>

definition targets :: "'h uninstaller \<Rightarrow> bool \<Rightarrow> string set" where
  "targets u removeData = un_path u ` {Vhost, Unit, Sudoers, Binary, PreviousBinary} \<union> {q. under (un_path u TLSDir) q} \<union>
     (if removeData then {q. under (un_path u DataDir) q} else {})"

lemma removed_file:
  assumes "on_files (os_Remove w p) m = (r, m')" "p \<in> A"
  shows "only_removed u g A m m'" "r = Inr x \<Longrightarrow> gone p m'" "r = Inl NotExist \<Longrightarrow> gone p m'"
  using assms by (auto simp: only_removed_def on_files_def os_Remove_def gone_def split: if_splits)

lemma removed_tree:
  assumes "RemoveAll w p m = (r, m')" "{q. under p q} \<subseteq> A"
  shows "only_removed u g A m m'" "r = Inr x \<Longrightarrow> all_gone p m'"
proof -
  show "only_removed u g A m m'"
    using assms under_trans [of p] unfolding only_removed_def RemoveAll_def by (auto split: if_splits)
  show "r = Inr x \<Longrightarrow> all_gone p m'" using assms(1) by (auto simp: RemoveAll_def all_gone_def split: if_splits)
qed

text \<open>What a removal relies on beside the contract of the seam, and what it keeps of where it starts.\<close>

locale removing = host_ops "un_ops u" users groups
  for u :: "'h uninstaller" and users groups :: "'h \<Rightarrow> string set" +
  assumes stopped: "mg_Disable (un_manager u) m = (ru, m') \<Longrightarrow> same_host users groups m m'"
    and told: "mg_DaemonReload (un_manager u) m = (ru, m') \<Longrightarrow> same_host users groups m m'"
      "mg_Reload (un_manager u) n m = (ru, m') \<Longrightarrow> same_host users groups m m'"
    and asked_first: "un_confirm u stdin m = (rc, m') \<Longrightarrow> same_host users groups m m'"
begin

abbreviation (input) "takes_here \<equiv> takes users groups"

lemma removeFile_takes:
  assumes "un_path u p \<in> A"
  shows "takes_here A (gone (un_path u p)) (\<lambda>s. snd (removeFile u p s))"
  unfolding takes_def
proof (intro allI)
  fix r and m :: "'h machine"
  obtain x m' where x: "on_files (os_Remove (un_works u ''remove'' (un_path u p)) (un_path u p)) m = (x, m')" by (rule prod.exhaust)
  note f = removed_file(1) [OF x assms, where u = users and g = groups] removed_file(2,3) [OF x assms]
  show "only_removed users groups A m (snd (snd (removeFile u p (r, m)))) \<and>
      (\<exists>fs. rm_failed (fst (snd (removeFile u p (r, m)))) = rm_failed r @ fs \<and>
        (fs = [] \<longrightarrow> gone (un_path u p) (snd (snd (removeFile u p (r, m))))))"
    using x f by (cases x) (auto simp: removeFile_def failf_def note_removed_def)
qed

lemma tree_takes:
  assumes "{q. under (un_path u p) q} \<subseteq> A" "fresh_dir (un_path u p) (fst m)"
  shows "only_removed users groups A m (snd (removeTree u p (r, m))) \<and>
    (\<exists>fs. rm_failed (fst (removeTree u p (r, m))) = rm_failed r @ fs \<and> (fs = [] \<longrightarrow> all_gone (un_path u p) (snd (removeTree u p (r, m)))))"
proof (cases "exists (un_path u p) m")
  case False
  then have "all_gone (un_path u p) m" using assms(2) by (auto simp: exists_def fresh_dir_def all_gone_def)
  with False show ?thesis by (simp add: removeTree_def only_removed_refl)
next
  case True
  obtain x m' where x: "RemoveAll (un_works u ''removeall'' (un_path u p)) (un_path u p) m = (x, m')" by (rule prod.exhaust)
  show ?thesis
    using True x removed_tree(1) [OF x assms(1), where u = users and g = groups] removed_tree(2) [OF x assms(1)] by (cases x) (auto simp: removeTree_def failf_def note_removed_def)
qed

lemma removeVhost_takes:
  assumes "un_path u Vhost \<in> A"
  shows "takes_here A (gone (un_path u Vhost)) (removeVhost u)"
  unfolding takes_def
proof (intro allI)
  fix r and m :: "'h machine"
  obtain x m1 where x: "on_files (os_Remove (un_works u ''remove'' (un_path u Vhost)) (un_path u Vhost)) m = (x, m1)" by (rule prod.exhaust)
  obtain y m2 where y: "CheckProxy (un_ops u) m1 = (y, m2)" by (rule prod.exhaust)
  obtain z m3 where z: "mg_Reload (un_manager u) nginxUnit m2 = (z, m3)" by (rule prod.exhaust)
  note same = checked_proxy [OF y] told(2) [OF z]
  note f = removed_file(1) [OF x assms, where u = users and g = groups] removed_file(2,3) [OF x assms]
  have ok: "only_removed users groups A m m2 \<and> only_removed users groups A m m3 \<and> (gone p m1 \<longrightarrow> gone p m2 \<and> gone p m3)" for p
    using only_removed_trans [OF f(1) only_removed_same [OF same(1)]] only_removed_same [OF same(2)] same
    by (auto intro: only_removed_trans simp: gone_def same_host_def)
  show "only_removed users groups A m (snd (removeVhost u (r, m))) \<and>
      (\<exists>fs. rm_failed (fst (removeVhost u (r, m))) = rm_failed r @ fs \<and> (fs = [] \<longrightarrow> gone (un_path u Vhost) (snd (removeVhost u (r, m)))))"
  proof (cases "exists (un_path u Vhost) m")
    case True
    with x y z f ok show ?thesis
      by (cases x; cases y; cases z) (auto simp: removeVhost_def Let_def failf_def note_removed_def warnf_def)
  next
    case False
    then show ?thesis by (auto simp: removeVhost_def only_removed_refl exists_def gone_def)
  qed
qed

lemma stopService_takes: "takes_here A (\<lambda>m. True) (stopService u)"
  unfolding takes_def
proof (intro allI)
  fix r and m :: "'h machine"
  obtain x m1 where x: "mg_Disable (un_manager u) m = (x, m1)" by (rule prod.exhaust)
  show "only_removed users groups A m (snd (stopService u (r, m))) \<and> (\<exists>fs. rm_failed (fst (stopService u (r, m))) = rm_failed r @ fs \<and> (fs = [] \<longrightarrow> True))"
    using x only_removed_same [OF stopped [OF x], of A] by (cases x) (auto simp: stopService_def failf_def note_removed_def only_removed_refl)
qed

lemma removeUnit_takes:
  assumes "un_path u Unit \<in> A"
  shows "takes_here A (gone (un_path u Unit)) (removeUnit u)"
  unfolding takes_def
proof (intro allI)
  fix r and m :: "'h machine"
  obtain b r1 m1 where f: "removeFile u Unit (r, m) = (b, r1, m1)" by (metis surj_pair)
  obtain x m2 where x: "mg_DaemonReload (un_manager u) m1 = (x, m2)" by (rule prod.exhaust)
  obtain fs where t: "only_removed users groups A m m1" "rm_failed r1 = rm_failed r @ fs" "fs = [] \<longrightarrow> gone (un_path u Unit) m1"
    using removeFile_takes [OF assms] f unfolding takes_def by (metis fst_conv snd_conv)
  have "only_removed users groups A m m2" using only_removed_trans [OF t(1) only_removed_same [OF told(1) [OF x]]] .
  moreover have "gone (un_path u Unit) m1 \<longrightarrow> gone (un_path u Unit) m2" using told(1) [OF x] by (simp add: gone_def same_host_def)
  ultimately show "only_removed users groups A m (snd (removeUnit u (r, m))) \<and>
      (\<exists>fs. rm_failed (fst (removeUnit u (r, m))) = rm_failed r @ fs \<and> (fs = [] \<longrightarrow> gone (un_path u Unit) (snd (removeUnit u (r, m)))))"
    using f x t by (cases b; cases x) (auto simp: removeUnit_def warnf_def)
qed

lemma removeAccount_takes: "takes_here A (no_account users groups) (removeAccount u)"
  unfolding takes_def
proof (intro allI)
  fix r and m :: "'h machine"
  obtain x m1 where x: "RemoveUser (un_ops u) User m = (x, m1)" by (rule prod.exhaust)
  obtain y m2 where y: "RemoveGroup (un_ops u) Group m1 = (y, m2)" by (rule prod.exhaust)
  have eq: "User = Group" by (simp add: User_def Group_def)
  have w: "fst m1 = fst m" "fst m2 = fst m" using removed_user [OF x] removed_group [OF y] by simp_all
  have "only_removed users groups A m m1" using removed_user [OF x] eq by (cases x) (auto simp: only_removed_def)
  moreover have "only_removed users groups A m1 m2" using removed_group [OF y] by (cases y) (auto simp: only_removed_def)
  ultimately have o: "only_removed users groups A m m1" "only_removed users groups A m m2" using only_removed_trans by blast+
  have "x = Inr a \<Longrightarrow> y = Inr b \<Longrightarrow> no_account users groups m2" for a b
    using removed_user [OF x] removed_group [OF y] by (auto simp: no_account_def)
  then show "only_removed users groups A m (snd (removeAccount u (r, m))) \<and>
      (\<exists>fs. rm_failed (fst (removeAccount u (r, m))) = rm_failed r @ fs \<and> (fs = [] \<longrightarrow> no_account users groups (snd (removeAccount u (r, m)))))"
    using x y o by (cases x; cases y) (auto simp: removeAccount_def removeGroup_def failf_def note_removed_def split: host_error.splits)
qed

end

section \<open>The removal as a whole\<close>

text \<open>Everything but the data directory, and what of it a removal that says it is complete has left.\<close>

definition nothing_left :: "'h uninstaller \<Rightarrow> ('h \<Rightarrow> string set) \<Rightarrow> ('h \<Rightarrow> string set) \<Rightarrow> 'h machine \<Rightarrow> bool" where
  "nothing_left u users groups m \<longleftrightarrow> (\<forall>p \<in> {Vhost, Unit, Sudoers, Binary, PreviousBinary}. gone (un_path u p) m) \<and>
     all_gone (un_path u TLSDir) m \<and> no_account users groups m"

lemma removeDataDir_True: "removeDataDir u True s = removeTree u DataDir s"
  by (cases s) (simp add: removeDataDir_def removeTree_def Let_def)

context removing begin

lemma remove_all_takes:
  assumes "fresh_dir (un_path u TLSDir) (fst m)" "fresh_dir (un_path u DataDir) (fst m)" "remove_all u data (r, m) = (r', m')"
  shows "only_removed users groups (targets u data) m m' \<and> (\<exists>fs. rm_failed r' = rm_failed r @ fs \<and>
    (fs = [] \<longrightarrow> nothing_left u users groups m' \<and> (data \<longrightarrow> all_gone (un_path u DataDir) m')))"
proof -
  define A where "A = targets u data"
  have mem: "un_path u p \<in> A" if "p \<in> {Vhost, Unit, Sudoers, Binary, PreviousBinary}" for p using that by (auto simp: A_def targets_def)
  have sub: "{q. under (un_path u TLSDir) q} \<subseteq> A" "data \<Longrightarrow> {q. under (un_path u DataDir) q} \<subseteq> A" by (auto simp: A_def targets_def)
  define files where "files s = snd (removeFile u PreviousBinary (snd (removeFile u Binary (snd (removeFile u Sudoers (removeUnit u (stopService u (removeVhost u s))))))))" for s
  let ?G = "\<lambda>p. gone (un_path u p)"
  have files: "takes users groups A (\<lambda>m. \<forall>p \<in> {Vhost, Unit, Sudoers, Binary, PreviousBinary}. ?G p m) files"
    unfolding files_def
    by (rule takes_mono [OF takes_then [OF takes_then [OF takes_then [OF takes_then [OF takes_then [OF removeVhost_takes stopService_takes]
          removeUnit_takes] removeFile_takes] removeFile_takes] removeFile_takes] order_refl])
      (auto intro!: mem lastings lasting_conj)
  obtain r1 m1 where 1: "files (r, m) = (r1, m1)" by (rule prod.exhaust)
  obtain fs1 where f1: "only_removed users groups A m m1" "rm_failed r1 = rm_failed r @ fs1"
    "fs1 = [] \<longrightarrow> (\<forall>p \<in> {Vhost, Unit, Sudoers, Binary, PreviousBinary}. ?G p m1)"
    using files 1 unfolding takes_def by (metis fst_conv snd_conv)
  obtain r2 m2 where 2: "removeTree u TLSDir (r1, m1) = (r2, m2)" by (rule prod.exhaust)
  obtain fs2 where f2: "only_removed users groups A m1 m2" "rm_failed r2 = rm_failed r1 @ fs2" "fs2 = [] \<longrightarrow> all_gone (un_path u TLSDir) m2"
    using tree_takes [OF sub(1) fresh_dir_lasting [OF f1(1) assms(1)], of r1] 2 by auto
  obtain r3 m3 where 3: "removeAccount u (r2, m2) = (r3, m3)" by (rule prod.exhaust)
  obtain fs3 where f3: "only_removed users groups A m2 m3" "rm_failed r3 = rm_failed r2 @ fs3" "fs3 = [] \<longrightarrow> no_account users groups m3"
    using removeAccount_takes [of A] 3 unfolding takes_def by (metis fst_conv snd_conv)
  have run: "removeDataDir u data (r3, m3) = (r', m')"
    using assms(3) 1 2 3 by (simp add: remove_all_def Let_def files_def)
  note upto3 = only_removed_trans [OF only_removed_trans [OF f1(1) f2(1)] f3(1)]
  have data: "\<exists>fs4. only_removed users groups A m3 m' \<and> rm_failed r' = rm_failed r3 @ fs4 \<and> (fs4 = [] \<longrightarrow> data \<longrightarrow> all_gone (un_path u DataDir) m')"
  proof (cases data)
    case True
    have "removeTree u DataDir (r3, m3) = (r', m')" using run True by (simp add: removeDataDir_True)
    with tree_takes [OF sub(2) [OF True] fresh_dir_lasting [OF upto3 assms(2)], of r3] show ?thesis by auto
  next
    case False
    with run have "m' = m3" "rm_failed r' = rm_failed r3"
      by (auto simp: removeDataDir_def Let_def note_kept_def split: if_splits)
    with False show ?thesis by (simp add: only_removed_refl)
  qed
  then obtain fs4 where f4: "only_removed users groups A m3 m'" "rm_failed r' = rm_failed r3 @ fs4" "fs4 = [] \<longrightarrow> data \<longrightarrow> all_gone (un_path u DataDir) m'"
    by blast
  have "nothing_left u users groups m'" if "fs1 = []" "fs2 = []" "fs3 = []"
  proof -
    have "only_removed users groups A m1 m'" "only_removed users groups A m2 m'"
      using only_removed_trans f2(1) f3(1) f4(1) by blast+
    with that f1(3) f2(3) f3(3) f4(1) show ?thesis
      using lastings(2-4) unfolding nothing_left_def lasting_def by blast
  qed
  then show ?thesis
    using only_removed_trans [OF upto3 f4(1)] f1(2) f2(2) f3(2) f4(2,3) unfolding A_def
    by (intro conjI exI [of _ "fs1 @ fs2 @ fs3 @ fs4"]) simp_all
qed

lemma decided: "decideAboutData u m = Inr (True, stdin) \<Longrightarrow> un_purge u \<or> fst (yesOrNo (un_stdin u)) = Yes"
  by (auto simp: decideAboutData_def split: if_splits prod.splits answer.splits)

lemma uninstall_takes:
  assumes "uninstall u m = (res, r, m')" "fresh_dir (un_path u TLSDir) (fst m)" "fresh_dir (un_path u DataDir) (fst m)"
  shows "(res \<noteq> Inr () \<and> r = no_removal \<and> same_host users groups m m') \<or>
    (\<exists>data stdin m1. decideAboutData u m = Inr (data, stdin) \<and> (data \<longrightarrow> un_purge u \<or> fst (yesOrNo (un_stdin u)) = Yes) \<and>
       un_confirm u stdin m = (Inr (), m1) \<and> only_removed users groups (targets u data) m m' \<and>
       (res = Inr () \<longrightarrow> nothing_left u users groups m' \<and> (data \<longrightarrow> all_gone (un_path u DataDir) m')))"
proof (cases "decideAboutData u m")
  case (Inl err)
  with assms(1) show ?thesis by (auto simp: uninstall_def same_host_def)
next
  case (Inr d)
  obtain data stdin where d: "d = (data, stdin)" by (rule prod.exhaust)
  obtain c m1 where c: "un_confirm u stdin m = (c, m1)" by (rule prod.exhaust)
  have same: "same_host users groups m m1" by (rule asked_first [OF c])
  show ?thesis
  proof (cases c)
    case (Inl err)
    with assms(1) Inr d c same show ?thesis by (auto simp: uninstall_def)
  next
    case (Inr x)
    have run: "remove_all u data (no_removal, m1) = (r, m')" and res: "res = Inr () \<Longrightarrow> rm_failed r = []"
      using assms(1) \<open>decideAboutData u m = Inr d\<close> d c Inr by (auto simp: uninstall_def Let_def split: if_splits)
    have "fresh_dir (un_path u TLSDir) (fst m1)" "fresh_dir (un_path u DataDir) (fst m1)" using assms(2,3) same by (simp_all add: same_host_def)
    from remove_all_takes [OF this run] obtain fs where t: "only_removed users groups (targets u data) m1 m'" "rm_failed r = fs"
      "fs = [] \<longrightarrow> nothing_left u users groups m' \<and> (data \<longrightarrow> all_gone (un_path u DataDir) m')"
      by (auto simp: no_removal_def)
    have "only_removed users groups (targets u data) m m'" using only_removed_trans [OF only_removed_same [OF same] t(1)] .
    moreover have "data \<longrightarrow> un_purge u \<or> fst (yesOrNo (un_stdin u)) = Yes" using decided [of m stdin] \<open>decideAboutData u m = Inr d\<close> d by auto
    ultimately show ?thesis
      using t(2,3) res c Inr d \<open>decideAboutData u m = Inr d\<close> by (intro disjI2 exI [of _ data] exI [of _ stdin] exI [of _ m1]) auto
  qed
qed

end

text \<open>
  C27: Removing dokkup removes dokkup, and only that. Whatever calls fail, a removal that is not
  confirmed, or that has no answer about the data, changes nothing and removes nothing. A confirmed one
  only takes away: of the files and directories, the five files, the certificate's directory with all
  under it, and the data directory with all under it where this was decided, by --purge or by a yes;
  of the accounts, dokkup's user and group. And if it reports success, all of these are gone.
\<close>

theorem removal_takes_only_ours:
  assumes "removing u users groups" "fresh_dir (un_path u TLSDir) (fst m)" "fresh_dir (un_path u DataDir) (fst m)"
    "uninstall u m = (res, r, m')"
  shows "(res \<noteq> Inr () \<and> r = no_removal \<and> same_host users groups m m') \<or>
    (\<exists>data stdin m1. decideAboutData u m = Inr (data, stdin) \<and> (data \<longrightarrow> un_purge u \<or> fst (yesOrNo (un_stdin u)) = Yes) \<and>
       un_confirm u stdin m = (Inr (), m1) \<and> only_removed users groups (targets u data) m m' \<and>
       (res = Inr () \<longrightarrow> nothing_left u users groups m' \<and> (data \<longrightarrow> all_gone (un_path u DataDir) m')))"
  by (rule removing.uninstall_takes [OF assms(1,4,2,3)])

section \<open>A removal was meant\<close>

text \<open>The challenge as runUninstall builds it, given what is left of the standard input.\<close>

definition confirmer :: "'h sudo_env \<Rightarrow> string option \<Rightarrow> string \<Rightarrow> 'h Confirmer" where
  "confirmer e hostname stdin = \<lparr>cm_In = stdin, cm_Password = SudoPassword e, cm_Hostname = [], cm_osHostname = hostname\<rparr>"

definition after_question :: "'h uninstaller \<Rightarrow> 'h machine \<Rightarrow> string" where
  "after_question u m = (if un_purge u \<or> \<not> exists (un_path u DataDir) m then un_stdin u else snd (readLine (un_stdin u)))"

lemma decision_reads_a_line: "decideAboutData u m = Inr (data, stdin) \<Longrightarrow> stdin = after_question u m"
  by (auto simp: decideAboutData_def after_question_def yesOrNo_def Let_def split: if_splits prod.splits answer.splits)

lemma meant:
  assumes "un_confirm u = (\<lambda>stdin. Confirm (confirmer e hostname stdin))" "uninstall u m = (res, r, m')" "r \<noteq> no_removal \<or> res = Inr ()"
  shows "(\<exists>com m1. sudo_asked e com \<and> se_run e com m = (None, m1)) \<or>
    (typed_name (confirmer e hostname (after_question u m)) \<and>
      (SudoPassword e = None \<or> (\<exists>com m1. sudo_asked e com \<and> se_run e com m = (Some NotRun, m1))))"
proof -
  obtain data m1 where "un_confirm u (after_question u m) m = (Inr (), m1)"
    using assms(2,3) decision_reads_a_line [of u m]
    by (auto simp: uninstall_def split: sum.splits prod.splits)
  then have "Confirm (confirmer e hostname (after_question u m)) m = (Inr (), m1)" by (simp add: assms(1))
  from confirmed_by [OF this, of e] show ?thesis by (auto simp: confirmer_def)
qed

text \<open>
  C29: Nothing is removed that nobody meant to remove. If a removal has removed anything, or even only
  tried and reports what failed or that all is done, then sudo accepted the password of the
  account, not root, that started it, or the operator typed this host's name, on the line that
  follows the answer about the data where that was asked: one standard input carries both answers,
  and a line is never read twice or skipped.
\<close>

theorem removal_was_meant:
  assumes "un_confirm u = (\<lambda>stdin. Confirm (confirmer e hostname stdin))" "uninstall u m = (res, r, m')" "r \<noteq> no_removal \<or> res = Inr ()"
  shows "(\<exists>com m1. sudo_asked e com \<and> se_run e com m = (None, m1)) \<or>
    (typed_name (confirmer e hostname (after_question u m)) \<and>
      (SudoPassword e = None \<or> (\<exists>com m1. sudo_asked e com \<and> se_run e com m = (Some NotRun, m1))))"
  by (rule meant [OF assms])

end
