(* ===== verification/Install_Done.thy ===== *)
theory Install_Done
  imports Install_Unwind
begin

text \<open>
  What an installation that succeeds has done: what each step leaves when it succeeds, followed along
  the run from the accounts to the answer of the proxy.
\<close>

section \<open>Steps that succeeded\<close>

lemma thenI_Inr:
  assumes "thenI a f (us, m) = Some (Inr y, us', m')"
  obtains x us1 m1 where "a (us, m) = Some (Inr x, us1, m1)" "f x (us1, m1) = Some (Inr y, us', m')"
  using assms by (auto simp: thenI_def split: option.splits sum.splits)

lemma call_Inr: "call w f (us, m) = Some (Inr x, us', m') \<longleftrightarrow> f m = (Inr x, m') \<and> us' = us"
  by (auto simp: call_def split: prod.splits sum.splits)

lemma asking_Inr: "asking f (us, m) = Some (Inr x, us', m') \<longleftrightarrow> x = f m \<and> us' = us \<and> m' = m"
  by (auto simp: asking_def)

lemma undoing_Inr: "undoing w f (us, m) = Some (Inr x, us', m') \<longleftrightarrow> us' = us @ [\<lparr>ud_what = w, ud_run = f\<rparr>] \<and> m' = m"
  by (auto simp: undoing_def)

lemma returnI_Inr: "returnI y (us, m) = Some (Inr x, us', m') \<longleftrightarrow> x = y \<and> us' = us \<and> m' = m"
  by (auto simp: returnI_def)

lemma failI_Inr: "failI e (us, m) \<noteq> Some (Inr x, us', m')"
  by (simp add: failI_def)

lemma discarding_Inr: "discarding i p w f (us, m) = Some (Inr x, us', m') \<longleftrightarrow> f m = (Inr x, m') \<and> us' = us"
  by (auto simp: discarding_def split: prod.splits sum.splits)

lemma attempt_Inr: "attempt f (us, m) = Some (Inr x, us', m') \<longleftrightarrow> f m = (x, m') \<and> us' = us"
  by (auto simp: attempt_def split: prod.splits)

lemmas steps_Inr = call_Inr asking_Inr undoing_Inr returnI_Inr failI_Inr discarding_Inr attempt_Inr

text \<open>The files an installation writes, and those that it has on the way.\<close>

definition written :: "('h, 't) installer \<Rightarrow> string set" where
  "written i = path i ` {Sudoers, Binary, PreviousBinary, TLSCert, TLSKey, Vhost, Unit} \<union> scratch i"

lemma paths_distinct:
  "distinct [path i Sudoers, path i Binary, path i PreviousBinary, path i TLSCert, path i TLSKey, path i Vhost, path i Unit,
     path i Binary @ ''.new'', path i VhostStaging, candidate i, candidate i @ ''.wrapper'', sudoers_staging (path i Sudoers)]"
  unfolding path_dirs(3) unfolding candidate_def path_def Rooted_def Sudoers_def PreviousBinary_def PreviousSuffix_def Binary_def TLSCert_def TLSKey_def
    TLSDir_def DataDir_def Vhost_def Unit_def VhostStaging_def
  by simp

text \<open>A step that leaves every file outside a set, the directories and the accounts.\<close>

lemma same_but_trans: "same_but u g A m m1 \<Longrightarrow> same_but u g B m1 m2 \<Longrightarrow> same_but u g (A \<union> B) m m2"
  by (simp add: same_but_def)

lemma same_but_mono: "same_but u g A m m' \<Longrightarrow> A \<subseteq> B \<Longrightarrow> same_but u g B m m'"
  by (auto simp: same_but_def)

lemma same_but_refl [simp]: "same_but u g A m m"
  by (simp add: same_but_def)

lemma same_but_put [simp]: "same_but u g A m (put_file p f m) \<longleftrightarrow> p \<in> A \<or> file_at m p = Some f"
  by (auto simp: same_but_def)

context installing begin

lemma account_done:
  assumes "ensureAccount i (us, m) = Some (Inr a, us', m')"
  shows "fst m' = fst m" "users (snd m') = insert User (users (snd m))" "groups (snd m') = insert Group (groups (snd m))"
proof -
  obtain us1 m1 us2 m2 us3 m3 where g: "ensureGroup i (us, m) = Some (Inr (), us1, m1)" and u: "ensureUser i (us1, m1) = Some (Inr (), us2, m2)"
    and j: "JoinGroup (in_ops i) User DokkuGroup m2 = (Inr (), m3)" and l: "LookupUser (in_ops i) User m3 = (Inr a, m')"
    using assms unfolding ensureAccount_def by (auto elim!: thenI_Inr simp: steps_Inr)
  have g1: "fst m1 = fst m \<and> users (snd m1) = users (snd m) \<and> groups (snd m1) = insert Group (groups (snd m))"
    using g by (cases rule: ensureGroup_cases) (auto simp: same_host_def insert_absorb)
  have l1: "same_host users groups m3 m'" "User \<in> users (snd m3)" using looked_user [OF l] by auto
  have j1: "same_host users groups m2 m3" by (rule joined_group [OF j])
  have u1: "fst m2 = fst m1 \<and> groups (snd m2) = groups (snd m1) \<and> users (snd m2) = insert User (users (snd m1))"
    using u by (cases rule: ensureUser_cases) (use l1 j1 in \<open>auto simp: same_host_def insert_absorb\<close>)
  show "fst m' = fst m" "users (snd m') = insert User (users (snd m))" "groups (snd m') = insert Group (groups (snd m))"
    using g1 u1 j1 l1 by (simp_all add: same_host_def)
qed

lemma ensure_dir_done:
  assumes "ensure_dir i owner dir (us, m) = Some (Inr u, us', m')"
  shows "file_at m' = file_at m" "dir_at m' = (dir_at m)(path i dir \<mapsto> dataDirMode)" "users (snd m') = users (snd m)" "groups (snd m') = groups (snd m)"
proof -
  obtain us1 v where "call HostFailed (EnsureDir (in_ops i) (path i dir) dataDirMode owner) (us, m) = Some (Inr v, us1, m')"
    using assms unfolding ensure_dir_def Let_def
    by (auto elim!: thenI_Inr simp: steps_Inr split: if_splits)
  from ensured_run [OF this] show "file_at m' = file_at m" "dir_at m' = (dir_at m)(path i dir \<mapsto> dataDirMode)"
    "users (snd m') = users (snd m)" "groups (snd m') = groups (snd m)" by simp_all
qed

lemma data_dir_done:
  assumes "ensureDataDir i owner (us, m) = Some (Inr u, us', m')"
  shows "file_at m' = file_at m" "dir_at m' = (dir_at m)(path i DataDir \<mapsto> dataDirMode, path i TLSDir \<mapsto> dataDirMode)"
    "users (snd m') = users (snd m)" "groups (snd m') = groups (snd m)"
proof -
  obtain us1 m1 where "ensure_dir i owner DataDir (us, m) = Some (Inr (), us1, m1)" "ensure_dir i owner TLSDir (us1, m1) = Some (Inr u, us', m')"
    using assms unfolding ensureDataDir_def by (auto elim: thenI_Inr)
  note d = ensure_dir_done [OF this(1)] ensure_dir_done [OF this(2)]
  show "file_at m' = file_at m" "dir_at m' = (dir_at m)(path i DataDir \<mapsto> dataDirMode, path i TLSDir \<mapsto> dataDirMode)"
    "users (snd m') = users (snd m)" "groups (snd m') = groups (snd m)" by (simp_all only: d)
qed

lemma mkdir_done: "mkdir_for i p (us, m) = Some (Inr u, us', m') \<Longrightarrow> dir_at m (path_dir p) \<noteq> None \<Longrightarrow> m' = m \<and> us' = us"
  using mkdir_for_run by blast

lemma sudoers_done:
  assumes "ensureSudoers i (us, m) = Some (Inr u, us', m')" "system_dirs i (fst m)"
  shows "same_but users groups {path i Sudoers, sudoers_staging (path i Sudoers)} m m'"
proof -
  have d: "dir_at m (path_dir (path i Sudoers)) \<noteq> None" using assms(2) by (simp add: system_dirs_def)
  obtain us1 m1 m2 v where mk: "mkdir_for i (path i Sudoers) (us, m) = Some (Inr (), us1, m1)"
    and w: "WriteSudoers (in_ops i) (path i Sudoers) sudo_rule m1 = (Inr v, m2)"
    and p: "ProveSudo (in_ops i) User DefaultRunAs DefaultDokku [''version''] m2 = (Inr u, m')"
    using assms(1) unfolding ensureSudoers_def Let_def read_previous_def by (auto elim!: thenI_Inr simp: steps_Inr)
  have "m1 = m" using mkdir_done [OF mk d] by simp
  with wrote_sudoers [OF w] same_host_but [OF proved_sudo [OF p]] show ?thesis
    using same_but_trans [of users groups _ m m2 _ m'] by (metis sup.idem)
qed

end

section \<open>The files\<close>

lemma copyFile_Inr:
  assumes "copyFile works src dst mode files = (Inr u, files')"
  shows "\<exists>f. files src = Some f \<and> files' = files(dst \<mapsto> \<lparr>f_data = f_data f, f_mode = mode\<rparr>)"
  using assms by (auto simp: copyFile_def os_Read_def os_Write_def os_Chmod_def split: option.splits if_splits sum.splits)

lemma on_files_Inr: "on_files f m = (r, m') \<longleftrightarrow> (\<exists>files. f (file_at m) = (r, files) \<and> m' = ((fst m)\<lparr>w_files := files\<rparr>, snd m))"
  by (auto simp: on_files_def split: prod.splits)

context installing begin

lemma keep_previous_done:
  assumes "keep_previous i (us, m) = Some (Inr u, us', m')"
  shows "same_but users groups {path i PreviousBinary} m m'"
proof -
  have clear: "m1 = snd (on_files (os_Remove w (path i PreviousBinary)) m)"
    if "(case on_files (os_Remove w (path i PreviousBinary)) m of (Inl Denied, m) \<Rightarrow> (Inl Denied, m) | (_, m) \<Rightarrow> (Inr (), m)) = (Inr x, m1)" for w x m1
    using that by (auto split: prod.splits sum.splits os_error.splits)
  obtain m1 w where c: "m1 = snd (on_files (os_Remove w (path i PreviousBinary)) m)"
    and l: "\<exists>w. on_files (os_Link w (path i Binary) (path i PreviousBinary)) m1 = (Inr u, m')"
    using assms unfolding keep_previous_def Let_def by (auto elim!: thenI_Inr simp: steps_Inr dest!: clear) blast
  have "same_but users groups {path i PreviousBinary} m m1"
    unfolding c using os_Remove_snd [of w "path i PreviousBinary" "file_at m"] by (auto simp: same_but_def)
  moreover have "same_but users groups {path i PreviousBinary} m1 m'"
    using l by (auto simp: on_files_Inr os_Link_def same_but_def split: if_splits)
  ultimately show ?thesis using same_but_trans by fastforce
qed

lemma binary_done:
  assumes "installBinary i (us, m) = Some (Inr u, us', m')" "system_dirs i (fst m)"
  shows "same_but users groups {path i Binary, path i PreviousBinary, path i Binary @ ''.new''} m m'"
    and "(in_sameFile i (in_self i) (path i Binary) (fst m) \<and> file_at m' = file_at m) \<or>
      (\<exists>f. file_at m (in_self i) = Some f \<and> file_at m' (path i Binary) = Some \<lparr>f_data = f_data f, f_mode = binaryMode\<rparr>)"
proof -
  define bin where "bin = path i Binary"
  define staged where "staged = bin @ ''.new''"
  have d: "dir_at m (path_dir bin) \<noteq> None" using assms(2) by (simp add: system_dirs_def bin_def)
  have ne: "staged \<noteq> bin" "staged \<noteq> path i PreviousBinary" using path_distinct(3,4) [of i] by (simp_all add: staged_def bin_def)
  show "same_but users groups {path i Binary, path i PreviousBinary, path i Binary @ ''.new''} m m'"
    and "(in_sameFile i (in_self i) (path i Binary) (fst m) \<and> file_at m' = file_at m) \<or>
      (\<exists>f. file_at m (in_self i) = Some f \<and> file_at m' (path i Binary) = Some \<lparr>f_data = f_data f, f_mode = binaryMode\<rparr>)"
  proof (atomize (full), cases "exists (in_self i) m \<and> exists bin m \<and> in_sameFile i (in_self i) bin (fst m)")
    case True
    then have "m' = m" using assms(1) unfolding installBinary_def Let_def bin_def by (auto elim!: thenI_Inr simp: steps_Inr)
    with True show "same_but users groups {path i Binary, path i PreviousBinary, path i Binary @ ''.new''} m m' \<and>
      ((in_sameFile i (in_self i) (path i Binary) (fst m) \<and> file_at m' = file_at m) \<or>
       (\<exists>f. file_at m (in_self i) = Some f \<and> file_at m' (path i Binary) = Some \<lparr>f_data = f_data f, f_mode = binaryMode\<rparr>))"
      by (simp add: bin_def)
  next
    case False
    obtain us1 m1 m2 us3 m3 w where mk: "mkdir_for i bin (us, m) = Some (Inr (), us1, m1)"
      and c: "on_files (copyFile (in_works i) (in_self i) staged binaryMode) m1 = (Inr (), m2)"
      and k: "(if exists bin m2 then keep_previous i else returnI ()) (us1, m2) = Some (Inr (), us3, m3)"
      and r: "on_files (os_Rename w staged bin) m3 = (Inr (), m')"
      using assms(1) False unfolding installBinary_def Let_def bin_def [symmetric] staged_def [symmetric]
      by (auto elim!: thenI_Inr simp: steps_Inr split: if_splits)
    have "m1 = m" using mkdir_done [OF mk d] by simp
    with c obtain f where f: "file_at m (in_self i) = Some f" "file_at m2 = (file_at m)(staged \<mapsto> \<lparr>f_data = f_data f, f_mode = binaryMode\<rparr>)"
      "dir_at m2 = dir_at m" "snd m2 = snd m"
      by (auto simp: on_files_Inr dest!: copyFile_Inr)
    have k3: "same_but users groups {path i PreviousBinary} m2 m3"
      using k keep_previous_done by (auto simp: returnI_Inr split: if_splits)
    have "file_at m3 staged = Some \<lparr>f_data = f_data f, f_mode = binaryMode\<rparr>" using k3 f(2) ne(2) by (simp add: same_but_def)
    with r have "file_at m' = (file_at m3)(staged := None, bin \<mapsto> \<lparr>f_data = f_data f, f_mode = binaryMode\<rparr>)" "dir_at m' = dir_at m3" "snd m' = snd m3"
      by (auto simp: on_files_Inr os_Rename_def split: if_splits)
    with k3 f ne show "same_but users groups {path i Binary, path i PreviousBinary, path i Binary @ ''.new''} m m' \<and>
      ((in_sameFile i (in_self i) (path i Binary) (fst m) \<and> file_at m' = file_at m) \<or>
       (\<exists>f. file_at m (in_self i) = Some f \<and> file_at m' (path i Binary) = Some \<lparr>f_data = f_data f, f_mode = binaryMode\<rparr>))"
      by (auto simp: same_but_def bin_def staged_def)
  qed
qed

lemma replaced:
  assumes "replaceFile i p d mode (us, m) = Some (Inr u, us', m')" "dir_at m (path_dir p) \<noteq> None"
  shows "m' = put_file p \<lparr>f_data = d, f_mode = mode\<rparr> m"
proof -
  obtain r us1 m1 where "writeOwnedFile i p d mode (us, m) = Some (Inr r, us1, m1)" "m' = m1"
    using assms(1) unfolding replaceFile_def by (auto elim!: thenI_Inr simp: steps_Inr)
  with writeOwnedFile_run [OF assms(2) chmods this(1)] show ?thesis by simp
qed

lemma certificate_done:
  assumes "installCertificate i s (us, m) = Some (Inr u, us', m')" "dir_at m (path i TLSDir) \<noteq> None"
  shows "m' = (case st_certPEM s of None \<Rightarrow> m
    | Some c \<Rightarrow> put_file (path i TLSKey) \<lparr>f_data = st_keyPEM s, f_mode = keyMode\<rparr> (put_file (path i TLSCert) \<lparr>f_data = c, f_mode = readableMode\<rparr> m))"
proof (cases "st_certPEM s")
  case (Some c)
  obtain us1 m1 where "replaceFile i (path i TLSCert) c readableMode (us, m) = Some (Inr (), us1, m1)"
    "replaceFile i (path i TLSKey) (st_keyPEM s) keyMode (us1, m1) = Some (Inr u, us', m')"
    using assms(1) Some unfolding installCertificate_def by (auto elim!: thenI_Inr)
  with replaced [OF this(1)] replaced [OF this(2)] assms(2) Some show ?thesis by (simp add: path_dirs)
qed (use assms(1) in \<open>simp add: installCertificate_def returnI_Inr\<close>)

lemma vhost_done:
  assumes "installVhost i s (us, m) = Some (Inr u, us', m')" "system_dirs i (fst m)"
  shows "same_but users groups {path i Vhost, path i VhostStaging, candidate i, candidate i @ ''.wrapper''} m m'"
    and "map_option f_data (file_at m' (path i Vhost)) = Some (vhost_text i s)"
proof -
  define c where "c = candidate i"
  define p where "p = path i Vhost"
  define st where "st = path i VhostStaging"
  have d: "p \<noteq> c" "p \<noteq> c @ ''.wrapper''" "p \<noteq> st" using paths_distinct [of i] by (auto simp: c_def p_def st_def)
  have there: "dir_at m (path_dir p) \<noteq> None" using assms(2) by (simp add: system_dirs_def p_def)
  obtain us1 m1 m2 where w: "write_file i c (vhost_text i s) readableMode (us, m) = Some (Inr (), us1, m1)"
    and pv: "putVhost i s (us1, m1) = Some (Inr u, us', m2)" and m': "m' = snd (on_files (os_Remove (in_works i ''remove'' c) c) m2)"
    using assms(1) unfolding installVhost_def c_def by (auto elim!: thenI_Inr simp: deferring_def split: option.splits)
  obtain f1 where m1: "m1 = put_file c f1 m" using w by (auto simp: write_file_def call_Inr on_files_Inr os_Write_def put_file_def split: if_splits)
  obtain m3 m4 m5 m6 us4 where fr: "CheckProxyFragment (in_ops i) c m1 = (Inr (), m3)"
    and mk: "mkdir_for i p (us1, m3) = Some (Inr (), us4, m4)"
    and ws: "\<exists>w. on_files (os_Write w st (vhost_text i s) readableMode) m4 = (Inr (), m5)"
    and rn: "\<exists>w. on_files (os_Rename w st p) m5 = (Inr (), m6)" and cp: "CheckProxy (in_ops i) m6 = (Inr u, m2)"
    using pv unfolding putVhost_def Let_def c_def [symmetric] p_def [symmetric] st_def [symmetric] read_previous_def write_file_def
    by (auto elim!: thenI_Inr simp: steps_Inr) blast
  have a: "same_but users groups {c, c @ ''.wrapper''} m m3"
    using checked_fragment [OF fr] m1 by (auto simp: same_but_def)
  then have "m4 = m3" using mkdir_done [OF mk] there by (simp add: same_but_def)
  with ws obtain f2 where m5: "m5 = put_file st f2 m3" "f_data f2 = vhost_text i s"
    by (auto simp: on_files_Inr os_Write_def put_file_def split: if_splits)
  with rn have m6: "file_at m6 = (file_at m3)(st := None, p \<mapsto> f2)" "dir_at m6 = dir_at m3" "snd m6 = snd m3"
    by (auto simp: on_files_Inr os_Rename_def split: if_splits)
  have m2: "same_host users groups m6 m2" by (rule checked_proxy [OF cp])
  have rest: "file_at m' q = file_at m2 q" if "q \<noteq> c" for q
    using os_Remove_snd [of "in_works i ''remove'' c" c "file_at m2"] that by (auto simp: m')
  have keep: "file_at m' q = file_at m q" if "q \<notin> {p, st, c, c @ ''.wrapper''}" for q
    using that rest [of q] m2 m6(1) a by (simp add: same_host_def same_but_def)
  have "dir_at m' = dir_at m \<and> users (snd m') = users (snd m) \<and> groups (snd m') = groups (snd m)"
    using m2 m6(2,3) a by (simp add: m' same_host_def same_but_def)
  with keep show "same_but users groups {path i Vhost, path i VhostStaging, candidate i, candidate i @ ''.wrapper''} m m'"
    unfolding same_but_def c_def [symmetric] p_def [symmetric] st_def [symmetric] by blast
  show "map_option f_data (file_at m' (path i Vhost)) = Some (vhost_text i s)"
    using rest [OF d(1)] m2 m6(1) m5(2) by (simp add: same_host_def p_def)
qed

lemma unit_done:
  assumes "installUnit i s (us, m) = Some (Inr u, us', m')" "system_dirs i (fst m)"
  shows "same_host users groups (put_file (path i Unit) \<lparr>f_data = unit_text i s, f_mode = readableMode\<rparr> m) m'"
proof -
  have d: "dir_at m (path_dir (path i Unit)) \<noteq> None" using assms(2) by (simp add: system_dirs_def)
  obtain r us1 m1 where w: "writeOwnedFile i (path i Unit) (unit_text i s) readableMode (us, m) = Some (Inr r, us1, m1)"
    and l: "mg_DaemonReload (in_manager i) m1 = (Inr u, m')"
    using assms(1) unfolding installUnit_def by (auto elim!: thenI_Inr simp: steps_Inr)
  from writeOwnedFile_run [OF d chmods w] manager_reloaded(1) [OF l] show ?thesis by simp
qed

end

section \<open>The whole run\<close>

text \<open>Everything in its place on a machine, compared with what the run found.\<close>

definition binary_in_place :: "('h, 't) installer \<Rightarrow> 'h machine \<Rightarrow> 'h machine \<Rightarrow> bool" where
  "binary_in_place i m m1 \<longleftrightarrow>
     ((\<exists>w. in_sameFile i (in_self i) (path i Binary) w) \<and> file_at m1 (path i Binary) = file_at m (path i Binary)) \<or>
     (\<exists>f. file_at m (in_self i) = Some f \<and> file_at m1 (path i Binary) = Some \<lparr>f_data = f_data f, f_mode = binaryMode\<rparr>)"

definition certificate_in_place :: "('h, 't) installer \<Rightarrow> site \<Rightarrow> 'h machine \<Rightarrow> bool" where
  "certificate_in_place i s m1 \<longleftrightarrow> (\<forall>c. st_certPEM s = Some c \<longrightarrow>
     file_at m1 (path i TLSCert) = Some \<lparr>f_data = c, f_mode = readableMode\<rparr> \<and>
     file_at m1 (path i TLSKey) = Some \<lparr>f_data = st_keyPEM s, f_mode = keyMode\<rparr>)"

definition texts_in_place :: "('h, 't) installer \<Rightarrow> site \<Rightarrow> 'h machine \<Rightarrow> bool" where
  "texts_in_place i s m1 \<longleftrightarrow> file_at m1 (path i Unit) = Some \<lparr>f_data = unit_text i s, f_mode = readableMode\<rparr> \<and>
     map_option f_data (file_at m1 (path i Vhost)) = Some (vhost_text i s)"

text \<open>What the run changes of the host: the files written, two directories and an account.\<close>

definition only_ours :: "('h, 't) installer \<Rightarrow> ('h \<Rightarrow> string set) \<Rightarrow> ('h \<Rightarrow> string set) \<Rightarrow> 'h machine \<Rightarrow> 'h machine \<Rightarrow> bool" where
  "only_ours i users groups m m1 \<longleftrightarrow> (\<forall>q. q \<notin> written i \<longrightarrow> file_at m1 q = file_at m q) \<and>
     dir_at m1 = (dir_at m)(path i DataDir \<mapsto> dataDirMode, path i TLSDir \<mapsto> dataDirMode) \<and>
     users (snd m1) = insert User (users (snd m)) \<and> groups (snd m1) = insert Group (groups (snd m))"

definition answered_as :: "('h, 't) installer \<Rightarrow> world \<Rightarrow> bool" where
  "answered_as i w \<longleftrightarrow> (\<exists>h got. fst (health (in_wait i w) h) = Inr got \<and> SameVersion got (in_version i))"

lemma same_but_file: "same_but u g A m m' \<Longrightarrow> q \<notin> A \<Longrightarrow> file_at m' q = file_at m q"
  by (simp add: same_but_def)

lemma same_but_rest: "same_but u g A m m' \<Longrightarrow> dir_at m' = dir_at m \<and> u (snd m') = u (snd m) \<and> g (snd m') = g (snd m)"
  by (simp add: same_but_def)

context installing begin

lemma service_done:
  assumes "startService i (us, m) = Some (Inr u, us', m')"
  shows "same_host users groups m m' \<and> answered_as i (fst m')"
proof -
  obtain running m1 m2 us3 m3 us4 where a: "mg_IsActive (in_manager i) m = (Inr running, m1)" and e: "mg_Enable (in_manager i) m1 = (Inr (), m2)"
    and r: "(if running then call ManagerFailed (mg_Restart (in_manager i)) else returnI ()) (us4, m2) = Some (Inr (), us3, m3)"
    and w: "wait_service i (us3, m3) = Some (Inr u, us', m')"
    using assms unfolding startService_def by (auto elim!: thenI_Inr simp: steps_Inr)
  have r3: "same_host users groups m2 m3" using r manager_restarted by (auto simp: steps_Inr same_host_def split: if_splits)
  obtain h x where h: "waitHealthy (in_wait i (fst m3)) (in_version i) (in_timeout i) (snd m3) = Some (Inr x, h)" "m' = (fst m3, h)"
    using w by (auto simp: wait_service_def split: option.splits sum.splits)
  have "answered_as i (fst m')"
    using poll_until_Inr [OF h(1) [unfolded waitHealthy_def]] unfolding answered_as_def h(2) fst_conv by (metis fst_conv)
  moreover have "same_host users groups m3 m'" using waited [OF h(1)] h(2) by (simp add: same_host_def)
  ultimately show ?thesis using manager_asked [OF a] manager_enabled [OF e] r3 by (auto simp: same_host_def)
qed

lemma change_done:
  assumes "change_host i s ([], m) = Some (Inr u, us', m')" "system_dirs i (fst m)"
  obtains m2 m3 m4 m5 m6 where "file_at m2 = file_at m"
    "dir_at m2 = (dir_at m)(path i DataDir \<mapsto> dataDirMode, path i TLSDir \<mapsto> dataDirMode)"
    "users (snd m2) = insert User (users (snd m))" "groups (snd m2) = insert Group (groups (snd m))"
    "same_but users groups {path i Sudoers, sudoers_staging (path i Sudoers)} m2 m3"
    "\<exists>us us'. installBinary i (us, m3) = Some (Inr (), us', m4)" "system_dirs i (fst m3)"
    "\<exists>us us'. installCertificate i s (us, m4) = Some (Inr (), us', m5)" "dir_at m4 (path i TLSDir) \<noteq> None"
    "\<exists>us us'. installVhost i s (us, m5) = Some (Inr (), us', m6)" "system_dirs i (fst m5)"
    "same_host users groups (put_file (path i Unit) \<lparr>f_data = unit_text i s, f_mode = readableMode\<rparr> m6) m'"
    "answered_as i (fst m')"
proof -
  from assms(1) [unfolded change_host_def] obtain a us1 m1 us2 m2 us3 m3 us4 m4 us5 m5 us6 m6 us7 m7 us8 m8 us9 m9 where
    r: "ensureAccount i ([], m) = Some (Inr a, us1, m1)" "ensureDataDir i a (us1, m1) = Some (Inr (), us2, m2)"
    "ensureSudoers i (us2, m2) = Some (Inr (), us3, m3)" "installBinary i (us3, m3) = Some (Inr (), us4, m4)"
    "installCertificate i s (us4, m4) = Some (Inr (), us5, m5)" "installVhost i s (us5, m5) = Some (Inr (), us6, m6)"
    "installUnit i s (us6, m6) = Some (Inr (), us7, m7)" "reloadProxy i (us7, m7) = Some (Inr (), us8, m8)"
    "startService i (us8, m8) = Some (Inr (), us9, m9)" "confirmSite i s (us9, m9) = Some (Inr u, us', m')"
    by (elim thenI_Inr) (auto simp: old.unit.exhaust)
  note acc = account_done [OF r(1)] and dirs = data_dir_done [OF r(2)]
  have d2: "dir_at m2 = (dir_at m)(path i DataDir \<mapsto> dataDirMode, path i TLSDir \<mapsto> dataDirMode)" "file_at m2 = file_at m"
    using acc dirs by simp_all
  have s2: "system_dirs i (fst m2)" using assms(2) d2(1) by (simp add: system_dirs_def)
  note sud = sudoers_done [OF r(3) s2]
  have sys: "system_dirs i (fst x)" if "dir_at x = dir_at m2" for x :: "'h machine" using s2 that by (simp add: system_dirs_def)
  have d3: "dir_at m3 = dir_at m2" using same_but_rest [OF sud] by simp
  note bin = binary_done(1) [OF r(4) sys [OF d3]]
  have d4: "dir_at m4 = dir_at m2" using same_but_rest [OF bin] d3 by simp
  then have tls: "dir_at m4 (path i TLSDir) \<noteq> None" using d2(1) by simp
  note cert = certificate_done [OF r(5) tls]
  have d5: "dir_at m5 = dir_at m2" using d4 unfolding cert by (simp split: option.split)
  note vhost = vhost_done(1) [OF r(6) sys [OF d5]]
  have d6: "dir_at m6 = dir_at m2" using same_but_rest [OF vhost] d5 by simp
  note unit = unit_done [OF r(7) sys [OF d6]]
  have rel: "same_host users groups m7 m8" using r(8) unfolding reloadProxy_def call_Inr by (blast intro: manager_reloaded(2))
  note start = service_done [OF r(9)]
  have "\<exists>x. in_confirmProxy i s m9 = Some (x, m')" using r(10) by (auto simp: confirmSite_def split: option.splits sum.splits)
  then have conf: "same_host users groups m9 m'" using confirmed by blast
  have "same_host users groups (put_file (path i Unit) \<lparr>f_data = unit_text i s, f_mode = readableMode\<rparr> m6) m'" "answered_as i (fst m')"
    using unit rel start conf by (auto simp: same_host_def)
  then show thesis
    using that [of m2 m3 m4 m5 m6] d2 acc dirs sud r(4-6) sys [OF d3] tls sys [OF d5] by simp blast
qed


text \<open>Where each thing is at the end, and that nothing later touched it.\<close>

lemma change_in_place:
  assumes "change_host i s ([], m) = Some (Inr u, us', m')" "system_dirs i (fst m)" "in_self i \<notin> written i"
  shows "texts_in_place i s m' \<and> certificate_in_place i s m' \<and> binary_in_place i m m' \<and> only_ours i users groups m m' \<and>
    answered_as i (fst m')"
proof -
  from assms(1,2) obtain m2 m3 m4 m5 m6 where d: "file_at m2 = file_at m"
    "dir_at m2 = (dir_at m)(path i DataDir \<mapsto> dataDirMode, path i TLSDir \<mapsto> dataDirMode)"
    "users (snd m2) = insert User (users (snd m))" "groups (snd m2) = insert Group (groups (snd m))"
    and sud: "same_but users groups {path i Sudoers, sudoers_staging (path i Sudoers)} m2 m3"
    and b: "\<exists>us us'. installBinary i (us, m3) = Some (Inr (), us', m4)" "system_dirs i (fst m3)"
    and c: "\<exists>us us'. installCertificate i s (us, m4) = Some (Inr (), us', m5)" "dir_at m4 (path i TLSDir) \<noteq> None"
    and v: "\<exists>us us'. installVhost i s (us, m5) = Some (Inr (), us', m6)" "system_dirs i (fst m5)"
    and u: "same_host users groups (put_file (path i Unit) \<lparr>f_data = unit_text i s, f_mode = readableMode\<rparr> m6) m'"
    and ans: "answered_as i (fst m')"
    by (rule change_done)
  note dist = paths_distinct [of i]
  define B where "B = {path i Binary, path i PreviousBinary, path i Binary @ ''.new''}"
  define V where "V = {path i Vhost, path i VhostStaging, candidate i, candidate i @ ''.wrapper''}"
  define S where "S = {path i Sudoers, sudoers_staging (path i Sudoers)}"
  define K where "K = {path i TLSCert, path i TLSKey}"
  have b1: "same_but users groups B m3 m4" using b binary_done(1) unfolding B_def by blast
  have b2: "(in_sameFile i (in_self i) (path i Binary) (fst m3) \<and> file_at m4 = file_at m3) \<or>
      (\<exists>f. file_at m3 (in_self i) = Some f \<and> file_at m4 (path i Binary) = Some \<lparr>f_data = f_data f, f_mode = binaryMode\<rparr>)"
    using b binary_done(2) by blast
  have c1: "m5 = (case st_certPEM s of None \<Rightarrow> m4
    | Some c \<Rightarrow> put_file (path i TLSKey) \<lparr>f_data = st_keyPEM s, f_mode = keyMode\<rparr> (put_file (path i TLSCert) \<lparr>f_data = c, f_mode = readableMode\<rparr> m4))"
    using c certificate_done by blast
  then have c2: "same_but users groups K m4 m5" by (auto simp: same_but_def K_def split: option.splits)
  have v1: "same_but users groups V m5 m6" using v vhost_done(1) unfolding V_def by blast
  have v2: "map_option f_data (file_at m6 (path i Vhost)) = Some (vhost_text i s)" using v vhost_done(2) by blast
  have u1: "file_at m' = (file_at m6)(path i Unit \<mapsto> \<lparr>f_data = unit_text i s, f_mode = readableMode\<rparr>)" "dir_at m' = dir_at m6"
    "users (snd m') = users (snd m6)" "groups (snd m') = groups (snd m6)"
    using u by (simp_all add: same_host_def)
  have from_binary: "file_at m' q = file_at m4 q" if "q \<notin> K" "q \<notin> V" "q \<noteq> path i Unit" for q
    using u1(1) same_but_file [OF v1 that(2)] same_but_file [OF c2 that(1)] that(3) by simp
  have ours: "written i = B \<union> V \<union> S \<union> K \<union> {path i Unit}"
    by (auto simp: written_def scratch_def B_def V_def S_def K_def)
  have "only_ours i users groups m m'"
    unfolding only_ours_def
    using ours from_binary same_but_file [OF b1] same_but_file [OF sud [folded S_def]] d u1(2-4)
      same_but_rest [OF v1] same_but_rest [OF c2] same_but_rest [OF b1] same_but_rest [OF sud] by simp
  moreover have "texts_in_place i s m'" using u1(1) v2 dist by (simp add: texts_in_place_def)
  moreover have "certificate_in_place i s m'"
    using u1(1) same_but_file [OF v1] c1 dist by (auto simp: certificate_in_place_def V_def)
  moreover have "binary_in_place i m m'"
  proof -
    have bin: "file_at m' (path i Binary) = file_at m4 (path i Binary)" by (rule from_binary) (use dist in \<open>auto simp: K_def V_def\<close>)
    have self: "file_at m3 (in_self i) = file_at m (in_self i)" using assms(3) ours same_but_file [OF sud [folded S_def]] d(1) by simp
    have "file_at m3 (path i Binary) = file_at m (path i Binary)"
      by (subst same_but_file [OF sud]) (use d(1) dist in auto)
    with b2 bin self show ?thesis unfolding binary_in_place_def by auto
  qed
  ultimately show ?thesis using ans by simp
qed

lemma resolveSite_same:
  assumes "same_host users groups m m'"
  shows "resolveSite i m' = resolveSite i m"
proof -
  have "fst m' = fst m" using assms by (simp add: same_host_def)
  show ?thesis unfolding resolveSite_def resolveDomainSite_def \<open>fst m' = fst m\<close> by (rule refl)
qed

lemma install_done:
  assumes "install i m = Some (Inr (Installed s token), fs, m')" "starts i users groups m" "in_self i \<notin> written i"
  shows "fs = [] \<and> resolveSite i m = Inr s \<and> (\<exists>m1. finish i s m1 = Some (token, m') \<and>
    texts_in_place i s m1 \<and> certificate_in_place i s m1 \<and> binary_in_place i m m1 \<and> only_ours i users groups m m1 \<and> answered_as i (fst m1))"
proof -
  obtain us1 m1 m2 us3 m3 where q: "requireDokku i ([], m) = Some (Inr (), us1, m1)" "resolveSite i m1 = Inr s"
    "CheckProxy (in_ops i) m1 = (Inr (), m2)" "change_host i s ([], m2) = Some (Inr (), us3, m3)" "finish i s m3 = Some (token, m')" "fs = []"
    using assms(1) by (auto simp: install_def Let_def split: sum.splits option.splits prod.splits)
  note s1 = requireDokku_same [OF q(1)]
  note s2 = same_host_trans [OF s1 checked_proxy [OF q(3)]]
  have "resolveSite i m = Inr s" using q(2) resolveSite_same [OF s1] by simp
  moreover have "system_dirs i (fst m2)" using assms(2) s2 by (simp add: starts_def same_host_def)
  note change_in_place [OF q(4) this assms(3)]
  ultimately show ?thesis
    using q(5,6) s2 by (intro conjI exI [of _ m3]) (simp_all add: same_host_def binary_in_place_def only_ours_def)
qed

end


end
