(* ===== verification/Install_Fakes.thy ===== *)
theory Install_Fakes
  imports Install_Unwind
begin

text \<open>
  The installer over the in-memory host of internal/host and the in-memory manager of
  internal/service, as the tests of install.go build it: the seams meet the contract, whatever call
  they are told to fail at, and the theorems on a failed installation at runs of it.
\<close>

section \<open>Two fakes as one host\<close>

text \<open>An operation on one half of a host that leaves the other half.\<close>

definition on_host :: "('a machine \<Rightarrow> 'r \<times> 'a machine) \<Rightarrow> ('a \<times> 'b) machine \<Rightarrow> 'r \<times> ('a \<times> 'b) machine" where
  "on_host f m = (let (r, m') = f (fst m, fst (snd m)) in (r, fst m', snd m', snd (snd m)))"

definition on_manager :: "('b \<Rightarrow> (string + 'r) \<times> 'b) \<Rightarrow> ('a \<times> 'b) machine \<Rightarrow> (manager_error + 'r) \<times> ('a \<times> 'b) machine" where
  "on_manager f m = (let (r, b) = f (snd (snd m)) in
     (case r of Inl e \<Rightarrow> Inl (FakeFailed e) | Inr x \<Rightarrow> Inr x, fst m, fst (snd m), b))"

definition beside :: "'a Ops \<Rightarrow> ('a \<times> 'b) Ops" where
  "beside ops = \<lparr>LookupUser = (\<lambda>n. on_host (LookupUser ops n)), LookupGroup = (\<lambda>n. on_host (LookupGroup ops n)),
     EnsureGroup = (\<lambda>n. on_host (EnsureGroup ops n)), EnsureUser = (\<lambda>s. on_host (EnsureUser ops s)),
     JoinGroup = (\<lambda>u g. on_host (JoinGroup ops u g)), EnsureDir = (\<lambda>p mode a. on_host (EnsureDir ops p mode a)),
     WriteSudoers = (\<lambda>p r. on_host (WriteSudoers ops p r)), ProveSudo = (\<lambda>u ra p args. on_host (ProveSudo ops u ra p args)),
     RemoveUser = (\<lambda>n. on_host (RemoveUser ops n)), RemoveGroup = (\<lambda>n. on_host (RemoveGroup ops n)),
     CheckProxy = on_host (CheckProxy ops), CheckProxyFragment = (\<lambda>p. on_host (CheckProxyFragment ops p))\<rparr>"

lemma on_host_run: "on_host f m = (r, m') \<Longrightarrow> f (fst m, fst (snd m)) = (r, fst m', fst (snd m'))"
  by (auto simp: on_host_def Let_def split: prod.splits)

lemma halves: "same_host (u \<circ> fst) (g \<circ> fst) m m' \<longleftrightarrow> same_host u g (fst m, fst (snd m)) (fst m', fst (snd m'))"
  "same_but (u \<circ> fst) (g \<circ> fst) A m m' \<longleftrightarrow> same_but u g A (fst m, fst (snd m)) (fst m', fst (snd m'))"
  by (simp_all add: same_host_def same_but_def)

lemma beside_ops:
  assumes "host_ops ops u g"
  shows "host_ops (beside ops) (u \<circ> fst) (g \<circ> fst)"
proof (rule host_ops.intro, goal_cases)
  case 1 then show ?case by (simp add: beside_def) (drule on_host_run, drule host_ops.looked_user [OF assms], simp add: halves)
next
  case 2 then show ?case by (simp add: beside_def) (drule on_host_run, drule host_ops.looked_group [OF assms], simp add: halves)
next
  case 3 then show ?case by (simp add: beside_def) (drule on_host_run, drule host_ops.ensured_group [OF assms], auto split: sum.splits)
next
  case 4 then show ?case by (simp add: beside_def) (drule on_host_run, drule host_ops.ensured_user [OF assms], simp)
next
  case 5 then show ?case by (simp add: beside_def) (drule on_host_run, drule host_ops.refused_user [OF assms], simp add: halves)
next
  case 6 then show ?case by (simp add: beside_def) (drule on_host_run, drule host_ops.joined_group [OF assms], simp add: halves)
next
  case 7 then show ?case by (simp add: beside_def) (drule on_host_run, drule host_ops.ensured_dir [OF assms], auto split: sum.splits)
next
  case 8 then show ?case by (simp add: beside_def) (drule on_host_run, drule host_ops.wrote_sudoers [OF assms], simp add: halves)
next
  case 9 then show ?case by (simp add: beside_def) (drule on_host_run, drule host_ops.proved_sudo [OF assms], simp add: halves)
next
  case 10 then show ?case by (simp add: beside_def) (drule on_host_run, drule host_ops.removed_user [OF assms], auto split: sum.splits)
next
  case 11 then show ?case by (simp add: beside_def) (drule on_host_run, drule host_ops.removed_group [OF assms], auto split: sum.splits)
next
  case 12 then show ?case by (simp add: beside_def) (drule on_host_run, drule host_ops.checked_proxy [OF assms], simp add: halves)
next
  case 13 then show ?case by (simp add: beside_def) (drule on_host_run, drule host_ops.checked_fragment [OF assms], simp add: halves)
qed

section \<open>The installer of the tests\<close>

definition fake_manager :: "(Fake_Host \<times> Fake_Manager) Manager" where
  "fake_manager = \<lparr>mg_IsActive = on_manager fm_IsActive, mg_Enable = on_manager fm_Enable, mg_Disable = on_manager fm_Disable,
     mg_Restart = on_manager fm_Restart, mg_DaemonReload = on_manager fm_DaemonReload, mg_Reload = (\<lambda>u. on_manager (fm_Reload u))\<rparr>"

text \<open>A service that answers one thing, and a wait that ends at its first tick.\<close>

definition answering :: "string + string \<Rightarrow> 'h Host" where
  "answering r = \<lparr>restartUnit = (\<lambda>fs h. (Inr (), h)), resetFailed = (\<lambda>fs h. (Inr (), h)), health = (\<lambda>h. (r, h)),
     clock = (\<lambda>h. 0), select = (\<lambda>d h. (True, h))\<rparr>"

definition test_installer :: "string + string \<Rightarrow> (site \<Rightarrow> wait_error + unit) \<Rightarrow> installConfig \<Rightarrow> (Fake_Host \<times> Fake_Manager, unit) installer" where
  "test_installer answer proxied cfg = \<lparr>in_ops = beside fake_ops, in_manager = fake_manager, in_wait = (\<lambda>w. answering answer),
     in_confirmProxy = (\<lambda>s m. Some (proxied s, m)), in_issueToken = (\<lambda>m. ((), m)), in_tick = (\<lambda>d m. (True, m)), in_now = (\<lambda>m. 0),
     in_net = \<lparr>ne_resolve = (\<lambda>n. Addresses [''192.0.2.7'']), ne_local = Some [''192.0.2.7''], ne_localIP = Some ''192.0.2.7'',
        ne_parseIP = (\<lambda>s. Some s)\<rparr>,
     in_crypto = \<lparr>cr_keyPair = (\<lambda>c k. Some c), cr_pemDecode = (\<lambda>p. Some p), cr_parseCertificate = (\<lambda>d. None),
        cr_selfSignedIP = (\<lambda>ip. Some (''cert'', ''key'', ''AA:BB'')), cr_selfSignedForDomain = (\<lambda>d. Some (''cert'', ''key''))\<rparr>,
     in_works = (\<lambda>c p. True), in_sameFile = (\<lambda>a b w. False), in_stdin = [], in_root = [], in_self = ''/tmp/dokkup'',
     in_version = ''v1.0.0'', in_cfg = cfg, in_timeout = 0, in_certWait = 0\<rparr>"

lemma on_manager_same: "on_manager f m = (r, m') \<Longrightarrow> same_host (u \<circ> fst) (g \<circ> fst) m m'"
  by (auto simp: on_manager_def same_host_def Let_def split: prod.splits)

interpretation fakes: installing "test_installer answer proxied cfg" "fh_users \<circ> fst" "fh_groups \<circ> fst" for answer proxied cfg
proof (rule installing.intro)
  show "host_ops (in_ops (test_installer answer proxied cfg)) (fh_users \<circ> fst) (fh_groups \<circ> fst)"
    using beside_ops [OF fh.host_ops_axioms] by (simp add: test_installer_def)
  show "installing_axioms (test_installer answer proxied cfg) (fh_users \<circ> fst) (fh_groups \<circ> fst)"
    by unfold_locales (auto simp: test_installer_def fake_manager_def answering_def same_host_def dest: on_manager_same [of _ _ _ _ fh_users fh_groups])
qed

section \<open>Nothing fails\<close>

text \<open>
  The fakes told to fail at nothing, on a host that has Dokku, the system's directories and the
  executable to install; and, as the run goes on, the account and the rule.
\<close>

type_synonym test_machine = "(Fake_Host \<times> Fake_Manager) machine"

definition able :: "test_machine \<Rightarrow> bool" where
  "able m \<longleftrightarrow> fh_FailAt (fst (snd m)) = [] \<and> fh_Err (fst (snd m)) = None \<and> fm_Err (snd (snd m)) = None \<and>
     DefaultRunAs \<in> fh_users (fst (snd m)) \<and> DokkuGroup \<in> fh_groups (fst (snd m))"

definition has_account :: "test_machine \<Rightarrow> bool" where
  "has_account m \<longleftrightarrow> able m \<and> User \<in> fh_users (fst (snd m))"

definition fits :: "('h, 't) installer \<Rightarrow> world \<Rightarrow> bool" where
  "fits i w \<longleftrightarrow> system_dirs i w \<and> w_files w (in_self i) \<noteq> None \<and> w_files w (path i DefaultDokku) \<noteq> None"

text \<open>A step that succeeds where P holds and leaves Q.\<close>

definition succeeds :: "('h machine \<Rightarrow> bool) \<Rightarrow> ('a \<Rightarrow> 'h machine \<Rightarrow> bool) \<Rightarrow> ('h, 'a) action \<Rightarrow> bool" where
  "succeeds P Q a \<longleftrightarrow> (\<forall>us m. P m \<longrightarrow> (\<exists>x us' m'. a (us, m) = Some (Inr x, us', m') \<and> Q x m'))"

lemma succeeds_then:
  assumes "succeeds P Q a" "\<And>x. succeeds (Q x) R (f x)"
  shows "succeeds P R (thenI a f)"
  unfolding succeeds_def
proof (intro allI impI)
  fix us m
  assume "P m"
  with assms(1) obtain x us1 m1 where "a (us, m) = Some (Inr x, us1, m1)" "Q x m1" unfolding succeeds_def by blast
  moreover from this(2) assms(2) obtain y us2 m2 where "f x (us1, m1) = Some (Inr y, us2, m2)" "R y m2" unfolding succeeds_def by blast
  ultimately show "\<exists>y us' m'. thenI a f (us, m) = Some (Inr y, us', m') \<and> R y m'" by (simp add: thenI_def)
qed

lemma succeeds_call: "(\<And>m. P m \<Longrightarrow> \<exists>x m'. f m = (Inr x, m') \<and> Q x m') \<Longrightarrow> succeeds P Q (call w f)"
  unfolding succeeds_def call_def by fastforce

lemma succeeds_attempt: "(\<And>m. P m \<Longrightarrow> Q (fst (f m)) (snd (f m))) \<Longrightarrow> succeeds P Q (attempt f)"
  by (simp add: succeeds_def attempt_def split_beta Let_def)

lemma succeeds_asking: "(\<And>m. P m \<Longrightarrow> Q (f m) m) \<Longrightarrow> succeeds P Q (asking f)"
  by (simp add: succeeds_def asking_def)

lemma succeeds_return: "(\<And>m. P m \<Longrightarrow> Q x m) \<Longrightarrow> succeeds P Q (returnI x)"
  by (simp add: succeeds_def returnI_def)

lemma succeeds_undoing: "(\<And>m. P m \<Longrightarrow> Q () m) \<Longrightarrow> succeeds P Q (undoing w f)"
  by (simp add: succeeds_def undoing_def)

lemma succeeds_discarding: "(\<And>m. P m \<Longrightarrow> \<exists>x m'. f m = (Inr x, m') \<and> Q x m') \<Longrightarrow> succeeds P Q (discarding i p w f)"
  unfolding succeeds_def discarding_def by fastforce

lemma succeeds_if: "(b \<Longrightarrow> succeeds P Q a1) \<Longrightarrow> (\<not> b \<Longrightarrow> succeeds P Q a2) \<Longrightarrow> succeeds P Q (if b then a1 else a2)"
  by simp

text \<open>The calls of the fakes.\<close>

lemma fh_method_able: "fh_FailAt (snd m) = [] \<Longrightarrow> fh_Err (snd m) = None \<Longrightarrow>
    fh_method c body m = body (fst m, (snd m)\<lparr>fh_Calls := fh_Calls (snd m) @ [c]\<rparr>)"
  by (simp add: fh_method_def fh_record_def Let_def)

lemmas fakes_eval = beside_def on_host_def fake_ops_def fh_LookupUser_def fh_LookupGroup_def fh_EnsureGroup_def fh_EnsureUser_def
  fh_JoinGroup_def fh_EnsureDir_def fh_WriteSudoers_def fh_ProveSudo_def fh_CheckProxy_def fh_CheckProxyFragment_def fh_record_def
  fake_manager_def on_manager_def fm_defs able_def has_account_def fh_method_able

lemma known_account: "n \<in> fh_users f \<Longrightarrow> \<exists>a. map_of (fh_Users f) n = Some a" "n \<in> fh_groups f \<Longrightarrow> \<exists>a. map_of (fh_Groups f) n = Some a"
  by (auto simp: fh_users_def fh_groups_def)

lemma manager_able:
  assumes "P (fst m) (fst (snd m))" "able m"
  shows "\<exists>x m'. mg_Enable fake_manager m = (Inr x, m') \<and> P (fst m') (fst (snd m')) \<and> able m'"
    "\<exists>x m'. mg_Restart fake_manager m = (Inr x, m') \<and> P (fst m') (fst (snd m')) \<and> able m'"
    "\<exists>x m'. mg_DaemonReload fake_manager m = (Inr x, m') \<and> P (fst m') (fst (snd m')) \<and> able m'"
    "\<exists>x m'. mg_Reload fake_manager u m = (Inr x, m') \<and> P (fst m') (fst (snd m')) \<and> able m'"
    "\<exists>x m'. mg_IsActive fake_manager m = (Inr x, m') \<and> P (fst m') (fst (snd m')) \<and> able m'"
  using assms by (simp_all add: fakes_eval)

lemma host_able:
  assumes "able m"
  shows "\<exists>x m'. LookupGroup (beside fake_ops) DokkuGroup m = (Inr x, m') \<and> fst m' = fst m \<and> able m'"
    "\<exists>x m'. LookupUser (beside fake_ops) DefaultRunAs m = (Inr x, m') \<and> fst m' = fst m \<and> able m'"
    "\<exists>x m'. CheckProxy (beside fake_ops) m = (Inr x, m') \<and> fst m' = fst m \<and> able m'"
    "\<exists>x m'. CheckProxyFragment (beside fake_ops) p m = (Inr x, m') \<and> fst m' = fst m \<and> able m'"
proof -
  obtain w f g where m: "m = (w, f, g)" by (metis surj_pair)
  obtain a b where ab: "map_of (fh_Users f) DefaultRunAs = Some a" "map_of (fh_Groups f) DokkuGroup = Some b"
    using assms known_account by (fastforce simp: able_def m)
  show "\<exists>x m'. LookupGroup (beside fake_ops) DokkuGroup m = (Inr x, m') \<and> fst m' = fst m \<and> able m'"
    "\<exists>x m'. LookupUser (beside fake_ops) DefaultRunAs m = (Inr x, m') \<and> fst m' = fst m \<and> able m'"
    "\<exists>x m'. CheckProxy (beside fake_ops) m = (Inr x, m') \<and> fst m' = fst m \<and> able m'"
    "\<exists>x m'. CheckProxyFragment (beside fake_ops) p m = (Inr x, m') \<and> fst m' = fst m \<and> able m'"
    using assms by (simp_all add: m fakes_eval ab Let_def)
qed

lemma test_fields [simp]:
  "in_ops (test_installer r p cfg) = beside fake_ops" "in_manager (test_installer r p cfg) = fake_manager"
  "in_works (test_installer r p cfg) c q = True" "path (test_installer r p cfg) q = q" "in_wait (test_installer r p cfg) w = answering r"
  "in_confirmProxy (test_installer r p cfg) s m = Some (p s, m)" "in_issueToken (test_installer r p cfg) m = ((), m)"
  "in_self (test_installer r p cfg) = ''/tmp/dokkup''" "in_sameFile (test_installer r p cfg) a b w = False"
  "in_version (test_installer r p cfg) = ''v1.0.0''" "in_tick (test_installer r p cfg) d m = (True, m)" "in_timeout (test_installer r p cfg) = 0"
  by (simp_all add: test_installer_def path_def Rooted_def)

section \<open>Each step\<close>

text \<open>The accounts.\<close>

lemma ensureGroup_succeeds:
  "succeeds (\<lambda>m. able m \<and> fst m = w) (\<lambda>_ m. able m \<and> fst m = w \<and> Group \<in> fh_groups (fst (snd m))) (ensureGroup (test_installer r p cfg))"
  unfolding succeeds_def
proof (intro allI impI)
  fix us and m :: test_machine
  assume P: "able m \<and> fst m = w"
  obtain v f g where m: "m = (v, f, g)" by (metis surj_pair)
  show "\<exists>x us' m'. ensureGroup (test_installer r p cfg) (us, m) = Some (Inr x, us', m') \<and>
      able m' \<and> fst m' = w \<and> Group \<in> fh_groups (fst (snd m'))"
  proof (cases "map_of (fh_Groups f) Group")
    case None
    with P show ?thesis
      by (simp add: ensureGroup_def thenI_def attempt_def had_group_def returnI_def call_def undoing_def m fakes_eval Let_def)
        (simp add: fh_groups_def fh_users_def update_conv')
  next
    case (Some a)
    with P show ?thesis
      by (simp add: ensureGroup_def thenI_def attempt_def had_group_def returnI_def call_def m fakes_eval Let_def)
        (simp add: fh_groups_def domIff)
  qed
qed

lemma ensureUser_succeeds:
  "succeeds (\<lambda>m. able m \<and> fst m = w \<and> Group \<in> fh_groups (fst (snd m))) (\<lambda>_ m. has_account m \<and> fst m = w) (ensureUser (test_installer r p cfg))"
  unfolding succeeds_def
proof (intro allI impI)
  fix us and m :: test_machine
  assume P: "able m \<and> fst m = w \<and> Group \<in> fh_groups (fst (snd m))"
  obtain v f g where m: "m = (v, f, g)" by (metis surj_pair)
  obtain b where b: "map_of (fh_Groups f) Group = Some b" using P by (auto simp: m fh_groups_def)
  show "\<exists>x us' m'. ensureUser (test_installer r p cfg) (us, m) = Some (Inr x, us', m') \<and> has_account m' \<and> fst m' = w"
  proof (cases "map_of (fh_Users f) User")
    case None
    with P b show ?thesis
      by (simp add: ensureUser_def account_spec_def thenI_def attempt_def undoing_def m fakes_eval Let_def)
        (simp add: fh_groups_def fh_users_def update_conv')
  next
    case (Some a)
    with P b show ?thesis
      by (simp add: ensureUser_def account_spec_def thenI_def attempt_def returnI_def m fakes_eval Let_def)
        (simp add: fh_groups_def fh_users_def domIff)
  qed
qed

lemma ensureAccount_succeeds:
  "succeeds (\<lambda>m. able m \<and> fst m = w) (\<lambda>_ m. able m \<and> fst m = w) (ensureAccount (test_installer r p cfg))"
proof -
  have "\<exists>x m'. JoinGroup (beside fake_ops) User DokkuGroup m = (Inr x, m') \<and> has_account m' \<and> fst m' = w"
    and "\<exists>x m'. LookupUser (beside fake_ops) User m = (Inr x, m') \<and> able m' \<and> fst m' = w"
    if P: "has_account m \<and> fst m = w" for m
  proof -
    obtain v f g where m: "m = (v, f, g)" by (metis surj_pair)
    obtain a b where "map_of (fh_Users f) User = Some a" "map_of (fh_Groups f) DokkuGroup = Some b"
      using P known_account by (fastforce simp: has_account_def able_def m)
    with P show "\<exists>x m'. JoinGroup (beside fake_ops) User DokkuGroup m = (Inr x, m') \<and> has_account m' \<and> fst m' = w"
      and "\<exists>x m'. LookupUser (beside fake_ops) User m = (Inr x, m') \<and> able m' \<and> fst m' = w"
      by (simp_all add: m fakes_eval Let_def)
  qed
  then show ?thesis
    unfolding ensureAccount_def test_fields
    by (intro succeeds_then [OF ensureGroup_succeeds] succeeds_then [OF ensureUser_succeeds]
      succeeds_then [OF succeeds_call [where Q = "\<lambda>_ m. has_account m \<and> fst m = w"]] succeeds_call) (simp_all add: conj_commute)
qed

text \<open>The directories and the rule.\<close>

lemma ensure_dir_succeeds:
  assumes "\<And>w. S w \<Longrightarrow> S' (w\<lparr>w_dirs := (w_dirs w)(dir \<mapsto> dataDirMode)\<rparr>)"
  shows "succeeds (\<lambda>m. able m \<and> S (fst m)) (\<lambda>_ m. able m \<and> S' (fst m)) (ensure_dir (test_installer r p cfg) owner dir)"
  unfolding succeeds_def
proof (intro allI impI)
  fix us and m :: test_machine
  assume P: "able m \<and> S (fst m)"
  obtain w f g where m: "m = (w, f, g)" by (metis surj_pair)
  have "\<exists>x m'. EnsureDir (beside fake_ops) dir dataDirMode owner m = (Inr x, m') \<and> able m' \<and> fst m' = w\<lparr>w_dirs := (w_dirs w)(dir \<mapsto> dataDirMode)\<rparr>"
    using P by (auto simp: m fakes_eval Let_def MkdirAll_def put_dir_def split: option.split)
  then obtain x m' where "EnsureDir (beside fake_ops) dir dataDirMode owner m = (Inr x, m')" "able m'"
      "fst m' = w\<lparr>w_dirs := (w_dirs w)(dir \<mapsto> dataDirMode)\<rparr>" by blast
  moreover from this(3) have "S' (fst m')" using P assms by (simp add: m)
  ultimately have "S' (fst m')" "\<exists>us'. ensure_dir (test_installer r p cfg) owner dir (us, m) = Some (Inr (), us', m')"
    by (simp_all add: ensure_dir_def thenI_def asking_def call_def returnI_def undoing_def)
  with \<open>able m'\<close> show "\<exists>x us' m'. ensure_dir (test_installer r p cfg) owner dir (us, m) = Some (Inr x, us', m') \<and> able m' \<and> S' (fst m')"
    by blast
qed

lemma data_dir_succeeds:
  "succeeds (\<lambda>m. able m \<and> system_dirs (test_installer r p cfg) (fst m) \<and> w_files (fst m) = fs \<and> w_dirs (fst m) Binary = None)
    (\<lambda>_ m. able m \<and> system_dirs (test_installer r p cfg) (fst m) \<and> w_files (fst m) = fs \<and> w_dirs (fst m) Binary = None \<and> w_dirs (fst m) TLSDir \<noteq> None)
    (ensureDataDir (test_installer r p cfg) owner)"
proof -
  have apart: "DataDir \<noteq> Binary" "TLSDir \<noteq> Binary" by (simp_all add: DataDir_def Binary_def TLSDir_def)
  let ?S = "\<lambda>w. system_dirs (test_installer r p cfg) w \<and> w_files w = fs \<and> w_dirs w Binary = None"
  have one: "succeeds (\<lambda>m. able m \<and> ?S (fst m)) (\<lambda>_ m. able m \<and> ?S (fst m)) (ensure_dir (test_installer r p cfg) owner DataDir)"
    by (rule ensure_dir_succeeds [where S = ?S and S' = ?S]) (use apart in \<open>simp add: system_dirs_step\<close>)
  have two: "succeeds (\<lambda>m. able m \<and> ?S (fst m)) (\<lambda>_ m. able m \<and> ?S (fst m) \<and> w_dirs (fst m) TLSDir \<noteq> None)
      (ensure_dir (test_installer r p cfg) owner TLSDir)"
    by (rule ensure_dir_succeeds [where S = ?S and S' = "\<lambda>w. ?S w \<and> w_dirs w TLSDir \<noteq> None"])
      (use apart in \<open>simp add: system_dirs_step\<close>)
  show ?thesis
    unfolding ensureDataDir_def using succeeds_then [OF one two] by (simp add: conj_assoc)
qed

lemma mkdir_succeeds:
  "(\<And>m. P m \<Longrightarrow> dir_at m (path_dir q) \<noteq> None) \<Longrightarrow> succeeds P (\<lambda>_. P) (mkdir_for (test_installer r p cfg) q)"
  by (fastforce simp: succeeds_def mkdir_for_def attempt_def MkdirAll_def Let_def split: option.split)

lemma read_previous_succeeds: "succeeds P (\<lambda>_. P) (read_previous (test_installer r p cfg) q)"
  by (auto simp: succeeds_def read_previous_def call_def readIfExists_def os_Read_def split: option.split)

lemma write_succeeds:
  "(\<And>m f. P m \<Longrightarrow> f_data f = d \<Longrightarrow> Q () (put_file q f m)) \<Longrightarrow> succeeds P Q (write_file (test_installer r p cfg) q d mode)"
  by (auto simp: succeeds_def write_file_def call_def on_files_def os_Write_def put_file_def)

lemma rule_permits: "HasPrefix sudo_rule (User @ '' '')" "Contains sudo_rule DefaultDokku"
  by (simp_all add: sudo_rule_def User_def DefaultRunAs_def DefaultDokku_def DefaultBinary_def nginxUnit_def HasPrefix_def)

lemma updated_rule: "rule \<in> snd ` set (AList.update q rule xs)"
  by (induction xs) auto

lemma sudoers_succeeds:
  assumes "\<And>w. S w \<Longrightarrow> w_dirs w (path_dir Sudoers) \<noteq> None"
  shows "succeeds (\<lambda>m. able m \<and> S (fst m)) (\<lambda>_ m. able m \<and> S (fst m)) (ensureSudoers (test_installer r p cfg))"
proof -
  have written: "\<exists>x m'. WriteSudoers (beside fake_ops) Sudoers sudo_rule m = (Inr x, m') \<and> able m' \<and> S (fst m') \<and>
      sudo_rule \<in> snd ` set (fh_Sudoers (fst (snd m')))" if "able m \<and> S (fst m)" for m
  proof -
    obtain w f g where m: "m = (w, f, g)" by (metis surj_pair)
    show ?thesis using that updated_rule by (simp add: m fakes_eval Let_def) (simp add: fh_users_def fh_groups_def)
  qed
  have proved: "\<exists>x m'. ProveSudo (beside fake_ops) User DefaultRunAs DefaultDokku [''version''] m = (Inr x, m') \<and> able m' \<and> S (fst m')"
    if "able m \<and> S (fst m) \<and> sudo_rule \<in> snd ` set (fh_Sudoers (fst (snd m)))" for m
  proof -
    obtain w f g where m: "m = (w, f, g)" by (metis surj_pair)
    have "\<exists>rule \<in> set (map snd (fh_Sudoers f)). HasPrefix rule (User @ '' '') \<and> Contains rule DefaultDokku"
      using that rule_permits by (intro bexI [of _ sudo_rule] conjI) (simp_all add: m)
    then show ?thesis using that by (simp add: m fakes_eval Let_def)
  qed
  show ?thesis
    unfolding ensureSudoers_def Let_def test_fields
    by (rule succeeds_then [OF mkdir_succeeds], use assms in blast, rule succeeds_then [OF read_previous_succeeds],
      rule succeeds_then [OF succeeds_call], erule written, rule succeeds_then [OF succeeds_undoing], assumption, rule succeeds_call, erule proved)
qed

section \<open>The files\<close>

text \<open>From here on the steps leave the directories as they are.\<close>

definition placed :: "(string \<rightharpoonup> nat) \<Rightarrow> test_machine \<Rightarrow> bool" where
  "placed ds m \<longleftrightarrow> able m \<and> dir_at m = ds"

lemma placed_files [simp]: "placed ds ((fst m)\<lparr>w_files := files\<rparr>, snd m) \<longleftrightarrow> placed ds m"
  "placed ds (w\<lparr>w_files := files\<rparr>, h) \<longleftrightarrow> placed ds (w, h)"
  by (simp_all add: placed_def able_def)

lemma placed_put [simp]: "placed ds (put_file q f m) \<longleftrightarrow> placed ds m"
  by (simp add: put_file_def)

lemma binary_paths: "Binary @ ''.new'' \<noteq> Binary" "PreviousBinary \<noteq> Binary" "PreviousBinary \<noteq> Binary @ ''.new''"
  "Binary \<noteq> PreviousBinary" "Binary @ ''.new'' \<noteq> PreviousBinary"
  by (simp_all add: PreviousBinary_def PreviousSuffix_def)

lemma keep_previous_succeeds:
  "succeeds (\<lambda>m. placed ds m \<and> file_at m Binary \<noteq> None \<and> file_at m (Binary @ ''.new'') \<noteq> None)
    (\<lambda>_ m. placed ds m \<and> file_at m (Binary @ ''.new'') \<noteq> None) (keep_previous (test_installer r p cfg))"
  unfolding keep_previous_def Let_def test_fields
proof (rule succeeds_then [OF succeeds_discarding [where Q = "\<lambda>_ m. placed ds m \<and> file_at m Binary \<noteq> None \<and>
    file_at m (Binary @ ''.new'') \<noteq> None \<and> file_at m PreviousBinary = None"] succeeds_discarding], goal_cases)
  case (1 m) then show ?case by (cases "file_at m PreviousBinary") (simp_all add: on_files_def os_Remove_def binary_paths)
next
  case (2 x m) then show ?case by (cases m) (auto simp: on_files_def os_Link_def binary_paths)
qed

lemma binary_succeeds:
  assumes "ds (path_dir Binary) \<noteq> None" "ds Binary = None"
  shows "succeeds (\<lambda>m. placed ds m \<and> file_at m ''/tmp/dokkup'' \<noteq> None) (\<lambda>_. placed ds) (installBinary (test_installer r p cfg))"
proof -
  let ?self = "\<lambda>m. placed ds m \<and> file_at m ''/tmp/dokkup'' \<noteq> None" and ?staged = "\<lambda>m. placed ds m \<and> file_at m (Binary @ ''.new'') \<noteq> None"
  have copy: "succeeds ?self (\<lambda>_. ?staged) (discarding (test_installer r p cfg) (Binary @ ''.new'') w
      (on_files (copyFile (\<lambda>_ _. True) ''/tmp/dokkup'' (Binary @ ''.new'') binaryMode)))" for w
    by (rule succeeds_discarding) (auto simp: on_files_def copyFile_def os_Read_def os_Write_def os_Chmod_def)
  have there: "succeeds ?staged (\<lambda>b m. ?staged m \<and> (b \<longrightarrow> file_at m Binary \<noteq> None)) (asking (exists Binary))"
    by (rule succeeds_asking) (use assms(2) in \<open>auto simp: exists_def placed_def\<close>)
  have keep: "succeeds (\<lambda>m. ?staged m \<and> (b \<longrightarrow> file_at m Binary \<noteq> None)) (\<lambda>_. ?staged)
      (if b then keep_previous (test_installer r p cfg) else returnI ())" for b
    using keep_previous_succeeds by (auto simp: succeeds_def returnI_def)
  have put: "succeeds ?staged (\<lambda>_. placed ds) (discarding (test_installer r p cfg) (Binary @ ''.new'') w
      (on_files (os_Rename True (Binary @ ''.new'') Binary)))" for w
    by (rule succeeds_discarding) (auto simp: on_files_def os_Rename_def)
  have mk: "succeeds ?self (\<lambda>_. ?self) (mkdir_for (test_installer r p cfg) Binary)"
    by (rule mkdir_succeeds) (use assms(1) in \<open>simp add: placed_def\<close>)
  have works: "in_works (test_installer r p cfg) = (\<lambda>_ _. True)" by (simp add: test_installer_def)
  have other: "succeeds (\<lambda>m. b = False \<and> ?self m) (\<lambda>_. placed ds) (if b then returnI () else a)"
    if "succeeds ?self (\<lambda>_. placed ds) a" for a b using that by (cases b) (simp_all add: succeeds_def)
  show ?thesis
    unfolding installBinary_def Let_def works test_fields
    by (rule succeeds_then [OF succeeds_asking [where Q = "\<lambda>b m. b = False \<and> ?self m"] other], simp,
      rule succeeds_then [OF mk], rule succeeds_then [OF copy], rule succeeds_then [OF there], rule succeeds_then [OF keep],
      rule succeeds_then [OF put], rule succeeds_if; rule succeeds_undoing)
qed

text \<open>A file written over what is there.\<close>

lemma owned_succeeds:
  assumes "ds (path_dir q) \<noteq> None"
  shows "succeeds (placed ds) (\<lambda>_. placed ds) (writeOwnedFile (test_installer r p cfg) q d mode)"
proof -
  have mk: "succeeds (placed ds) (\<lambda>_. placed ds) (mkdir_for (test_installer r p cfg) q)"
    by (rule mkdir_succeeds) (use assms in \<open>simp add: placed_def\<close>)
  have wr: "succeeds (placed ds) (\<lambda>_ m. placed ds m \<and> file_at m q \<noteq> None) (write_file (test_installer r p cfg) q d mode)"
    by (rule write_succeeds) (simp_all add: put_file_def)
  have ch: "succeeds (\<lambda>m. placed ds m \<and> file_at m q \<noteq> None) (\<lambda>_. placed ds) (call w (on_files (os_Chmod True q mode)))" for w
    by (rule succeeds_call) (auto simp: on_files_def os_Chmod_def)
  show ?thesis
    unfolding writeOwnedFile_def test_fields
    by (rule succeeds_then [OF mk], rule succeeds_then [OF read_previous_succeeds], rule succeeds_then [OF wr],
      rule succeeds_then [OF ch], rule succeeds_return)
qed

lemma replaced_succeeds:
  "ds (path_dir q) \<noteq> None \<Longrightarrow> succeeds (placed ds) (\<lambda>_. placed ds) (replaceFile (test_installer r p cfg) q d mode)"
  unfolding replaceFile_def by (rule succeeds_then [OF owned_succeeds succeeds_undoing])

lemma certificate_succeeds:
  assumes "ds TLSDir \<noteq> None"
  shows "succeeds (placed ds) (\<lambda>_. placed ds) (installCertificate (test_installer r p cfg) s)"
proof (cases "st_certPEM s")
  case None then show ?thesis by (simp add: installCertificate_def succeeds_return)
next
  case (Some c)
  have "path_dir TLSCert = TLSDir" "path_dir TLSKey = TLSDir" by (simp_all add: path_dir_def TLSCert_def TLSKey_def TLSDir_def DataDir_def)
  with assms have d: "ds (path_dir TLSCert) \<noteq> None" "ds (path_dir TLSKey) \<noteq> None" by simp_all
  show ?thesis unfolding installCertificate_def Some option.case test_fields by (rule succeeds_then [OF replaced_succeeds replaced_succeeds]) (rule d)+
qed

section \<open>The proxy, the unit and the service\<close>

lemma host_placed:
  assumes "placed ds m"
  shows "\<exists>x m'. CheckProxy (beside fake_ops) m = (Inr x, m') \<and> placed ds m' \<and> file_at m' = file_at m"
    "\<exists>x m'. CheckProxyFragment (beside fake_ops) q m = (Inr x, m') \<and> placed ds m' \<and> file_at m' = file_at m"
  using host_able(3,4) [of m] assms unfolding placed_def by metis+

lemma manager_placed:
  assumes "placed ds m"
  shows "\<exists>x m'. mg_Enable fake_manager m = (Inr x, m') \<and> placed ds m'" "\<exists>x m'. mg_Restart fake_manager m = (Inr x, m') \<and> placed ds m'"
    "\<exists>x m'. mg_DaemonReload fake_manager m = (Inr x, m') \<and> placed ds m'" "\<exists>x m'. mg_Reload fake_manager q m = (Inr x, m') \<and> placed ds m'"
    "\<exists>x m'. mg_IsActive fake_manager m = (Inr x, m') \<and> placed ds m'"
  using manager_able(1,2,3,5) [where P = "\<lambda>w f. w_dirs w = ds" and m = m] manager_able(4) [where P = "\<lambda>w f. w_dirs w = ds" and m = m and u = q]
    assms unfolding placed_def by blast+

lemma vhost_apart: "VhostStaging \<noteq> Vhost" "DataDir @ ''/vhost.candidate'' \<noteq> VhostStaging"
  by (simp_all add: Vhost_def VhostStaging_def DataDir_def)

lemma vhost_succeeds:
  assumes "ds (path_dir Vhost) \<noteq> None"
  shows "succeeds (placed ds) (\<lambda>_. placed ds) (installVhost (test_installer r p cfg) s)"
proof -
  let ?staged = "\<lambda>m. placed ds m \<and> file_at m VhostStaging \<noteq> None"
  have cand: "succeeds (placed ds) (\<lambda>_. placed ds) (write_file (test_installer r p cfg) q d mode)" for q d mode
    by (rule write_succeeds) simp
  have frag: "succeeds (placed ds) (\<lambda>_. placed ds) (call w (CheckProxyFragment (beside fake_ops) q))" for w :: "host_error \<Rightarrow> install_error" and q
    by (rule succeeds_call) (use host_placed in blast)
  have mk: "succeeds (placed ds) (\<lambda>_. placed ds) (mkdir_for (test_installer r p cfg) Vhost)"
    by (rule mkdir_succeeds) (use assms in \<open>simp add: placed_def\<close>)
  have wr: "succeeds (placed ds) (\<lambda>_. ?staged) (write_file (test_installer r p cfg) VhostStaging d mode)" for d mode
    by (rule write_succeeds) (simp_all add: put_file_def)
  have put: "succeeds ?staged (\<lambda>_. placed ds) (discarding (test_installer r p cfg) q w (on_files (os_Rename True VhostStaging Vhost)))" for w q
    by (rule succeeds_discarding) (auto simp: on_files_def os_Rename_def)
  have chk: "succeeds (placed ds) (\<lambda>_. placed ds) (call w (CheckProxy (beside fake_ops)))" for w :: "host_error \<Rightarrow> install_error"
    by (rule succeeds_call) (use host_placed in blast)
  have steps: "succeeds (placed ds) (\<lambda>_. placed ds) (putVhost (test_installer r p cfg) s)"
    unfolding putVhost_def Let_def test_fields
    by (rule succeeds_then [OF frag], rule succeeds_then [OF read_previous_succeeds], rule succeeds_then [OF mk],
      rule succeeds_then [OF wr], rule succeeds_then [OF put], rule succeeds_then [OF succeeds_undoing], assumption, rule chk)
  have removed: "placed ds (snd (on_files (os_Remove b q) m))" if "placed ds m" for b q m
    using that by (cases m) (simp add: on_files_def split_beta)
  have "succeeds (placed ds) (\<lambda>_. placed ds) (deferring (\<lambda>m. snd (on_files (os_Remove b q) m)) (putVhost (test_installer r p cfg) s))" for b q
    unfolding succeeds_def
  proof (intro allI impI)
    fix us m
    assume "placed ds m"
    with steps obtain x us' m' where "putVhost (test_installer r p cfg) s (us, m) = Some (Inr x, us', m')" "placed ds m'"
      unfolding succeeds_def by blast
    then show "\<exists>x us' m'. deferring (\<lambda>m. snd (on_files (os_Remove b q) m)) (putVhost (test_installer r p cfg) s) (us, m) =
        Some (Inr x, us', m') \<and> placed ds m'" using removed [of m' b q] by (simp add: deferring_def)
  qed
  then show ?thesis
    unfolding installVhost_def by (rule succeeds_then [OF cand])
qed

lemma unit_succeeds:
  assumes "ds (path_dir Unit) \<noteq> None"
  shows "succeeds (placed ds) (\<lambda>_. placed ds) (installUnit (test_installer r p cfg) s)"
  unfolding installUnit_def test_fields
  by (rule succeeds_then [OF owned_succeeds], use assms in blast, rule succeeds_then [OF succeeds_undoing], assumption,
    rule succeeds_call) (use manager_placed in blast)

lemma manager_succeeds:
  "succeeds (placed ds) (\<lambda>_. placed ds) (call ManagerFailed (mg_Enable fake_manager))"
  "succeeds (placed ds) (\<lambda>_. placed ds) (call ManagerFailed (mg_Restart fake_manager))"
  "succeeds (placed ds) (\<lambda>_. placed ds) (call ManagerFailed (mg_Reload fake_manager q))"
  "succeeds (placed ds) (\<lambda>_. placed ds) (call ManagerFailed (mg_IsActive fake_manager))"
  by (rule succeeds_call, use manager_placed in blast)+

lemma wait_succeeds:
  assumes "SameVersion v ''v1.0.0''"
  shows "succeeds (placed ds) (\<lambda>_. placed ds) (wait_service (test_installer (Inr v) p cfg))"
  unfolding succeeds_def
proof (intro allI impI)
  fix us and m :: test_machine
  assume "placed ds m"
  moreover have "waitHealthy (answering (Inr v)) ''v1.0.0'' 0 h = Some (Inr (), h)" for h :: "Fake_Host \<times> Fake_Manager"
    unfolding waitHealthy_def by (subst poll_until_eq) (simp add: answering_def judge_def assms)
  ultimately show "\<exists>x us' m'. wait_service (test_installer (Inr v) p cfg) (us, m) = Some (Inr x, us', m') \<and> placed ds m'"
    by (simp add: wait_service_def)
qed

lemma service_succeeds:
  assumes "SameVersion v ''v1.0.0''"
  shows "succeeds (placed ds) (\<lambda>_. placed ds) (startService (test_installer (Inr v) p cfg))"
  unfolding startService_def test_fields
  by (rule succeeds_then [OF manager_succeeds(4)], rule succeeds_then [OF manager_succeeds(1)], rule succeeds_then [OF succeeds_undoing],
    assumption, rule succeeds_then [OF succeeds_if [OF manager_succeeds(2) succeeds_return]], assumption, rule wait_succeeds [OF assms])

section \<open>The whole installation\<close>

text \<open>What a host has before it.\<close>

definition suits :: "test_machine \<Rightarrow> bool" where
  "suits m \<longleftrightarrow> able m \<and> (\<forall>q \<in> {Sudoers, Binary, Unit, Vhost}. dir_at m (path_dir q) \<noteq> None) \<and> dir_at m Binary = None \<and>
     file_at m ''/tmp/dokkup'' \<noteq> None \<and> file_at m DefaultDokku \<noteq> None"

text \<open>A run that gets to its last step, and what that comes to.\<close>

definition ends :: "(test_machine \<Rightarrow> bool) \<Rightarrow> install_error + 'a \<Rightarrow> (Fake_Host \<times> Fake_Manager, 'a) action \<Rightarrow> bool" where
  "ends P r a \<longleftrightarrow> (\<forall>us m. P m \<longrightarrow> (\<exists>us' m'. a (us, m) = Some (r, us', m') \<and> able m'))"

lemma ends_then:
  assumes "succeeds P Q a" "\<And>x. ends (Q x) r (f x)"
  shows "ends P r (thenI a f)"
  unfolding ends_def
proof (intro allI impI)
  fix us m
  assume "P m"
  with assms(1) obtain x us1 m1 where "a (us, m) = Some (Inr x, us1, m1)" "Q x m1" unfolding succeeds_def by blast
  moreover from this(2) assms(2) obtain us2 m2 where "f x (us1, m1) = Some (r, us2, m2)" "able m2" unfolding ends_def by blast
  ultimately show "\<exists>us' m'. thenI a f (us, m) = Some (r, us', m') \<and> able m'" by (simp add: thenI_def)
qed

definition seen :: "wait_error + unit \<Rightarrow> install_error + unit" where
  "seen r = (case r of Inl e \<Rightarrow> Inl (Unreachable e) | Inr _ \<Rightarrow> Inr ())"

lemma change_reaches:
  assumes "SameVersion v ''v1.0.0''" "suits m"
  shows "\<exists>us m'. change_host (test_installer (Inr v) p cfg) s ([], m) = Some (seen (p s), us, m') \<and> able m'"
proof -
  let ?i = "test_installer (Inr v) p cfg"
  let ?ok = "\<lambda>w. system_dirs ?i w \<and> w_files w = file_at m \<and> w_dirs w Binary = None"
  let ?dirs = "\<lambda>w. ?ok w \<and> w_dirs w TLSDir \<noteq> None"
  let ?S = "succeeds (\<lambda>m. able m \<and> ?dirs (fst m))"
  have sys: "system_dirs ?i (fst m)" using assms(2) by (simp add: suits_def system_dirs_def)
  have acc: "succeeds (\<lambda>x. able x \<and> fst x = fst m) (\<lambda>_ m. able m \<and> ?ok (fst m)) (ensureAccount ?i)"
    using ensureAccount_succeeds [of "fst m" "Inr v" p cfg] sys assms(2) unfolding succeeds_def suits_def by metis
  let ?rest = "thenI (installBinary ?i) (\<lambda>_. thenI (installCertificate ?i s) (\<lambda>_. thenI (installVhost ?i s) (\<lambda>_.
      thenI (installUnit ?i s) (\<lambda>_. thenI (reloadProxy ?i) (\<lambda>_. thenI (startService ?i) (\<lambda>_. confirmSite ?i s))))))"
  have files: "ends (\<lambda>m. able m \<and> ?dirs (fst m)) (seen (p s)) ?rest"
  proof -
    have "ends (\<lambda>m. placed ds m \<and> file_at m ''/tmp/dokkup'' \<noteq> None) (seen (p s)) ?rest"
      if "\<forall>q \<in> {Sudoers, Binary, Unit, Vhost}. ds (path_dir q) \<noteq> None" "ds Binary = None" "ds TLSDir \<noteq> None" for ds
      unfolding reloadProxy_def test_fields
      apply (rule ends_then [OF binary_succeeds], use that in simp, use that in simp)
      apply (rule ends_then [OF certificate_succeeds], use that in simp)
      apply (rule ends_then [OF vhost_succeeds], use that in simp)
      apply (rule ends_then [OF unit_succeeds], use that in simp)
      apply (rule ends_then [OF manager_succeeds(3)], rule ends_then [OF service_succeeds [OF assms(1)]])
      by (simp add: ends_def confirmSite_def seen_def placed_def split: sum.split)
    then have "able x \<and> ?dirs (fst x) \<Longrightarrow> \<exists>us' m'. ?rest (us, x) = Some (seen (p s), us', m') \<and> able m'" for us x
      using assms(2) unfolding ends_def placed_def system_dirs_def suits_def test_fields by metis
    then show ?thesis unfolding ends_def by blast
  qed
  have sudo: "?S (\<lambda>_ m. able m \<and> ?dirs (fst m)) (ensureSudoers ?i)"
    by (rule sudoers_succeeds) (simp add: system_dirs_def)
  have dirs: "succeeds (\<lambda>m. able m \<and> ?ok (fst m)) (\<lambda>_ m. able m \<and> ?dirs (fst m)) (ensureDataDir ?i a)" for a
    using data_dir_succeeds [of "Inr v" p cfg "file_at m" a] by (simp add: conj_assoc)
  have "ends (\<lambda>x. able x \<and> fst x = fst m) (seen (p s)) (change_host ?i s)"
    unfolding change_host_def
    by (rule ends_then [OF acc], rule ends_then [OF dirs], rule ends_then [OF sudo files])
  then show ?thesis using assms(2) unfolding ends_def suits_def by blast
qed

lemma dokku_found:
  assumes "suits m"
  shows "\<exists>us m'. requireDokku (test_installer r p cfg) ([], m) = Some (Inr (), us, m') \<and> suits m' \<and> fst m' = fst m"
proof -
  have group: "succeeds (\<lambda>x. able x \<and> fst x = fst m) (\<lambda>_ x. able x \<and> fst x = fst m) (call w (LookupGroup (beside fake_ops) DokkuGroup))" for w
    by (rule succeeds_call) (use host_able in metis)
  have user: "succeeds (\<lambda>x. able x \<and> fst x = fst m) (\<lambda>_ x. able x \<and> fst x = fst m) (call w (LookupUser (beside fake_ops) DefaultRunAs))" for w
    by (rule succeeds_call) (use host_able in metis)
  have there: "succeeds (\<lambda>x. able x \<and> fst x = fst m) (\<lambda>b x. b \<and> able x \<and> fst x = fst m) (asking (exists DefaultDokku))"
    by (rule succeeds_asking) (use assms in \<open>simp add: suits_def exists_def\<close>)
  have "succeeds (\<lambda>x. able x \<and> fst x = fst m) (\<lambda>_ x. able x \<and> fst x = fst m) (requireDokku (test_installer r p cfg))"
    unfolding requireDokku_def test_fields
    by (rule succeeds_then [OF group], rule succeeds_then [OF user], rule succeeds_then [OF there])
      (simp add: succeeds_def returnI_def)
  moreover have "able m \<and> fst m = fst m" using assms by (simp add: suits_def)
  ultimately obtain us m' where "requireDokku (test_installer r p cfg) ([], m) = Some (Inr (), us, m')" "able m'" "fst m' = fst m"
    unfolding succeeds_def by (metis old.unit.exhaust)
  then show ?thesis using assms by (metis suits_def)
qed

lemma install_reaches:
  assumes "suits m" "resolveSite (test_installer (Inr v) p cfg) m = Inr s" "SameVersion v ''v1.0.0''"
  shows "\<exists>fs m'. install (test_installer (Inr v) p cfg) m = Some
    (case p s of Inl e \<Rightarrow> (Inl (Unreachable e), fs, m') | Inr _ \<Rightarrow> (Inr (Installed s ()), [], m')) \<and> (p s = Inr () \<longrightarrow> able m') \<and>
    (\<forall>e. p s = Inl e \<longrightarrow> (\<exists>m1 us m2. change_host (test_installer (Inr v) p cfg) s ([], m1) = Some (Inl (Unreachable e), us, m2) \<and>
       able m2 \<and> unwind us m2 = (fs, m')))"
proof -
  let ?i = "test_installer (Inr v) p cfg"
  obtain us m1 where q: "requireDokku ?i ([], m) = Some (Inr (), us, m1)" "suits m1" "fst m1 = fst m"
    using dokku_found [OF assms(1)] by blast
  have "resolveSite ?i m1 = resolveSite ?i m" unfolding resolveSite_def resolveDomainSite_def q(3) by (rule refl)
  then have "resolveSite ?i m1 = Inr s" by (simp only: assms(2))
  then have run: "install ?i m = (case change_host ?i s ([], m2) of None \<Rightarrow> None
      | Some (Inl err, us, m) \<Rightarrow> (let (couldnot, m) = unwind us m in Some (Inl err, couldnot, m))
      | Some (Inr _, _, m) \<Rightarrow> (case finish ?i s m of None \<Rightarrow> None | Some (token, m) \<Rightarrow> Some (Inr (Installed s token), [], m)))"
    if "CheckProxy (beside fake_ops) m1 = (Inr x, m2)" for x m2 using q(1) that by (simp add: install_def)
  obtain x m2 where c: "CheckProxy (beside fake_ops) m1 = (Inr x, m2)" "able m2" "fst m2 = fst m1"
    using host_able(3) q(2) unfolding suits_def by blast
  from this q(2) have "suits m2" by (simp add: suits_def)
  then obtain us3 m3 where change: "change_host ?i s ([], m2) = Some (seen (p s), us3, m3)" "able m3"
    using change_reaches [where p = p and s = s, OF assms(3)] by blast
  have finish: "finish ?i s m3 = Some ((), m3)"
  proof -
    have "\<exists>r. awaitCertificate ?i m3 = Some (r, m3)"
      unfolding awaitCertificate_def by (subst await_until.simps) (simp split: option.split)
    then show ?thesis by (auto simp: finish_def simp del: split_paired_Ex)
  qed
  show ?thesis
  proof (cases "p s")
    case (Inl e)
    obtain fs m' where u: "unwind us3 m3 = (fs, m')" by (rule prod.exhaust)
    have c3: "change_host ?i s ([], m2) = Some (Inl (Unreachable e), us3, m3)" using change Inl by (simp add: seen_def)
    with u change(2) have "\<exists>m1 us m2. change_host ?i s ([], m1) = Some (Inl (Unreachable e), us, m2) \<and> able m2 \<and> unwind us m2 = (fs, m')"
      by blast
    with Inl c3 u run [OF c(1)] show ?thesis by (intro exI [of _ fs] exI [of _ m']) (simp add: split_paired_Ex [symmetric])
  next
    case (Inr y)
    with change finish run [OF c(1)] show ?thesis by (intro exI [of _ "[]"] exI [of _ m3]) (simp add: seen_def)
  qed
qed


end
