(* ===== verification/Install_Examples.thy ===== *)
theory Install_Examples
  imports Install_Done Install_Fakes
begin

text \<open>
  Runs of the installer over the fakes: the theorems on an installation at a host with Dokku on it, one
  run that succeeds and one that fails half way.
\<close>

definition plain_config :: installConfig where
  "plain_config = \<lparr>cf_domain = [], cf_cert = [], cf_key = [], cf_acmeEmail = [], cf_acmeDirectory = [], cf_ip = [],
     cf_selfSigned = False, cf_plainHTTP = True, cf_listen = []\<rparr>"

definition running_executable :: string where "running_executable = ''/tmp/dokkup''"

definition test_run :: "(site \<Rightarrow> wait_error + unit) \<Rightarrow> (Fake_Host \<times> Fake_Manager, unit) installer" where
  "test_run proxied = test_installer (Inr ''v1.0.0'') proxied plain_config"

text \<open>A host with Dokku and the system's directories on it, and an earlier installation's binary and account.\<close>

definition system_map :: "string \<rightharpoonup> nat" where
  "system_map = [''/etc/sudoers.d'' \<mapsto> 488, ''/usr/local/bin'' \<mapsto> 493, ''/etc/systemd/system'' \<mapsto> 493, ''/etc/nginx/conf.d'' \<mapsto> 493]"

definition dokku_world :: world where
  "dokku_world = \<lparr>w_files = [DefaultDokku \<mapsto> \<lparr>f_data = ''dokku'', f_mode = 493\<rparr>, running_executable \<mapsto> \<lparr>f_data = ''new'', f_mode = 493\<rparr>,
       Binary \<mapsto> \<lparr>f_data = ''old'', f_mode = 493\<rparr>], w_dirs = system_map\<rparr>"

definition dokku_host :: Fake_Host where
  "dokku_host = \<lparr>fh_Users = [(User, \<lparr>ac_Name = User, ac_Uid = 999, ac_Gid = 999\<rparr>), (DefaultRunAs, \<lparr>ac_Name = DefaultRunAs, ac_Uid = 1001, ac_Gid = 1001\<rparr>)],
     fh_Groups = [(Group, \<lparr>ac_Name = Group, ac_Uid = -1, ac_Gid = 999\<rparr>), (DokkuGroup, \<lparr>ac_Name = DokkuGroup, ac_Uid = -1, ac_Gid = 1001\<rparr>)],
     fh_Dirs = Map.empty, fh_Sudoers = [], fh_Memberships = [], fh_Calls = [], fh_Err = None, fh_FailAt = []\<rparr>"

definition dokku_machine :: "bool \<Rightarrow> (Fake_Host \<times> Fake_Manager) machine" where
  "dokku_machine running = (dokku_world, dokku_host, \<lparr>fm_Active = running, fm_Calls = [], fm_Err = None\<rparr>)"

text \<open>The names in play.\<close>

lemma names_distinct:
  "distinct [DefaultDokku, running_executable, Sudoers, Binary, PreviousBinary, TLSCert, TLSKey, Vhost, Unit,
     Binary @ ''.new'', VhostStaging, DataDir @ ''/vhost.candidate'', DataDir, TLSDir]"
  unfolding DefaultDokku_def running_executable_def Sudoers_def PreviousBinary_def PreviousSuffix_def Binary_def TLSCert_def TLSKey_def
    TLSDir_def DataDir_def Vhost_def Unit_def VhostStaging_def by simp

lemma account_names: "User = Group" "DokkuGroup = DefaultRunAs" "Group \<noteq> DefaultRunAs"
  by (simp_all add: User_def Group_def DokkuGroup_def DefaultRunAs_def)

lemma test_run_path [simp]: "path (test_run proxied) p = p"
  by (simp add: path_def Rooted_def test_run_def test_installer_def)

lemma system_paths [simp]: "path_dir Sudoers = ''/etc/sudoers.d''" "path_dir Binary = ''/usr/local/bin''" "path_dir Unit = ''/etc/systemd/system''"
    "path_dir Vhost = ''/etc/nginx/conf.d''"
  by (simp_all add: path_dir_def Sudoers_def Binary_def Unit_def Vhost_def)

lemma system_map_at: "system_map ''/etc/sudoers.d'' = Some 488" "system_map ''/usr/local/bin'' = Some 493"
    "system_map ''/etc/systemd/system'' = Some 493" "system_map ''/etc/nginx/conf.d'' = Some 493"
    "system_map DataDir = None" "system_map TLSDir = None"
  by (simp_all add: system_map_def DataDir_def TLSDir_def)

lemma under_split: "under p q \<Longrightarrow> \<exists>t. q = p @ t"
  by (auto simp: under_def HasPrefix_iff)

lemma world_off_DataDir: "w_files dokku_world (DataDir @ t) = None" "system_map (DataDir @ t) = None"
  by (simp_all add: dokku_world_def system_map_def DefaultDokku_def running_executable_def Binary_def DataDir_def)

lemma nothing_under: "p = DataDir \<or> p = TLSDir \<Longrightarrow> under p q \<Longrightarrow> w_files dokku_world q = None \<and> w_dirs dokku_world q = None"
proof -
  assume "p = DataDir \<or> p = TLSDir" "under p q"
  then obtain t where "q = DataDir @ t" by (auto simp: TLSDir_def dest!: under_split)
  then show "w_files dokku_world q = None \<and> w_dirs dokku_world q = None"
    using world_off_DataDir by (simp add: dokku_world_def)
qed

lemma dokku_starts: "starts (test_run proxied) (fh_users \<circ> fst) (fh_groups \<circ> fst) (dokku_machine running)"
proof -
  have "system_dirs (test_run proxied) dokku_world"
    by (simp add: system_dirs_def dokku_world_def system_map_at)
  moreover have "fresh_dir DataDir dokku_world" "fresh_dir TLSDir dokku_world"
    unfolding fresh_dir_def using nothing_under by blast+
  moreover have "User \<in> fh_users dokku_host" by (simp add: fh_users_def dokku_host_def)
  ultimately show ?thesis by (simp add: starts_def dokku_machine_def)
qed

section \<open>A run that succeeds\<close>

definition plain_at :: site where "plain_at = plain_site ''192.0.2.7''"

lemma test_site: "resolveSite (test_run proxied) m = Inr plain_at"
  by (simp add: test_run_def test_installer_def resolveSite_def resolveIPSite_def chooseIP_def plain_config_def plain_at_def)

lemma dokku_suits: "suits (dokku_machine running)"
proof -
  have "DefaultRunAs \<in> fh_users dokku_host" "DokkuGroup \<in> fh_groups dokku_host"
    by (simp_all add: fh_users_def fh_groups_def dokku_host_def)
  then have able: "able (dokku_machine running)" by (simp add: able_def dokku_machine_def) (simp add: dokku_host_def)
  have self: "file_at (dokku_machine running) ''/tmp/dokkup'' \<noteq> None"
    unfolding running_executable_def [symmetric] by (simp add: dokku_machine_def dokku_world_def)
  have "dir_at (dokku_machine running) Binary = None"
    by (simp add: dokku_machine_def dokku_world_def system_map_def Binary_def)
  with able self show ?thesis
    by (simp add: suits_def dokku_machine_def system_map_at) (simp add: dokku_world_def system_map_at)
qed

lemma version_same: "SameVersion ''v1.0.0'' ''v1.0.0''"
  by code_simp

lemma self_not_written: "in_self (test_run proxied) \<notin> written (test_run proxied)"
proof -
  have "in_self (test_run proxied) = running_executable" by (simp add: test_run_def running_executable_def)
  moreover have "running_executable \<notin> written (test_run proxied)"
    by (simp add: written_def scratch_def candidate_def)
      (simp add: running_executable_def path_dirs Sudoers_def PreviousBinary_def PreviousSuffix_def Binary_def TLSCert_def TLSKey_def
        TLSDir_def DataDir_def Vhost_def Unit_def VhostStaging_def sudoers_staging_def path_dir_def)
  ultimately show ?thesis by simp
qed

lemma test_run_installing: "installing (test_run proxied) (fh_users \<circ> fst) (fh_groups \<circ> fst)"
  unfolding test_run_def by (rule fakes.installing_axioms)


lemma test_run_completes:
  "\<exists>m'. install (test_run (\<lambda>s. Inr ())) (dokku_machine running) = Some (Inr (Installed plain_at ()), [], m') \<and> able m'"
  using install_reaches [where p = "\<lambda>s. Inr ()", OF dokku_suits test_site [unfolded test_run_def] version_same]
  unfolding test_run_def by auto


section \<open>A run that fails half way\<close>

definition failing_machine :: "(Fake_Host \<times> Fake_Manager) machine" where
  "failing_machine = (dokku_world, dokku_host\<lparr>fh_FailAt := ''ensure-dir /var/lib/dokkup/tls''\<rparr>,
     \<lparr>fm_Active = False, fm_Calls = [], fm_Err = None\<rparr>)"

lemma failing_starts: "starts (test_run proxied) (fh_users \<circ> fst) (fh_groups \<circ> fst) failing_machine"
  using dokku_starts [of proxied False] by (simp add: starts_def dokku_machine_def failing_machine_def fh_users_def fh_groups_def)

lemma failing_run:
  "(case install (test_run (\<lambda>s. Inr ())) failing_machine of Some (Inl e, fs, m') \<Rightarrow> fs = [] | _ \<Rightarrow> False)"
  by code_simp


end
