(* ===== verification/Removal.thy ===== *)
theory Removal
  imports Uninstall Install_Done Install_Examples
begin

text \<open>
  Removal and installation together: a removal that is run again, a removal after an installation, and
  runs of both over the fakes.
\<close>

section \<open>A removal that is run again\<close>

text \<open>The account programs say whether there was one to remove.\<close>

locale accounting = removing u users groups for u :: "'h uninstaller" and users groups :: "'h \<Rightarrow> string set" +
  assumes told_user: "RemoveUser (un_ops u) n m = (Inr took, m') \<Longrightarrow> (took \<longleftrightarrow> n \<in> users (snd m)) \<and>
      (\<not> took \<longrightarrow> same_host users groups m m')"
    and told_group: "RemoveGroup (un_ops u) n m = (Inr took, m') \<Longrightarrow> took \<longleftrightarrow> n \<in> groups (snd m)"

text \<open>What a removal can still report where there is nothing left: that an account program failed.\<close>

fun of_accounts :: "failure \<Rightarrow> bool" where
  "of_accounts UserStillBusy = True"
| "of_accounts (UserNotRemoved err) = True"
| "of_accounts (GroupNotRemoved err) = True"
| "of_accounts failure = False"

definition no_dirs :: "'h uninstaller \<Rightarrow> 'h machine \<Rightarrow> bool" where
  "no_dirs u m \<longleftrightarrow> (\<forall>p \<in> {Vhost, Unit, Sudoers, Binary, PreviousBinary}. dir_at m (un_path u p) = None)"

lemma removeFile_nothing: "gone (un_path u p) m \<Longrightarrow> removeFile u p (r, m) = (False, r, m)"
  by (simp add: removeFile_def on_files_def os_Remove_def gone_def)

lemma removeTree_nothing: "all_gone (un_path u p) m \<Longrightarrow> removeTree u p (r, m) = (r, m)"
  by (auto simp: removeTree_def all_gone_def exists_def under_def)

context accounting begin

lemma account_nothing:
  assumes "no_account users groups m" "removeAccount u (r, m) = (r', m')"
  shows "same_host users groups m m' \<and> rm_removed r' = rm_removed r \<and> (\<exists>fs. rm_failed r' = rm_failed r @ fs \<and> list_all of_accounts fs)"
proof -
  obtain x m1 where x: "RemoveUser (un_ops u) User m = (x, m1)" by (rule prod.exhaust)
  obtain y m2 where y: "RemoveGroup (un_ops u) Group m1 = (y, m2)" by (rule prod.exhaust)
  have x1: "same_host users groups m m1 \<and> (\<forall>took. x = Inr took \<longrightarrow> \<not> took)"
    using removed_user [OF x] told_user [of User m _ m1] x assms(1) by (cases x) (auto simp: same_host_def no_account_def)
  then have "same_host users groups m m2 \<and> (\<forall>took. y = Inr took \<longrightarrow> \<not> took)"
    using removed_group [OF y] told_group [of Group m1 _ m2] y assms(1) by (cases y) (auto simp: same_host_def no_account_def)
  with x1 x y assms(2) show ?thesis
    by (cases x; cases y) (auto simp: removeAccount_def removeGroup_def failf_def note_removed_def split: host_error.splits)
qed

lemma remove_nothing:
  assumes "nothing_left u users groups m" "no_dirs u m" "all_gone (un_path u DataDir) m" "remove_all u data (no_removal, m) = (r, m')"
  shows "same_host users groups m m' \<and> rm_removed r = [] \<and> list_all of_accounts (rm_failed r)"
proof -
  have g: "gone (un_path u p) m" "\<not> exists (un_path u p) m" if "p \<in> {Vhost, Unit, Sudoers, Binary, PreviousBinary}" for p
    using assms(1,2) that by (auto simp: nothing_left_def no_dirs_def exists_def gone_def)
  have "removeVhost u (no_removal, m) = (no_removal, m)" "stopService u (no_removal, m) = (no_removal, m)"
    using g(2) by (simp_all add: removeVhost_def stopService_def)
  moreover have "removeUnit u (no_removal, m) = (no_removal, m)" "snd (removeFile u Sudoers (no_removal, m)) = (no_removal, m)"
    "snd (removeFile u Binary (no_removal, m)) = (no_removal, m)" "snd (removeFile u PreviousBinary (no_removal, m)) = (no_removal, m)"
    using g(1) by (simp_all add: removeUnit_def removeFile_nothing)
  moreover have "removeTree u TLSDir (no_removal, m) = (no_removal, m)"
    using assms(1) by (simp add: removeTree_nothing nothing_left_def)
  ultimately have run: "removeDataDir u data (removeAccount u (no_removal, m)) = (r, m')"
    using assms(4) by (simp add: remove_all_def Let_def)
  obtain r1 m1 where a: "removeAccount u (no_removal, m) = (r1, m1)" by (rule prod.exhaust)
  have acc: "same_host users groups m m1 \<and> rm_removed r1 = [] \<and> list_all of_accounts (rm_failed r1)"
    using account_nothing [OF _ a] assms(1) by (auto simp: nothing_left_def no_removal_def)
  then have "\<not> exists (un_path u DataDir) m1"
    using assms(3) by (auto simp: exists_def all_gone_def same_host_def under_def)
  with run a have "r = r1 \<and> m' = m1" by (simp add: removeDataDir_def)
  with acc show ?thesis by simp
qed

lemma uninstall_twice:
  assumes first: "uninstall u m = (Inr (), r1, m1)" and purge: "un_purge u"
    and start: "fresh_dir (un_path u TLSDir) (fst m)" "fresh_dir (un_path u DataDir) (fst m)" "no_dirs u m"
    and again: "uninstall u m1 = (res, r2, m2)"
  shows "same_host users groups m1 m2 \<and> rm_removed r2 = [] \<and> list_all of_accounts (rm_failed r2)"
proof -
  have d: "decideAboutData u x = Inr (True, un_stdin u)" for x using purge by (simp add: decideAboutData_def)
  with uninstall_takes [OF first start(1,2)] have took: "only_removed users groups (targets u True) m m1"
    "nothing_left u users groups m1" "all_gone (un_path u DataDir) m1" by auto
  have dirs: "no_dirs u m1" using start(3) only_removed_none(2) [OF took(1)] by (simp add: no_dirs_def)
  obtain c m3 where c: "un_confirm u (un_stdin u) m1 = (c, m3)" by (rule prod.exhaust)
  have same: "same_host users groups m1 m3" by (rule asked_first [OF c])
  show ?thesis
  proof (cases c)
    case (Inl err)
    with again d c same show ?thesis by (auto simp: uninstall_def no_removal_def)
  next
    case (Inr x)
    with again d c have run: "remove_all u True (no_removal, m3) = (r2, m2)" by (auto simp: uninstall_def Let_def)
    have "nothing_left u users groups m3" "no_dirs u m3" "all_gone (un_path u DataDir) m3"
      using took(2,3) dirs same by (auto simp: nothing_left_def no_dirs_def all_gone_def gone_def no_account_def same_host_def)
    from remove_nothing [OF this run] same show ?thesis by (simp add: same_host_def)
  qed
qed

end

text \<open>
  A removal can be run again. After a removal with --purge that reported success a second one finds
  nothing: it changes no file, directory or account, says that it removed nothing, and the only
  failures it can still report are of the programs that remove accounts. In particular it stops no
  service and removes no file that came to be missing.
\<close>

theorem removal_is_rerunnable:
  assumes "accounting u users groups" "un_purge u" "fresh_dir (un_path u TLSDir) (fst m)" "fresh_dir (un_path u DataDir) (fst m)" "no_dirs u m"
    "uninstall u m = (Inr (), r1, m1)" "uninstall u m1 = (res, r2, m2)"
  shows "same_host users groups m1 m2 \<and> rm_removed r2 = [] \<and> list_all of_accounts (rm_failed r2)"
  by (rule accounting.uninstall_twice [OF assms(1,6,2,3,4,5,7)])

section \<open>A removal after an installation\<close>

text \<open>A host that dokkup has never been on.\<close>

definition untouched :: "('h, 't) installer \<Rightarrow> ('h \<Rightarrow> string set) \<Rightarrow> ('h \<Rightarrow> string set) \<Rightarrow> 'h machine \<Rightarrow> bool" where
  "untouched i users groups m \<longleftrightarrow>
     (\<forall>p \<in> {Vhost, Unit, Sudoers, Binary, PreviousBinary}. file_at m (path i p) = None \<and> dir_at m (path i p) = None) \<and>
     (\<forall>q. under (path i DataDir) q \<longrightarrow> file_at m q = None \<and> dir_at m q = None) \<and>
     User \<notin> users (snd m) \<and> Group \<notin> groups (snd m)"

text \<open>
  What the end of an installation does, the wait for a certificate and the setup token: the service
  and the store write under the data directory and nowhere else.
\<close>

definition within_data :: "('h, 't) installer \<Rightarrow> ('h \<Rightarrow> string set) \<Rightarrow> ('h \<Rightarrow> string set) \<Rightarrow> 'h machine \<Rightarrow> 'h machine \<Rightarrow> bool" where
  "within_data i users groups m m' \<longleftrightarrow> (\<forall>q. \<not> under (path i DataDir) q \<longrightarrow> file_at m' q = file_at m q \<and> dir_at m' q = dir_at m q) \<and>
     (\<forall>d \<in> {path i DataDir, path i TLSDir}. dir_at m d \<noteq> None \<longrightarrow> dir_at m' d \<noteq> None) \<and>
     users (snd m') = users (snd m) \<and> groups (snd m') = groups (snd m)"

locale finishing = installing i users groups for i :: "('h, 't) installer" and users groups :: "'h \<Rightarrow> string set" +
  assumes ticked: "in_tick i d m = (over, m') \<Longrightarrow> within_data i users groups m m'"
    and issued: "in_issueToken i m = (t, m') \<Longrightarrow> within_data i users groups m m'"
begin

lemma within_trans: "within_data i users groups m m1 \<Longrightarrow> within_data i users groups m1 m2 \<Longrightarrow> within_data i users groups m m2"
  by (auto simp: within_data_def)

lemma awaited:
  assumes "await_until i d m = Some r"
  shows "within_data i users groups m (snd r)"
proof (rule await_until.raw_induct [where P = "\<lambda>j d m r. j = i \<longrightarrow> within_data i users groups m (snd r)", rule_format, OF _ assms refl])
  fix aw j d m r
  assume IH: "\<And>k e x y. aw k e x = Some y \<Longrightarrow> k = i \<Longrightarrow> within_data i users groups x (snd y)"
    and body: "(case issuedCertificate j m of Some issuer \<Rightarrow> Some (Some issuer, m)
      | None \<Rightarrow> (let (over, m) = in_tick j d m in if over then Some (None, m) else aw j d m)) = Some r" and j: "j = i"
  have self: "within_data i users groups m m" by (simp add: within_data_def)
  obtain over m1 where t: "in_tick j d m = (over, m1)" by (rule prod.exhaust)
  show "within_data i users groups m (snd r)"
    using body j t self ticked [of d m over m1] IH [of j d m1 r] within_trans [of m m1]
    by (auto split: option.splits if_splits)
qed

lemma finished:
  assumes "finish i s m = Some (t, m')"
  shows "within_data i users groups m m'"
proof -
  have self: "within_data i users groups m m" by (simp add: within_data_def)
  obtain c m1 where c: "(if st_manageCert s then awaitCertificate i m else Some (None, m)) = Some (c, m1)" "in_issueToken i m1 = (t, m')"
    using assms by (auto simp: finish_def split: option.splits)
  then have "within_data i users groups m m1"
    using awaited [of _ m "(c, m1)"] self unfolding awaitCertificate_def by (auto split: if_splits)
  with issued [OF c(2)] show ?thesis using within_trans by blast
qed

lemma five_away: "p \<in> {Vhost, Unit, Sudoers, Binary, PreviousBinary} \<Longrightarrow> \<not> under (path i DataDir) (path i p) \<and> path i p \<noteq> path i TLSDir"
  by (auto simp: under_def HasPrefix_iff path_def Rooted_def)
    (simp_all add: Vhost_def Unit_def Sudoers_def Binary_def PreviousBinary_def TLSDir_def DataDir_def)

lemma installed_no_dirs:
  assumes "starts i users groups m" "untouched i users groups m" "in_self i \<notin> written i"
    and "install i m = Some (Inr (Installed s token), fs, m1)" and p: "p \<in> {Vhost, Unit, Sudoers, Binary, PreviousBinary}"
  shows "dir_at m1 (path i p) = None"
proof -
  obtain m0 where f: "finish i s m0 = Some (token, m1)" and ours: "only_ours i users groups m m0"
    using install_done [OF assms(4,1,3)] by blast
  have "dir_at m (path i p) = None" using assms(2) p by (auto simp: untouched_def)
  moreover have "dir_at m0 (path i p) = dir_at m (path i p)"
    using ours five_away [OF p] by (auto simp: only_ours_def under_def)
  moreover have "dir_at m1 (path i p) = dir_at m0 (path i p)" using finished [OF f] five_away [OF p] by (simp add: within_data_def)
  ultimately show ?thesis by simp
qed

lemma installed_then_removed:
  assumes start: "starts i users groups m" "untouched i users groups m" "in_self i \<notin> written i"
    and inst: "install i m = Some (Inr (Installed s token), fs, m1)"
    and un: "removing u users groups" "un_root u = in_root i" "un_purge u" "uninstall u m1 = (Inr (), r, m2)"
  shows "users (snd m2) = users (snd m) \<and> groups (snd m2) = groups (snd m) \<and> dir_at m2 = dir_at m \<and>
    (\<forall>q. q \<notin> scratch i \<longrightarrow> file_at m2 q = file_at m q)"
proof -
  have pu: "un_path u p = path i p" for p by (simp add: un_path_def path_def un(2))
  obtain m0 where f: "finish i s m0 = Some (token, m1)" and ours: "only_ours i users groups m m0"
    using install_done [OF inst start(1,3)] by blast
  note w = finished [OF f, unfolded within_data_def]
  have dirs0: "dir_at m0 = (dir_at m)(path i DataDir \<mapsto> dataDirMode, path i TLSDir \<mapsto> dataDirMode)"
    and acc0: "users (snd m0) = insert User (users (snd m))" "groups (snd m0) = insert Group (groups (snd m))"
    and files0: "\<And>q. q \<notin> written i \<Longrightarrow> file_at m0 q = file_at m q"
    using ours by (simp_all add: only_ours_def)
  have there: "dir_at m1 (path i DataDir) \<noteq> None" "dir_at m1 (path i TLSDir) \<noteq> None"
    using w dirs0 by auto
  have "fresh_dir (un_path u TLSDir) (fst m1)" "fresh_dir (un_path u DataDir) (fst m1)"
    using there by (auto simp: fresh_dir_def pu)
  with removing.uninstall_takes [OF un(1,4)] un(3) have
    took: "only_removed users groups (targets u True) m1 m2" "nothing_left u users groups m2" "all_gone (path i DataDir) m2"
    by (auto simp: decideAboutData_def pu)
  have tls: "under (path i TLSDir) q \<Longrightarrow> under (path i DataDir) q" for q
    by (auto simp: under_def HasPrefix_iff path_def Rooted_def TLSDir_def)
  have tgt: "q \<in> path i ` {Vhost, Unit, Sudoers, Binary, PreviousBinary} \<or> under (path i DataDir) q" if "q \<in> targets u True" for q
    using that tls by (auto simp: targets_def pu)
  have away: "under (path i DataDir) (path i TLSDir)" "under (path i DataDir) (path i DataDir)" "under (path i DataDir) (path i TLSCert)"
    "under (path i DataDir) (path i TLSKey)"
    by (simp_all add: under_def HasPrefix_iff path_def Rooted_def TLSDir_def TLSCert_def TLSKey_def)
  have accounts: "users (snd m2) = users (snd m)" "groups (snd m2) = groups (snd m)"
    using only_removedD(4-7) [OF took(1)] took(2) start(2) w acc0 by (auto simp: nothing_left_def no_account_def untouched_def)
  have data: "file_at m2 q = file_at m q \<and> dir_at m2 q = dir_at m q" if "under (path i DataDir) q" for q
    using that took(3) start(2) by (simp add: all_gone_def untouched_def)
  have five: "file_at m2 q = file_at m q \<and> dir_at m2 q = dir_at m q"
    if q: "q \<in> path i ` {Vhost, Unit, Sudoers, Binary, PreviousBinary}" "\<not> under (path i DataDir) q" for q
  proof -
    have "file_at m q = None" "dir_at m q = None" using start(2) q(1) by (auto simp: untouched_def)
    moreover have "file_at m2 q = None" using took(2) q(1) by (auto simp: nothing_left_def gone_def pu)
    moreover have "dir_at m1 q = None" using w q(2) dirs0 away \<open>dir_at m q = None\<close> by (metis fun_upd_apply)
    ultimately show ?thesis using only_removed_none(2) [OF took(1)] by simp
  qed
  have rest: "(q \<notin> scratch i \<longrightarrow> file_at m2 q = file_at m q) \<and> dir_at m2 q = dir_at m q"
    if q: "q \<notin> path i ` {Vhost, Unit, Sudoers, Binary, PreviousBinary}" "\<not> under (path i DataDir) q" for q
  proof -
    have "q \<notin> targets u True" using tgt q by blast
    then have "file_at m2 q = file_at m1 q" "dir_at m2 q = dir_at m1 q" using only_removedD(1,2) [OF took(1)] by blast+
    moreover have "file_at m1 q = file_at m0 q" "dir_at m1 q = dir_at m0 q" using w q(2) by blast+
    moreover have "dir_at m0 q = dir_at m q" using dirs0 q(2) away by auto
    moreover have "q \<notin> scratch i \<longrightarrow> q \<notin> written i" using q away by (auto simp: written_def)
    ultimately show ?thesis using files0 by simp
  qed
  show ?thesis using accounts data five rest by (intro conjI ext allI impI) metis+
qed

end


section \<open>Runs over the fakes\<close>

definition test_uninstaller :: "(Fake_Host \<times> Fake_Manager) uninstaller" where
  "test_uninstaller = \<lparr>un_ops = beside fake_ops, un_manager = fake_manager, un_confirm = (\<lambda>stdin m. (Inr (), m)),
     un_works = (\<lambda>c p. True), un_stdin = [], un_root = [], un_purge = True\<rparr>"

lemma test_uninstaller_fields [simp]:
  "un_ops test_uninstaller = beside fake_ops" "un_manager test_uninstaller = fake_manager" "un_confirm test_uninstaller s m = (Inr (), m)"
  "un_works test_uninstaller c p = True" "un_path test_uninstaller p = p" "un_purge test_uninstaller" "un_root test_uninstaller = []"
  by (simp_all add: test_uninstaller_def un_path_def Rooted_def)

lemma fake_told_user:
  assumes "RemoveUser (beside fake_ops) n m = (Inr took, m')"
  shows "(took \<longleftrightarrow> n \<in> fh_users (fst (snd m))) \<and> (\<not> took \<longrightarrow> same_host (fh_users \<circ> fst) (fh_groups \<circ> fst) m m')"
  using assms by (auto simp: beside_def on_host_def fake_ops_def fh_RemoveUser_def fh_method_def fh_record_def Let_def same_host_def
      fh_users_def fh_groups_def split: prod.splits sum.splits option.splits if_splits)

lemma fake_told_group: "RemoveGroup (beside fake_ops) n m = (Inr took, m') \<Longrightarrow> took \<longleftrightarrow> n \<in> fh_groups (fst (snd m))"
  by (auto simp: beside_def on_host_def fake_ops_def fh_RemoveGroup_def fh_method_def fh_record_def Let_def
      fh_groups_def split: prod.splits sum.splits option.splits if_splits)

interpretation test_removal: accounting test_uninstaller "fh_users \<circ> fst" "fh_groups \<circ> fst"
proof (intro accounting.intro removing.intro)
  show "host_ops (un_ops test_uninstaller) (fh_users \<circ> fst) (fh_groups \<circ> fst)"
    using beside_ops [OF fh.host_ops_axioms] by simp
  show "removing_axioms test_uninstaller (fh_users \<circ> fst) (fh_groups \<circ> fst)"
    by unfold_locales (auto simp: fake_manager_def same_host_def dest: on_manager_same [of _ _ _ _ fh_users fh_groups])
  show "accounting_axioms test_uninstaller (fh_users \<circ> fst) (fh_groups \<circ> fst)"
    by unfold_locales (auto dest: fake_told_user fake_told_group)
qed

interpretation test_finish: finishing "test_installer answer proxied cfg" "fh_users \<circ> fst" "fh_groups \<circ> fst" for answer proxied cfg
proof (rule finishing.intro [OF fakes.installing_axioms])
  show "finishing_axioms (test_installer answer proxied cfg) (fh_users \<circ> fst) (fh_groups \<circ> fst)"
    by unfold_locales (auto simp: within_data_def)
qed

text \<open>Where nothing fails, a removal reports success.\<close>

definition quiet :: "(Fake_Host \<times> Fake_Manager) removing \<Rightarrow> bool" where
  "quiet s \<longleftrightarrow> rm_failed (fst s) = [] \<and> no_dirs test_uninstaller (snd s) \<and> fh_FailAt (fst (snd (snd s))) = [] \<and>
     fh_Err (fst (snd (snd s))) = None \<and> fm_Err (snd (snd (snd s))) = None"

lemmas quiet_eval = quiet_def no_dirs_def on_files_def os_Remove_def failf_def note_removed_def warnf_def Let_def

lemma quiet_steps:
  assumes "quiet s"
  shows "quiet (snd (removeFile test_uninstaller p s))" "quiet (removeTree test_uninstaller p s)" "quiet (stopService test_uninstaller s)"
    "quiet (removeAccount test_uninstaller s)"
proof -
  obtain r w f g where s: "s = (r, w, f, g)" by (metis surj_pair)
  show "quiet (snd (removeFile test_uninstaller p s))" using assms by (auto simp: s removeFile_def quiet_eval)
  show "quiet (removeTree test_uninstaller p s)" using assms by (auto simp: s removeTree_def quiet_eval RemoveAll_def)
  show "quiet (stopService test_uninstaller s)" using assms by (auto simp: s stopService_def quiet_eval fakes_eval)
  show "quiet (removeAccount test_uninstaller s)"
    using assms by (auto simp: s removeAccount_def removeGroup_def quiet_eval fakes_eval fh_RemoveUser_def fh_RemoveGroup_def on_fake_def split: option.splits)
qed

lemma quiet_vhost: "quiet s \<Longrightarrow> quiet (removeVhost test_uninstaller s)"
  by (cases s) (auto simp: removeVhost_def quiet_eval fakes_eval exists_def)

lemma quiet_unit: "quiet s \<Longrightarrow> quiet (removeUnit test_uninstaller s)"
  by (cases s) (auto simp: removeUnit_def removeFile_def quiet_eval fakes_eval)

lemma test_removal_done:
  assumes "fh_FailAt (fst (snd m)) = []" "fh_Err (fst (snd m)) = None" "fm_Err (snd (snd m)) = None" "no_dirs test_uninstaller m"
  shows "\<exists>r m'. uninstall test_uninstaller m = (Inr (), r, m') \<and> quiet (r, m')"
proof -
  have "quiet (no_removal, m)" using assms by (simp add: quiet_def no_removal_def)
  then have "quiet (remove_all test_uninstaller True (no_removal, m))"
    by (simp add: remove_all_def Let_def removeDataDir_True quiet_steps quiet_vhost quiet_unit)
  then show ?thesis
    by (cases "remove_all test_uninstaller True (no_removal, m)")
      (simp add: uninstall_def decideAboutData_def quiet_def Let_def)
qed

section \<open>The theorems at runs\<close>

lemma test_dirs: "no_dirs test_uninstaller (dokku_machine running)"
  by (simp add: no_dirs_def dokku_machine_def dokku_world_def)
    (simp add: system_map_def Vhost_def Unit_def Sudoers_def Binary_def PreviousBinary_def PreviousSuffix_def)

lemma test_fresh: "fresh_dir TLSDir dokku_world" "fresh_dir DataDir dokku_world"
  using dokku_starts [of _ False] by (simp_all add: starts_def dokku_machine_def)

lemma test_removal: "\<exists>r m'. uninstall test_uninstaller (dokku_machine running) = (Inr (), r, m') \<and> quiet (r, m')"
  by (rule test_removal_done) (simp_all add: dokku_machine_def dokku_host_def test_dirs [unfolded dokku_machine_def dokku_host_def])

lemma removal_takes_only_ours_witness:
  "\<exists>r m'. uninstall test_uninstaller (dokku_machine True) = (Inr (), r, m') \<and>
     only_removed (fh_users \<circ> fst) (fh_groups \<circ> fst) (targets test_uninstaller True) (dokku_machine True) m' \<and>
     nothing_left test_uninstaller (fh_users \<circ> fst) (fh_groups \<circ> fst) m'"
proof -
  obtain r m' where run: "uninstall test_uninstaller (dokku_machine True) = (Inr (), r, m')" using test_removal by blast
  have "fresh_dir (un_path test_uninstaller TLSDir) (fst (dokku_machine True))" "fresh_dir (un_path test_uninstaller DataDir) (fst (dokku_machine True))"
    using test_fresh by (simp_all add: dokku_machine_def)
  from removal_takes_only_ours [OF test_removal.removing_axioms this run] run show ?thesis
    by (auto simp: decideAboutData_def)
qed

lemma removal_is_rerunnable_witness:
  "\<exists>r1 m1 res r2 m2. uninstall test_uninstaller (dokku_machine True) = (Inr (), r1, m1) \<and> uninstall test_uninstaller m1 = (res, r2, m2) \<and>
     same_host (fh_users \<circ> fst) (fh_groups \<circ> fst) m1 m2 \<and> rm_removed r2 = []"
proof -
  obtain r1 m1 where run: "uninstall test_uninstaller (dokku_machine True) = (Inr (), r1, m1)" using test_removal by blast
  obtain res r2 m2 where again: "uninstall test_uninstaller m1 = (res, r2, m2)" by (metis surj_pair)
  have "fresh_dir (un_path test_uninstaller TLSDir) (fst (dokku_machine True))" "fresh_dir (un_path test_uninstaller DataDir) (fst (dokku_machine True))"
    using test_fresh by (simp_all add: dokku_machine_def)
  from removal_is_rerunnable [OF test_removal.accounting_axioms _ this test_dirs run again] run again show ?thesis
    by (intro exI [of _ r1] exI [of _ m1] exI [of _ res] exI [of _ r2] exI [of _ m2]) simp
qed

text \<open>An operator at root's own terminal, who keeps the data and types the host's name.\<close>

definition no_session :: "'h sudo_env" where
  "no_session = \<lparr>se_Getenv = (\<lambda>v. []), se_LookupId = (\<lambda>i. None), se_LookPath = (\<lambda>p. None), se_tty = True,
     se_run = (\<lambda>c m. (Some NotRun, m))\<rparr>"

definition answered_uninstaller :: "(Fake_Host \<times> Fake_Manager) uninstaller" where
  "answered_uninstaller = test_uninstaller\<lparr>un_purge := False, un_stdin := ''no'' @ [CHR 0x0A] @ ''dokku'' @ [CHR 0x0A],
     un_confirm := (\<lambda>stdin. Confirm (confirmer no_session (Some ''dokku.example.com'') stdin))\<rparr>"

definition used_machine :: "(Fake_Host \<times> Fake_Manager) machine" where
  "used_machine = put_dir DataDir dataDirMode (dokku_machine True)"

lemma removal_was_meant_witness:
  "typed_name (confirmer (no_session :: (Fake_Host \<times> Fake_Manager) sudo_env) (Some ''dokku.example.com'') (after_question answered_uninstaller used_machine))"
proof -
  obtain res r m' where run: "uninstall answered_uninstaller used_machine = (res, r, m')" by (metis surj_pair)
  have c: "un_confirm answered_uninstaller = (\<lambda>stdin. Confirm (confirmer no_session (Some ''dokku.example.com'') stdin))"
    by (simp add: answered_uninstaller_def)
  have none: "SudoPassword (no_session :: (Fake_Host \<times> Fake_Manager) sudo_env) = None"
    by (simp add: SudoPassword_def no_session_def ParseUint_def)
  have "decideAboutData answered_uninstaller used_machine = Inr (False, ''dokku'' @ [CHR 0x0A])"
    by (simp add: decideAboutData_def answered_uninstaller_def test_uninstaller_def used_machine_def exists_def un_path_def Rooted_def
      yesOrNo_def Let_def go_simps)
  moreover have "Confirm (confirmer no_session (Some ''dokku.example.com'') (''dokku'' @ [CHR 0x0A])) used_machine = (Inr (), used_machine)"
    by (simp add: Confirm_def confirmer_def none) (simp add: confirmHostname_def go_simps firstLabel_def Let_def)
  ultimately have "r \<noteq> no_removal \<or> res = Inr ()"
    using run c by (auto simp: uninstall_def Let_def no_removal_def split: if_splits)
  from removal_was_meant [OF c run this] show ?thesis by (auto simp: sudo_asked_def no_session_def ParseUint_def)
qed

text \<open>A host with Dokku on it and dokkup never.\<close>

definition new_machine :: "(Fake_Host \<times> Fake_Manager) machine" where
  "new_machine = (dokku_world\<lparr>w_files := (w_files dokku_world)(Binary := None)\<rparr>,
     dokku_host\<lparr>fh_Users := [(DefaultRunAs, \<lparr>ac_Name = DefaultRunAs, ac_Uid = 1001, ac_Gid = 1001\<rparr>)],
       fh_Groups := [(DokkuGroup, \<lparr>ac_Name = DokkuGroup, ac_Uid = -1, ac_Gid = 1001\<rparr>)]\<rparr>,
     \<lparr>fm_Active = False, fm_Calls = [], fm_Err = None\<rparr>)"

lemma new_users: "fh_users (fst (snd new_machine)) = {DefaultRunAs}" "fh_groups (fst (snd new_machine)) = {DokkuGroup}"
  by (auto simp: new_machine_def fh_users_def fh_groups_def)

lemma new_suits: "suits new_machine"
proof -
  have "able new_machine" using new_users by (simp add: able_def) (simp add: new_machine_def dokku_host_def)
  moreover have "file_at new_machine q = file_at (dokku_machine False) q" if "q \<noteq> Binary" for q using that by (simp add: new_machine_def dokku_machine_def)
  moreover have "''/tmp/dokkup'' \<noteq> Binary" "DefaultDokku \<noteq> Binary" by (simp_all add: Binary_def DefaultDokku_def)
  moreover have "dir_at new_machine = dir_at (dokku_machine False)" by (simp add: new_machine_def dokku_machine_def)
  ultimately show ?thesis using dokku_suits [of False] by (simp add: suits_def)
qed

lemma new_starts: "starts (test_run proxied) (fh_users \<circ> fst) (fh_groups \<circ> fst) new_machine"
proof -
  have "fresh_dir p (fst new_machine)" if "fresh_dir p dokku_world" for p
    using that by (auto simp: fresh_dir_def new_machine_def)
  moreover have "Group \<noteq> DokkuGroup" using account_names by simp
  ultimately show ?thesis
    using dokku_starts [of proxied False] new_users by (simp add: starts_def dokku_machine_def) (simp add: new_machine_def system_dirs_def)
qed

lemma new_untouched: "untouched (test_run proxied) (fh_users \<circ> fst) (fh_groups \<circ> fst) new_machine"
proof -
  have "no_dirs test_uninstaller new_machine" using test_dirs [of False] by (simp add: no_dirs_def new_machine_def dokku_machine_def)
  moreover have "w_files (fst new_machine) p = None" if "p \<in> {Vhost, Unit, Sudoers, Binary, PreviousBinary}" for p
    using that names_distinct by (auto simp: new_machine_def dokku_world_def)
  moreover have "file_at new_machine q = None \<and> dir_at new_machine q = None" if "under DataDir q" for q
    using nothing_under [of DataDir q] that by (simp add: new_machine_def)
  moreover have "User \<noteq> DefaultRunAs" "Group \<noteq> DokkuGroup" using account_names by simp_all
  ultimately show ?thesis using new_users by (simp add: untouched_def no_dirs_def)
qed


end
