(* ===== verification/Install_Service.thy ===== *)
theory Install_Service
  imports Install_Done Install_Examples
begin

text \<open>
  What an installation that fails late does to the service: it is stopped and disabled, also where
  it was already running when the installation began.
\<close>

section \<open>Undo steps that do not start the service\<close>

definition stopping :: string where
  "stopping = ''stopping and disabling '' @ Name"

text \<open>The two failures that come after the service has been enabled.\<close>

fun late :: "install_error \<Rightarrow> bool" where
  "late (Unhealthy e) = True"
| "late (Unreachable e) = True"
| "late e = False"

locale serving = installing i users groups
  for i :: "('h, 't) installer" and users groups :: "'h \<Rightarrow> string set" +
  fixes active :: "'h \<Rightarrow> bool"
  assumes disabled: "mg_Disable (in_manager i) m = (Inr x, m') \<Longrightarrow> \<not> active (snd m')"
    and user_calm: "RemoveUser (in_ops i) n m = (ru, m') \<Longrightarrow> \<not> active (snd m) \<Longrightarrow> \<not> active (snd m')"
    and group_calm: "RemoveGroup (in_ops i) n m = (rg, m') \<Longrightarrow> \<not> active (snd m) \<Longrightarrow> \<not> active (snd m')"
    and proxy_calm: "CheckProxy (in_ops i) m = (rp, m') \<Longrightarrow> \<not> active (snd m) \<Longrightarrow> \<not> active (snd m')"
    and reload_calm: "mg_DaemonReload (in_manager i) m = (rd, m') \<Longrightarrow> \<not> active (snd m) \<Longrightarrow> \<not> active (snd m')"
begin

definition calm :: "('h machine \<Rightarrow> 'r \<times> 'h machine) \<Rightarrow> bool" where
  "calm f \<longleftrightarrow> (\<forall>m. \<not> active (snd m) \<longrightarrow> \<not> active (snd (snd (f m))))"

definition calm_steps :: "'h undoStep list \<Rightarrow> bool" where
  "calm_steps us \<longleftrightarrow> (\<forall>u \<in> set us. calm (ud_run u) \<and> ud_what u \<noteq> stopping)"

text \<open>A step that registers such undo steps only, and fails in no late way.\<close>

definition early :: "('h, 'a) action \<Rightarrow> bool" where
  "early a \<longleftrightarrow> (\<forall>us m r us' m'. a (us, m) = Some (r, us', m') \<longrightarrow>
     (\<exists>new. us' = us @ new \<and> calm_steps new) \<and> (\<forall>e. r = Inl e \<longrightarrow> \<not> late e))"

lemma earlyE:
  assumes "early a" "a (us, m) = Some (r, us', m')"
  obtains new where "us' = us @ new" "calm_steps new" "\<And>e. r = Inl e \<Longrightarrow> \<not> late e"
  using assms unfolding early_def by metis

lemma calm_append: "calm_steps a \<Longrightarrow> calm_steps b \<Longrightarrow> calm_steps (a @ b)"
  by (auto simp: calm_steps_def)

lemma early_then:
  assumes "early a" "\<And>x. early (f x)"
  shows "early (thenI a f)"
  unfolding early_def
proof (intro allI impI)
  fix us m r us' m'
  assume run: "thenI a f (us, m) = Some (r, us', m')"
  obtain r1 us1 m1 where a: "a (us, m) = Some (r1, us1, m1)" using run by (cases "a (us, m)") (auto simp: thenI_def)
  obtain new where new: "us1 = us @ new" "calm_steps new" "\<And>e. r1 = Inl e \<Longrightarrow> \<not> late e" using earlyE [OF assms(1) a] by metis
  show "(\<exists>new. us' = us @ new \<and> calm_steps new) \<and> (\<forall>e. r = Inl e \<longrightarrow> \<not> late e)"
  proof (cases r1)
    case (Inl err)
    with run a new show ?thesis by (auto simp: thenI_def)
  next
    case (Inr x)
    with run a have f: "f x (us1, m1) = Some (r, us', m')" by (simp add: thenI_def)
    obtain new2 where "us' = us1 @ new2" "calm_steps new2" "\<And>e. r = Inl e \<Longrightarrow> \<not> late e" using earlyE [OF assms(2) f] by metis
    with new calm_append show ?thesis by (intro conjI exI [of _ "new @ new2"]) auto
  qed
qed

lemma calm_nothing: "calm_steps []"
  by (simp add: calm_steps_def)

lemma early_call: "(\<And>x. \<not> late (w x)) \<Longrightarrow> early (call w f)"
  by (auto simp: early_def call_def calm_nothing split: prod.splits sum.splits)

lemma early_asking: "early (asking f)"
  by (simp add: early_def asking_def calm_nothing)

lemma early_attempt: "early (attempt f)"
  by (auto simp: early_def attempt_def calm_nothing split: prod.splits)

lemma early_return: "early (returnI x)"
  by (simp add: early_def returnI_def calm_nothing)

lemma early_fail: "\<not> late e \<Longrightarrow> early (failI e)"
  by (simp add: early_def failI_def calm_nothing)

lemma early_undoing: "calm f \<Longrightarrow> what \<noteq> stopping \<Longrightarrow> early (undoing what f)"
  by (simp add: early_def undoing_def calm_steps_def)

lemma early_discarding: "(\<And>x. \<not> late (w x)) \<Longrightarrow> early (discarding i' p w f)"
  by (auto simp: early_def discarding_def calm_nothing split: prod.splits sum.splits)

lemma early_deferring: "early a \<Longrightarrow> early (deferring d a)"
  unfolding early_def deferring_def by (auto split: option.splits)

lemma early_if: "early a \<Longrightarrow> early b \<Longrightarrow> early (if c then a else b)"
  by simp

lemmas early_steps = early_then early_call early_asking early_attempt early_return early_fail early_undoing early_discarding early_deferring early_if

text \<open>What is registered touches files, or asks programs that do not start the service.\<close>

lemma calm_files: "calm (on_files f)"
  by (simp add: calm_def on_files_def split_beta)

lemma calm_wrapped: "calm f \<Longrightarrow> calm (wrapped w f)"
  by (simp add: calm_def wrapped_def split_beta split: sum.split)

lemma calm_remove_missing: "calm (remove_missing_ok i' p)"
  by (simp add: calm_def remove_missing_ok_def on_files_def split_beta split: sum.split os_error.split)

lemma calmI: "(\<And>m. \<not> active (snd m) \<Longrightarrow> \<not> active (snd (snd (f m)))) \<Longrightarrow> calm f"
  by (simp add: calm_def)

lemma calmD: "calm f \<Longrightarrow> \<not> active (snd m) \<Longrightarrow> \<not> active (snd (snd (f m)))"
  unfolding calm_def by blast

lemma calm_then:
  assumes "calm f" "calm g"
  shows "calm (\<lambda>m. case f m of (Inl e, m) \<Rightarrow> (Inl (w e), m) | (Inr x, m) \<Rightarrow> g m)"
proof (rule calmI)
  fix m :: "'h machine"
  assume "\<not> active (snd m)"
  with calmD [OF assms(1)] have "\<not> active (snd (snd (f m)))" .
  with calmD [OF assms(2)] show "\<not> active (snd (snd (case f m of (Inl e, m) \<Rightarrow> (Inl (w e), m) | (Inr x, m) \<Rightarrow> g m)))"
    by (cases "f m"; cases "fst (f m)") simp_all
qed

lemma calm_restorer: "calm (restorer i' p previous mode)"
proof (cases previous)
  case None
  have "restorer i' p None mode = remove_missing_ok i' p" by (rule ext) (simp add: restorer_def)
  with None show ?thesis by (simp add: calm_remove_missing)
next
  case (Some content)
  show ?thesis unfolding Some restorer_def option.case by (rule calm_then [OF calm_files calm_wrapped [OF calm_files]])
qed

lemma calm_tree: "calm (RemoveAll w p)"
  by (simp add: calm_def RemoveAll_def)

lemma calm_programs: "calm (RemoveUser (in_ops i) n)" "calm (RemoveGroup (in_ops i) n)" "calm (CheckProxy (in_ops i))" "calm (mg_DaemonReload (in_manager i))"
  unfolding calm_def using user_calm group_calm proxy_calm reload_calm prod.collapse by metis+

lemma calm_vhost: "calm (vhostRestorer i p previous)"
  unfolding vhostRestorer_def by (rule calm_then [OF calm_restorer calm_wrapped [OF calm_programs(3)]])

lemma calm_unit: "calm restore \<Longrightarrow> calm (unit_restorer i restore)"
  unfolding unit_restorer_def by (rule calm_then [OF _ calm_wrapped [OF calm_programs(4)]])

lemma labels: "''removing '' @ s \<noteq> stopping" "''putting back '' @ s \<noteq> stopping" "''taking '' @ s \<noteq> stopping"
    "''removing the group '' @ s \<noteq> stopping" "''removing the user '' @ s \<noteq> stopping" "''putting back the previous '' @ s \<noteq> stopping"
  by (simp_all add: stopping_def)


section \<open>The steps\<close>

lemma early_mkdir: "early (mkdir_for i p)"
  unfolding mkdir_for_def Let_def by (intro early_steps) simp

lemma early_had_group: "early (had_group r)"
  by (cases r) (auto simp: had_group_def early_return early_fail split: host_error.split)

lemma early_group: "early (ensureGroup i)"
  unfolding ensureGroup_def remove_group_def
  by (intro early_steps early_had_group calm_wrapped calm_programs labels) simp_all

lemma early_user: "early (ensureUser i)"
  unfolding ensureUser_def remove_user_def
proof (rule early_then [OF early_attempt])
  fix x :: "bool \<times> host_error option"
  show "early (case x of (created, err) \<Rightarrow> case err of Some err \<Rightarrow> failI (HostFailed err)
     | None \<Rightarrow> if created then undoing (''removing the user '' @ User) (wrapped HostFailed (RemoveUser (in_ops i) User)) else returnI ())"
  proof (cases x)
    case (Pair created err)
    show ?thesis
      unfolding Pair prod.case
      by (cases err; simp only: option.case; intro early_steps calm_wrapped calm_programs labels) simp
  qed
qed

lemma early_account: "early (ensureAccount i)"
  unfolding ensureAccount_def by (intro early_steps early_group early_user) simp_all

lemma early_data_dir: "early (ensureDataDir i owner)"
  unfolding ensureDataDir_def ensure_dir_def Let_def
  by (intro early_steps calm_wrapped calm_tree labels) simp_all

lemma early_sudoers: "early (ensureSudoers i)"
  unfolding ensureSudoers_def Let_def read_previous_def
  by (intro early_steps early_mkdir calm_restorer labels) simp_all

lemma early_binary: "early (installBinary i)"
  unfolding installBinary_def keep_previous_def Let_def
  by (intro early_steps early_mkdir calm_wrapped calm_files labels) simp_all

lemma early_owned: "early (writeOwnedFile i p d mode)"
  unfolding writeOwnedFile_def read_previous_def write_file_def
  by (intro early_steps early_mkdir) simp_all

lemma owned_calm: "writeOwnedFile i p d mode (us, m) = Some (Inr restore, us', m') \<Longrightarrow> calm restore"
  unfolding writeOwnedFile_def by (auto elim!: thenI_Inr simp: returnI_Inr calm_restorer)

text \<open>A step after which what is registered depends on what it gave.\<close>

lemma early_then_given:
  assumes "early a" "\<And>us m x us' m'. a (us, m) = Some (Inr x, us', m') \<Longrightarrow> early (f x)"
  shows "early (thenI a f)"
proof -
  define g where "g x = (if \<exists>us m us' m'. a (us, m) = Some (Inr x, us', m') then f x else failI NoAnswer)" for x
  have "thenI a f = thenI a g"
  proof (rule ext)
    fix z
    show "thenI a f z = thenI a g z" by (cases z) (auto simp: thenI_def g_def split: option.split sum.split)
  qed
  moreover have "early (g x)" for x using assms(2) by (auto simp: g_def intro: early_fail)
  ultimately show ?thesis using early_then [OF assms(1)] by metis
qed

lemma early_replace: "early (replaceFile i p d mode)"
  unfolding replaceFile_def
  by (rule early_then_given [OF early_owned early_undoing]) (erule owned_calm, rule labels)

lemma early_certificate: "early (installCertificate i s)"
  unfolding installCertificate_def by (cases "st_certPEM s") (auto intro!: early_return early_then early_replace)

lemma early_vhost: "early (installVhost i s)"
  unfolding installVhost_def putVhost_def Let_def read_previous_def write_file_def
  by (intro early_steps early_mkdir calm_vhost labels) simp_all

lemma early_unit: "early (installUnit i s)"
  unfolding installUnit_def
  by (rule early_then_given [OF early_owned], intro early_steps calm_unit labels) (erule owned_calm, simp)

lemma early_reload: "early (reloadProxy i)"
  unfolding reloadProxy_def by (rule early_call) simp

section \<open>Failing late\<close>

lemma thenI_late:
  assumes "thenI a f (us, m) = Some (Inl e, us', m')" "early a" "late e"
  obtains x new us1 m1 where "a (us, m) = Some (Inr x, us1, m1)" "us1 = us @ new" "calm_steps new" "f x (us1, m1) = Some (Inl e, us', m')"
proof -
  obtain r1 us1 m1 where a: "a (us, m) = Some (r1, us1, m1)" using assms(1) by (cases "a (us, m)") (auto simp: thenI_def)
  obtain new where new: "us1 = us @ new" "calm_steps new" "\<And>e. r1 = Inl e \<Longrightarrow> \<not> late e" using earlyE [OF assms(2) a] by metis
  obtain x where "r1 = Inr x" using assms(1,3) a new(3) by (cases r1) (auto simp: thenI_def)
  with that [of x us1 m1 new] a new assms(1) show thesis by (simp add: thenI_def)
qed

lemma thenI_assoc: "thenI (thenI a f) k = thenI a (\<lambda>x. thenI (f x) k)"
  by (rule ext) (simp add: thenI_def split: option.split sum.split prod.split)

lemma call_late:
  assumes "thenI (call w f) k (us, m) = Some (Inl e, us', m')" "\<And>x. \<not> late (w x)" "late e"
  obtains x m1 where "k x (us, m1) = Some (Inl e, us', m')"
  using assms by (auto simp: thenI_def call_def split: prod.splits sum.splits)

lemma waited_late:
  assumes "thenI (wait_service i) (\<lambda>_. confirmSite i s) (us, m) = Some (r, us', m')"
  shows "us' = us"
  using assms by (auto simp: thenI_def wait_service_def confirmSite_def split: option.splits sum.splits)

lemma started_late:
  assumes "thenI (startService i) (\<lambda>_. confirmSite i s) (us, m) = Some (Inl e, us', m')" "late e"
  shows "us' = us @ [\<lparr>ud_what = stopping, ud_run = wrapped ManagerFailed (mg_Disable (in_manager i))\<rparr>]"
proof -
  note run = assms(1) [unfolded startService_def thenI_assoc]
  obtain running m1 where 1: "thenI (call ManagerFailed (mg_Enable (in_manager i))) (\<lambda>_.
      thenI (undoing (''stopping and disabling '' @ Name) (wrapped ManagerFailed (mg_Disable (in_manager i)))) (\<lambda>_.
      thenI (if running then call ManagerFailed (mg_Restart (in_manager i)) else returnI ()) (\<lambda>_.
      thenI (wait_service i) (\<lambda>_. confirmSite i s)))) (us, m1) = Some (Inl e, us', m')"
    using run by (rule call_late [OF _ _ assms(2)]) simp
  obtain m2 where 2: "thenI (undoing (''stopping and disabling '' @ Name) (wrapped ManagerFailed (mg_Disable (in_manager i)))) (\<lambda>_.
      thenI (if running then call ManagerFailed (mg_Restart (in_manager i)) else returnI ()) (\<lambda>_.
      thenI (wait_service i) (\<lambda>_. confirmSite i s))) (us, m2) = Some (Inl e, us', m')"
    using 1 by (rule call_late [OF _ _ assms(2)]) simp
  define us2 where "us2 = us @ [\<lparr>ud_what = stopping, ud_run = wrapped ManagerFailed (mg_Disable (in_manager i))\<rparr>]"
  have 3: "thenI (if running then call ManagerFailed (mg_Restart (in_manager i)) else returnI ()) (\<lambda>_.
      thenI (wait_service i) (\<lambda>_. confirmSite i s)) (us2, m2) = Some (Inl e, us', m')"
    using 2 by (simp add: thenI_def undoing_def us2_def stopping_def)
  obtain m3 where "thenI (wait_service i) (\<lambda>_. confirmSite i s) (us2, m3) = Some (Inl e, us', m')"
  proof (cases running)
    case True
    with 3 have "thenI (call ManagerFailed (mg_Restart (in_manager i))) (\<lambda>_. thenI (wait_service i) (\<lambda>_. confirmSite i s)) (us2, m2) = Some (Inl e, us', m')"
      by simp
    then show thesis by (rule call_late [OF _ _ assms(2)]) (simp, rule that)
  next
    case False
    with 3 that show thesis by (simp add: thenI_def returnI_def)
  qed
  then show ?thesis unfolding us2_def [symmetric] by (rule waited_late)
qed

lemma change_late:
  assumes "change_host i s ([], m) = Some (Inl e, us, m')" "late e"
  shows "\<exists>new. calm_steps new \<and> us = new @ [\<lparr>ud_what = stopping, ud_run = wrapped ManagerFailed (mg_Disable (in_manager i))\<rparr>]"
proof -
  note L = thenI_late [OF _ _ assms(2)]
  obtain us1 new1 m1 a where 1: "us1 = [] @ new1" "calm_steps new1" and r1: "thenI (ensureDataDir i a) (\<lambda>_. thenI (ensureSudoers i) (\<lambda>_. thenI (installBinary i) (\<lambda>_.
     thenI (installCertificate i s) (\<lambda>_. thenI (installVhost i s) (\<lambda>_. thenI (installUnit i s) (\<lambda>_. thenI (reloadProxy i) (\<lambda>_.
     thenI (startService i) (\<lambda>_. confirmSite i s)))))))) (us1, m1) = Some (Inl e, us, m')"
    using assms(1) [unfolded change_host_def] by (rule L [OF _ early_account])
  obtain us2 new2 m2 where 2: "us2 = us1 @ new2" "calm_steps new2" and r2: "thenI (ensureSudoers i) (\<lambda>_. thenI (installBinary i) (\<lambda>_.
     thenI (installCertificate i s) (\<lambda>_. thenI (installVhost i s) (\<lambda>_. thenI (installUnit i s) (\<lambda>_. thenI (reloadProxy i) (\<lambda>_.
     thenI (startService i) (\<lambda>_. confirmSite i s))))))) (us2, m2) = Some (Inl e, us, m')"
    using r1 by (rule L [OF _ early_data_dir])
  obtain us3 new3 m3 where 3: "us3 = us2 @ new3" "calm_steps new3" and r3: "thenI (installBinary i) (\<lambda>_.
     thenI (installCertificate i s) (\<lambda>_. thenI (installVhost i s) (\<lambda>_. thenI (installUnit i s) (\<lambda>_. thenI (reloadProxy i) (\<lambda>_.
     thenI (startService i) (\<lambda>_. confirmSite i s)))))) (us3, m3) = Some (Inl e, us, m')"
    using r2 by (rule L [OF _ early_sudoers])
  obtain us4 new4 m4 where 4: "us4 = us3 @ new4" "calm_steps new4" and r4:
     "thenI (installCertificate i s) (\<lambda>_. thenI (installVhost i s) (\<lambda>_. thenI (installUnit i s) (\<lambda>_. thenI (reloadProxy i) (\<lambda>_.
     thenI (startService i) (\<lambda>_. confirmSite i s))))) (us4, m4) = Some (Inl e, us, m')"
    using r3 by (rule L [OF _ early_binary])
  obtain us5 new5 m5 where 5: "us5 = us4 @ new5" "calm_steps new5" and r5: "thenI (installVhost i s) (\<lambda>_. thenI (installUnit i s) (\<lambda>_.
     thenI (reloadProxy i) (\<lambda>_. thenI (startService i) (\<lambda>_. confirmSite i s)))) (us5, m5) = Some (Inl e, us, m')"
    using r4 by (rule L [OF _ early_certificate])
  obtain us6 new6 m6 where 6: "us6 = us5 @ new6" "calm_steps new6" and r6: "thenI (installUnit i s) (\<lambda>_. thenI (reloadProxy i) (\<lambda>_.
     thenI (startService i) (\<lambda>_. confirmSite i s))) (us6, m6) = Some (Inl e, us, m')"
    using r5 by (rule L [OF _ early_vhost])
  obtain us7 new7 m7 where 7: "us7 = us6 @ new7" "calm_steps new7" and r7: "thenI (reloadProxy i) (\<lambda>_.
     thenI (startService i) (\<lambda>_. confirmSite i s)) (us7, m7) = Some (Inl e, us, m')"
    using r6 by (rule L [OF _ early_unit])
  obtain us8 new8 m8 where 8: "us8 = us7 @ new8" "calm_steps new8" and r8: "thenI (startService i) (\<lambda>_. confirmSite i s) (us8, m8) = Some (Inl e, us, m')"
    using r7 by (rule L [OF _ early_reload])
  have "calm_steps us8" using 1 2 3 4 5 6 7 8 by (simp add: calm_append)
  with started_late [OF r8 assms(2)] show ?thesis by blast
qed

lemma undone_calmly:
  "calm_steps us \<Longrightarrow> \<not> active (snd m) \<Longrightarrow> \<not> active (snd (snd (undo_all us m))) \<and> stopping \<notin> set (fst (undo_all us m))"
proof (induction us arbitrary: m)
  case (Cons u us)
  have "\<not> active (snd (snd (ud_run u m)))" by (rule calmD) (use Cons.prems in \<open>simp_all add: calm_steps_def\<close>)
  moreover have "calm_steps us" "ud_what u \<noteq> stopping" using Cons.prems(1) by (auto simp: calm_steps_def)
  ultimately show ?case using Cons.IH by (auto simp: split_beta split: sum.split)
qed simp

lemma install_stops:
  assumes "install i m = Some (Inl e, fs, m')" "late e"
  shows "\<not> active (snd m') \<or> stopping \<in> set fs"
proof -
  have requires: "\<not> late err" if "requireDokku i (us, x) = Some (Inl err, y)" for us x err y
  proof -
    have "early (requireDokku i)" unfolding requireDokku_def
      by (intro early_steps) (simp_all split: host_error.split)
    with that show ?thesis by (cases y) (auto elim: earlyE)
  qed
  have resolves: "\<not> late err" if "resolveSite i x = Inl err" for x err
    using that unfolding resolveSite_def resolveDomainSite_def resolveManagedDomainSite_def resolveIPSite_def chooseIP_def
      checkDomainResolves_def mustConfirm_def confirm_def Let_def
    by (auto split: if_splits sum.splits option.splits answer.splits dns.splits prod.splits)
  obtain s us m1 m2 where c: "change_host i s ([], m1) = Some (Inl e, us, m2)" and u: "unwind us m2 = (fs, m')"
    using assms requires resolves
    by (auto simp: install_def Let_def split: option.splits sum.splits prod.splits)
  obtain new where new: "calm_steps new" "us = new @ [\<lparr>ud_what = stopping, ud_run = wrapped ManagerFailed (mg_Disable (in_manager i))\<rparr>]"
    using change_late [OF c assms(2)] by blast
  obtain r m3 where d: "mg_Disable (in_manager i) m2 = (r, m3)" by (rule prod.exhaust)
  show ?thesis
  proof (cases r)
    case (Inl err)
    with u new d show ?thesis by (auto simp: unwind_def wrapped_def split_beta)
  next
    case (Inr x)
    have "calm_steps (rev new)" using new(1) by (simp add: calm_steps_def)
    moreover have "\<not> active (snd m3)" using disabled d Inr by blast
    ultimately show ?thesis using undone_calmly [of "rev new" m3] u new d Inr by (auto simp: unwind_def wrapped_def split_beta)
  qed
qed

end


section \<open>Over the fakes\<close>

interpretation test_service: serving "test_installer answer proxied cfg" "fh_users \<circ> fst" "fh_groups \<circ> fst" "fm_Active \<circ> snd"
  for answer proxied cfg
proof (rule serving.intro [OF fakes.installing_axioms])
  show "serving_axioms (test_installer answer proxied cfg) (fm_Active \<circ> snd)"
    by unfold_locales (auto simp: fake_manager_def on_manager_def fm_defs beside_def on_host_def Let_def split: prod.splits sum.splits option.splits)
qed

text \<open>A stop that succeeds is not reported.\<close>

lemma stops_quietly:
  assumes "serving i users groups active" "change_host i s ([], m1) = Some (Inl e, us, m2)" "late e"
    "mg_Disable (in_manager i) m2 = (Inr x, m3)"
  shows "stopping \<notin> set (fst (unwind us m2))"
proof -
  obtain new where new: "serving.calm_steps active new"
    "us = new @ [\<lparr>ud_what = stopping, ud_run = wrapped ManagerFailed (mg_Disable (in_manager i))\<rparr>]"
    using serving.change_late [OF assms(1-3)] by blast
  have "serving.calm_steps active (rev new)" using new(1) by (simp add: serving.calm_steps_def [OF assms(1)])
  moreover have "\<not> active (snd m3)" using serving.disabled [OF assms(1,4)] .
  ultimately show ?thesis
    using serving.undone_calmly [OF assms(1), of "rev new" m3] new(2) assms(4) by (auto simp: unwind_def wrapped_def split_beta)
qed

text \<open>
  At a host where the service is running and healthy, and where the proxy does not answer: the
  installation fails, and the service is stopped.
\<close>

definition unreached :: wait_error where
  "unreached = NotHealthy ''v1.0.0'' (ProbeFailed ''connection refused'')"


end
