(* ===== verification/Download_Watch.thy ===== *)
theory Download_Watch
  imports Release
begin

text \<open>
  internal/release/fetch.go, watchProgress: the watchdog of a transfer, as a state machine. The reader tells
  of what arrives through a channel that holds one message; the watchdog takes it and starts its timer
  again, or sees the timer fire and cancels. Both are goroutines, which run within some delay of
  being able to. The state also keeps when bytes arrived and when the message that is waiting was sent.
\<close>

definition stallTimeout :: nanos where "stallTimeout = 60000000000"

definition stall :: "nanos \<Rightarrow> nanos" where
  "stall configured = (if configured > 0 then configured else stallTimeout)"

record watch =
  wt_now :: nanos
  wt_deadline :: nanos
  wt_pending :: bool
  wt_sent :: nanos
  wt_arrived :: "nanos list"
  wt_quiet :: bool
  wt_over :: bool

definition watching_from :: "nanos \<Rightarrow> nanos \<Rightarrow> watch" where
  "watching_from start limit = \<lparr>wt_now = start, wt_deadline = start + limit, wt_pending = False, wt_sent = start,
     wt_arrived = [], wt_quiet = False, wt_over = False\<rparr>"

text \<open>
  What can happen while it is not over: time passes, but not past what a goroutine is late by; some
  bytes arrive, and the message is dropped where one is waiting; the watchdog takes the message; the
  timer fires; the transfer ends by itself.
\<close>

inductive watch_step :: "nanos \<Rightarrow> nanos \<Rightarrow> watch \<Rightarrow> watch \<Rightarrow> bool" for limit delay where
  passes: "watch_step limit delay w (w\<lparr>wt_now := t\<rparr>)"
    if "\<not> wt_over w" "wt_now w \<le> t" "t \<le> wt_deadline w + delay" "wt_pending w \<longrightarrow> t \<le> wt_sent w + delay"
| arrives: "watch_step limit delay w (w\<lparr>wt_pending := True, wt_sent := (if wt_pending w then wt_sent w else wt_now w),
      wt_arrived := wt_now w # wt_arrived w\<rparr>)"
    if "\<not> wt_over w"
| takes: "watch_step limit delay w (w\<lparr>wt_pending := False, wt_deadline := wt_now w + limit\<rparr>)"
    if "\<not> wt_over w" "wt_pending w"
| fires: "watch_step limit delay w (w\<lparr>wt_quiet := True, wt_over := True\<rparr>)"
    if "\<not> wt_over w" "wt_deadline w \<le> wt_now w"
| ends: "watch_step limit delay w (w\<lparr>wt_over := True\<rparr>)"
    if "\<not> wt_over w"

inductive_cases watch_stepE: "watch_step limit delay w w'"

text \<open>
  The timer was last started when a message was taken, or at the start; what has arrived since is behind
  the message that waits.
\<close>

definition watch_ok :: "nanos \<Rightarrow> nanos \<Rightarrow> nanos \<Rightarrow> watch \<Rightarrow> bool" where
  "watch_ok start limit delay w \<longleftrightarrow> (\<exists>taken. wt_deadline w = taken + limit \<and> start \<le> taken \<and> taken \<le> wt_now w \<and>
     (\<forall>a \<in> set (wt_arrived w). a \<le> wt_now w \<and> (a \<le> taken \<or> wt_pending w \<and> wt_sent w \<le> a)) \<and>
     (\<exists>a \<in> insert start (set (wt_arrived w)). taken \<le> a + delay)) \<and>
   (wt_pending w \<longrightarrow> wt_sent w \<in> set (wt_arrived w) \<and> wt_now w \<le> wt_sent w + delay) \<and>
   (\<not> wt_over w \<longrightarrow> wt_now w \<le> wt_deadline w + delay) \<and> (wt_quiet w \<longrightarrow> wt_over w \<and> wt_deadline w \<le> wt_now w)"

lemma watch_ok_start: "0 \<le> limit \<Longrightarrow> 0 \<le> delay \<Longrightarrow> watch_ok start limit delay (watching_from start limit)"
  by (auto simp: watch_ok_def watching_from_def)

lemma watch_ok_step:
  assumes "watch_step limit delay w w'" "watch_ok start limit delay w" "0 \<le> limit" "0 \<le> delay"
  shows "watch_ok start limit delay w'"
proof -
  obtain taken where t: "wt_deadline w = taken + limit" "start \<le> taken" "taken \<le> wt_now w"
    "\<forall>a \<in> set (wt_arrived w). a \<le> wt_now w \<and> (a \<le> taken \<or> wt_pending w \<and> wt_sent w \<le> a)"
    "\<exists>a \<in> insert start (set (wt_arrived w)). taken \<le> a + delay"
    and rest: "wt_pending w \<longrightarrow> wt_sent w \<in> set (wt_arrived w) \<and> wt_now w \<le> wt_sent w + delay"
    "\<not> wt_over w \<longrightarrow> wt_now w \<le> wt_deadline w + delay" "wt_quiet w \<longrightarrow> wt_over w \<and> wt_deadline w \<le> wt_now w"
    using assms(2) unfolding watch_ok_def by blast
  from assms(1) show ?thesis
  proof cases
    case (passes t')
    with t rest show ?thesis unfolding watch_ok_def by (intro conjI exI [of _ taken]) auto
  next
    case arrives
    with t rest assms(4) show ?thesis unfolding watch_ok_def by (intro conjI exI [of _ taken]) auto
  next
    case takes
    with t rest assms(3,4) show ?thesis unfolding watch_ok_def by (intro conjI exI [of _ "wt_now w"]) auto
  next
    case fires
    with t rest show ?thesis unfolding watch_ok_def by (intro conjI exI [of _ taken]) auto
  next
    case ends
    with t rest show ?thesis unfolding watch_ok_def by (intro conjI exI [of _ taken]) auto
  qed
qed

lemma watch_reached:
  assumes "(watch_step limit delay)\<^sup>*\<^sup>* (watching_from start limit) w" "0 \<le> limit" "0 \<le> delay"
  shows "watch_ok start limit delay w"
  using assms(1) by (induction rule: rtranclp_induct) (auto intro: watch_ok_start watch_ok_step assms(2,3))

lemma watch_facts:
  assumes "watch_ok start limit delay w"
  shows "wt_quiet w \<longrightarrow> (\<forall>a \<in> insert start (set (wt_arrived w)). a + limit \<le> wt_now w \<or> wt_now w \<le> a + delay)"
    "\<not> wt_over w \<longrightarrow> (\<exists>a \<in> insert start (set (wt_arrived w)). wt_now w \<le> a + limit + 2 * delay)"
  using assms unfolding watch_ok_def by fastforce+

text \<open>
  C15: Silence is refused, and slowness is not. However the goroutines are scheduled, each within a delay of
  being able to run: a transfer that the watchdog cancels has had nothing arrive, nor begun, in the
  time from the limit before up to that delay before, so one that goes on arriving often enough is
  left alone, however long it takes altogether; and while a transfer is not over, something has
  arrived, or it has begun, no longer ago than the limit and twice the delay, so none waits on a silent server for ever.
\<close>

theorem only_silence_is_cut:
  assumes "(watch_step limit delay)\<^sup>*\<^sup>* (watching_from start limit) w" "0 \<le> limit" "0 \<le> delay"
  shows "(wt_quiet w \<longrightarrow> (\<forall>a \<in> insert start (set (wt_arrived w)). a + limit \<le> wt_now w \<or> wt_now w \<le> a + delay)) \<and>
    (\<not> wt_over w \<longrightarrow> (\<exists>a \<in> insert start (set (wt_arrived w)). wt_now w \<le> a + limit + 2 * delay))"
  using watch_facts [OF watch_reached [OF assms]] by blast

text \<open>A transfer of which one part arrives, and which is then cut.\<close>

definition part_arrived :: watch where
  "part_arrived = (watching_from 0 stallTimeout)\<lparr>wt_pending := True, wt_sent := 0, wt_arrived := [0]\<rparr>"

definition cut_off :: watch where
  "cut_off = part_arrived\<lparr>wt_pending := False, wt_now := stallTimeout, wt_quiet := True, wt_over := True\<rparr>"

lemma cut_off_reached: "(watch_step stallTimeout 1000)\<^sup>*\<^sup>* (watching_from 0 stallTimeout) cut_off"
proof -
  let ?R = "watch_step stallTimeout 1000"
  have 1: "?R (watching_from 0 stallTimeout) part_arrived"
    using arrives [of "watching_from 0 stallTimeout" stallTimeout 1000] by (simp add: watching_from_def part_arrived_def)
  have 2: "?R part_arrived (part_arrived\<lparr>wt_pending := False\<rparr>)"
    using takes [of part_arrived stallTimeout 1000] by (simp add: watching_from_def part_arrived_def)
  have 3: "?R (part_arrived\<lparr>wt_pending := False\<rparr>) (part_arrived\<lparr>wt_pending := False, wt_now := stallTimeout\<rparr>)"
    using passes [where w = "part_arrived\<lparr>wt_pending := False\<rparr>" and t = stallTimeout and limit = stallTimeout and delay = 1000]
    by (simp add: watching_from_def part_arrived_def stallTimeout_def)
  have 4: "?R (part_arrived\<lparr>wt_pending := False, wt_now := stallTimeout\<rparr>) cut_off"
    using fires [of "part_arrived\<lparr>wt_pending := False, wt_now := stallTimeout\<rparr>" stallTimeout 1000]
    by (simp add: watching_from_def part_arrived_def stallTimeout_def cut_off_def)
  show ?thesis
    by (rule rtranclp.rtrancl_into_rtrancl [OF rtranclp.rtrancl_into_rtrancl [OF rtranclp.rtrancl_into_rtrancl [OF r_into_rtranclp [of ?R, OF 1] 2] 3] 4])
qed

lemma only_silence_is_cut_witness:
  "wt_quiet cut_off \<and> 0 \<in> set (wt_arrived cut_off) \<and> (0 + stallTimeout \<le> wt_now cut_off \<or> wt_now cut_off \<le> 0 + 1000)"
  using only_silence_is_cut [OF cut_off_reached] by (simp add: cut_off_def part_arrived_def stallTimeout_def)

end
