(* ===== verification/Acme.thy ===== *)
theory Acme
  imports Install
begin

text \<open>
  internal/acme: getting and renewing the certificate of a domain. The manager's state is the files and
  the tokens it answers a challenge with; what it asks of the certificate authority, and what it
  answers meanwhile, is recorded, and so is every state of the files after a call on them. The
  authority (golang.org/x/crypto/acme), keys and certificates are arguments.
\<close>

section \<open>The package's constants\<close>

definition AccountKeyFile :: string where "AccountKeyFile = ''account.key''"
definition CertFile :: string where "CertFile = ''cert.pem''"
definition KeyFile :: string where "KeyFile = ''key.pem''"
definition acme_keyMode :: nat where "acme_keyMode = 384"
definition certMode :: nat where "certMode = 420"
definition renewBefore :: nanos where "renewBefore = 30 * 24 * 3600000000000"
definition checkInterval :: nanos where "checkInterval = 12 * 3600000000000"
definition retryInterval :: nanos where "retryInterval = 15 * 60000000000"

section \<open>PEM\<close>

text \<open>pem.Encode without headers: padded base64 in lines of 64.\<close>

fun pem_lines :: "string \<Rightarrow> string list" where
  "pem_lines s = (if s = [] then [] else take 64 s # pem_lines (drop 64 s))"

declare pem_lines.simps [simp del]

definition padding :: "string \<Rightarrow> string" where
  "padding bs = replicate ((3 - length bs mod 3) mod 3) (CHR ''='')"

definition pem_encode :: "string \<Rightarrow> string \<Rightarrow> string" where
  "pem_encode label der = unlines ([''-----BEGIN '' @ label @ ''-----''] @
     pem_lines (EncodeToString std_alphabet der @ padding der) @ [''-----END '' @ label @ ''-----''])"

definition chainPEM :: "string list \<Rightarrow> string option" where
  "chainPEM chain = (if chain = [] then None else Some (concat (map (pem_encode ''CERTIFICATE'') chain)))"

definition privateKeyPEM :: "string \<Rightarrow> string" where
  "privateKeyPEM der = pem_encode ''EC PRIVATE KEY'' der"

section \<open>The authority, and the rest of what the manager rests on\<close>

record acme_order =
  or_URI :: string
  or_AuthzURLs :: "string list"
  or_FinalizeURL :: string
  or_CertURL :: string

record acme_authz =
  az_valid :: bool
  az_Challenges :: "(string \<times> string) list"    \<comment> \<open>type and token\<close>

datatype registration = Registered | AccountAlreadyExists | NotRegistering

text \<open>
  A client of x/crypto/acme with the account's key (in DER). What the authority answers to Accept and
  WaitAuthorization may depend on what this host presents meanwhile. An order is waited for
  before it is finalized and possibly after.
\<close>

record authority =
  au_Register :: "string \<Rightarrow> string list \<Rightarrow> registration"
  au_AuthorizeOrder :: "string \<Rightarrow> acme_order option"
  au_GetAuthorization :: "string \<Rightarrow> acme_authz option"
  au_HTTP01ChallengeResponse :: "string \<Rightarrow> string \<Rightarrow> string option"
  au_Accept :: "string \<Rightarrow> (string \<rightharpoonup> string) \<Rightarrow> bool"
  au_WaitAuthorization :: "string \<Rightarrow> (string \<rightharpoonup> string) \<Rightarrow> bool"
  au_WaitOrder :: "bool \<Rightarrow> string \<Rightarrow> acme_order option"
  au_CreateOrderCert :: "string \<Rightarrow> string \<Rightarrow> string list option"
  au_FetchCert :: "string \<Rightarrow> string list option"

text \<open>
  What crypto/x509 answers of a certificate: CheckSignatureFrom itself, VerifyHostname, and when it
  runs out.
\<close>

record leaf =
  lf_self_signed :: bool
  lf_covers :: "string \<Rightarrow> bool"
  lf_NotAfter :: nanos

text \<open>
  encoding/pem, crypto/x509 and crypto/ecdsa: the first block of a text, a certificate, whether a
  key can be parsed, and the keys and the request that are made.
\<close>

record pki =
  pk_Decode :: "string \<Rightarrow> string option"
  pk_ParseCertificate :: "string \<Rightarrow> leaf option"
  pk_ParseECPrivateKey :: "string \<Rightarrow> bool"
  pk_account :: "string option"
  pk_key :: "string option"
  pk_request :: "string \<Rightarrow> string \<Rightarrow> string option"    \<comment> \<open>CreateCertificateRequest of a name with a key\<close>

text \<open>
  Calls on files: a write fails before it has touched the file, or after it has left something of
  the content in it.
\<close>

datatype write_fault = Works | Untouched | Left string

record acme_env =
  ae_authority :: authority
  ae_pki :: pki
  ae_read :: "string \<Rightarrow> bool"
  ae_write :: "string \<Rightarrow> write_fault"
  ae_rename :: "string \<Rightarrow> bool"
  ae_remove :: "string \<Rightarrow> bool"
  ae_reload :: "fs \<Rightarrow> bool"
  ae_now :: nanos

record acme_manager =
  am_Domain :: string
  am_Email :: string
  am_DirectoryURL :: string    \<comment> \<open>which authority; empty means Let's Encrypt\<close>
  am_Dir :: string
  am_Reload :: bool    \<comment> \<open>whether there is one\<close>

datatype acme_call =
    AskRegister
  | AskOrder
  | AskAuthorization string
  | AskAccept string
  | AskWaitAuthorization string
  | AskWaitOrder string
  | AskCertificate string
  | AskFetch string

record acme_state =
  as_files :: fs
  as_tokens :: "string \<rightharpoonup> string"
  as_asked :: "(acme_call \<times> (string \<rightharpoonup> string)) list"    \<comment> \<open>with what was answered to a challenge at that moment\<close>
  as_past :: "fs list"

datatype acme_error =
    NoDomain
  | AccountKeyNotPEM | AccountKeyUnreadable | AccountKeyUnsaved
  | NoKey | NoRequest
  | NotRegistered | NoOrder | NoAuthorization | NoHTTP01 | NoAnswer | NotAccepted | NotReached
  | NotAuthorised | NotCollected | EmptyChain
  | KeyUnwritten | CertificateUnwritten

type_synonym 'a acme = "acme_state \<Rightarrow> (acme_error + 'a) \<times> acme_state"

definition okA :: "'a \<Rightarrow> 'a acme" where "okA x st = (Inr x, st)"
definition failA :: "acme_error \<Rightarrow> 'a acme" where "failA err st = (Inl err, st)"

definition thenA :: "'a acme \<Rightarrow> ('a \<Rightarrow> 'b acme) \<Rightarrow> 'b acme" where
  "thenA f g st = (case f st of (Inl err, st) \<Rightarrow> (Inl err, st) | (Inr x, st) \<Rightarrow> g x st)"

text \<open>One question to the authority, and what fails when it gives no answer.\<close>

definition askA :: "acme_call \<Rightarrow> ((string \<rightharpoonup> string) \<Rightarrow> 'a option) \<Rightarrow> acme_error \<Rightarrow> 'a acme" where
  "askA c answer err st =
     (let st' = st\<lparr>as_asked := as_asked st @ [(c, as_tokens st)]\<rparr>
      in case answer (as_tokens st) of None \<Rightarrow> (Inl err, st') | Some x \<Rightarrow> (Inr x, st'))"

definition now_files :: "fs \<Rightarrow> acme_state \<Rightarrow> acme_state" where
  "now_files files st = st\<lparr>as_files := files, as_past := as_past st @ [files]\<rparr>"

section \<open>Files\<close>

text \<open>filepath.Join with a clean directory, as the one of the service is.\<close>

definition am_path :: "acme_manager \<Rightarrow> string \<Rightarrow> string" where
  "am_path m name = am_Dir m @ ''/'' @ name"

definition os_WriteFile :: "write_fault \<Rightarrow> string \<Rightarrow> string \<Rightarrow> nat \<Rightarrow> fs \<Rightarrow> bool \<times> fs" where
  "os_WriteFile w p data mode files =
     (let mode = (case files p of None \<Rightarrow> mode | Some f \<Rightarrow> f_mode f) in
      case w of Works \<Rightarrow> (True, files(p \<mapsto> \<lparr>f_data = data, f_mode = mode\<rparr>))
      | Untouched \<Rightarrow> (False, files)
      | Left part \<Rightarrow> (False, files(p \<mapsto> \<lparr>f_data = part, f_mode = mode\<rparr>)))"

definition acme_staging :: "string \<Rightarrow> string" where
  "acme_staging p = path_dir p @ ''/'' @ ''.'' @ path_base p @ ''.tmp''"

definition writeFile :: "acme_env \<Rightarrow> string \<Rightarrow> string \<Rightarrow> nat \<Rightarrow> acme_state \<Rightarrow> bool \<times> acme_state" where
  "writeFile e p content mode st =
     (let staging = acme_staging p in
      case os_WriteFile (ae_write e staging) staging content mode (as_files st) of
        (False, files) \<Rightarrow> (False, now_files files st)
      | (True, files) \<Rightarrow>
        let st = now_files files st in
        (case os_Rename (ae_rename e p) staging p files of
           (Inr _, files) \<Rightarrow> (True, now_files files st)
         | (Inl _, files) \<Rightarrow> (False, now_files (snd (os_Remove (ae_remove e staging) staging files)) st)))"

definition leafOf :: "pki \<Rightarrow> string \<Rightarrow> leaf option" where
  "leafOf k pem = (case pk_Decode k pem of None \<Rightarrow> None | Some der \<Rightarrow> pk_ParseCertificate k der)"

definition needsCertificate :: "acme_env \<Rightarrow> acme_manager \<Rightarrow> acme_state \<Rightarrow> bool" where
  "needsCertificate e m st =
     (case os_Read (ae_read e (am_path m CertFile)) (am_path m CertFile) (as_files st) of
        Inl _ \<Rightarrow> True
      | Inr pem \<Rightarrow>
        (case leafOf (ae_pki e) pem of
           None \<Rightarrow> True
         | Some l \<Rightarrow> lf_self_signed l \<or> \<not> lf_covers l (am_Domain m) \<or> lf_NotAfter l - ae_now e < renewBefore))"

definition acme_Expiry :: "acme_env \<Rightarrow> acme_manager \<Rightarrow> acme_state \<Rightarrow> nanos option" where
  "acme_Expiry e m st =
     (case os_Read (ae_read e (am_path m CertFile)) (am_path m CertFile) (as_files st) of
        Inl _ \<Rightarrow> None
      | Inr pem \<Rightarrow> map_option lf_NotAfter (leafOf (ae_pki e) pem))"

section \<open>The challenge\<close>

definition present :: "string \<Rightarrow> string \<Rightarrow> acme_state \<Rightarrow> acme_state" where
  "present token response st = st\<lparr>as_tokens := (as_tokens st)(token \<mapsto> response)\<rparr>"

definition forget :: "string \<Rightarrow> acme_state \<Rightarrow> acme_state" where
  "forget token st = st\<lparr>as_tokens := (as_tokens st)(token := None)\<rparr>"

text \<open>Handler: what it answers at a path; None is 404.\<close>

definition challenge_Handler :: "(string \<rightharpoonup> string) \<Rightarrow> string \<Rightarrow> string option" where
  "challenge_Handler tokens p = tokens (TrimPrefix p ChallengePath)"

definition http01 :: "acme_authz \<Rightarrow> string option" where
  "http01 az = map_option snd (find (\<lambda>c. fst c = ''http-01'') (az_Challenges az))"

text \<open>The challenge is taken back on every way out of satisfy.\<close>

definition satisfy :: "acme_env \<Rightarrow> string \<Rightarrow> string \<Rightarrow> unit acme" where
  "satisfy e key url =
     (let au = ae_authority e in
      thenA (askA (AskAuthorization url) (\<lambda>_. au_GetAuthorization au url) NoAuthorization) (\<lambda>az.
      if az_valid az then okA ()
      else case http01 az of
        None \<Rightarrow> failA NoHTTP01
      | Some token \<Rightarrow>
        (case au_HTTP01ChallengeResponse au key token of
           None \<Rightarrow> failA NoAnswer
         | Some response \<Rightarrow> \<lambda>st.
           (case thenA (askA (AskAccept token) (\<lambda>ts. if au_Accept au token ts then Some () else None) NotAccepted)
               (\<lambda>_. askA (AskWaitAuthorization url) (\<lambda>ts. if au_WaitAuthorization au url ts then Some () else None) NotReached)
               (present token response st) of
              (r, st) \<Rightarrow> (r, forget token st)))))"

fun satisfy_all :: "acme_env \<Rightarrow> string \<Rightarrow> string list \<Rightarrow> unit acme" where
  "satisfy_all e key [] = okA ()"
| "satisfy_all e key (url # urls) = thenA (satisfy e key url) (\<lambda>_. satisfy_all e key urls)"

section \<open>One order\<close>

definition accountKey :: "acme_env \<Rightarrow> acme_manager \<Rightarrow> string acme" where
  "accountKey e m st =
     (let k = ae_pki e; p = am_path m AccountKeyFile in
      case os_Read (ae_read e p) p (as_files st) of
        Inr stored \<Rightarrow>
          (case pk_Decode k stored of
             None \<Rightarrow> (Inl AccountKeyNotPEM, st)
           | Some der \<Rightarrow> (if pk_ParseECPrivateKey k der then Inr der else Inl AccountKeyUnreadable, st))
      | Inl err \<Rightarrow>
        if err \<noteq> NotExist then (Inl AccountKeyUnreadable, st)
        else (case pk_account k of
            None \<Rightarrow> (Inl NoKey, st)
          | Some der \<Rightarrow>
            (case writeFile e p (privateKeyPEM der) acme_keyMode st of
               (False, st) \<Rightarrow> (Inl AccountKeyUnsaved, st) | (True, st) \<Rightarrow> (Inr der, st))))"

definition collect :: "acme_env \<Rightarrow> string \<Rightarrow> string list acme" where
  "collect e orderURL =
     (let au = ae_authority e in
      if orderURL = [] then failA NotCollected
      else thenA (askA (AskWaitOrder orderURL) (\<lambda>_. au_WaitOrder au True orderURL) NotCollected) (\<lambda>order.
        if or_CertURL order = [] then failA NotCollected
        else askA (AskFetch (or_CertURL order)) (\<lambda>_. au_FetchCert au (or_CertURL order)) NotCollected))"

definition register_answer :: "registration \<Rightarrow> unit option" where
  "register_answer r = (if r = NotRegistering then None else Some ())"

text \<open>An order whose certificate is not in the answer to its finalizing is asked once more.\<close>

definition collected :: "acme_env \<Rightarrow> string \<Rightarrow> string \<Rightarrow> string \<Rightarrow> string list acme" where
  "collected e finalizeURL csr orderURL st =
     (case askA (AskCertificate finalizeURL) (\<lambda>_. au_CreateOrderCert (ae_authority e) finalizeURL csr) NotCollected st of
        (Inl _, st) \<Rightarrow> collect e orderURL st | (Inr chain, st) \<Rightarrow> (Inr chain, st))"

definition obtain_certificate :: "acme_env \<Rightarrow> acme_manager \<Rightarrow> (string \<times> string) acme" where
  "obtain_certificate e m =
     (let au = ae_authority e; k = ae_pki e;
          contact = (if am_Email m \<noteq> [] then [''mailto:'' @ am_Email m] else []) in
      thenA (accountKey e m) (\<lambda>key.
      thenA (askA AskRegister (\<lambda>_. register_answer (au_Register au key contact)) NotRegistered) (\<lambda>_.
      thenA (askA AskOrder (\<lambda>_. au_AuthorizeOrder au (am_Domain m)) NoOrder) (\<lambda>order.
      thenA (satisfy_all e key (or_AuthzURLs order)) (\<lambda>_.
      thenA (askA (AskWaitOrder (or_URI order)) (\<lambda>_. au_WaitOrder au False (or_URI order)) NotAuthorised) (\<lambda>waited.
      case pk_key k of
        None \<Rightarrow> failA NoKey
      | Some certKey \<Rightarrow>
        (case pk_request k (am_Domain m) certKey of
           None \<Rightarrow> failA NoRequest
         | Some csr \<Rightarrow>
           thenA (collected e (or_FinalizeURL waited) csr (or_URI order)) (\<lambda>chain.
           case chainPEM chain of None \<Rightarrow> failA EmptyChain
           | Some certPEM \<Rightarrow> okA (certPEM, privateKeyPEM certKey)))))))))"

definition write_pair :: "acme_env \<Rightarrow> acme_manager \<Rightarrow> string \<times> string \<Rightarrow> unit acme" where
  "write_pair e m pair st =
     (case pair of (certPEM, keyPEM) \<Rightarrow>
      case writeFile e (am_path m KeyFile) keyPEM acme_keyMode st of
        (False, st) \<Rightarrow> (Inl KeyUnwritten, st)
      | (True, st) \<Rightarrow>
        (case writeFile e (am_path m CertFile) certPEM certMode st of
           (False, st) \<Rightarrow> (Inl CertificateUnwritten, st) | (True, st) \<Rightarrow> (Inr (), st)))"

text \<open>Whether a certificate was written, and the error beside it, if any.\<close>

datatype ensured = NothingToDo | Issued | IssuedButNotReloaded | Failed acme_error

definition Ensure :: "acme_env \<Rightarrow> acme_manager \<Rightarrow> acme_state \<Rightarrow> ensured \<times> acme_state" where
  "Ensure e m st =
     (if am_Domain m = [] then (Failed NoDomain, st)
      else if \<not> needsCertificate e m st then (NothingToDo, st)
      else case thenA (obtain_certificate e m) (write_pair e m) st of
        (Inl err, st) \<Rightarrow> (Failed err, st)
      | (Inr _, st) \<Rightarrow> (if am_Reload m \<and> \<not> ae_reload e (as_files st) then IssuedButNotReloaded else Issued, st))"

text \<open>
  Run, one round after another: a round has its environment, how long its attempt takes, whether
  the context is done by the end of it, and whether it is done during the wait. The rounds
  not run yet are left.
\<close>

record round =
  rd_env :: acme_env
  rd_took :: nanos
  rd_cancelled :: bool
  rd_stopped :: bool

definition errored :: "ensured \<Rightarrow> bool" where
  "errored r \<longleftrightarrow> r \<noteq> NothingToDo \<and> r \<noteq> Issued"

fun acme_Run :: "acme_manager \<Rightarrow> round list \<Rightarrow> nanos \<Rightarrow> acme_state \<Rightarrow> (nanos \<times> ensured) list \<times> acme_state" where
  "acme_Run m [] t st = ([], st)"
| "acme_Run m (r # rs) t st =
     (case Ensure (rd_env r) m st of (res, st) \<Rightarrow>
        let wait = (if errored res then retryInterval else checkInterval) in
        if errored res \<and> rd_cancelled r \<or> rd_stopped r then ([(t, res)], st)
        else case acme_Run m rs (t + rd_took r + wait) st of (log, st) \<Rightarrow> ((t, res) # log, st))"

section \<open>What every step keeps\<close>

definition always :: "(acme_state \<Rightarrow> acme_state \<Rightarrow> bool) \<Rightarrow> 'a acme \<Rightarrow> bool" where
  "always R f \<longleftrightarrow> (\<forall>st r st'. f st = (r, st') \<longrightarrow> R st st')"

lemma always_step: "always R f \<Longrightarrow> f st = (r, st') \<Longrightarrow> R st st'"
  by (simp add: always_def)

locale acme_steps =
  fixes R :: "acme_state \<Rightarrow> acme_state \<Rightarrow> bool"
  assumes kept_refl: "R st st"
    and kept_trans: "R st st1 \<Longrightarrow> R st1 st2 \<Longrightarrow> R st st2"
begin

lemma kept_okA: "always R (okA x)"
  by (simp add: always_def okA_def kept_refl)

lemma kept_failA: "always R (failA err)"
  by (simp add: always_def failA_def kept_refl)

lemma kept_then:
  assumes "always R f" "\<And>x. always R (g x)"
  shows "always R (thenA f g)"
  unfolding always_def thenA_def
proof (intro allI impI)
  fix st r st' assume run: "(case f st of (Inl err, st) \<Rightarrow> (Inl err, st) | (Inr x, st) \<Rightarrow> g x st) = (r, st')"
  obtain r1 st1 where f: "f st = (r1, st1)" by (rule prod.exhaust)
  have 1: "R st st1" by (rule always_step [OF assms(1) f])
  show "R st st'"
  proof (cases r1)
    case (Inl err)
    with run f 1 show ?thesis by simp
  next
    case (Inr x)
    with run f have "g x st1 = (r, st')" by simp
    from kept_trans [OF 1 always_step [OF assms(2) this]] show ?thesis .
  qed
qed

lemma kept_all: "(\<And>url. always R (satisfy e key url)) \<Longrightarrow> always R (satisfy_all e key urls)"
  by (induction urls) (simp_all add: kept_okA kept_then)

text \<open>An order keeps what its questions, its challenges and its account key keep.\<close>

lemma kept_order:
  assumes asks: "\<And>err a. always R (askA AskRegister a err :: unit acme)" "\<And>a err. always R (askA AskOrder a err :: acme_order acme)"
      "\<And>url a err. always R (askA (AskWaitOrder url) a err :: acme_order acme)"
      "\<And>url a err. always R (askA (AskCertificate url) a err :: string list acme)"
      "\<And>url a err. always R (askA (AskFetch url) a err :: string list acme)"
    and key: "always R (accountKey e m)"
    and one: "\<And>key url. always R (satisfy e key url)"
  shows "always R (obtain_certificate e m)"
proof -
  have col: "always R (collect e url)" for url
    unfolding collect_def Let_def using asks kept_then kept_failA by (auto intro!: kept_then kept_failA)
  have cold: "always R (collected e fin csr url)" for fin csr url
    unfolding always_def collected_def
  proof (intro allI impI)
    fix st r st'
    assume run: "(case askA (AskCertificate fin) (\<lambda>_. au_CreateOrderCert (ae_authority e) fin csr) NotCollected st of
        (Inl _, st) \<Rightarrow> collect e url st | (Inr chain, st) \<Rightarrow> (Inr chain, st)) = (r, st')"
    obtain r1 st1 where f: "askA (AskCertificate fin) (\<lambda>_. au_CreateOrderCert (ae_authority e) fin csr) NotCollected st = (r1, st1)"
      by (rule prod.exhaust)
    have 1: "R st st1" by (rule always_step [OF asks(4) f])
    show "R st st'"
      using run f 1 kept_trans [OF 1 always_step [OF col]] by (cases r1) auto
  qed
  show ?thesis
    unfolding obtain_certificate_def Let_def
    by (intro kept_then key asks kept_all one) (auto split: option.splits intro!: kept_then kept_failA kept_okA cold)
qed

end

section \<open>What is answered to a challenge, and when\<close>

text \<open>While it is asked this, the host answers the one challenge it has been given, or none.\<close>

fun asked_well :: "acme_env \<Rightarrow> acme_call \<times> (string \<rightharpoonup> string) \<Rightarrow> bool" where
  "asked_well e (AskAccept token, ts) \<longleftrightarrow>
     (\<exists>key response. au_HTTP01ChallengeResponse (ae_authority e) key token = Some response \<and> ts = [token \<mapsto> response])"
| "asked_well e (AskWaitAuthorization url, ts) \<longleftrightarrow>
     (\<exists>key token response. au_HTTP01ChallengeResponse (ae_authority e) key token = Some response \<and> ts = [token \<mapsto> response])"
| "asked_well e (c, ts) \<longleftrightarrow> ts = Map.empty"

definition discreet :: "acme_env \<Rightarrow> acme_state \<Rightarrow> acme_state \<Rightarrow> bool" where
  "discreet e st st' \<longleftrightarrow> (as_tokens st = Map.empty \<longrightarrow> as_tokens st' = Map.empty \<and>
     (\<exists>new. as_asked st' = as_asked st @ new \<and> list_all (asked_well e) new))"

interpretation discreet: acme_steps "discreet e"
proof unfold_locales
  show "discreet e st st" for st by (simp add: discreet_def)
  show "discreet e st st2" if "discreet e st st1" "discreet e st1 st2" for st st1 st2
    using that by (auto simp: discreet_def)
qed

lemma discreet_same: "as_tokens st' = as_tokens st \<Longrightarrow> as_asked st' = as_asked st \<Longrightarrow> discreet e st st'"
  by (simp add: discreet_def)

lemma writeFile_quiet:
  "writeFile e p d mode st = (b, st') \<Longrightarrow> as_tokens st' = as_tokens st \<and> as_asked st' = as_asked st"
  by (auto simp: writeFile_def Let_def now_files_def split: prod.splits bool.splits sum.splits)

lemma discreet_key: "always (discreet e) (accountKey e m)"
  unfolding always_def accountKey_def Let_def
  by (auto split: sum.splits option.splits if_splits prod.splits bool.splits dest!: writeFile_quiet intro: discreet_same)

lemma discreet_ask:
  "(\<And>ts. ts = Map.empty \<Longrightarrow> asked_well e (c, ts)) \<Longrightarrow> always (discreet e) (askA c answer err)"
  by (auto simp: always_def askA_def Let_def discreet_def split: option.splits)

lemma discreet_satisfy: "always (discreet e) (satisfy e key url)"
proof -
  let ?au = "ae_authority e"
  have proving: "discreet e st (forget token st')"
    if "au_HTTP01ChallengeResponse ?au key token = Some response"
      "thenA (askA (AskAccept token) (\<lambda>ts. if au_Accept ?au token ts then Some () else None) NotAccepted)
         (\<lambda>_. askA (AskWaitAuthorization url) (\<lambda>ts. if au_WaitAuthorization ?au url ts then Some () else None) NotReached)
         (present token response st) = (r, st')"
    for token response st st' and r :: "acme_error + unit"
  proof -
    have w: "asked_well e (AskAccept token, [token \<mapsto> response])" "asked_well e (AskWaitAuthorization url, [token \<mapsto> response])"
      using that(1) by (simp, blast)+
    show ?thesis
      using that(2) w
      by (auto simp: discreet_def thenA_def askA_def Let_def present_def forget_def simp del: asked_well.simps split: if_splits)
  qed
  show ?thesis
    unfolding satisfy_def Let_def
    apply (rule discreet.kept_then)
     apply (rule discreet_ask, simp)
    apply (auto split: option.splits prod.splits intro: discreet.kept_okA discreet.kept_failA)
    apply (auto simp: always_def split: prod.splits intro: proving)
    done
qed

lemma discreet_order: "always (discreet e) (obtain_certificate e m)"
  by (rule discreet.kept_order) (auto intro!: discreet_ask discreet_key discreet_satisfy)

lemma write_pair_quiet:
  "write_pair e m pair st = (r, st') \<Longrightarrow> as_tokens st' = as_tokens st \<and> as_asked st' = as_asked st"
  by (auto simp: write_pair_def split: prod.splits bool.splits dest!: writeFile_quiet)

lemma Ensure_discreet: "Ensure e m st = (r, st') \<Longrightarrow> discreet e st st'"
proof -
  assume run: "Ensure e m st = (r, st')"
  obtain r1 st1 where o: "obtain_certificate e m st = (r1, st1)" by (rule prod.exhaust)
  note 1 = always_step [OF discreet_order o]
  show ?thesis
  proof (cases r1)
    case (Inl err)
    with run o 1 show ?thesis by (auto simp: Ensure_def thenA_def split: if_splits intro: discreet_same)
  next
    case (Inr pair)
    obtain r2 st2 where w: "write_pair e m pair st1 = (r2, st2)" by (rule prod.exhaust)
    have 2: "discreet e st st2" using discreet.kept_trans [OF 1 discreet_same] write_pair_quiet [OF w] by blast
    with run o Inr w show ?thesis by (cases r2) (auto simp: Ensure_def thenA_def split: if_splits intro: discreet_same)
  qed
qed

text \<open>
  C38: A certificate authority, and anyone else, can read back only the challenge it is being given. From
  a state in which no challenge is answered, whatever comes of the attempt, the host answers none
  afterwards; while the authority is told to look and until it has, the host answers that one
  challenge, with the response to it, and nothing else; and at every other question of the order
  it answers none. So a path that is answered at all is that of a token that the authority
  was about to fetch.
\<close>

theorem only_the_challenge_asked_for:
  assumes "Ensure e m st = (r, st')" "as_tokens st = Map.empty" "as_asked st = []"
  shows "as_tokens st' = Map.empty \<and> list_all (asked_well e) (as_asked st') \<and>
    (\<forall>p. challenge_Handler (as_tokens st') p = None) \<and>
    (\<forall>(c, ts) \<in> set (as_asked st'). \<forall>p response. challenge_Handler ts p = Some response \<longrightarrow>
       (\<exists>key. au_HTTP01ChallengeResponse (ae_authority e) key (TrimPrefix p ChallengePath) = Some response) \<and>
       (c = AskAccept (TrimPrefix p ChallengePath) \<or> (\<exists>url. c = AskWaitAuthorization url)))"
proof -
  have d: "as_tokens st' = Map.empty" "list_all (asked_well e) (as_asked st')"
    using Ensure_discreet [OF assms(1)] assms(2,3) by (auto simp: discreet_def)
  have "(\<exists>key. au_HTTP01ChallengeResponse (ae_authority e) key (TrimPrefix p ChallengePath) = Some response) \<and>
      (c = AskAccept (TrimPrefix p ChallengePath) \<or> (\<exists>url. c = AskWaitAuthorization url))"
    if "asked_well e (c, ts)" "challenge_Handler ts p = Some response" for c ts p response
    using that by (cases c) (auto simp: challenge_Handler_def split: if_splits)
  with d show ?thesis by (fastforce simp: list_all_iff challenge_Handler_def)
qed

section \<open>The files, at every moment\<close>

definition same_files_but :: "string set \<Rightarrow> fs \<Rightarrow> fs \<Rightarrow> bool" where
  "same_files_but S f g \<longleftrightarrow> (\<forall>q. q \<notin> S \<longrightarrow> g q = f q)"

lemma same_files_but_refl [simp]: "same_files_but S f f"
  by (simp add: same_files_but_def)

lemma same_files_but_trans: "same_files_but S f g \<Longrightarrow> same_files_but T g h \<Longrightarrow> same_files_but (S \<union> T) f h"
  by (simp add: same_files_but_def)

lemma same_files_but_mono: "same_files_but S f g \<Longrightarrow> S \<subseteq> T \<Longrightarrow> same_files_but T f g"
  by (auto simp: same_files_but_def)

text \<open>The names the manager writes, and those beside them.\<close>

lemma to_the_first: "c \<notin> set xs \<Longrightarrow> takeWhile ((\<noteq>) c) (xs @ c # ys) = xs \<and> dropWhile ((\<noteq>) c) (xs @ c # ys) = c # ys"
  by (induction xs) auto

lemma staging_path:
  assumes "CHR ''/'' \<notin> set name"
  shows "acme_staging (am_path m name) = am_path m (CHR ''.'' # name @ ''.tmp'')"
  using to_the_first [of "CHR ''/''" "rev name" "rev (am_Dir m)"] assms
  by (simp add: acme_staging_def path_dir_def path_base_def am_path_def)

lemma path_inj: "am_path m a = am_path m b \<longleftrightarrow> a = b"
  by (simp add: am_path_def)

lemma acme_stagings:
  "acme_staging (am_path m KeyFile) = am_path m ''.key.pem.tmp''"
  "acme_staging (am_path m CertFile) = am_path m ''.cert.pem.tmp''"
  "acme_staging (am_path m AccountKeyFile) = am_path m ''.account.key.tmp''"
  by (simp_all add: staging_path KeyFile_def CertFile_def AccountKeyFile_def)

lemma acme_names:
  "am_path m KeyFile = am_path m ''key.pem''" "am_path m CertFile = am_path m ''cert.pem''"
  "am_path m AccountKeyFile = am_path m ''account.key''"
  by (simp_all add: KeyFile_def CertFile_def AccountKeyFile_def)

text \<open>
  A replacement is atomic: at every moment the file is what it was or the whole of what is written, and
  beside it at most the staging file is touched, whose mode it gets. If it reports failure the file is what it was.
\<close>

definition replaces :: "string \<Rightarrow> string \<Rightarrow> nat \<Rightarrow> fs \<Rightarrow> fs \<Rightarrow> bool" where
  "replaces p d mode f g \<longleftrightarrow> same_files_but {p, acme_staging p} f g \<and>
     (g p = f p \<or> (\<exists>x. g p = Some x \<and> f_data x = d \<and> (f_mode x = mode \<or> Some (f_mode x) = map_option f_mode (f (acme_staging p))))) \<and>
     (\<forall>x. g (acme_staging p) = Some x \<longrightarrow> f_mode x = mode \<or> Some (f_mode x) = map_option f_mode (f (acme_staging p)))"

lemma writeFile_atomic:
  assumes "writeFile e p d mode st = (b, st')" "acme_staging p \<noteq> p"
  shows "\<exists>new. as_past st' = as_past st @ new \<and> (\<forall>g \<in> set new. replaces p d mode (as_files st) g) \<and>
      replaces p d mode (as_files st) (as_files st')"
    "\<not> b \<Longrightarrow> as_files st' p = as_files st p"
    "\<not> b \<Longrightarrow> \<exists>new. as_past st' = as_past st @ new \<and> (\<forall>g \<in> set new. g p = as_files st p)"
    "b \<Longrightarrow> \<exists>x. as_files st' p = Some x \<and> f_data x = d"
    "b \<Longrightarrow> as_files st' (acme_staging p) = None"
proof -
  define s where "s = acme_staging p"
  have s: "s \<noteq> p" "p \<noteq> s" using assms(2) by (simp_all add: s_def)
  note run = assms(1) [unfolded writeFile_def Let_def, folded s_def]
  note d = os_WriteFile_def os_Rename_def os_Remove_def now_files_def replaces_def same_files_but_def s_def [symmetric]
  show "\<exists>new. as_past st' = as_past st @ new \<and> (\<forall>g \<in> set new. replaces p d mode (as_files st) g) \<and>
      replaces p d mode (as_files st) (as_files st')"
    using run s by (auto simp: d Let_def split: write_fault.splits if_splits option.splits sum.splits prod.splits)
  show "\<not> b \<Longrightarrow> as_files st' p = as_files st p"
    "\<not> b \<Longrightarrow> \<exists>new. as_past st' = as_past st @ new \<and> (\<forall>g \<in> set new. g p = as_files st p)"
    "b \<Longrightarrow> \<exists>x. as_files st' p = Some x \<and> f_data x = d"
    "b \<Longrightarrow> as_files st' (acme_staging p) = None"
    using run s by (auto simp: d Let_def split: write_fault.splits if_splits option.splits sum.splits prod.splits)
qed

text \<open>The files that hold a key, and the rule for them.\<close>

definition key_files :: "acme_manager \<Rightarrow> string set" where
  "key_files m = {am_path m AccountKeyFile, acme_staging (am_path m AccountKeyFile), am_path m KeyFile, acme_staging (am_path m KeyFile)}"

definition keys_private :: "acme_manager \<Rightarrow> fs \<Rightarrow> bool" where
  "keys_private m f \<longleftrightarrow> (\<forall>q \<in> key_files m. \<forall>x. f q = Some x \<longrightarrow> f_mode x = acme_keyMode)"

lemma replaces_private:
  assumes "replaces p d acme_keyMode f g" "p \<in> {am_path m AccountKeyFile, am_path m KeyFile}" "keys_private m f"
  shows "keys_private m g"
proof -
  have f: "f_mode x = acme_keyMode" if "f q = Some x" "q \<in> key_files m" for q x
    using assms(3) that by (auto simp: keys_private_def)
  have k: "p \<in> key_files m" "acme_staging p \<in> key_files m" using assms(2) by (auto simp: key_files_def)
  have staged: "y = acme_keyMode" if "y = acme_keyMode \<or> Some y = map_option f_mode (f (acme_staging p))" for y
    using that f [OF _ k(2)] by (cases "f (acme_staging p)") auto
  show ?thesis
    unfolding keys_private_def
  proof (intro ballI allI impI)
    fix q x assume q: "q \<in> key_files m" "g q = Some x"
    show "f_mode x = acme_keyMode"
      using assms(1) q f [OF _ q(1)] staged [of "f_mode x"]
      by (cases "q = p"; cases "q = acme_staging p") (auto simp: replaces_def same_files_but_def)
  qed
qed

text \<open>What an order does to the files: it makes the account's key, once.\<close>

definition at_order :: "acme_manager \<Rightarrow> fs \<Rightarrow> fs \<Rightarrow> bool" where
  "at_order m f g \<longleftrightarrow> same_files_but {am_path m AccountKeyFile, acme_staging (am_path m AccountKeyFile)} f g \<and>
     (keys_private m f \<longrightarrow> keys_private m g)"

definition order_keeps :: "acme_manager \<Rightarrow> acme_state \<Rightarrow> acme_state \<Rightarrow> bool" where
  "order_keeps m st st' \<longleftrightarrow> at_order m (as_files st) (as_files st') \<and>
     (\<exists>new. as_past st' = as_past st @ new \<and> list_all (at_order m (as_files st)) new)"

lemma at_order_trans: "at_order m f g \<Longrightarrow> at_order m g h \<Longrightarrow> at_order m f h"
  by (auto simp: at_order_def same_files_but_def)

interpretation order: acme_steps "order_keeps m"
proof unfold_locales
  show "order_keeps m st st" for st by (simp add: order_keeps_def at_order_def)
  show "order_keeps m st st2" if "order_keeps m st st1" "order_keeps m st1 st2" for st st1 st2
  proof -
    from that obtain a b where "as_past st1 = as_past st @ a" "list_all (at_order m (as_files st)) a"
      "as_past st2 = as_past st1 @ b" "list_all (at_order m (as_files st1)) b" by (auto simp: order_keeps_def)
    with that show ?thesis
      by (auto simp: order_keeps_def list_all_iff intro: at_order_trans)
  qed
qed

lemma order_same: "as_files st' = as_files st \<Longrightarrow> as_past st' = as_past st \<Longrightarrow> order_keeps m st st'"
  by (simp add: order_keeps_def at_order_def)

lemma order_ask: "always (order_keeps m) (askA c answer err)"
  by (auto simp: always_def askA_def Let_def split: option.splits intro: order_same)

lemma order_satisfy: "always (order_keeps m) (satisfy e key url)"
proof -
  have proving: "order_keeps m st (forget token st')"
    if "thenA (askA c a err) (\<lambda>_. askA c' a' err') (present token response st) = (r, st')"
    for token response st st' c a err c' a' err' and r :: "acme_error + unit"
    using that by (auto simp: thenA_def askA_def Let_def present_def forget_def order_keeps_def at_order_def split: option.splits)
  show ?thesis
    unfolding satisfy_def Let_def
    apply (rule order.kept_then [OF order_ask])
    apply (auto split: option.splits prod.splits intro: order.kept_okA order.kept_failA)
    apply (auto simp: always_def split: prod.splits intro: proving)
    done
qed

lemma account_apart: "acme_staging (am_path m AccountKeyFile) \<noteq> am_path m AccountKeyFile"
    "acme_staging (am_path m KeyFile) \<noteq> am_path m KeyFile" "acme_staging (am_path m CertFile) \<noteq> am_path m CertFile"
  unfolding acme_stagings by (simp_all add: path_inj KeyFile_def CertFile_def AccountKeyFile_def)

lemma order_key: "always (order_keeps m) (accountKey e m)"
proof -
  let ?p = "am_path m AccountKeyFile"
  have kept: "order_keeps m st st'" if w: "writeFile e ?p d acme_keyMode st = (b, st')" for d st b st'
  proof -
    have a: "at_order m (as_files st) g" if "replaces ?p d acme_keyMode (as_files st) g" for g
      using that replaces_private [OF that] by (simp add: at_order_def replaces_def)
    show ?thesis
      using writeFile_atomic(1) [OF w account_apart(1)] a by (auto simp: order_keeps_def list_all_iff)
  qed
  show ?thesis
    unfolding always_def accountKey_def Let_def
    by (auto split: sum.splits option.splits if_splits prod.splits bool.splits intro: order_same kept)
qed

lemma order_order: "always (order_keeps m) (obtain_certificate e m)"
  by (rule order.kept_order) (rule order_ask order_key order_satisfy)+

text \<open>The pair the proxy reads, and what the manager may touch at all.\<close>

definition pair_on :: "acme_manager \<Rightarrow> fs \<Rightarrow> string option \<times> string option" where
  "pair_on m f = (map_option f_data (f (am_path m CertFile)), map_option f_data (f (am_path m KeyFile)))"

definition own_files :: "acme_manager \<Rightarrow> string set" where
  "own_files m = key_files m \<union> {am_path m CertFile, acme_staging (am_path m CertFile)}"

lemma pair_same:
  assumes "same_files_but S f g" "am_path m CertFile \<notin> S" "am_path m KeyFile \<notin> S"
  shows "pair_on m g = pair_on m f"
  using assms by (simp add: pair_on_def same_files_but_def)

lemma pair_apart:
  "am_path m CertFile \<notin> {am_path m AccountKeyFile, acme_staging (am_path m AccountKeyFile)}"
  "am_path m KeyFile \<notin> {am_path m AccountKeyFile, acme_staging (am_path m AccountKeyFile)}"
  "am_path m CertFile \<notin> {am_path m KeyFile, acme_staging (am_path m KeyFile)}"
  "am_path m KeyFile \<notin> {am_path m CertFile, acme_staging (am_path m CertFile)}"
  unfolding acme_stagings by (simp_all add: path_inj KeyFile_def CertFile_def AccountKeyFile_def)

lemma cert_apart: "key_files m \<inter> {am_path m CertFile, acme_staging (am_path m CertFile)} = {}"
  unfolding key_files_def acme_stagings by (simp add: path_inj KeyFile_def CertFile_def AccountKeyFile_def)

text \<open>What holds of the files at a moment of an attempt that may end with this pair.\<close>

definition moment :: "acme_manager \<Rightarrow> (string option \<times> string option) set \<Rightarrow> fs \<Rightarrow> fs \<Rightarrow> bool" where
  "moment m pairs f g \<longleftrightarrow> same_files_but (own_files m) f g \<and> pair_on m g \<in> pairs \<and> (keys_private m f \<longrightarrow> keys_private m g)"

lemma moment_mono: "moment m P f g \<Longrightarrow> P \<subseteq> Q \<Longrightarrow> moment m Q f g"
  by (auto simp: moment_def)

lemma moment_trans: "moment m P f g \<Longrightarrow> moment m Q g h \<Longrightarrow> moment m Q f h"
  by (auto simp: moment_def same_files_but_def)

lemma moment_order: "at_order m f g \<Longrightarrow> moment m {pair_on m f} f g"
  using pair_same [where f = f and g = g, OF _ pair_apart(1,2)] same_files_but_mono [of _ f g "own_files m"]
  by (auto simp: moment_def at_order_def own_files_def key_files_def)

lemma moment_key:
  assumes "replaces (am_path m KeyFile) k acme_keyMode f g"
  shows "moment m {pair_on m f, (fst (pair_on m f), Some k)} f g"
proof -
  have "keys_private m f \<longrightarrow> keys_private m g" using replaces_private [OF assms] by blast
  moreover have "g (am_path m CertFile) = f (am_path m CertFile)"
    using assms pair_apart(3) by (auto simp: replaces_def same_files_but_def)
  ultimately show ?thesis
    using assms same_files_but_mono [of "{am_path m KeyFile, acme_staging (am_path m KeyFile)}" f g "own_files m"]
    by (auto simp: moment_def replaces_def own_files_def key_files_def pair_on_def)
qed

lemma moment_cert:
  assumes "replaces (am_path m CertFile) c certMode f g"
  shows "moment m {pair_on m f, (Some c, snd (pair_on m f))} f g"
proof -
  have same: "g q = f q" if "q \<in> key_files m" for q
  proof -
    have "q \<notin> {am_path m CertFile, acme_staging (am_path m CertFile)}" using cert_apart that by blast
    with assms show ?thesis by (simp add: replaces_def same_files_but_def)
  qed
  then have "keys_private m f \<longrightarrow> keys_private m g" by (auto simp: keys_private_def)
  moreover have "g (am_path m KeyFile) = f (am_path m KeyFile)" by (rule same) (simp add: key_files_def)
  ultimately show ?thesis
    using assms same_files_but_mono [of "{am_path m CertFile, acme_staging (am_path m CertFile)}" f g "own_files m"]
    by (auto simp: moment_def replaces_def own_files_def pair_on_def)
qed

text \<open>The states of the files a step goes through, the last one included.\<close>

definition through :: "(fs \<Rightarrow> bool) \<Rightarrow> acme_state \<Rightarrow> acme_state \<Rightarrow> bool" where
  "through P st st' \<longleftrightarrow> P (as_files st') \<and> (\<exists>new. as_past st' = as_past st @ new \<and> list_all P new)"

lemma through_trans:
  assumes "through P st st1" "through Q st1 st2" "\<And>g. P g \<Longrightarrow> T g" "\<And>g. Q g \<Longrightarrow> T g"
  shows "through T st st2"
  using assms by (fastforce simp: through_def list_all_iff)

lemma through_mono: "through P st st' \<Longrightarrow> (\<And>g. P g \<Longrightarrow> Q g) \<Longrightarrow> through Q st st'"
  by (auto simp: through_def list_all_iff)

lemma write_key:
  assumes "writeFile e (am_path m KeyFile) k acme_keyMode st = (b, st')"
  shows "through (moment m {pair_on m (as_files st), (fst (pair_on m (as_files st)), Some k)} (as_files st)) st st'"
    "b \<Longrightarrow> pair_on m (as_files st') = (fst (pair_on m (as_files st)), Some k)"
proof -
  note w = writeFile_atomic [OF assms account_apart(2)]
  show "through (moment m {pair_on m (as_files st), (fst (pair_on m (as_files st)), Some k)} (as_files st)) st st'"
    using w(1) moment_key by (fastforce simp: through_def list_all_iff)
  assume b
  moreover obtain new where "replaces (am_path m KeyFile) k acme_keyMode (as_files st) (as_files st')" using w(1) by blast
  ultimately show "pair_on m (as_files st') = (fst (pair_on m (as_files st)), Some k)"
    using w(4) pair_apart(3) by (auto simp: pair_on_def replaces_def same_files_but_def)
qed

lemma write_cert:
  assumes "writeFile e (am_path m CertFile) c certMode st = (b, st')"
  shows "through (moment m {pair_on m (as_files st), (Some c, snd (pair_on m (as_files st)))} (as_files st)) st st'"
    "b \<Longrightarrow> pair_on m (as_files st') = (Some c, snd (pair_on m (as_files st)))"
    "\<not> b \<Longrightarrow> through (moment m {pair_on m (as_files st)} (as_files st)) st st'"
proof -
  note w = writeFile_atomic [OF assms account_apart(3)]
  have r: "replaces (am_path m CertFile) c certMode (as_files st) (as_files st')" using w(1) by blast
  show t: "through (moment m {pair_on m (as_files st), (Some c, snd (pair_on m (as_files st)))} (as_files st)) st st'"
    using w(1) moment_cert by (fastforce simp: through_def list_all_iff)
  have key: "g (am_path m KeyFile) = as_files st (am_path m KeyFile)"
    if "replaces (am_path m CertFile) c certMode (as_files st) g" for g
    using that pair_apart(4) by (auto simp: replaces_def same_files_but_def)
  show "b \<Longrightarrow> pair_on m (as_files st') = (Some c, snd (pair_on m (as_files st)))"
    using w(4) key [OF r] by (auto simp: pair_on_def)
  assume "\<not> b"
  then obtain new where new: "as_past st' = as_past st @ new" "\<forall>g \<in> set new. g (am_path m CertFile) = as_files st (am_path m CertFile)"
    "\<forall>g \<in> set new. replaces (am_path m CertFile) c certMode (as_files st) g"
    using w(1,3) by auto
  have "moment m {pair_on m (as_files st)} (as_files st) g"
    if "g (am_path m CertFile) = as_files st (am_path m CertFile)" "replaces (am_path m CertFile) c certMode (as_files st) g" for g
    using moment_cert [OF that(2)] that(1) key [OF that(2)] by (auto simp: moment_def pair_on_def)
  with new w(2) [OF \<open>\<not> b\<close>] r show "through (moment m {pair_on m (as_files st)} (as_files st)) st st'"
    by (auto simp: through_def list_all_iff)
qed

lemma write_both:
  assumes "write_pair e m (c, k) st = (r, st')"
  shows "through (moment m {pair_on m (as_files st), (fst (pair_on m (as_files st)), Some k), (Some c, Some k)} (as_files st)) st st'"
    "r = Inr () \<Longrightarrow> pair_on m (as_files st') = (Some c, Some k)"
    "r = Inl err \<Longrightarrow> through (moment m {pair_on m (as_files st), (fst (pair_on m (as_files st)), Some k)} (as_files st)) st st'"
proof -
  let ?old = "pair_on m (as_files st)" and ?half = "(fst (pair_on m (as_files st)), Some k)"
  obtain b1 st1 where 1: "writeFile e (am_path m KeyFile) k acme_keyMode st = (b1, st1)" by (rule prod.exhaust)
  obtain b2 st2 where 2: "writeFile e (am_path m CertFile) c certMode st1 = (b2, st2)" by (rule prod.exhaust)
  note k = write_key [OF 1] and c = write_cert [OF 2]
  have run: "r = (if \<not> b1 then Inl KeyUnwritten else if \<not> b2 then Inl CertificateUnwritten else Inr ())"
    "st' = (if b1 then st2 else st1)"
    using assms 1 2 by (auto simp: write_pair_def split: bool.splits)
  have m1: "moment m {?old, ?half} (as_files st) (as_files st1)" using k(1) by (simp add: through_def)
  have all: "through (moment m {?old, ?half, (Some c, Some k)} (as_files st)) st st2" if b1
  proof (rule through_trans [OF k(1) c(1)])
    show "moment m {?old, ?half, (Some c, Some k)} (as_files st) g" if "moment m {?old, ?half} (as_files st) g" for g
      by (rule moment_mono [OF that]) auto
    show "moment m {?old, ?half, (Some c, Some k)} (as_files st) g"
      if "moment m {pair_on m (as_files st1), (Some c, snd (pair_on m (as_files st1)))} (as_files st1) g" for g
      using moment_mono [OF moment_trans [OF m1 that]] k(2) [OF \<open>b1\<close>] by simp
  qed
  have failed: "through (moment m {?old, ?half} (as_files st)) st st2" if b1 "\<not> b2"
  proof (rule through_trans [OF k(1) c(3) [OF that(2)]])
    show "moment m {?old, ?half} (as_files st) g" if "moment m {pair_on m (as_files st1)} (as_files st1) g" for g
      using moment_mono [OF moment_trans [OF m1 that]] k(2) [OF \<open>b1\<close>] by simp
  qed
  show "through (moment m {?old, ?half, (Some c, Some k)} (as_files st)) st st'"
  proof (cases b1)
    case True
    then show ?thesis using all run(2) by simp
  next
    case False
    have "through (moment m {?old, ?half, (Some c, Some k)} (as_files st)) st st1"
      by (rule through_mono [OF k(1)]) (erule moment_mono, auto)
    with False run(2) show ?thesis by simp
  qed
  show "r = Inr () \<Longrightarrow> pair_on m (as_files st') = (Some c, Some k)"
    using run k(2) c(2) by (auto split: if_splits)
  show "r = Inl err \<Longrightarrow> through (moment m {?old, ?half} (as_files st)) st st'"
    using run k(1) failed by (auto split: if_splits)
qed

text \<open>Where the pair comes from.\<close>

definition handed_out :: "acme_env \<Rightarrow> string list \<Rightarrow> bool" where
  "handed_out e chain \<longleftrightarrow> (\<exists>url csr. au_CreateOrderCert (ae_authority e) url csr = Some chain) \<or>
     (\<exists>url. au_FetchCert (ae_authority e) url = Some chain)"

lemma thenA_ok: "thenA f g st = (Inr y, st') \<longleftrightarrow> (\<exists>x st1. f st = (Inr x, st1) \<and> g x st1 = (Inr y, st'))"
  by (auto simp: thenA_def split: prod.splits sum.splits)

lemma askA_ok: "askA c a err st = (Inr y, st') \<Longrightarrow> a (as_tokens st) = Some y"
  by (auto simp: askA_def Let_def split: option.splits)

lemma collected_handed: "collected e fin csr url st = (Inr chain, st') \<Longrightarrow> handed_out e chain"
  by (auto simp: collected_def collect_def Let_def failA_def thenA_ok handed_out_def split: prod.splits sum.splits if_splits dest!: askA_ok)

lemma obtained_pair:
  assumes "obtain_certificate e m st = (Inr (c, k), st')"
  shows "\<exists>chain der. handed_out e chain \<and> chainPEM chain = Some c \<and> pk_key (ae_pki e) = Some der \<and> k = privateKeyPEM der"
  using assms unfolding obtain_certificate_def Let_def thenA_ok
  by clarify (cases "pk_key (ae_pki e)"; force simp: thenA_ok failA_def okA_def split: option.splits dest: collected_handed)

text \<open>What an attempt does to the files, whatever comes of it.\<close>

definition issued :: "ensured \<Rightarrow> bool" where
  "issued r \<longleftrightarrow> r = Issued \<or> r = IssuedButNotReloaded"

text \<open>The same, of a pair written after steps that left the files as they were.\<close>

lemma write_after:
  assumes "through (moment m {pair_on m (as_files st)} (as_files st)) st st1" "write_pair e m (c, k) st1 = (r, st2)"
  shows "through (moment m {pair_on m (as_files st), (fst (pair_on m (as_files st)), Some k), (Some c, Some k)} (as_files st)) st st2"
    and "r = Inr () \<Longrightarrow> pair_on m (as_files st2) = (Some c, Some k)"
    and "r = Inl err \<Longrightarrow> through (moment m {pair_on m (as_files st), (fst (pair_on m (as_files st)), Some k)} (as_files st)) st st2"
proof -
  let ?old = "pair_on m (as_files st)"
  have m1: "moment m {?old} (as_files st) (as_files st1)" and p1: "pair_on m (as_files st1) = ?old"
    using assms(1) by (simp_all add: through_def moment_def)
  have step: "moment m Q (as_files st) g" if "moment m Q (as_files st1) g" for Q g by (rule moment_trans [OF m1 that])
  have old: "moment m Q (as_files st) g" if "?old \<in> Q" "moment m {?old} (as_files st) g" for Q g
    by (rule moment_mono [OF that(2)]) (simp add: that(1))
  note both = write_both [OF assms(2), unfolded p1]
  show "through (moment m {?old, (fst ?old, Some k), (Some c, Some k)} (as_files st)) st st2"
    by (rule through_trans [OF assms(1) both(1)]) (rule old, simp, assumption, erule step)
  show "pair_on m (as_files st2) = (Some c, Some k)" if "r = Inr ()" using both(2) that by blast
  show "through (moment m {?old, (fst ?old, Some k)} (as_files st)) st st2" if "r = Inl err"
    by (rule through_trans [OF assms(1) both(3) [OF that]]) (rule old, simp, assumption, erule step)
qed

lemma Ensure_files:
  assumes "Ensure e m st = (r, st')"
  shows "\<exists>c der chain. through (moment m ({pair_on m (as_files st), (fst (pair_on m (as_files st)), Some (privateKeyPEM der))} \<union>
      (if issued r then {(Some c, Some (privateKeyPEM der))} else {})) (as_files st)) st st' \<and>
    (pk_key (ae_pki e) = Some der \<or> through (moment m {pair_on m (as_files st)} (as_files st)) st st') \<and>
    (issued r \<longrightarrow> pair_on m (as_files st') = (Some c, Some (privateKeyPEM der)) \<and> handed_out e chain \<and> chainPEM chain = Some c)"
proof -
  let ?old = "pair_on m (as_files st)"
  have still: "through (moment m {?old} (as_files st)) st st" by (simp add: through_def moment_def)
  obtain r1 st1 where o: "obtain_certificate e m st = (r1, st1)" by (rule prod.exhaust)
  have 1: "through (moment m {?old} (as_files st)) st st1"
    using always_step [OF order_order o] moment_order by (fastforce simp: order_keeps_def through_def list_all_iff)
  have quiet: ?thesis if "through (moment m {?old} (as_files st)) st st'" "\<not> issued r"
  proof -
    have "through (moment m ({?old, (fst ?old, Some (privateKeyPEM []))}) (as_files st)) st st'"
      by (rule through_mono [OF that(1)]) (erule moment_mono, simp)
    with that show ?thesis by auto
  qed
  show ?thesis
  proof (cases "am_Domain m = [] \<or> \<not> needsCertificate e m st")
    case True
    with assms have "st' = st" "\<not> issued r" by (auto simp: Ensure_def issued_def split: if_splits)
    with quiet still show ?thesis by simp
  next
    case False
    show ?thesis
    proof (cases r1)
      case (Inl err)
      with assms False o have "st' = st1" "\<not> issued r" by (auto simp: Ensure_def issued_def thenA_def)
      with quiet 1 show ?thesis by simp
    next
      case (Inr pair)
      obtain c k where pair: "pair = (c, k)" by (rule prod.exhaust)
      obtain r2 st2 where w: "write_pair e m (c, k) st1 = (r2, st2)" by (rule prod.exhaust)
      obtain chain der where from_authority: "handed_out e chain" "chainPEM chain = Some c" "pk_key (ae_pki e) = Some der" "k = privateKeyPEM der"
        using obtained_pair o Inr pair by blast
      have r: "r = (case r2 of Inl err \<Rightarrow> Failed err | Inr _ \<Rightarrow> if am_Reload m \<and> \<not> ae_reload e (as_files st2) then IssuedButNotReloaded else Issued)"
        "st' = st2"
        using assms False o Inr pair w by (auto simp: Ensure_def thenA_def split: sum.splits)
      note both = write_after [OF 1 w]
      show ?thesis
      proof (cases r2)
        case Inl
        with both(3) [OF Inl] r from_authority show ?thesis by (auto simp: issued_def)
      next
        case (Inr u)
        then have "issued r" using r(1) by (simp add: issued_def)
        then show ?thesis using Inr r(2) from_authority both(1,2)
          by (intro exI [of _ c] exI [of _ der] exI [of _ chain]) (auto simp: insert_commute)
      qed
    qed
  qed
qed

text \<open>
  nginx reads the two files at a reload, whoever asks for it, and goes on with what it has if it refuses
  the pair.
\<close>

definition serves_after_reload :: "(string \<Rightarrow> string \<Rightarrow> bool) \<Rightarrow> acme_manager \<Rightarrow> string option \<times> string option \<Rightarrow> fs \<Rightarrow> string option \<times> string option" where
  "serves_after_reload loads m serving f = (case pair_on m f of
     (Some c, Some k) \<Rightarrow> if loads c k then (Some c, Some k) else serving | _ \<Rightarrow> serving)"

lemma serves_one:
  "serves_after_reload loads m s f = s \<or>
     serves_after_reload loads m s f = pair_on m f \<and> (\<exists>c k. pair_on m f = (Some c, Some k) \<and> loads c k)"
  by (auto simp: serves_after_reload_def split: option.split prod.split)

text \<open>
  C35: Renewal never serves a mixture. Let nginx reload at any moment of an attempt, between any two calls on
  files, failures included, where it serves the pair that was on disk and does not load the old
  certificate with a key made later: what it then serves is the old pair, or the new one where the
  attempt has issued it. At each of those moments the files that hold a key are for their owner
  alone, and no file but the manager's own three, and the ones it stages them in, has been touched.
\<close>

theorem never_a_mixed_pair:
  assumes "Ensure e m st = (r, st')" "as_past st = []" "keys_private m (as_files st)"
    "\<And>c der. fst (pair_on m (as_files st)) = Some c \<Longrightarrow> pk_key (ae_pki e) = Some der \<Longrightarrow> \<not> loads c (privateKeyPEM der)"
  shows "\<forall>f \<in> set (as_past st') \<union> {as_files st'}. same_files_but (own_files m) (as_files st) f \<and> keys_private m f \<and>
    serves_after_reload loads m (pair_on m (as_files st)) f
      \<in> {pair_on m (as_files st)} \<union> (if issued r then {pair_on m (as_files st')} else {})"
proof
  fix f assume f: "f \<in> set (as_past st') \<union> {as_files st'}"
  let ?old = "pair_on m (as_files st)"
  obtain c der chain where t: "through (moment m ({?old, (fst ?old, Some (privateKeyPEM der))} \<union>
      (if issued r then {(Some c, Some (privateKeyPEM der))} else {})) (as_files st)) st st'"
    and made: "pk_key (ae_pki e) = Some der \<or> through (moment m {?old} (as_files st)) st st'"
    and new: "issued r \<Longrightarrow> pair_on m (as_files st') = (Some c, Some (privateKeyPEM der))"
    using Ensure_files [OF assms(1)] by blast
  have m: "moment m ({?old, (fst ?old, Some (privateKeyPEM der))} \<union> (if issued r then {(Some c, Some (privateKeyPEM der))} else {})) (as_files st) f"
    using t f assms(2) by (auto simp: through_def list_all_iff)
  have half: "pk_key (ae_pki e) = Some der \<or> pair_on m f = ?old"
    using made f assms(2) by (auto simp: through_def list_all_iff moment_def)
  have "serves_after_reload loads m ?old f \<in> {?old} \<union> (if issued r then {pair_on m (as_files st')} else {})"
  proof (cases "serves_after_reload loads m ?old f = ?old")
    case False
    with serves_one obtain c' k' where l: "serves_after_reload loads m ?old f = pair_on m f" "pair_on m f = (Some c', Some k')" "loads c' k'"
      by metis
    have "pair_on m f \<noteq> (fst ?old, Some (privateKeyPEM der))" if "pk_key (ae_pki e) = Some der"
      using l(2,3) assms(4) [OF _ that] by auto
    with False l(1) half m new show ?thesis by (auto simp: moment_def split: if_splits)
  qed simp
  with m assms(3) show "same_files_but (own_files m) (as_files st) f \<and> keys_private m f \<and>
      serves_after_reload loads m ?old f \<in> {?old} \<union> (if issued r then {pair_on m (as_files st')} else {})"
    by (simp add: moment_def)
qed

section \<open>How often it is tried\<close>

lemma runs_later: "\<forall>r \<in> set rs. 0 \<le> rd_took r \<Longrightarrow> acme_Run m rs t st = (log, st') \<Longrightarrow> \<forall>(u, res) \<in> set log. t \<le> u"
proof (induction rs arbitrary: t st log st')
  case (Cons r rs)
  obtain res st1 where e: "Ensure (rd_env r) m st = (res, st1)" by (rule prod.exhaust)
  define w where "w = (if errored res then retryInterval else checkInterval)"
  obtain log' st2 where l: "acme_Run m rs (t + rd_took r + w) st1 = (log', st2)" by (rule prod.exhaust)
  have "0 \<le> w" "0 \<le> rd_took r" using Cons.prems(1) by (simp_all add: w_def retryInterval_def checkInterval_def)
  then show ?case using Cons.IH [OF _ l] Cons.prems e l by (fastforce simp: Let_def w_def split: if_splits)
qed simp

text \<open>Failed attempts start at least a retry apart.\<close>

definition spaced :: "nanos \<Rightarrow> nanos list \<Rightarrow> bool" where
  "spaced d ts \<longleftrightarrow> sorted_wrt (\<lambda>x y. x + d \<le> y) ts"

definition failures :: "(nanos \<times> ensured) list \<Rightarrow> nanos list" where
  "failures log = map fst (filter (\<lambda>(u, res). errored res) log)"

lemma failures_spaced:
  "\<forall>r \<in> set rs. 0 \<le> rd_took r \<Longrightarrow> acme_Run m rs t st = (log, st') \<Longrightarrow> spaced retryInterval (failures log)"
proof (induction rs arbitrary: t st log st')
  case Nil
  then show ?case by (simp add: failures_def spaced_def)
next
  case (Cons r rs)
  obtain res st1 where e: "Ensure (rd_env r) m st = (res, st1)" by (rule prod.exhaust)
  define w where "w = (if errored res then retryInterval else checkInterval)"
  obtain log' st2 where l: "acme_Run m rs (t + rd_took r + w) st1 = (log', st2)" by (rule prod.exhaust)
  have took: "0 \<le> rd_took r" "\<forall>r \<in> set rs. 0 \<le> rd_took r" using Cons.prems(1) by simp_all
  have later: "\<forall>(u, x) \<in> set log'. t + rd_took r + w \<le> u" by (rule runs_later [OF took(2) l])
  have "spaced retryInterval (failures ((t, res) # log'))"
    using Cons.IH [OF took(2) l] later took(1) by (fastforce simp: failures_def spaced_def w_def)
  moreover have "log = (t, res) # log' \<or> log = [(t, res)]"
    using Cons.prems(2) e l by (auto simp: Let_def w_def split: if_splits)
  ultimately show ?case by (auto simp: failures_def spaced_def)
qed

lemma spaced_count: "spaced d ts \<Longrightarrow> 0 < d \<Longrightarrow> \<forall>t \<in> set ts. a \<le> t \<and> t < a + int n * d \<Longrightarrow> length ts \<le> n"
proof (induction ts arbitrary: a n)
  case (Cons t ts)
  then obtain k where n: "n = Suc k" by (cases n) auto
  have "a + d \<le> u \<and> u < (a + d) + int k * d" if "u \<in> set ts" for u
    using Cons.prems(1,3) that by (fastforce simp: spaced_def n algebra_simps)
  then have "length ts \<le> k" using Cons.IH [of "a + d" k] Cons.prems(1,2) by (simp add: spaced_def)
  then show ?case by (simp add: n)
qed simp

text \<open>
  A certificate authority is not asked again too soon. However the attempts turn out, and however
  long each takes, in any hour no more than four attempts that fail are started, where Let's
  Encrypt allows five failed validations.
\<close>

theorem failed_attempts_per_hour:
  assumes "acme_Run m rs t st = (log, st')" "\<forall>r \<in> set rs. 0 \<le> rd_took r"
  shows "length (filter (\<lambda>u. a \<le> u \<and> u < a + 3600000000000) (failures log)) \<le> 4"
proof (rule spaced_count [where d = retryInterval and a = a])
  show "spaced retryInterval (filter (\<lambda>u. a \<le> u \<and> u < a + 3600000000000) (failures log))"
    using failures_spaced [OF assms(2,1)] by (simp add: spaced_def sorted_wrt_filter)
qed (auto simp: retryInterval_def)

section \<open>A certificate is obtained where it can be\<close>

text \<open>What encoding/pem promises: the first block of a text is read back.\<close>

definition reads_pem :: "pki \<Rightarrow> bool" where
  "reads_pem k \<longleftrightarrow> (\<forall>label \<in> {''CERTIFICATE'', ''EC PRIVATE KEY''}. \<forall>der rest. pk_Decode k (pem_encode label der @ rest) = Some der)"

definition writable :: "acme_env \<Rightarrow> string \<Rightarrow> bool" where
  "writable e p \<longleftrightarrow> ae_write e (acme_staging p) = Works \<and> ae_rename e p"

text \<open>
  An authorization that can be given: it has been, or its challenge is one this host can answer and the
  authority is content once it reads the answer at the path of the challenge.
\<close>

definition provable :: "authority \<Rightarrow> string \<Rightarrow> bool" where
  "provable au url \<longleftrightarrow> (\<exists>az. au_GetAuthorization au url = Some az \<and> (az_valid az \<or>
     (\<exists>token. http01 az = Some token \<and> (\<forall>ts. au_Accept au token ts) \<and>
       (\<forall>key. \<exists>response. au_HTTP01ChallengeResponse au key token = Some response \<and>
         (\<forall>ts. challenge_Handler ts (ChallengePath @ token) = Some response \<longrightarrow> au_WaitAuthorization au url ts)))))"

definition finalizes :: "acme_env \<Rightarrow> string \<Rightarrow> string \<Rightarrow> string \<Rightarrow> bool" where
  "finalizes e fin csr url \<longleftrightarrow> (let au = ae_authority e in
     (\<exists>chain. au_CreateOrderCert au fin csr = Some chain \<and> chain \<noteq> []) \<or>
     au_CreateOrderCert au fin csr = None \<and> url \<noteq> [] \<and>
       (\<exists>order chain. au_WaitOrder au True url = Some order \<and> or_CertURL order \<noteq> [] \<and>
          au_FetchCert au (or_CertURL order) = Some chain \<and> chain \<noteq> []))"

definition issuable :: "acme_env \<Rightarrow> acme_manager \<Rightarrow> acme_state \<Rightarrow> bool" where
  "issuable e m st \<longleftrightarrow> (let au = ae_authority e; k = ae_pki e; p = am_path m AccountKeyFile in
     am_Domain m \<noteq> [] \<and> needsCertificate e m st \<and> (\<forall>name \<in> {AccountKeyFile, KeyFile, CertFile}. writable e (am_path m name)) \<and>
     (case as_files st p of None \<Rightarrow> pk_account k \<noteq> None
      | Some f \<Rightarrow> ae_read e p \<and> (\<exists>der. pk_Decode k (f_data f) = Some der \<and> pk_ParseECPrivateKey k der)) \<and>
     (\<forall>key contact. au_Register au key contact \<noteq> NotRegistering) \<and>
     (\<exists>order waited key csr. au_AuthorizeOrder au (am_Domain m) = Some order \<and> (\<forall>url \<in> set (or_AuthzURLs order). provable au url) \<and>
       au_WaitOrder au False (or_URI order) = Some waited \<and> pk_key k = Some key \<and> pk_request k (am_Domain m) key = Some csr \<and>
       finalizes e (or_FinalizeURL waited) csr (or_URI order)))"

definition gives :: "'a acme \<Rightarrow> acme_state \<Rightarrow> 'a \<Rightarrow> bool" where
  "gives f st x \<longleftrightarrow> (\<exists>st'. f st = (Inr x, st'))"

lemma gives_then: "gives f st x \<Longrightarrow> (\<And>st'. gives (g x) st' y) \<Longrightarrow> gives (thenA f g) st y"
  by (auto simp: gives_def thenA_def)

lemma gives_ok [intro]: "gives (okA x) st x"
  by (simp add: gives_def okA_def)

lemma gives_ask: "(\<And>ts. a ts = Some x) \<Longrightarrow> gives (askA c a err) st x"
  by (simp add: gives_def askA_def Let_def)

lemma writeFile_works: "writable e p \<Longrightarrow> fst (writeFile e p d mode st)"
  by (simp add: writable_def writeFile_def os_WriteFile_def os_Rename_def Let_def)

lemma gives_satisfy:
  assumes "provable (ae_authority e) url"
  shows "gives (satisfy e key url) st ()"
proof -
  let ?au = "ae_authority e"
  obtain az where az: "au_GetAuthorization ?au url = Some az" and how: "az_valid az \<or> (\<exists>token. http01 az = Some token \<and>
      (\<forall>ts. au_Accept ?au token ts) \<and> (\<forall>key. \<exists>response. au_HTTP01ChallengeResponse ?au key token = Some response \<and>
         (\<forall>ts. challenge_Handler ts (ChallengePath @ token) = Some response \<longrightarrow> au_WaitAuthorization ?au url ts)))"
    using assms by (auto simp: provable_def)
  show ?thesis
  proof (cases "az_valid az")
    case True
    then show ?thesis unfolding satisfy_def Let_def
      by (intro gives_then [OF gives_ask [where x = az]]) (simp_all add: az gives_ok)
  next
    case False
    with how obtain token response where t: "http01 az = Some token" "\<And>ts. au_Accept ?au token ts"
      "au_HTTP01ChallengeResponse ?au key token = Some response"
      "\<And>ts. challenge_Handler ts (ChallengePath @ token) = Some response \<Longrightarrow> au_WaitAuthorization ?au url ts" by metis
    have "au_WaitAuthorization ?au url (ts(token \<mapsto> response))" for ts
      by (rule t(4)) (simp add: challenge_Handler_def TrimPrefix_def HasPrefix_def)
    then show ?thesis unfolding satisfy_def Let_def
      by (intro gives_then [OF gives_ask [where x = az]])
        (auto simp: az False t gives_def thenA_def askA_def Let_def present_def)
  qed
qed

lemma gives_all: "\<forall>url \<in> set urls. provable (ae_authority e) url \<Longrightarrow> gives (satisfy_all e key urls) st ()"
  by (induction urls arbitrary: st) (auto intro: gives_then gives_satisfy)

lemma gives_account:
  assumes "issuable e m st"
  shows "\<exists>key. gives (accountKey e m) st key"
proof (cases "as_files st (am_path m AccountKeyFile)")
  case (Some f)
  with assms obtain der where "ae_read e (am_path m AccountKeyFile)" "pk_Decode (ae_pki e) (f_data f) = Some der"
    "pk_ParseECPrivateKey (ae_pki e) der" by (auto simp: issuable_def Let_def)
  with Some show ?thesis by (auto simp: gives_def accountKey_def os_Read_def Let_def)
next
  case None
  with assms obtain der where d: "pk_account (ae_pki e) = Some der" "writable e (am_path m AccountKeyFile)"
    by (auto simp: issuable_def Let_def)
  obtain b st' where w: "writeFile e (am_path m AccountKeyFile) (privateKeyPEM der) acme_keyMode st = (b, st')" by (rule prod.exhaust)
  with writeFile_works [OF d(2)] have b by (metis fst_conv)
  with None d w show ?thesis by (auto simp: gives_def accountKey_def os_Read_def Let_def)
qed

lemma gives_collected:
  assumes "finalizes e fin csr url"
  shows "\<exists>chain. chain \<noteq> [] \<and> (\<forall>st. gives (collected e fin csr url) st chain)"
proof (cases "au_CreateOrderCert (ae_authority e) fin csr")
  case (Some chain)
  with assms show ?thesis by (auto simp: finalizes_def Let_def gives_def collected_def askA_def)
next
  case None
  with assms obtain order chain where "url \<noteq> []" "au_WaitOrder (ae_authority e) True url = Some order" "or_CertURL order \<noteq> []"
    "au_FetchCert (ae_authority e) (or_CertURL order) = Some chain" "chain \<noteq> []" by (auto simp: finalizes_def Let_def)
  with None show ?thesis
    by (intro exI [of _ chain]) (auto simp: gives_def collected_def collect_def askA_def thenA_def Let_def)
qed

lemma gives_certificate:
  assumes "issuable e m st"
  shows "\<exists>pair. gives (obtain_certificate e m) st pair"
proof -
  obtain key where key: "gives (accountKey e m) st key" using gives_account [OF assms] by blast
  obtain order waited certKey csr where o: "au_AuthorizeOrder (ae_authority e) (am_Domain m) = Some order"
    "\<forall>url \<in> set (or_AuthzURLs order). provable (ae_authority e) url" "au_WaitOrder (ae_authority e) False (or_URI order) = Some waited"
    "pk_key (ae_pki e) = Some certKey" "pk_request (ae_pki e) (am_Domain m) certKey = Some csr"
    "finalizes e (or_FinalizeURL waited) csr (or_URI order)"
    using assms by (auto simp: issuable_def Let_def)
  obtain chain where chain: "chain \<noteq> []" "\<And>st. gives (collected e (or_FinalizeURL waited) csr (or_URI order)) st chain"
    using gives_collected [OF o(6)] by blast
  have reg: "register_answer (au_Register (ae_authority e) key contact) = Some ()" for contact
    using assms by (simp add: issuable_def Let_def register_answer_def)
  have "gives (obtain_certificate e m) st (concat (map (pem_encode ''CERTIFICATE'') chain), privateKeyPEM certKey)"
    unfolding obtain_certificate_def Let_def
    by (rule gives_then [OF key], rule gives_then [OF gives_ask [OF reg]], rule gives_then [OF gives_ask [OF o(1)]],
        rule gives_then [OF gives_all [OF o(2)]], rule gives_then [OF gives_ask [OF o(3)]])
      (auto simp: o(4,5) chain(1) chainPEM_def intro!: gives_then [OF chain(2)])
  then show ?thesis by blast
qed

lemma issues:
  assumes "issuable e m st"
  shows "issued (fst (Ensure e m st))"
proof -
  obtain c k st1 where o: "obtain_certificate e m st = (Inr (c, k), st1)"
    using gives_certificate [OF assms] by (auto simp: gives_def)
  have w: "writable e (am_path m KeyFile)" "writable e (am_path m CertFile)" using assms by (simp_all add: issuable_def Let_def)
  obtain b1 st2 where 1: "writeFile e (am_path m KeyFile) k acme_keyMode st1 = (b1, st2)" by (rule prod.exhaust)
  obtain b2 st3 where 2: "writeFile e (am_path m CertFile) c certMode st2 = (b2, st3)" by (rule prod.exhaust)
  have b1 b2 using writeFile_works [OF w(1)] writeFile_works [OF w(2)] 1 2 by (metis fst_conv)+
  with assms o 1 2 show ?thesis by (auto simp: Ensure_def thenA_def write_pair_def issued_def issuable_def Let_def)
qed

text \<open>A certificate that will do, at a later look.\<close>

definition will_do :: "acme_env \<Rightarrow> acme_manager \<Rightarrow> string \<Rightarrow> bool" where
  "will_do e m der \<longleftrightarrow> (\<exists>l. pk_ParseCertificate (ae_pki e) der = Some l \<and> \<not> lf_self_signed l \<and> lf_covers l (am_Domain m) \<and>
     ae_now e + renewBefore \<le> lf_NotAfter l)"

lemma settled:
  assumes "Ensure e m st = (r, st')" "issued r" "reads_pem (ae_pki e')" "ae_read e' (am_path m CertFile)"
    "\<And>chain. handed_out e chain \<Longrightarrow> chain \<noteq> [] \<Longrightarrow> will_do e' m (hd chain)"
  shows "Ensure e' m st' = (NothingToDo, st')"
proof -
  obtain c k chain where c: "pair_on m (as_files st') = (Some c, Some k)" "handed_out e chain" "chainPEM chain = Some c"
    using Ensure_files [OF assms(1)] assms(2) by blast
  then obtain f where f: "as_files st' (am_path m CertFile) = Some f" "f_data f = c" by (auto simp: pair_on_def)
  obtain der rest where chain: "chain = der # rest" and pem: "c = pem_encode ''CERTIFICATE'' der @ concat (map (pem_encode ''CERTIFICATE'') rest)"
    using c(3) by (cases chain) (auto simp: chainPEM_def)
  have "will_do e' m der" using assms(5) [OF c(2)] chain by simp
  moreover have "pk_Decode (ae_pki e') c = Some der" using assms(3) by (simp add: reads_pem_def pem)
  ultimately have "\<not> needsCertificate e' m st'"
    using assms(4) f by (auto simp: needsCertificate_def os_Read_def leafOf_def will_do_def)
  moreover have "am_Domain m \<noteq> []" using assms(1,2) by (auto simp: Ensure_def issued_def split: if_splits)
  ultimately show ?thesis by (simp add: Ensure_def)
qed

text \<open>
  C36: A certificate is obtained where it can be, and once. Where the calls on files work, there is an account
  key or one can be made, and the authority takes an order of which it proves each authorization by
  reading, at the path of its challenge, the response it expects, an attempt issues a certificate,
  also where the certificate has to be collected after finalizing has failed; and a later attempt,
  as long as what the authority handed out covers the domain and has thirty days left, finds nothing
  to do and changes nothing.
\<close>

theorem certificate_obtained_once:
  assumes "issuable e m st" "reads_pem (ae_pki e')" "ae_read e' (am_path m CertFile)"
    "\<And>chain. handed_out e chain \<Longrightarrow> chain \<noteq> [] \<Longrightarrow> will_do e' m (hd chain)"
  shows "\<exists>r st'. Ensure e m st = (r, st') \<and> issued r \<and> Ensure e' m st' = (NothingToDo, st')"
proof -
  obtain r st' where run: "Ensure e m st = (r, st')" by (rule prod.exhaust)
  with issues [OF assms(1)] have "issued r" by simp
  with settled [OF run this assms(2-4)] run show ?thesis by blast
qed

end
