(* ===== verification/Own_Certificate.thy ===== *)
theory Own_Certificate
  imports Install_Done Acme
begin

text \<open>
  internal/proxy/cert.go: the certificates that dokkup makes for itself, for an address or, until the
  authority has issued one, for a domain; and what the three places that meet them later make of
  them: the fingerprint the installer checks at the proxy, the watch for the issued certificate, and
  the manager that is to replace the placeholder. The keys and the signature are crypto/x509's.
\<close>

section \<open>Making one\<close>

definition clockSlack :: nanos where "clockSlack = 3600000000000"
definition serialBits :: nat where "serialBits = 128"
definition certLifetime :: nanos where "certLifetime = 10 * 365 * 24 * 3600000000000"

datatype key_usage = DigitalSignature | KeyEncipherment | CertSign
datatype ext_key_usage = ServerAuth

text \<open>x509.Certificate, the fields that are set; a net.IP is the text of it.\<close>

record cert_template =
  ct_SerialNumber :: nat
  ct_Organization :: "string list"
  ct_CommonName :: string
  ct_IPAddresses :: "string list"
  ct_DNSNames :: "string list"
  ct_NotBefore :: nanos
  ct_NotAfter :: nanos
  ct_KeyUsage :: "key_usage list"
  ct_ExtKeyUsage :: "ext_key_usage list"
  ct_BasicConstraintsValid :: bool
  ct_IsCA :: bool

text \<open>
  The libraries: the key drawn, a number below a bound, the public half of a key, a certificate from a
  template and its parent with a public key and a signing one, the encoding of a key, the hash, and the clock.
\<close>

record cert_env =
  ce_GenerateKey :: "string option"
  ce_Int :: "nat \<Rightarrow> nat option"
  ce_Public :: "string \<Rightarrow> string"
  ce_CreateCertificate :: "cert_template \<Rightarrow> cert_template \<Rightarrow> string \<Rightarrow> string \<Rightarrow> string option"
  ce_MarshalPKCS8PrivateKey :: "string \<Rightarrow> string option"
  ce_sha256 :: "string \<Rightarrow> string"
  ce_now :: nanos

datatype cert_error = NothingToCertify | NoKeyGenerated | NoSerialNumber | CertificateUnsigned | KeyUnencoded

definition cert_template_for :: "cert_env \<Rightarrow> nat \<Rightarrow> string \<Rightarrow> string list \<Rightarrow> string list \<Rightarrow> nanos \<Rightarrow> cert_template" where
  "cert_template_for e serial commonName ips names notAfter =
     \<lparr>ct_SerialNumber = serial, ct_Organization = [''dokkup''], ct_CommonName = commonName, ct_IPAddresses = ips, ct_DNSNames = names,
      ct_NotBefore = ce_now e + - clockSlack, ct_NotAfter = notAfter, ct_KeyUsage = [DigitalSignature, KeyEncipherment, CertSign],
      ct_ExtKeyUsage = [ServerAuth], ct_BasicConstraintsValid = True, ct_IsCA = True\<rparr>"

definition selfSigned :: "cert_env \<Rightarrow> string \<Rightarrow> string list \<Rightarrow> string list \<Rightarrow> nanos \<Rightarrow> cert_error + string \<times> string \<times> string" where
  "selfSigned e commonName ips names notAfter =
     (case ce_GenerateKey e of None \<Rightarrow> Inl NoKeyGenerated
      | Some key \<Rightarrow>
        (case ce_Int e (2 ^ serialBits) of None \<Rightarrow> Inl NoSerialNumber
         | Some serial \<Rightarrow>
           let template = cert_template_for e serial commonName ips names notAfter in
           (case ce_CreateCertificate e template template (ce_Public e key) key of None \<Rightarrow> Inl CertificateUnsigned
            | Some der \<Rightarrow>
              (case ce_MarshalPKCS8PrivateKey e key of None \<Rightarrow> Inl KeyUnencoded
               | Some keyDER \<Rightarrow> Inr (pem_encode ''CERTIFICATE'' der, pem_encode ''PRIVATE KEY'' keyDER, Fingerprint (ce_sha256 e) der)))))"

definition SelfSigned :: "cert_env \<Rightarrow> string option \<Rightarrow> nanos \<Rightarrow> cert_error + string \<times> string \<times> string" where
  "SelfSigned e ip notAfter = (case ip of None \<Rightarrow> Inl NothingToCertify | Some ip \<Rightarrow> selfSigned e ip [ip] [] notAfter)"

definition SelfSignedForDomain :: "cert_env \<Rightarrow> string \<Rightarrow> nanos \<Rightarrow> cert_error + string \<times> string" where
  "SelfSignedForDomain e domain notAfter =
     (if domain = [] then Inl NothingToCertify
      else case selfSigned e domain [] [domain] notAfter of
        Inl err \<Rightarrow> Inl err | Inr (certPEM, keyPEM, _) \<Rightarrow> Inr (certPEM, keyPEM))"

text \<open>What the installer asks for, for ten years.\<close>

definition success_of :: "'e + 'a \<Rightarrow> 'a option" where
  "success_of r = (case r of Inl _ \<Rightarrow> None | Inr x \<Rightarrow> Some x)"

definition install_crypto :: "cert_env \<Rightarrow> crypto \<Rightarrow> crypto" where
  "install_crypto e cr = cr\<lparr>cr_selfSignedIP := (\<lambda>ip. success_of (SelfSigned e (Some ip) (ce_now e + certLifetime))),
     cr_selfSignedForDomain := (\<lambda>domain. success_of (SelfSignedForDomain e domain (ce_now e + certLifetime)))\<rparr>"

section \<open>Which address\<close>

text \<open>
  net: the address of a UDP socket to the probe, which may be no UDP address or the unspecified one,
  and the addresses of the interfaces, of which the networks count.
\<close>

definition routeProbe :: string where "routeProbe = ''1.1.1.1:80''"

datatype probe_error = ProbeUnreadable | NotDialled | NoRoute

record route_env =
  re_ResolveUDPAddr :: "string \<Rightarrow> string option"
  re_DialUDP :: "string \<Rightarrow> string option option"    \<comment> \<open>the local address, if it is a UDP one with an IP\<close>
  re_IsUnspecified :: "string \<Rightarrow> bool"

definition LocalIP :: "route_env \<Rightarrow> probe_error + string" where
  "LocalIP e =
     (case re_ResolveUDPAddr e routeProbe of None \<Rightarrow> Inl ProbeUnreadable
      | Some probe \<Rightarrow>
        (case re_DialUDP e probe of None \<Rightarrow> Inl NotDialled
         | Some addr \<Rightarrow>
           (case addr of None \<Rightarrow> Inl NoRoute | Some ip \<Rightarrow> if re_IsUnspecified e ip then Inl NoRoute else Inr ip)))"

datatype interface_addr = IPNet string | OtherAddr string

definition localAddresses :: "interface_addr list option \<Rightarrow> string list option" where
  "localAddresses addrs = map_option (\<lambda>as. concat (map (\<lambda>a. case a of IPNet ip \<Rightarrow> [ip] | OtherAddr _ \<Rightarrow> []) as)) addrs"

definition this_network :: "(string \<Rightarrow> dns) \<Rightarrow> interface_addr list option \<Rightarrow> route_env \<Rightarrow> (string \<Rightarrow> string option) \<Rightarrow> network_env" where
  "this_network lookup addrs e parse = \<lparr>ne_resolve = lookup, ne_local = localAddresses addrs, ne_localIP = success_of (LocalIP e), ne_parseIP = parse\<rparr>"

section \<open>What is promised of the libraries\<close>

text \<open>
  crypto/x509 reads what it wrote: a certificate is signed by the key it carries, by the test of
  CheckSignatureFrom, exactly if it was signed with that key, and its basic constraints and its key
  usage say that it may sign certificates; and an address in it is covered.
\<close>

definition x509_reads :: "cert_env \<Rightarrow> (string \<Rightarrow> Acme.leaf option) \<Rightarrow> bool" where
  "x509_reads e parse \<longleftrightarrow> (\<forall>t parent key signer der. ce_CreateCertificate e t parent (ce_Public e key) signer = Some der \<longrightarrow>
     (\<exists>l. parse der = Some l \<and>
        (Acme.lf_self_signed l \<longleftrightarrow> ce_Public e signer = ce_Public e key \<and> ct_BasicConstraintsValid t \<and> ct_IsCA t \<and>
           (ct_KeyUsage t = [] \<or> CertSign \<in> set (ct_KeyUsage t))) \<and>
        (\<forall>ip \<in> set (ct_IPAddresses t). Acme.lf_covers l ip)))"

text \<open>Two views of one library, that of the installer and that of the manager.\<close>

definition same_x509 :: "pki \<Rightarrow> crypto \<Rightarrow> bool" where
  "same_x509 k cr \<longleftrightarrow> cr_pemDecode cr = pk_Decode k \<and>
     (\<forall>der. map_option lf_selfSigned (cr_parseCertificate cr der) = map_option lf_self_signed (pk_ParseCertificate k der))"


section \<open>The fingerprint\<close>

lemma upper_hex_inj:
  assumes "b < 256" "c < 256" "upper_hex b = upper_hex c"
  shows "b = c"
proof -
  have digit: "x = y" if "(if x < 10 then char_of (48 + x) else char_of (55 + x) :: char) = (if y < 10 then char_of (48 + y) else char_of (55 + y))"
    "x < 16" "y < 16" for x y :: nat
  proof -
    have "of_char (char_of z :: char) = z" if "z < 128" for z :: nat using that by simp
    with arg_cong [OF that(1), of "of_char :: char \<Rightarrow> nat"] that(2,3) show ?thesis by (auto split: if_splits)
  qed
  from assms(3) have eqs: "(if b div 16 < 10 then char_of (48 + b div 16) else char_of (55 + b div 16) :: char) =
      (if c div 16 < 10 then char_of (48 + c div 16) else char_of (55 + c div 16))"
    "(if b mod 16 < 10 then char_of (48 + b mod 16) else char_of (55 + b mod 16) :: char) =
      (if c mod 16 < 10 then char_of (48 + c mod 16) else char_of (55 + c mod 16))"
    unfolding upper_hex_def Let_def list.inject by blast+
  have "b div 16 = c div 16" "b mod 16 = c mod 16"
    using digit [OF eqs(1)] digit [OF eqs(2)] assms(1,2) by auto
  then show ?thesis by (metis mult_div_mod_eq)
qed

lemma length_upper_hex [simp]: "length (upper_hex b) = 2"
  by (simp add: upper_hex_def Let_def)

lemma Join_Cons: "Join (s # ts) sep = s @ (if ts = [] then [] else sep @ Join ts sep)"
  by (cases ts) simp_all

lemma Join_pairs_inj:
  assumes "Join (map f xs) sep = Join (map f ys) sep" "\<forall>z \<in> set xs \<union> set ys. length (f z) = 2" "inj_on f (set xs \<union> set ys)" "sep \<noteq> []"
  shows "xs = ys"
  using assms
proof (induction xs arbitrary: ys)
  case Nil
  then show ?case by (cases ys) (auto simp: Join_Cons)
next
  case (Cons x xs)
  then obtain y zs where ys: "ys = y # zs" by (cases ys) (auto simp: Join_Cons)
  have "length (f x) = length (f y)" using Cons.prems(2) ys by simp
  note same = append_eq_append_conv [OF disjI1, OF this]
  have "f x = f y \<and> (if map f xs = [] then [] else sep @ Join (map f xs) sep) = (if map f zs = [] then [] else sep @ Join (map f zs) sep)"
    using Cons.prems(1) unfolding ys list.map Join_Cons same .
  then have rest: "f x = f y" "(if map f xs = [] then [] else sep @ Join (map f xs) sep) = (if map f zs = [] then [] else sep @ Join (map f zs) sep)"
    by blast+
  have "x = y" by (rule inj_onD [OF Cons.prems(3) rest(1)]) (simp_all add: ys)
  moreover have "Join (map f xs) sep = Join (map f zs) sep" using rest(2) Cons.prems(4) by (auto split: if_splits)
  then have "xs = zs" using Cons.prems(2-4) by (intro Cons.IH) (auto simp: ys inj_on_def)
  ultimately show ?case by (simp add: ys)
qed

lemma Fingerprint_iff: "Fingerprint sha a = Fingerprint sha' b \<longleftrightarrow> sha a = sha' b"
proof
  have inj: "inj (\<lambda>c :: char. upper_hex (of_char c))"
  proof (rule injI)
    fix x y :: char
    assume "upper_hex (of_char x) = upper_hex (of_char y)"
    then have "(of_char x :: nat) = of_char y" by (rule upper_hex_inj [rotated 2]) simp_all
    then show "x = y" by simp
  qed
  assume "Fingerprint sha a = Fingerprint sha' b"
  then have "Join (map (\<lambda>c. upper_hex (of_char c)) (sha a)) '':'' = Join (map (\<lambda>c. upper_hex (of_char c)) (sha' b)) '':''"
    by (simp only: Fingerprint_def)
  then show "sha a = sha' b"
    by (rule Join_pairs_inj) (use inj in \<open>auto intro: inj_on_subset\<close>)
qed (simp add: Fingerprint_def)

lemma Fingerprint_ne: "sha der \<noteq> [] \<Longrightarrow> Fingerprint sha der \<noteq> []"
  by (cases "sha der") (auto simp: Fingerprint_def Join_Cons upper_hex_def Let_def)

lemma selfSigned_made:
  assumes "selfSigned e name ips names notAfter = Inr (certPEM, keyPEM, fp)"
  obtains key serial der where "certPEM = pem_encode ''CERTIFICATE'' der" "fp = Fingerprint (ce_sha256 e) der"
    "ce_CreateCertificate e (cert_template_for e serial name ips names notAfter) (cert_template_for e serial name ips names notAfter)
       (ce_Public e key) key = Some der"
  using assms by (auto simp: selfSigned_def Let_def split: option.splits)

lemma own_leaf:
  assumes "selfSigned e name ips names notAfter = Inr (certPEM, keyPEM, fp)" "x509_reads e (pk_ParseCertificate k)" "reads_pem k"
  obtains der l where "pk_Decode k certPEM = Some der" "pk_ParseCertificate k der = Some l" "lf_self_signed l" "\<forall>ip \<in> set ips. Acme.lf_covers l ip"
    "fp = Fingerprint (ce_sha256 e) der"
proof -
  obtain key serial der where made: "certPEM = pem_encode ''CERTIFICATE'' der" "fp = Fingerprint (ce_sha256 e) der"
    "ce_CreateCertificate e (cert_template_for e serial name ips names notAfter) (cert_template_for e serial name ips names notAfter)
       (ce_Public e key) key = Some der"
    by (rule selfSigned_made [OF assms(1)])
  from assms(2) made(3) obtain l where l: "pk_ParseCertificate k der = Some l" "lf_self_signed l" "\<forall>ip \<in> set ips. Acme.lf_covers l ip"
    unfolding x509_reads_def by (fastforce simp: cert_template_for_def)
  have "\<forall>rest. pk_Decode k (pem_encode ''CERTIFICATE'' der @ rest) = Some der" using assms(3) by (simp add: reads_pem_def)
  from this [rule_format, of "[]"] have "pk_Decode k certPEM = Some der" by (simp add: made(1))
  with l made(2) that show thesis by blast
qed

text \<open>
  C22: The fingerprint shown is of the certificate served. Where the installer has resolved a site that is
  reached by its address with a certificate of its own, that certificate, as it is read back from
  what is written for nginx, is signed by itself and covers the address; and what the check at the proxy accepts is
  that certificate: any chain whose first certificate has its SHA-256 passes, any other is refused
  with the fingerprint it has, and so is a connection with none.
\<close>

theorem fingerprint_is_of_what_is_served:
  assumes "resolveSite i m = Inr s" "st_how s = AtIPWithTLS" "in_crypto i = install_crypto e cr"
    and "x509_reads e (pk_ParseCertificate k)" "reads_pem k" "\<And>x. ce_sha256 e x \<noteq> []"
  shows "\<exists>certPEM der l. st_certPEM s = Some certPEM \<and> pk_Decode k certPEM = Some der \<and> pk_ParseCertificate k der = Some l \<and>
    lf_self_signed l \<and> Acme.lf_covers l (st_ip s) \<and>
    verifyFingerprint (ce_sha256 e) (st_fingerprint s) (served # chain) =
      (if ce_sha256 e served = ce_sha256 e der then Inr () else Inl (OtherCertificate (Fingerprint (ce_sha256 e) served))) \<and>
    verifyFingerprint (ce_sha256 e) (st_fingerprint s) [] = Inl NothingServed"
proof -
  have "resolveIPSite i = Inr s"
    using assms(1,2)
    by (auto simp: resolveSite_def resolveDomainSite_def resolveManagedDomainSite_def Let_def split: if_splits sum.splits option.splits prod.splits)
  then obtain certPEM keyPEM fp where made: "selfSigned e (st_ip s) [st_ip s] [] (ce_now e + certLifetime) = Inr (certPEM, keyPEM, fp)"
    and s: "st_certPEM s = Some certPEM" "st_fingerprint s = fp"
    using assms(2,3)
    by (auto simp: resolveIPSite_def plain_site_def install_crypto_def SelfSigned_def success_of_def Let_def
        split: if_splits sum.splits option.splits prod.splits)
  obtain der l where l: "pk_Decode k certPEM = Some der" "pk_ParseCertificate k der = Some l" "lf_self_signed l"
    "\<forall>ip \<in> set [st_ip s]. Acme.lf_covers l ip" "fp = Fingerprint (ce_sha256 e) der"
    by (rule own_leaf [OF made assms(4,5)])
  have "fp \<noteq> []" using Fingerprint_ne [of "ce_sha256 e" der, OF assms(6)] l(5) by simp
  then have "verifyFingerprint (ce_sha256 e) fp (served # chain) =
      (if ce_sha256 e served = ce_sha256 e der then Inr () else Inl (OtherCertificate (Fingerprint (ce_sha256 e) served)))"
    "verifyFingerprint (ce_sha256 e) fp [] = Inl NothingServed"
    by (simp_all add: verifyFingerprint_def Let_def l(5) Fingerprint_iff)
  with l s show ?thesis by auto
qed


section \<open>The placeholder\<close>

lemma managed_site:
  assumes "resolveSite i m = Inr s" "st_manageCert s" "in_crypto i = install_crypto e cr"
  obtains keyPEM fp certPEM where "st_certPEM s = Some certPEM" "st_domain s \<noteq> []"
    "selfSigned e (st_domain s) [] [st_domain s] (ce_now e + certLifetime) = Inr (certPEM, keyPEM, fp)"
proof -
  have "resolveManagedDomainSite i = Inr s"
    using assms(1,2)
    by (auto simp: resolveSite_def resolveDomainSite_def resolveIPSite_def plain_site_def Let_def split: if_splits sum.splits option.splits prod.splits)
  then obtain certPEM keyPEM where s: "st_certPEM s = Some certPEM" "SelfSignedForDomain e (st_domain s) (ce_now e + certLifetime) = Inr (certPEM, keyPEM)"
    using assms(3)
    by (auto simp: resolveManagedDomainSite_def install_crypto_def success_of_def Let_def split: sum.splits option.splits prod.splits)
  then show thesis using that by (auto simp: SelfSignedForDomain_def split: if_splits sum.splits prod.splits)
qed

text \<open>The file the installer wrote, or watches, is the one the manager reads.\<close>

lemma one_file: "in_root i = [] \<Longrightarrow> am_Dir g = TLSDir \<Longrightarrow> path i TLSCert = am_path g CertFile"
  by (simp add: path_def Rooted_def am_path_def CertFile_def TLSCert_def)

lemma issued_leaf:
  assumes "Ensure a g st = (r, st')" "issued r" "reads_pem k" "\<And>chain. handed_out a chain \<Longrightarrow> chain \<noteq> [] \<Longrightarrow> will_do a' g (hd chain)"
  obtains f der where "as_files st' (am_path g CertFile) = Some f" "pk_Decode k (f_data f) = Some der" "will_do a' g der"
proof -
  obtain c key chain where c: "pair_on g (as_files st') = (Some c, Some key)" "handed_out a chain" "chainPEM chain = Some c"
    using Ensure_files [OF assms(1)] assms(2) by blast
  then obtain f where f: "as_files st' (am_path g CertFile) = Some f" "f_data f = c" by (auto simp: pair_on_def)
  obtain der rest where chain: "chain = der # rest" and pem: "c = pem_encode ''CERTIFICATE'' der @ concat (map (pem_encode ''CERTIFICATE'') rest)"
    using c(3) by (cases chain) (auto simp: chainPEM_def)
  have "will_do a' g der" using assms(4) [OF c(2)] chain by simp
  moreover have "pk_Decode k c = Some der" using assms(3) by (simp add: reads_pem_def pem)
  ultimately show thesis using that f by blast
qed

text \<open>Whether the manager and the installer's watch call a certificate issued, one file and one library given.\<close>

lemma both_read:
  assumes "same_x509 (ae_pki a) (in_crypto i)" "path i TLSCert = am_path g CertFile" "as_files st = file_at m"
    and "file_at m (path i TLSCert) = Some f" "pk_Decode (ae_pki a) (f_data f) = Some der" "pk_ParseCertificate (ae_pki a) der = Some l"
  shows "lf_self_signed l \<Longrightarrow> needsCertificate a g st \<and> issuedCertificate i m = None"
    and "will_do a g der \<Longrightarrow> ae_read a (am_path g CertFile) \<Longrightarrow> in_works i ''read'' (path i TLSCert) \<Longrightarrow>
      \<not> needsCertificate a g st \<and> issuedCertificate i m \<noteq> None"
proof -
  have "map_option lf_selfSigned (cr_parseCertificate (in_crypto i) der) = Some (lf_self_signed l)"
    and d: "cr_pemDecode (in_crypto i) (f_data f) = Some der"
    using assms(1,5,6) by (simp_all add: same_x509_def)
  then obtain l' where l': "cr_parseCertificate (in_crypto i) der = Some l'" "lf_selfSigned l' = lf_self_signed l" by auto
  have f: "file_at m (am_path g CertFile) = Some f" using assms(2,4) by simp
  show "lf_self_signed l \<Longrightarrow> needsCertificate a g st \<and> issuedCertificate i m = None"
    using assms(4-6) l' d f
    by (simp add: needsCertificate_def leafOf_def issuedCertificate_def os_Read_def assms(3) split: sum.splits if_splits)
  assume "will_do a g der" "ae_read a (am_path g CertFile)" "in_works i ''read'' (path i TLSCert)"
  then show "\<not> needsCertificate a g st \<and> issuedCertificate i m \<noteq> None"
    using assms(4-6) l' d f
    by (auto simp: needsCertificate_def leafOf_def issuedCertificate_def os_Read_def assms(3) will_do_def)
qed

text \<open>
  C37: The placeholder gives way, and the two that watch it agree. With the certificate in place that the
  installer makes for a domain whose certificate the service is to manage, the manager of the service
  finds that it needs one, however long the placeholder is valid, and the installer that none has
  been issued. Once the manager has issued one, from an authority whose certificates will do,
  it needs none and the installer finds that one was issued.
\<close>

theorem placeholder_gives_way:
  assumes "resolveSite i m = Inr s" "st_manageCert s" "in_crypto i = install_crypto e cr" "in_root i = []"
    and "certificate_in_place i s m1" "as_files st = file_at m1" "am_Dir g = TLSDir"
    and "x509_reads e (pk_ParseCertificate (ae_pki a))" "reads_pem (ae_pki a)" "same_x509 (ae_pki a) (in_crypto i)"
    and "Ensure a g st = (r, st')" "issued r" "\<And>chain. handed_out a chain \<Longrightarrow> chain \<noteq> [] \<Longrightarrow> will_do a g (hd chain)"
    and "ae_read a (am_path g CertFile)" "in_works i ''read'' TLSCert" "file_at m2 = as_files st'"
  shows "needsCertificate a g st \<and> issuedCertificate i m1 = None \<and> \<not> needsCertificate a g st' \<and> issuedCertificate i m2 \<noteq> None"
proof -
  note one = one_file [OF assms(4,7)]
  have p: "path i TLSCert = TLSCert" using assms(4) by (simp add: path_def Rooted_def)
  obtain keyPEM fp certPEM where made: "st_certPEM s = Some certPEM"
    "selfSigned e (st_domain s) [] [st_domain s] (ce_now e + certLifetime) = Inr (certPEM, keyPEM, fp)"
    by (rule managed_site [OF assms(1-3)])
  obtain der l where own: "pk_Decode (ae_pki a) certPEM = Some der" "pk_ParseCertificate (ae_pki a) der = Some l" "lf_self_signed l"
    by (rule own_leaf [OF made(2) assms(8,9)])
  have "file_at m1 (path i TLSCert) = Some \<lparr>f_data = certPEM, f_mode = readableMode\<rparr>"
    using assms(5) made(1) by (simp add: certificate_in_place_def)
  from both_read(1) [OF assms(10) one assms(6) this _ own(2,3)] own(1)
  have before: "needsCertificate a g st \<and> issuedCertificate i m1 = None" by simp
  obtain f der' where f: "as_files st' (am_path g CertFile) = Some f" "pk_Decode (ae_pki a) (f_data f) = Some der'" "will_do a g der'"
    by (rule issued_leaf [OF assms(11,12,9,13)])
  then obtain l' where "pk_ParseCertificate (ae_pki a) der' = Some l'" by (auto simp: will_do_def)
  from both_read(2) [OF assms(10) one assms(16) [symmetric] _ f(2) this f(3) assms(14)] f(1) one assms(15,16) p
  have "\<not> needsCertificate a g st' \<and> issuedCertificate i m2 \<noteq> None" by simp
  with before show ?thesis by simp
qed

end
