(* ===== verification/Acme_Examples.thy ===== *)
theory Acme_Examples
  imports Acme
begin

text \<open>
  An authority, a domain and a decoder of PEM, on which the properties of the manager of certificates are
  applied. The authority is content when it reads the answer through the handler, and does not hand
  out the certificate when the order is finalized, so that it has to be collected.
\<close>

section \<open>Reading PEM\<close>

definition first_block :: "string \<Rightarrow> string option" where
  "first_block s = DecodeString std_alphabet (filter (\<lambda>c. c \<noteq> CHR ''='')
     (concat (takeWhile (\<lambda>l. \<not> HasPrefix l ''-----END '') (tl (Split (CHR 0x0A) s)))))"

lemma concat_pem_lines: "concat (pem_lines s) = s"
  by (induction s rule: pem_lines.induct) (subst pem_lines.simps, simp)

lemma pem_lines_chars: "l \<in> set (pem_lines s) \<Longrightarrow> set l \<subseteq> set s"
proof (induction s rule: pem_lines.induct)
  case (1 s)
  then show ?case using set_take_subset [of 64 s] set_drop_subset [of 64 s]
    by (subst (asm) (2) pem_lines.simps) (auto split: if_splits)
qed

lemma std_plain: "c \<in> set std_alphabet \<Longrightarrow> c \<noteq> CHR 0x0A \<and> c \<noteq> CHR ''-'' \<and> c \<noteq> CHR ''=''"
  by (auto simp: std_alphabet_def)

lemma first_block_encoded:
  assumes "CHR 0x0A \<notin> set label"
  shows "first_block (pem_encode label der @ rest) = Some der"
proof -
  define body where "body = EncodeToString std_alphabet der @ padding der"
  define head where "head = ''-----BEGIN '' @ label @ ''-----''"
  define foot where "foot = ''-----END '' @ label @ ''-----''"
  have chars: "c \<in> set std_alphabet \<or> c = CHR ''=''" if "c \<in> set body" for c
    using that set_EncodeToString [OF alphabet_facts(2), of der] by (auto simp: body_def padding_def)
  have line: "CHR 0x0A \<notin> set l \<and> \<not> HasPrefix l ''-----END ''" if "l \<in> set (pem_lines body)" for l
  proof -
    have "c \<noteq> CHR 0x0A \<and> c \<noteq> CHR ''-''" if "c \<in> set l" for c
      using chars [of c] std_plain [of c] pem_lines_chars [OF \<open>l \<in> _\<close>] that by auto
    then show ?thesis by (cases l) (auto simp: HasPrefix_def)
  qed
  have plain: "\<forall>l \<in> set ([head] @ pem_lines body @ [foot]). CHR 0x0A \<notin> set l"
    using line assms by (auto simp: head_def foot_def)
  have s: "Split (CHR 0x0A) (pem_encode label der @ rest) = ([head] @ pem_lines body @ [foot]) @ Split (CHR 0x0A) rest"
    unfolding pem_encode_def body_def [symmetric] head_def [symmetric] foot_def [symmetric] by (rule Split_unlines [OF plain])
  have "HasPrefix foot ''-----END ''" by (simp add: foot_def HasPrefix_def)
  then have "takeWhile (\<lambda>l. \<not> HasPrefix l ''-----END '') (tl (Split (CHR 0x0A) (pem_encode label der @ rest))) = pem_lines body"
    unfolding s using line by (simp add: takeWhile_append2)
  moreover have "filter (\<lambda>c. c \<noteq> CHR ''='') body = EncodeToString std_alphabet der"
  proof -
    have "\<forall>c \<in> set (EncodeToString std_alphabet der). c \<noteq> CHR ''=''"
      using set_EncodeToString [OF alphabet_facts(2), of der] std_plain by blast
    then show ?thesis by (simp add: body_def padding_def filter_id_conv)
  qed
  ultimately show ?thesis
    using Decode_Encode [OF alphabet_facts(1,2)] alphabet_facts(5) by (simp add: first_block_def concat_pem_lines)
qed

section \<open>An authority\<close>

definition test_ca :: authority where
  "test_ca = \<lparr>au_Register = (\<lambda>key contact. AccountAlreadyExists),
     au_AuthorizeOrder = (\<lambda>d. Some \<lparr>or_URI = ''order'', or_AuthzURLs = [''authz''], or_FinalizeURL = ''finalize'', or_CertURL = []\<rparr>),
     au_GetAuthorization = (\<lambda>url. Some \<lparr>az_valid = False, az_Challenges = [(''dns-01'', ''d''), (''http-01'', ''t'')]\<rparr>),
     au_HTTP01ChallengeResponse = (\<lambda>key token. Some (token @ ''.print'')),
     au_Accept = (\<lambda>token ts. True),
     au_WaitAuthorization = (\<lambda>url ts. challenge_Handler ts (ChallengePath @ ''t'') = Some ''t.print''),
     au_WaitOrder = (\<lambda>finalized url. Some \<lparr>or_URI = [], or_AuthzURLs = [], or_FinalizeURL = ''finalize'',
       or_CertURL = (if finalized then ''certificate'' else [])\<rparr>),
     au_CreateOrderCert = (\<lambda>url csr. None),
     au_FetchCert = (\<lambda>url. Some [''leaf'', ''intermediate''])\<rparr>"

definition test_pki :: pki where
  "test_pki = \<lparr>pk_Decode = first_block,
     pk_ParseCertificate = (\<lambda>der. Some \<lparr>lf_self_signed = (der \<noteq> ''leaf''), lf_covers = (\<lambda>h. h = ''d.example''), lf_NotAfter = 3 * renewBefore\<rparr>),
     pk_ParseECPrivateKey = (\<lambda>der. True), pk_account = Some ''account'', pk_key = Some ''new'', pk_request = (\<lambda>d key. Some ''csr'')\<rparr>"

definition test_acme :: acme_env where
  "test_acme = \<lparr>ae_authority = test_ca, ae_pki = test_pki, ae_read = (\<lambda>p. True), ae_write = (\<lambda>p. Works), ae_rename = (\<lambda>p. True),
     ae_remove = (\<lambda>p. True), ae_reload = (\<lambda>f. True), ae_now = 0\<rparr>"

definition test_certs :: acme_manager where
  "test_certs = \<lparr>am_Domain = ''d.example'', am_Email = [], am_DirectoryURL = [], am_Dir = TLSDir, am_Reload = True\<rparr>"

text \<open>Where the installer has left a placeholder.\<close>

definition test_placeholder :: acme_state where
  "test_placeholder = \<lparr>as_files = [am_path test_certs CertFile \<mapsto> \<lparr>f_data = pem_encode ''CERTIFICATE'' ''own'', f_mode = certMode\<rparr>,
       am_path test_certs KeyFile \<mapsto> \<lparr>f_data = ''own key'', f_mode = acme_keyMode\<rparr>],
     as_tokens = Map.empty, as_asked = [], as_past = []\<rparr>"

lemma test_reads: "reads_pem test_pki"
  using first_block_encoded by (auto simp: reads_pem_def test_pki_def)

lemma test_apart: "am_path m CertFile \<noteq> am_path m KeyFile" "am_path m AccountKeyFile \<noteq> am_path m KeyFile"
    "am_path m AccountKeyFile \<noteq> am_path m CertFile"
  by (simp_all add: path_inj CertFile_def KeyFile_def AccountKeyFile_def)

lemma test_needs: "needsCertificate test_acme test_certs test_placeholder"
  using first_block_encoded [of "''CERTIFICATE''" "''own''" "[]"] test_apart(1) [of test_certs]
  by (simp add: needsCertificate_def test_acme_def test_placeholder_def os_Read_def leafOf_def test_pki_def)

lemma test_issuable: "issuable test_acme test_certs test_placeholder"
  using test_needs test_apart [of test_certs]
  by (simp add: issuable_def Let_def writable_def provable_def finalizes_def register_answer_def http01_def)
    (simp add: test_certs_def test_acme_def test_ca_def test_pki_def test_placeholder_def)

lemma test_will_do: "handed_out test_acme chain \<Longrightarrow> will_do test_acme test_certs (hd chain)"
  by (auto simp: handed_out_def will_do_def test_acme_def test_ca_def test_pki_def test_certs_def renewBefore_def)

lemma certificate_obtained_once_witness:
  "\<exists>r st'. Ensure test_acme test_certs test_placeholder = (r, st') \<and> issued r \<and> Ensure test_acme test_certs st' = (NothingToDo, st')"
proof (rule certificate_obtained_once [OF test_issuable])
  show "reads_pem (ae_pki test_acme)" using test_reads by (simp add: test_acme_def)
  show "ae_read test_acme (am_path test_certs CertFile)" by (simp add: test_acme_def)
qed (rule test_will_do)

lemma test_issued: "\<exists>r st'. Ensure test_acme test_certs test_placeholder = (r, st') \<and> issued r"
  using issues [OF test_issuable] by (metis prod.collapse)

lemma only_the_challenge_asked_for_witness:
  "\<exists>r st'. Ensure test_acme test_certs test_placeholder = (r, st') \<and> issued r \<and>
     as_tokens st' = Map.empty \<and> list_all (asked_well test_acme) (as_asked st')"
proof -
  obtain r st' where run: "Ensure test_acme test_certs test_placeholder = (r, st')" "issued r" using test_issued by blast
  have "as_tokens test_placeholder = Map.empty" "as_asked test_placeholder = []" by (simp_all add: test_placeholder_def)
  from only_the_challenge_asked_for [OF run(1) this] run show ?thesis by blast
qed

text \<open>A proxy that refuses the placeholder with the new key.\<close>

definition test_loads :: "string \<Rightarrow> string \<Rightarrow> bool" where
  "test_loads c k = (k \<noteq> privateKeyPEM ''new'' \<or> c \<noteq> pem_encode ''CERTIFICATE'' ''own'')"

lemma never_a_mixed_pair_witness:
  "\<exists>r st'. Ensure test_acme test_certs test_placeholder = (r, st') \<and> issued r \<and> keys_private test_certs (as_files st') \<and>
     serves_after_reload test_loads test_certs
        (pair_on test_certs (as_files test_placeholder)) (as_files st')
      \<in> {pair_on test_certs (as_files test_placeholder), pair_on test_certs (as_files st')}"
proof -
  obtain r st' where run: "Ensure test_acme test_certs test_placeholder = (r, st')" "issued r" using test_issued by blast
  have past: "as_past test_placeholder = []" by (simp add: test_placeholder_def)
  have kept_private: "keys_private test_certs (as_files test_placeholder)"
    unfolding keys_private_def key_files_def acme_stagings
    by (simp add: test_placeholder_def path_inj CertFile_def KeyFile_def AccountKeyFile_def)
  have refused: "\<not> test_loads c (privateKeyPEM der)"
    if "fst (pair_on test_certs (as_files test_placeholder)) = Some c" "pk_key (ae_pki test_acme) = Some der" for c der
    using that test_apart(1) [of test_certs] by (simp add: pair_on_def test_placeholder_def test_acme_def test_pki_def test_loads_def)
  note all = never_a_mixed_pair [where loads = test_loads, OF run(1) past kept_private refused]
  from all [THEN bspec, of "as_files st'"] run show ?thesis by (intro exI [of _ r] exI [of _ st']) auto
qed

lemma failed_attempts_per_hour_witness:
  "length (filter (\<lambda>u. 0 \<le> u \<and> u < 0 + 3600000000000)
     (failures (fst (acme_Run (test_certs\<lparr>am_Domain := []\<rparr>)
       (replicate 9 \<lparr>rd_env = test_acme, rd_took = 0, rd_cancelled = False, rd_stopped = False\<rparr>) 0 test_placeholder)))) \<le> 4"
proof -
  define rounds where "rounds = replicate 9 \<lparr>rd_env = test_acme, rd_took = 0, rd_cancelled = False, rd_stopped = False\<rparr>"
  obtain log st' where run: "acme_Run (test_certs\<lparr>am_Domain := []\<rparr>) rounds 0 test_placeholder = (log, st')" by (rule prod.exhaust)
  have "\<forall>r \<in> set rounds. 0 \<le> rd_took r" by (simp add: rounds_def)
  from failed_attempts_per_hour [OF run this, of 0] show ?thesis unfolding rounds_def [symmetric] run by simp
qed

end
