(* ===== verification/Own_Examples.thy ===== *)
theory Own_Examples
  imports Own_Certificate Acme_Examples Install_Examples
begin

text \<open>
  A library of certificates that tells a self-signed one from another, and the two sites that have one,
  on which the properties of the theory Own_Certificate are applied.
\<close>

definition may_sign :: "cert_template \<Rightarrow> bool" where
  "may_sign t \<longleftrightarrow> ct_BasicConstraintsValid t \<and> ct_IsCA t \<and> (ct_KeyUsage t = [] \<or> CertSign \<in> set (ct_KeyUsage t))"

definition toy_sha :: "string \<Rightarrow> string" where "toy_sha der = CHR ''#'' # der"

definition own_env :: cert_env where
  "own_env = \<lparr>ce_GenerateKey = Some ''k'', ce_Int = (\<lambda>n. Some (n div 2)), ce_Public = (\<lambda>key. key),
     ce_CreateCertificate = (\<lambda>t parent public key. Some (if key = public \<and> may_sign t then ''own'' else ''leaf'')),
     ce_MarshalPKCS8PrivateKey = Some, ce_sha256 = toy_sha, ce_now = 0\<rparr>"

definition own_pki :: pki where
  "own_pki = test_pki\<lparr>pk_ParseCertificate := (\<lambda>der. Some \<lparr>lf_self_signed = (der = ''own''), lf_covers = (\<lambda>h. True), lf_NotAfter = 3 * renewBefore\<rparr>)\<rparr>"

definition own_acme :: acme_env where
  "own_acme = test_acme\<lparr>ae_pki := own_pki\<rparr>"

definition own_library :: crypto where
  "own_library = \<lparr>cr_keyPair = (\<lambda>c k. Some c), cr_pemDecode = first_block,
     cr_parseCertificate = (\<lambda>der. Some \<lparr>Install.leaf.lf_covers = (\<lambda>h. True), lf_selfSigned = (der = ''own''), lf_commonName = ''R3'', lf_organization = [''CA'']\<rparr>),
     cr_selfSignedIP = (\<lambda>ip. None), cr_selfSignedForDomain = (\<lambda>d. None)\<rparr>"

definition own_installer :: "installConfig \<Rightarrow> (Fake_Host \<times> Fake_Manager, unit) installer" where
  "own_installer cfg = (test_installer (Inr ''v1'') (\<lambda>s. Inr ()) cfg)\<lparr>in_crypto := install_crypto own_env own_library\<rparr>"

lemma own_reads: "x509_reads own_env (pk_ParseCertificate own_pki)" "reads_pem own_pki"
  using first_block_encoded by (auto simp: x509_reads_def own_env_def own_pki_def may_sign_def reads_pem_def test_pki_def)

lemma own_same: "same_x509 own_pki (in_crypto (own_installer cfg))"
  by (simp add: same_x509_def own_installer_def own_pki_def test_pki_def install_crypto_def own_library_def)

lemma own_made: "selfSigned own_env name ips names notAfter =
    Inr (pem_encode ''CERTIFICATE'' ''own'', pem_encode ''PRIVATE KEY'' ''k'', Fingerprint toy_sha ''own'')"
  by (simp add: selfSigned_def own_env_def may_sign_def cert_template_for_def Let_def)

section \<open>An address\<close>

definition address_config :: installConfig where
  "address_config = plain_config\<lparr>cf_selfSigned := True, cf_plainHTTP := False\<rparr>"

definition address_site :: site where
  "address_site = \<lparr>st_how = AtIPWithTLS, st_domain = [], st_ip = ''192.0.2.7'', st_certPEM = Some (pem_encode ''CERTIFICATE'' ''own''),
     st_keyPEM = pem_encode ''PRIVATE KEY'' ''k'', st_fingerprint = Fingerprint toy_sha ''own'', st_manageCert = False,
     st_mode = ''ip'', st_url = ''https://'' @ JoinHostPort ''192.0.2.7'' (Itoa DefaultTLSPort) @ ''/''\<rparr>"

lemma address_resolved: "resolveSite (own_installer address_config) m = Inr address_site"
  by (simp add: resolveSite_def resolveIPSite_def chooseIP_def own_installer_def address_config_def plain_config_def test_installer_def
      install_crypto_def SelfSigned_def success_of_def own_made address_site_def Let_def)

lemma fingerprint_is_of_what_is_served_witness:
  "verifyFingerprint toy_sha (st_fingerprint address_site) [''own''] = Inr () \<and>
   verifyFingerprint toy_sha (st_fingerprint address_site) [''leaf''] \<noteq> Inr () \<and>
   verifyFingerprint toy_sha (st_fingerprint address_site) [] \<noteq> Inr ()"
proof -
  have site: "st_how address_site = AtIPWithTLS" "in_crypto (own_installer address_config) = install_crypto own_env own_library"
    and sha: "ce_sha256 own_env = toy_sha" "ce_sha256 own_env x \<noteq> []" for x
    by (simp_all add: address_site_def own_installer_def own_env_def toy_sha_def)
  have apart: "toy_sha ''leaf'' \<noteq> toy_sha ''own''" by (simp add: toy_sha_def)
  have d: "pk_Decode own_pki (pem_encode ''CERTIFICATE'' ''own'') = Some ''own''"
    using own_reads(2) [unfolded reads_pem_def, rule_format, of "''CERTIFICATE''" "''own''" "[]"] by simp
  note f = fingerprint_is_of_what_is_served [OF address_resolved site own_reads sha(2), unfolded sha(1)]
  from f [of "''own''" "[]"] f [of "''leaf''" "[]"] d apart show ?thesis
    by (auto simp: address_site_def)
qed

section \<open>A domain\<close>

definition domain_config :: installConfig where
  "domain_config = plain_config\<lparr>cf_domain := ''d.example'', cf_plainHTTP := False\<rparr>"

definition domain_site :: site where
  "domain_site = \<lparr>st_how = AtDomain, st_domain = ''d.example'', st_ip = [], st_certPEM = Some (pem_encode ''CERTIFICATE'' ''own''),
     st_keyPEM = pem_encode ''PRIVATE KEY'' ''k'', st_fingerprint = [], st_manageCert = True,
     st_mode = ''published'', st_url = ''https://d.example/''\<rparr>"

lemma domain_resolved: "resolveSite (own_installer domain_config) m = Inr domain_site"
  by (simp add: resolveSite_def resolveDomainSite_def resolveManagedDomainSite_def checkDomainResolves_def own_installer_def domain_config_def
      plain_config_def test_installer_def install_crypto_def SelfSignedForDomain_def success_of_def own_made domain_site_def Let_def)

definition own_files_at :: fs where
  "own_files_at = [TLSCert \<mapsto> \<lparr>f_data = pem_encode ''CERTIFICATE'' ''own'', f_mode = readableMode\<rparr>,
     TLSKey \<mapsto> \<lparr>f_data = pem_encode ''PRIVATE KEY'' ''k'', f_mode = keyMode\<rparr>]"

definition own_state :: acme_state where
  "own_state = \<lparr>as_files = own_files_at, as_tokens = Map.empty, as_asked = [], as_past = []\<rparr>"

definition own_machine :: "fs \<Rightarrow> (Fake_Host \<times> Fake_Manager) machine" where
  "own_machine files = ((fst (dokku_machine False))\<lparr>w_files := files\<rparr>, snd (dokku_machine False))"

lemma own_paths: "am_path test_certs CertFile = TLSCert" "am_path test_certs KeyFile = TLSKey"
  by (simp_all add: am_path_def test_certs_def CertFile_def KeyFile_def TLSCert_def TLSKey_def)

lemma own_at: "own_files_at TLSCert = Some \<lparr>f_data = pem_encode ''CERTIFICATE'' ''own'', f_mode = readableMode\<rparr>"
    "own_files_at TLSKey = Some \<lparr>f_data = pem_encode ''PRIVATE KEY'' ''k'', f_mode = keyMode\<rparr>" "own_files_at (am_path test_certs AccountKeyFile) = None"
  by (simp_all add: own_files_at_def TLSCert_def TLSKey_def am_path_def test_certs_def AccountKeyFile_def)

lemma own_needs: "needsCertificate own_acme test_certs own_state"
  using first_block_encoded [of "''CERTIFICATE''" "''own''" "[]"]
  by (simp add: needsCertificate_def own_paths own_state_def os_Read_def own_at leafOf_def) (simp add: own_acme_def test_acme_def own_pki_def test_pki_def)

lemma own_issuable: "issuable own_acme test_certs own_state"
proof -
  have d: "am_Domain test_certs \<noteq> []" by (simp add: test_certs_def)
  show ?thesis
    using own_needs d
    by (simp add: issuable_def Let_def writable_def provable_def finalizes_def register_answer_def http01_def own_state_def own_at)
      (simp add: own_acme_def own_pki_def test_acme_def test_ca_def test_pki_def)
qed

lemma own_will_do: "handed_out own_acme chain \<Longrightarrow> will_do own_acme test_certs (hd chain)"
  by (auto simp: handed_out_def will_do_def own_acme_def own_pki_def test_acme_def test_ca_def test_pki_def test_certs_def renewBefore_def)

lemma placeholder_gives_way_witness:
  "needsCertificate own_acme test_certs own_state \<and> \<not> needsCertificate own_acme test_certs (snd (Ensure own_acme test_certs own_state)) \<and>
   issuedCertificate (own_installer domain_config) (own_machine (as_files (snd (Ensure own_acme test_certs own_state)))) \<noteq> None"
proof -
  obtain r st' where run: "Ensure own_acme test_certs own_state = (r, st')" by (rule prod.exhaust)
  have "issued r" using issues [OF own_issuable] run by simp
  have cr: "in_crypto (own_installer domain_config) = install_crypto own_env own_library" and root: "in_root (own_installer domain_config) = []"
    and works: "in_works (own_installer domain_config) ''read'' TLSCert" and dir: "am_Dir test_certs = TLSDir"
    by (simp_all add: own_installer_def test_installer_def test_certs_def)
  have p: "ae_pki own_acme = own_pki" "ae_read own_acme (am_path test_certs CertFile)" by (simp_all add: own_acme_def test_acme_def)
  have files: "as_files own_state = file_at (own_machine own_files_at)" "file_at (own_machine f) = f" for f
    by (simp_all add: own_state_def own_machine_def)
  have placed: "certificate_in_place (own_installer domain_config) domain_site (own_machine own_files_at)"
    using root by (simp add: certificate_in_place_def domain_site_def files(2) own_at path_def Rooted_def)
  have managed: "st_manageCert domain_site" by (simp add: domain_site_def)
  have x: "x509_reads own_env (pk_ParseCertificate (ae_pki own_acme))" "reads_pem (ae_pki own_acme)"
    "same_x509 (ae_pki own_acme) (in_crypto (own_installer domain_config))"
    using own_reads own_same by (simp_all add: p(1))
  from placeholder_gives_way [OF domain_resolved managed cr root placed files(1) dir x run \<open>issued r\<close> own_will_do p(2) works files(2)] run
  show ?thesis by simp
qed

end
