(* ===== verification/Store_Open.thy ===== *)
theory Store_Open
  imports Store_Migrate Install
begin

text \<open>
  internal/store/store.go: opening and closing the database file. A database is the tables, the
  schema that has been applied, and the files it is in: the rest of a machine is the former, the files
  are the machine's. What SQLite writes to its files, and when, is an argument; what the package
  relies on of it is the predicate sqlite_keeps.
\<close>

section \<open>The name of the file\<close>

definition dirPerm :: nat where "dirPerm = 448"
definition filePerm :: nat where "filePerm = 384"
definition busyTimeout :: int where "busyTimeout = 5000000000"

definition escape_char :: "char \<Rightarrow> string" where
  "escape_char c = (if c = CHR ''%'' then ''%25'' else if c = CHR ''?'' then ''%3f'' else if c = CHR 0x23 then ''%23'' else [c])"

text \<open>ToSlash is the identity where the separator is a slash.\<close>

definition dsn :: "string \<Rightarrow> string" where
  "dsn p = ''file:'' @ concat (map escape_char p) @ ''?_pragma=foreign_keys(1)&_pragma=busy_timeout('' @
     Itoa (busyTimeout div 1000000) @ '')''"

section \<open>Opening\<close>

record database =
  da_schema :: schema
  da_tables :: db

datatype phase = Switching | Migrating | Writing | Closing

text \<open>
  The rest of what opening rests on: which calls work, what SQLite does to its files in each phase,
  what the journal mode ends up as (None is an error of the query), the faults of the migrations,
  and the clock.
\<close>

record store_env =
  sn_works :: "string \<Rightarrow> string \<Rightarrow> bool"
  sn_touch :: "phase \<Rightarrow> fs \<Rightarrow> fs"
  sn_journal :: "string option"
  sn_query :: sqlite
  sn_queries :: "int \<Rightarrow> sqlite"
  sn_clock :: nanos

datatype open_error =
    FilesFailed string string     \<comment> \<open>which call, on which path\<close>
  | CouldNotOpen
  | CouldNotSwitch
  | StayedIn string
  | CouldNotMigrate store_error

definition touched :: "store_env \<Rightarrow> phase \<Rightarrow> 'h machine \<Rightarrow> 'h machine" where
  "touched e ph m = ((fst m)\<lparr>w_files := sn_touch e ph (file_at m)\<rparr>, snd m)"

definition prepareFiles :: "store_env \<Rightarrow> string \<Rightarrow> 'h machine \<Rightarrow> (open_error + unit) \<times> 'h machine" where
  "prepareFiles e p m =
     (let dir = path_dir p in
      if \<not> sn_works e ''mkdir'' dir then (Inl (FilesFailed ''mkdir'' dir), m)
      else let m = MkdirAll dir dirPerm m in
        if \<not> sn_works e ''chmod'' dir then (Inl (FilesFailed ''chmod'' dir), m)
        else let m = put_dir dir dirPerm m in
          if \<not> sn_works e ''open'' p then (Inl (FilesFailed ''open'' p), m)
          else let m = (case file_at m p of None \<Rightarrow> put_file p \<lparr>f_data = [], f_mode = filePerm\<rparr> m | Some _ \<Rightarrow> m) in
            if \<not> sn_works e ''close'' p then (Inl (FilesFailed ''close'' p), m)
            else (case on_files (os_Chmod (sn_works e ''chmod'' p) p filePerm) m of
                (Inl _, m) \<Rightarrow> (Inl (FilesFailed ''chmod'' p), m) | (Inr _, m) \<Rightarrow> (Inr (), m)))"

text \<open>One sidecar, which may not be there.\<close>

definition restrict_one :: "store_env \<Rightarrow> string \<Rightarrow> 'h machine \<Rightarrow> (open_error + unit) \<times> 'h machine" where
  "restrict_one e p m = (case on_files (os_Chmod (sn_works e ''chmod'' p) p filePerm) m of
     (Inl err, m) \<Rightarrow> (if err = NotExist then Inr () else Inl (FilesFailed ''chmod'' p), m) | (Inr _, m) \<Rightarrow> (Inr (), m))"

definition restrictSidecars :: "store_env \<Rightarrow> string \<Rightarrow> 'h machine \<Rightarrow> (open_error + unit) \<times> 'h machine" where
  "restrictSidecars e p m =
     (case restrict_one e (p @ ''-wal'') m of (Inl err, m) \<Rightarrow> (Inl err, m) | (Inr _, m) \<Rightarrow> restrict_one e (p @ ''-shm'') m)"

definition enableWAL :: "store_env \<Rightarrow> 'h machine \<Rightarrow> (open_error + unit) \<times> 'h machine" where
  "enableWAL e m =
     (case sn_journal e of None \<Rightarrow> Inl CouldNotSwitch
      | Some mode \<Rightarrow> if \<not> EqualFold mode ''wal'' then Inl (StayedIn mode) else Inr (), touched e Switching m)"

definition migrated :: "store_env \<Rightarrow> database machine \<Rightarrow> (open_error + unit) \<times> database machine" where
  "migrated e m =
     (let (r, s) = migrate (sn_query e) (sn_queries e) (sn_clock e) (da_schema (snd m)); (w, d) = touched e Migrating m
      in (map_sum CouldNotMigrate id r, w, d\<lparr>da_schema := s\<rparr>))"

text \<open>The error of a close is dropped where opening fails, and reported by Close itself.\<close>

definition closed :: "store_env \<Rightarrow> 'h machine \<Rightarrow> 'h machine" where
  "closed e m = touched e Closing m"

definition Close :: "store_env \<Rightarrow> string \<Rightarrow> 'h machine \<Rightarrow> (open_error + unit) \<times> 'h machine" where
  "Close e p m = (if sn_works e ''close database'' p then Inr () else Inl (FilesFailed ''close database'' p), closed e m)"

definition Open :: "store_env \<Rightarrow> string \<Rightarrow> database machine \<Rightarrow> (open_error + unit) \<times> database machine" where
  "Open e p m =
     (case prepareFiles e p m of
        (Inl err, m) \<Rightarrow> (Inl err, m)
      | (Inr _, m) \<Rightarrow>
        if \<not> sn_works e ''open database'' (dsn p) then (Inl CouldNotOpen, m)
        else (case enableWAL e m of
            (Inl err, m) \<Rightarrow> (Inl err, closed e m)
          | (Inr _, m) \<Rightarrow>
            (case migrated e m of
               (Inl err, m) \<Rightarrow> (Inl err, closed e m)
             | (Inr _, m) \<Rightarrow>
               (case restrictSidecars e p m of
                  (Inl err, m) \<Rightarrow> (Inl err, closed e m)
                | (Inr _, m) \<Rightarrow> (Inr (), m)))))"

section \<open>The name SQLite reads\<close>

text \<open>How SQLite reads a URI: up to a question mark or a hash, with percent escapes.\<close>

definition hex_digit :: "char \<Rightarrow> nat option" where
  "hex_digit c = (let n = (of_char c :: nat) in
     if 48 \<le> n \<and> n \<le> 57 then Some (n - 48) else if 97 \<le> n \<and> n \<le> 102 then Some (n - 87) else if 65 \<le> n \<and> n \<le> 70 then Some (n - 55) else None)"

fun uri_path :: "string \<Rightarrow> string" where
  "uri_path [] = []"
| "uri_path (c # cs) =
     (if c = CHR ''?'' \<or> c = CHR 0x23 then []
      else if c = CHR ''%'' then (case cs of a # b # rest \<Rightarrow>
          (case (hex_digit a, hex_digit b) of (Some x, Some y) \<Rightarrow> char_of (16 * x + y) # uri_path rest | _ \<Rightarrow> c # uri_path cs)
        | _ \<Rightarrow> c # uri_path cs)
      else c # uri_path cs)"

lemma escaped_char: "uri_path (escape_char c @ rest) = c # uri_path rest"
proof -
  have "hex_digit (CHR ''2'') = Some 2" "hex_digit (CHR ''5'') = Some 5" "hex_digit (CHR ''3'') = Some 3" "hex_digit (CHR ''f'') = Some 15"
    by (simp_all add: hex_digit_def)
  then show ?thesis by (simp add: escape_char_def char_of_eq_iff)
qed

lemma escaped: "uri_path (concat (map escape_char p) @ CHR ''?'' # rest) = p"
  by (induction p) (simp_all add: escaped_char)

lemma dsn_path: "uri_path (drop 5 (dsn p)) = p"
  using escaped by (simp add: dsn_def)

section \<open>Private files\<close>

text \<open>
  What is relied on of SQLite: it touches the database and its two sidecars, keeps the mode of the
  database and does not remove it.
\<close>

definition sqlite_keeps :: "store_env \<Rightarrow> string \<Rightarrow> bool" where
  "sqlite_keeps e p \<longleftrightarrow> (\<forall>ph files. (\<forall>q. q \<notin> {p, p @ ''-wal'', p @ ''-shm''} \<longrightarrow> sn_touch e ph files q = files q) \<and>
     map_option f_mode (sn_touch e ph files p) = map_option f_mode (files p))"

definition private_database :: "string \<Rightarrow> 'h machine \<Rightarrow> bool" where
  "private_database p m \<longleftrightarrow> dir_at m (path_dir p) = Some dirPerm \<and> map_option f_mode (file_at m p) = Some filePerm"

definition private_sidecars :: "string \<Rightarrow> 'h machine \<Rightarrow> bool" where
  "private_sidecars p m \<longleftrightarrow> (\<forall>q \<in> {p @ ''-wal'', p @ ''-shm''}. \<forall>f. file_at m q = Some f \<longrightarrow> f_mode f = filePerm)"

text \<open>Nothing but the database's three files and its directory.\<close>

definition only_database :: "string \<Rightarrow> 'h machine \<Rightarrow> 'h machine \<Rightarrow> bool" where
  "only_database p m m' \<longleftrightarrow> (\<forall>q. q \<notin> {p, p @ ''-wal'', p @ ''-shm''} \<longrightarrow> file_at m' q = file_at m q) \<and>
     (\<forall>q. q \<noteq> path_dir p \<longrightarrow> dir_at m' q = dir_at m q)"

lemma only_database_refl [simp]: "only_database p m m"
  by (simp add: only_database_def)

lemma only_database_trans: "only_database p m m1 \<Longrightarrow> only_database p m1 m2 \<Longrightarrow> only_database p m m2"
  by (simp add: only_database_def)

lemma touched_keeps:
  assumes "sqlite_keeps e p"
  shows "only_database p m (touched e ph m)" "private_database p m \<Longrightarrow> private_database p (touched e ph m)"
  using assms by (simp_all add: sqlite_keeps_def only_database_def private_database_def touched_def)

lemma prepared:
  assumes "prepareFiles e p m = (r, m')"
  shows "only_database p m m'" "r = Inr u \<Longrightarrow> private_database p m'" "snd m' = snd m"
proof -
  have chmod: "only_database p m1 m2 \<and> snd m2 = snd m1 \<and> (r = Inr u \<longrightarrow> map_option f_mode (file_at m2 p) = Some filePerm \<and> dir_at m2 = dir_at m1)"
    if "on_files (os_Chmod w p filePerm) m1 = (r, m2)" for w m1 m2 u and r :: "os_error + unit"
    using that by (auto simp: on_files_def os_Chmod_def only_database_def split: option.splits if_splits)
  define m1 where "m1 = put_dir (path_dir p) dirPerm (MkdirAll (path_dir p) dirPerm m)"
  define m2 where "m2 = (case file_at m1 p of None \<Rightarrow> put_file p \<lparr>f_data = [], f_mode = filePerm\<rparr> m1 | Some _ \<Rightarrow> m1)"
  have m0: "only_database p m (MkdirAll (path_dir p) dirPerm m)" "snd (MkdirAll (path_dir p) dirPerm m) = snd m"
    by (auto simp: MkdirAll_def only_database_def split: option.split)
  have m1: "only_database p m m1" "snd m1 = snd m" "dir_at m1 (path_dir p) = Some dirPerm"
    using m0 by (auto simp: m1_def only_database_def)
  have m2: "only_database p m m2" "snd m2 = snd m" "dir_at m2 (path_dir p) = Some dirPerm"
    using m1 by (auto simp: m2_def only_database_def split: option.split)
  obtain x m3 where x: "on_files (os_Chmod (sn_works e ''chmod'' p) p filePerm) m2 = (x, m3)" by (rule prod.exhaust)
  note run = assms [unfolded prepareFiles_def Let_def, folded m1_def, folded m2_def, unfolded x]
  have c: "only_database p m m3" "snd m3 = snd m" "x = Inr u \<Longrightarrow> private_database p m3" for u
    using chmod [OF x] only_database_trans [OF m2(1)] m2 by (auto simp: private_database_def)
  show "only_database p m m'" "snd m' = snd m" using run m0 m1 m2 c by (auto split: if_splits sum.splits)
  show "r = Inr u \<Longrightarrow> private_database p m'" using run c(3) by (auto split: if_splits sum.splits)
qed

lemma restricted_one:
  assumes "restrict_one e q m = (r, m')"
  shows "\<forall>x. x \<noteq> q \<longrightarrow> file_at m' x = file_at m x" "dir_at m' = dir_at m" "snd m' = snd m"
    "r = Inr u \<Longrightarrow> file_at m' q = Some f \<Longrightarrow> f_mode f = filePerm"
  using assms by (auto simp: restrict_one_def on_files_def os_Chmod_def split: option.splits if_splits)

lemma restricted:
  assumes "restrictSidecars e p m = (r, m')"
  shows "only_database p m m'" "private_database p m \<Longrightarrow> private_database p m'" "r = Inr u \<Longrightarrow> private_sidecars p m'"
proof -
  obtain x m1 where a: "restrict_one e (p @ ''-wal'') m = (x, m1)" by (rule prod.exhaust)
  note A = restricted_one [OF a]
  have b: "x = Inr v \<Longrightarrow> restrict_one e (p @ ''-shm'') m1 = (r, m')" "x = Inl err \<Longrightarrow> r = Inl err \<and> m' = m1" for v err
    using assms a by (auto simp: restrictSidecars_def)
  show "only_database p m m'"
    using b A(1,2) restricted_one(1,2) [OF b(1)] by (cases x) (auto simp: only_database_def)
  show "private_database p m \<Longrightarrow> private_database p m'"
    using b A(1,2) restricted_one(1,2) [OF b(1)] by (cases x) (auto simp: private_database_def)
  show "r = Inr u \<Longrightarrow> private_sidecars p m'"
    using b A(4) restricted_one(1,4) [OF b(1)] by (cases x) (auto simp: private_sidecars_def)
qed

lemma restricted_rest: "restrictSidecars e p m = (r, m') \<Longrightarrow> snd m' = snd m"
  by (auto simp: restrictSidecars_def split: prod.splits sum.splits dest!: restricted_one(3))

lemma opened:
  assumes "Open e p m = (r, m')" "sqlite_keeps e p"
  shows "only_database p m m' \<and> (r = Inr u \<longrightarrow> private_database p m' \<and> private_sidecars p m') \<and>
    (\<forall>m1. prepareFiles e p m = (Inr (), m1) \<longrightarrow> private_database p m')"
proof -
  obtain r1 m1 where 1: "prepareFiles e p m = (r1, m1)" by (rule prod.exhaust)
  obtain r2 m2 where 2: "enableWAL e m1 = (r2, m2)" by (rule prod.exhaust)
  obtain r3 m3 where 3: "migrated e m2 = (r3, m3)" by (rule prod.exhaust)
  obtain r4 m4 where 4: "restrictSidecars e p m3 = (r4, m4)" by (rule prod.exhaust)
  note t = touched_keeps [OF assms(2)]
  have m2: "m2 = touched e Switching m1" using 2 by (simp add: enableWAL_def)
  have m3: "fst m3 = fst (touched e Migrating m2)" using 3 by (auto simp: migrated_def split_beta)
  have same: "only_database p m2 m3 \<longleftrightarrow> only_database p m2 (touched e Migrating m2)" "private_database p m3 \<longleftrightarrow> private_database p (touched e Migrating m2)"
    by (simp_all add: only_database_def private_database_def m3)
  have o1: "only_database p m m1" by (rule prepared(1) [OF 1])
  have o2: "only_database p m m2" using only_database_trans [OF o1 t(1)] by (simp add: m2)
  have o3: "only_database p m m3" using only_database_trans [OF o2] t(1) same(1) by blast
  have o4: "only_database p m m4" using only_database_trans [OF o3 restricted(1) [OF 4]] .
  have oc: "only_database p m (closed e x)" if "only_database p m x" for x :: "database machine"
    unfolding closed_def by (rule only_database_trans [OF that t(1)])
  have pc: "private_database p (closed e x)" if "private_database p x" for x :: "database machine"
    unfolding closed_def by (rule t(2) [OF that])
  note run = assms(1) [unfolded Open_def 1 prod.case]
  have "only_database p m m'"
    using run 2 3 4 o1 o2 o3 o4 oc [OF o2] oc [OF o3] oc [OF o4] by (auto split: sum.splits if_splits)
  moreover have "private_database p m' \<and> (r = Inr u \<longrightarrow> private_sidecars p m')" if "r1 = Inr v" for v
  proof -
    have p1: "private_database p m1" using prepared(2) [OF 1 that] .
    have p2: "private_database p m2" using t(2) [OF p1] by (simp add: m2)
    have p3: "private_database p m3" using t(2) [OF p2] same(2) by blast
    have p4: "private_database p m4" "r4 = Inr v \<Longrightarrow> private_sidecars p m4" for v using restricted(2,3) [OF 4] p3 by blast+
    show ?thesis using run that 2 3 4 p1 p2 p3 p4 pc [OF p2] pc [OF p3] pc [OF p4(1)] by (auto split: sum.splits if_splits)
  qed
  moreover have "r = Inr u \<Longrightarrow> \<exists>v. r1 = Inr v" using run by (cases r1) auto
  ultimately show ?thesis using 1 by auto
qed


text \<open>A database that was left readable by all, with a sidecar.\<close>

definition open_database :: "database machine" where
  "open_database = (\<lparr>w_files = [''/d/a.db'' \<mapsto> \<lparr>f_data = ''x'', f_mode = 420\<rparr>, ''/d/a.db-wal'' \<mapsto> \<lparr>f_data = ''y'', f_mode = 420\<rparr>],
       w_dirs = [''/d'' \<mapsto> 493]\<rparr>, \<lparr>da_schema = no_schema, da_tables = empty_db\<rparr>)"

definition healthy_store :: store_env where
  "healthy_store = \<lparr>sn_works = (\<lambda>c p. True), sn_touch = (\<lambda>ph files. files), sn_journal = Some ''wal'', sn_query = healthy,
     sn_queries = (\<lambda>v. healthy), sn_clock = 0\<rparr>"


end
