(* ===== verification/Setup_Token.thy ===== *)
theory Setup_Token
  imports Store_Open Store Secret
begin

text \<open>
  internal/cli/setuptoken.go: the command that mints a setup token into the database and hands the
  database back to the account of the service, which is also what ends an installation. What is
  printed around the token is not kept: the token, its expiry and the files that could not be given.
\<close>

section \<open>Minting\<close>

definition TokenLifetime :: int where "TokenLifetime = 1800000000000"
definition setupTokenIssuedAction :: string where "setupTokenIssuedAction = ''setup-token.issued''"

record setupTokenIssued =
  si_token :: string
  si_expires :: nanos

datatype token_error =
    NotPositive int
  | NotOpened open_error
  | NotDrawn
  | NotStored store_error
  | NotClosed open_error

text \<open>
  The rest of what minting rests on: the hash, the bytes drawn, the faults of the two writes, and the
  clock when the expiry is computed, at the issue and at the record.
\<close>

record mint_env =
  mt_store :: store_env
  mt_sha256 :: "string \<Rightarrow> string"
  mt_rand :: "string option"
  mt_issue :: sqlite
  mt_record :: sqlite
  mt_asked :: nanos
  mt_issued :: nanos
  mt_recorded :: nanos

definition on_tables :: "(db \<Rightarrow> 'r \<times> db) \<Rightarrow> database machine \<Rightarrow> 'r \<times> database machine" where
  "on_tables f m = (let (r, d) = f (da_tables (snd m)) in (r, fst m, (snd m)\<lparr>da_tables := d\<rparr>))"

definition setupTokenWrite :: "mint_env \<Rightarrow> int \<Rightarrow> db \<Rightarrow> (token_error + setupTokenIssued) \<times> db" where
  "setupTokenWrite e ttl d =
     (case NewToken (mt_sha256 e) (mt_rand e) of
        None \<Rightarrow> (Inl NotDrawn, d)
      | Some (token, hash) \<Rightarrow>
        (case IssueSetupToken (mt_issue e) (mt_issued e) hash (mt_asked e + ttl) d of
           (Inl err, d) \<Rightarrow> (Inl (NotStored err), d)
         | (Inr stored, d) \<Rightarrow>
           (case RecordUnauthenticated (mt_record e) (mt_recorded e)
               \<lparr>req_operator_id = 0, req_action = setupTokenIssuedAction, req_target = [], req_config_key = []\<rparr> d of
              (Inl err, d) \<Rightarrow> (Inl (NotStored err), d)
            | (Inr _, d) \<Rightarrow> (Inr \<lparr>si_token = token, si_expires = instant (tok_expires_at stored)\<rparr>, d))))"

definition setupTokenMint :: "mint_env \<Rightarrow> string \<Rightarrow> int \<Rightarrow> database machine \<Rightarrow> (token_error + setupTokenIssued) \<times> database machine" where
  "setupTokenMint e p ttl m =
     (case Open (mt_store e) p m of
        (Inl err, m) \<Rightarrow> (Inl (NotOpened err), m)
      | (Inr _, m) \<Rightarrow>
        (let (issued, m) = on_tables (setupTokenWrite e ttl) m;
             (close, m) = Close (mt_store e) p (touched (mt_store e) Writing m)
         in (case issued of Inl err \<Rightarrow> Inl err
             | Inr t \<Rightarrow> (case close of Inl err \<Rightarrow> Inl (NotClosed err) | Inr _ \<Rightarrow> Inr t), m)))"

section \<open>The database handed back\<close>

text \<open>The process's uid, the account of the service, and what changing an owner answers.\<close>

record setupTokenHost =
  th_geteuid :: int
  th_account :: "(int \<times> int) option"
  th_chown :: "string \<Rightarrow> int \<Rightarrow> int \<Rightarrow> os_error option"

text \<open>os/user, and two numbers that must be read.\<close>

definition setupTokenServiceAccount :: "(string \<Rightarrow> string option) \<Rightarrow> (string \<Rightarrow> string option) \<Rightarrow> (int \<times> int) option" where
  "setupTokenServiceAccount lookup lookupGroup =
     (case lookup User of None \<Rightarrow> None
      | Some u \<Rightarrow>
        (case lookupGroup Group of None \<Rightarrow> None
         | Some g \<Rightarrow>
           (case Atoi u of None \<Rightarrow> None
            | Some uid \<Rightarrow> (case Atoi g of None \<Rightarrow> None | Some gid \<Rightarrow> Some (uid, gid)))))"

datatype given =
    NothingToGive
  | NoServiceAccount string
  | Given "(string \<times> int \<times> int) list" "string list"    \<comment> \<open>the files that changed hands, and those that did not\<close>

definition database_files :: "string \<Rightarrow> string list" where
  "database_files p = [path_dir p, p, p @ ''-wal'', p @ ''-shm'']"

text \<open>A file that is not there is neither given nor complained of.\<close>

definition setupTokenGiveDatabaseToTheService :: "setupTokenHost \<Rightarrow> string \<Rightarrow> given" where
  "setupTokenGiveDatabaseToTheService h p =
     (if th_geteuid h \<noteq> 0 then NothingToGive
      else (case th_account h of
          None \<Rightarrow> NoServiceAccount p
        | Some (uid, gid) \<Rightarrow>
          Given (map (\<lambda>f. (f, uid, gid)) (filter (\<lambda>f. th_chown h f uid gid = None) (database_files p)))
            (filter (\<lambda>f. th_chown h f uid gid \<notin> {None, Some NotExist}) (database_files p))))"

definition setupTokenIssue :: "mint_env \<Rightarrow> setupTokenHost \<Rightarrow> string \<Rightarrow> int \<Rightarrow> database machine
    \<Rightarrow> (token_error + setupTokenIssued \<times> given) \<times> database machine" where
  "setupTokenIssue e h p ttl m =
     (case setupTokenMint e p ttl m of
        (Inl err, m) \<Rightarrow> (Inl err, m) | (Inr issued, m) \<Rightarrow> (Inr (issued, setupTokenGiveDatabaseToTheService h p), m))"

definition runSetupToken :: "mint_env \<Rightarrow> setupTokenHost \<Rightarrow> string \<Rightarrow> int \<Rightarrow> database machine
    \<Rightarrow> (token_error + setupTokenIssued \<times> given) \<times> database machine" where
  "runSetupToken e h p ttl m = (if ttl \<le> 0 then (Inl (NotPositive ttl), m) else setupTokenIssue e h p ttl m)"

section \<open>A token that is shown\<close>

definition the_issue :: "mint_env \<Rightarrow> audit_row" where
  "the_issue e = audit_row_of None [] \<lparr>req_operator_id = 0, req_action = setupTokenIssuedAction, req_target = [], req_config_key = []\<rparr>
     (now (mt_recorded e))"

lemma write_shown:
  assumes "setupTokenWrite e ttl d = (Inr issued, d')"
  shows "\<exists>t. d' = sql_insert_audit (the_issue e) (d\<lparr>setup_tokens := [t]\<rparr>) \<and>
    tok_token_hash t = HashToken (mt_sha256 e) (si_token issued) \<and> instant (tok_expires_at t) = si_expires issued \<and>
    si_expires issued \<le> mt_asked e + ttl \<and> instant (now (mt_issued e)) < mt_asked e + ttl \<and> \<not> has_owner d"
proof -
  obtain token hash where n: "NewToken (mt_sha256 e) (mt_rand e) = Some (token, hash)"
    using assms by (auto simp: setupTokenWrite_def split: option.splits)
  then have hash: "hash = HashToken (mt_sha256 e) token" by (auto simp: NewToken_def Let_def split: option.splits)
  obtain r1 d1 where i: "IssueSetupToken (mt_issue e) (mt_issued e) hash (mt_asked e + ttl) d = (r1, d1)" by (rule prod.exhaust)
  obtain stored where r1: "r1 = Inr stored" using assms n i by (cases r1) (auto simp: setupTokenWrite_def)
  note ok = IssueSetupToken_ok [of "mt_issue e" "mt_issued e" hash "mt_asked e + ttl" d stored]
  have stored: "stored = \<lparr>tok_token_hash = hash, tok_created_at = now (mt_issued e), tok_expires_at = millis (mt_asked e + ttl)\<rparr>"
    "d1 = d\<lparr>setup_tokens := [stored]\<rparr>" "instant (now (mt_issued e)) < mt_asked e + ttl" "\<not> has_owner d"
    using ok i r1 by simp_all
  have "d' = sql_insert_audit (the_issue e) d1 \<and> issued = \<lparr>si_token = token, si_expires = instant (tok_expires_at stored)\<rparr>"
    using assms n i r1
    by (auto simp: setupTokenWrite_def RecordUnauthenticated_def the_issue_def setupTokenIssuedAction_def call_def split: sum.splits if_splits)
  with stored hash instant_millis_le show ?thesis by auto
qed

lemma write_refused:
  assumes "setupTokenWrite e ttl d = (Inl err, d')"
  shows "operators d' = operators d \<and> sessions d' = sessions d \<and> audit_entries d' = audit_entries d \<and>
    (setup_tokens d' = setup_tokens d \<or> (\<exists>t. setup_tokens d' = [t] \<and> \<not> has_owner d))"
proof (cases "NewToken (mt_sha256 e) (mt_rand e)")
  case None
  with assms show ?thesis by (simp add: setupTokenWrite_def)
next
  case (Some th)
  obtain token hash where th: "th = (token, hash)" by (rule prod.exhaust)
  obtain r1 d1 where i: "IssueSetupToken (mt_issue e) (mt_issued e) hash (mt_asked e + ttl) d = (r1, d1)" by (rule prod.exhaust)
  show ?thesis
  proof (cases r1)
    case (Inl x)
    with IssueSetupToken_error [of "mt_issue e" "mt_issued e" hash "mt_asked e + ttl" d x] i have "d1 = d" by simp
    with assms Some th i Inl show ?thesis by (simp add: setupTokenWrite_def)
  next
    case (Inr stored)
    with IssueSetupToken_ok [of "mt_issue e" "mt_issued e" hash "mt_asked e + ttl" d stored] i
    have d1: "d1 = d\<lparr>setup_tokens := [stored]\<rparr>" "\<not> has_owner d" by simp_all
    have "d' = d1"
      using assms Some th i Inr
      by (auto simp: setupTokenWrite_def RecordUnauthenticated_def call_def split: sum.splits if_splits)
    with d1 show ?thesis by auto
  qed
qed

lemma on_tables_run: "on_tables f m = (r, m') \<longleftrightarrow> (\<exists>d. f (da_tables (snd m)) = (r, d) \<and> m' = (fst m, (snd m)\<lparr>da_tables := d\<rparr>))"
  by (auto simp: on_tables_def split: prod.splits)

text \<open>Opening, closing and SQLite's files leave the tables.\<close>

lemma tables_touched [simp]: "snd (touched e ph m) = snd m" "snd (closed e m) = snd m"
  by (simp_all add: touched_def closed_def)

lemma tables_Open:
  assumes "Open e p m = (r, m')"
  shows "da_tables (snd m') = da_tables (snd m)"
proof -
  obtain r1 m1 where 1: "prepareFiles e p m = (r1, m1)" by (rule prod.exhaust)
  obtain r2 m2 where 2: "enableWAL e m1 = (r2, m2)" by (rule prod.exhaust)
  obtain r3 m3 where 3: "migrated e m2 = (r3, m3)" by (rule prod.exhaust)
  obtain r4 m4 where 4: "restrictSidecars e p m3 = (r4, m4)" by (rule prod.exhaust)
  have s: "snd m1 = snd m" "snd m2 = snd m1" "da_tables (snd m3) = da_tables (snd m2)" "snd m4 = snd m3"
    using prepared(3) [OF 1] 2 3 restricted_rest [OF 4]
    by (auto simp: enableWAL_def migrated_def split_beta)
  with assms [unfolded Open_def 1 prod.case] 2 3 4 show ?thesis by (auto split: sum.splits if_splits)
qed

lemma mint_tables:
  assumes "setupTokenMint e p ttl m = (r, m')"
  shows "da_tables (snd m') = da_tables (snd m) \<or> setupTokenWrite e ttl (da_tables (snd m)) = (r, da_tables (snd m')) \<or>
    (\<exists>t err. setupTokenWrite e ttl (da_tables (snd m)) = (Inr t, da_tables (snd m')) \<and> r = Inl (NotClosed err))"
    "r = Inr issued \<Longrightarrow> setupTokenWrite e ttl (da_tables (snd m)) = (Inr issued, da_tables (snd m'))"
proof -
  obtain r1 m1 where o: "Open (mt_store e) p m = (r1, m1)" by (rule prod.exhaust)
  obtain w d where w: "setupTokenWrite e ttl (da_tables (snd m1)) = (w, d)" by (rule prod.exhaust)
  have same: "da_tables (snd m1) = da_tables (snd m)" by (rule tables_Open [OF o])
  show "da_tables (snd m') = da_tables (snd m) \<or> setupTokenWrite e ttl (da_tables (snd m)) = (r, da_tables (snd m')) \<or>
    (\<exists>t err. setupTokenWrite e ttl (da_tables (snd m)) = (Inr t, da_tables (snd m')) \<and> r = Inl (NotClosed err))"
    using assms o w same by (cases r1; cases w) (auto simp: setupTokenMint_def on_tables_def Close_def split: if_splits)
  show "r = Inr issued \<Longrightarrow> setupTokenWrite e ttl (da_tables (snd m)) = (Inr issued, da_tables (snd m'))"
    using assms o w same by (cases r1; cases w) (auto simp: setupTokenMint_def on_tables_def Close_def split: if_splits)
qed

text \<open>What a token that is shown means for the tables, and what a run that shows none can have done.\<close>

definition token_stands :: "mint_env \<Rightarrow> setupTokenIssued \<Rightarrow> db \<Rightarrow> db \<Rightarrow> bool" where
  "token_stands e issued d d' \<longleftrightarrow> \<not> has_owner d' \<and> operators d' = operators d \<and> sessions d' = sessions d \<and>
     (\<exists>t. setup_tokens d' = [t] \<and> tok_token_hash t = HashToken (mt_sha256 e) (si_token issued) \<and> instant (tok_expires_at t) = si_expires issued) \<and>
     audit_entries d' = audit_entries (sql_insert_audit (the_issue e) d) \<and>
     (\<forall>clk. now clk < millis (si_expires issued) \<longleftrightarrow> live_token clk (HashToken (mt_sha256 e) (si_token issued)) d')"

lemma write_stands: "setupTokenWrite e ttl d = (Inr issued, d') \<Longrightarrow> token_stands e issued d d'"
proof -
  assume "setupTokenWrite e ttl d = (Inr issued, d')"
  from write_shown [OF this] obtain t where t: "d' = sql_insert_audit (the_issue e) (d\<lparr>setup_tokens := [t]\<rparr>)"
    "tok_token_hash t = HashToken (mt_sha256 e) (si_token issued)" "instant (tok_expires_at t) = si_expires issued" "\<not> has_owner d" by blast
  have "millis (si_expires issued) = tok_expires_at t" using t(3) by (metis millis_instant)
  with t show ?thesis by (auto simp: token_stands_def sql_insert_audit_def has_owner_def live_token_def)
qed

lemma run_shown:
  assumes "runSetupToken e h p ttl m = (r, m')"
  shows "(case r of Inr (issued, g) \<Rightarrow> 0 < ttl \<and> token_stands e issued (da_tables (snd m)) (da_tables (snd m'))
    | Inl err \<Rightarrow> operators (da_tables (snd m')) = operators (da_tables (snd m)) \<and> sessions (da_tables (snd m')) = sessions (da_tables (snd m)) \<and>
        (has_owner (da_tables (snd m)) \<longrightarrow> da_tables (snd m') = da_tables (snd m)))"
proof (cases "ttl \<le> 0")
  case True
  with assms show ?thesis by (auto simp: runSetupToken_def)
next
  case False
  obtain r1 m1 where mint: "setupTokenMint e p ttl m = (r1, m1)" by (rule prod.exhaust)
  have m1: "m1 = m'" using assms False mint by (auto simp: runSetupToken_def setupTokenIssue_def split: sum.splits)
  note t = mint_tables [OF mint]
  show ?thesis
  proof (cases r1)
    case (Inr issued)
    with t(2) write_stands assms False mint show ?thesis by (auto simp: runSetupToken_def setupTokenIssue_def)
  next
    case (Inl err)
    have shown: "\<not> has_owner d \<and> operators d' = operators d \<and> sessions d' = sessions d" if "setupTokenWrite e ttl d = (Inr x, d')" for d d' x
      using write_stands [OF that] by (auto simp: token_stands_def has_owner_def)
    have refused: "operators d' = operators d \<and> sessions d' = sessions d \<and> (has_owner d \<longrightarrow> d' = d)"
      if "setupTokenWrite e ttl d = (Inl x, d')" for d d' x
      using write_refused [OF that] by auto
    have r: "r = Inl err" using assms False mint Inl by (auto simp: runSetupToken_def setupTokenIssue_def)
    show ?thesis using t(1) refused shown Inl m1 unfolding r by auto
  qed
qed

text \<open>
  C32: A token is shown only if it stands. When the command prints a token, the lifetime asked for was
  positive, there is no owner, the database holds one setup token, which is the hash of the one
  printed, and a redemption finds it live exactly until the expiry printed; the operators and the
  sessions are as they were, and the trail has gained the one entry that says so. When it prints
  none, whichever call failed, the operators and the sessions are as they were, and where there
  is an owner nothing at all has changed.
\<close>

theorem token_shown_stands:
  assumes "runSetupToken e h p ttl m = (r, m')"
  shows "case r of Inr (issued, g) \<Rightarrow> 0 < ttl \<and> token_stands e issued (da_tables (snd m)) (da_tables (snd m'))
    | Inl err \<Rightarrow> operators (da_tables (snd m')) = operators (da_tables (snd m)) \<and> sessions (da_tables (snd m')) = sessions (da_tables (snd m)) \<and>
        (has_owner (da_tables (snd m)) \<longrightarrow> da_tables (snd m') = da_tables (snd m))"
  by (rule run_shown [OF assms])

definition test_mint :: mint_env where
  "test_mint = \<lparr>mt_store = healthy_store, mt_sha256 = (\<lambda>s. ''digest''), mt_rand = Some ''random'', mt_issue = healthy, mt_record = healthy,
     mt_asked = 1000000000, mt_issued = 1001000000, mt_recorded = 1002000000\<rparr>"

definition test_root :: setupTokenHost where
  "test_root = \<lparr>th_geteuid = 0, th_account = Some (999, 999), th_chown = (\<lambda>f u g. if f = ''/d/a.db'' then None else Some NotExist)\<rparr>"

lemma test_open: "fst (Open healthy_store ''/d/a.db'' open_database) = Inr ()"
proof -
  have m: "fst (migrate healthy (\<lambda>v. healthy) 0 no_schema) = Inr ()" by code_simp
  show ?thesis
    by (simp add: Open_def prepareFiles_def healthy_store_def open_database_def on_files_def os_Chmod_def MkdirAll_def path_dir_def Let_def
      enableWAL_def EqualFold_def touched_def migrated_def split_beta m restrictSidecars_def restrict_one_def)
qed

lemma test_issue:
  "\<exists>x. fst (runSetupToken test_mint test_root ''/d/a.db'' TokenLifetime open_database) = Inr x"
proof -
  have hash: "HashToken (\<lambda>s. ''digest'') token \<noteq> []" for token
  proof -
    have "length (HashToken (\<lambda>s. ''digest'') token) = 12" by (simp add: HashToken_def)
    then show ?thesis by auto
  qed
  have "\<exists>x. fst (setupTokenWrite test_mint TokenLifetime empty_db) = Inr x"
    using hash by (simp add: setupTokenWrite_def test_mint_def NewToken_def Let_def IssueSetupToken_def RecordUnauthenticated_def call_def
      TokenLifetime_def instant_def millis_def now_def empty_db_def sql_delete_setup_tokens_def sql_insert_setup_token_def setupTokenIssuedAction_def split_beta)
  then obtain x d where w: "setupTokenWrite test_mint TokenLifetime empty_db = (Inr x, d)" by (metis prod.collapse)
  obtain m1 where o: "Open healthy_store ''/d/a.db'' open_database = (Inr (), m1)" using test_open by (metis prod.collapse)
  have "da_tables (snd m1) = empty_db" using tables_Open [OF o] by (simp add: open_database_def)
  with w o have "\<exists>m2. setupTokenMint test_mint ''/d/a.db'' TokenLifetime open_database = (Inr x, m2)"
    by (simp add: setupTokenMint_def on_tables_def test_mint_def Close_def healthy_store_def)
  then show ?thesis by (auto simp: runSetupToken_def TokenLifetime_def setupTokenIssue_def)
qed

lemma token_shown_stands_witness:
  "\<exists>issued g m'. runSetupToken test_mint test_root ''/d/a.db'' TokenLifetime open_database = (Inr (issued, g), m') \<and>
     token_stands test_mint issued empty_db (da_tables (snd m'))"
proof -
  obtain x m' where run: "runSetupToken test_mint test_root ''/d/a.db'' TokenLifetime open_database = (Inr x, m')"
    using test_issue by (metis prod.collapse)
  obtain issued g where "x = (issued, g)" by (rule prod.exhaust)
  with token_shown_stands [OF run] run show ?thesis
    by (intro exI [of _ issued] exI [of _ g] exI [of _ m']) (simp add: open_database_def)
qed

end
