(* ===== verification/Cli_Flags.thy ===== *)
theory Cli_Flags
  imports Setup_Token Uninstall
begin

text \<open>
  The flags of the subcommands: what internal/cli uses of the package flag (serve.go, newFlagSet and
  parseFlags), the flags that serve, install, update, uninstall and setup-token define, and what
  install and serve make of them. A duration is read by time.ParseDuration, which is an argument.
\<close>

section \<open>The package flag\<close>

datatype flag_value = StringFlag string | BoolFlag bool | DurationFlag int

type_synonym flags = "string \<rightharpoonup> flag_value"

datatype flag_error =
    HelpRequested
  | BadFlagSyntax string
  | FlagNotDefined string
  | FlagNeedsArgument string
  | InvalidFlagValue string string

definition ParseBool :: "string \<Rightarrow> bool option" where
  "ParseBool s = (if s \<in> {''1'', ''t'', ''T'', ''true'', ''TRUE'', ''True''} then Some True
     else if s \<in> {''0'', ''f'', ''F'', ''false'', ''FALSE'', ''False''} then Some False else None)"

definition set_flag :: "(string \<Rightarrow> int option) \<Rightarrow> flag_value \<Rightarrow> string \<Rightarrow> flag_value option" where
  "set_flag duration cur v = (case cur of StringFlag _ \<Rightarrow> Some (StringFlag v)
     | BoolFlag _ \<Rightarrow> map_option BoolFlag (ParseBool v) | DurationFlag _ \<Rightarrow> map_option DurationFlag (duration v))"

text \<open>A name and the value after an equals sign, which cannot be first.\<close>

definition flag_name :: "string \<Rightarrow> string" where
  "flag_name s = hd s # takeWhile ((\<noteq>) (CHR ''='')) (tl s)"

definition flag_inline :: "string \<Rightarrow> string option" where
  "flag_inline s = (if CHR ''='' \<in> set (tl s) then Some (tl (dropWhile ((\<noteq>) (CHR ''='')) (tl s))) else None)"

definition is_bool :: "flag_value \<Rightarrow> bool" where
  "is_bool v = (case v of BoolFlag _ \<Rightarrow> True | _ \<Rightarrow> False)"

text \<open>FlagSet.Parse: the flags as they are set, and the arguments that are left.\<close>

fun flag_Parse :: "(string \<Rightarrow> int option) \<Rightarrow> flags \<Rightarrow> string list \<Rightarrow> flag_error + flags \<times> string list" where
  "flag_Parse duration fl [] = Inr (fl, [])"
| "flag_Parse duration fl (s # rest) =
     (if length s < 2 \<or> hd s \<noteq> CHR ''-'' then Inr (fl, s # rest)
      else if s = ''--'' then Inr (fl, rest)
      else let given = (if s ! 1 = CHR ''-'' then drop 2 s else drop 1 s) in
        if given = [] \<or> hd given = CHR ''-'' \<or> hd given = CHR ''='' then Inl (BadFlagSyntax s)
        else let name = flag_name given in
          (case fl name of
             None \<Rightarrow> Inl (if name \<in> {''help'', ''h''} then HelpRequested else FlagNotDefined name)
           | Some cur \<Rightarrow>
             (case (flag_inline given, is_bool cur, rest) of
                (None, False, []) \<Rightarrow> Inl (FlagNeedsArgument name)
              | (None, False, v # rest) \<Rightarrow>
                (case set_flag duration cur v of None \<Rightarrow> Inl (InvalidFlagValue name v)
                 | Some x \<Rightarrow> flag_Parse duration (fl(name \<mapsto> x)) rest)
              | (inline, _, rest) \<Rightarrow>
                (let v = (case inline of None \<Rightarrow> ''true'' | Some v \<Rightarrow> v) in
                 case set_flag duration cur v of None \<Rightarrow> Inl (InvalidFlagValue name v)
                 | Some x \<Rightarrow> flag_Parse duration (fl(name \<mapsto> x)) rest))))"

definition flag_string :: "flags \<Rightarrow> string \<Rightarrow> string" where
  "flag_string fl name = (case fl name of Some (StringFlag s) \<Rightarrow> s | _ \<Rightarrow> [])"

definition flag_bool :: "flags \<Rightarrow> string \<Rightarrow> bool" where
  "flag_bool fl name = (fl name = Some (BoolFlag True))"

definition flag_duration :: "flags \<Rightarrow> string \<Rightarrow> int" where
  "flag_duration fl name = (case fl name of Some (DurationFlag d) \<Rightarrow> d | _ \<Rightarrow> 0)"

text \<open>parseFlags: the arguments that are left are not looked at.\<close>

definition parseFlags :: "(string \<Rightarrow> int option) \<Rightarrow> flags \<Rightarrow> string list \<Rightarrow> cli_error + flags" where
  "parseFlags duration fl args =
     (case flag_Parse duration fl args of
        Inl HelpRequested \<Rightarrow> Inl FlagHelp | Inl _ \<Rightarrow> Inl OtherError | Inr (fl, _) \<Rightarrow> Inr fl)"

text \<open>runPublish: one argument, a domain, and publishing itself is not built yet.\<close>

definition runPublish :: "(string \<Rightarrow> int option) \<Rightarrow> string list \<Rightarrow> cli_error" where
  "runPublish duration args =
     (case flag_Parse duration Map.empty args of
        Inl HelpRequested \<Rightarrow> FlagHelp | Inl _ \<Rightarrow> OtherError
      | Inr (_, rest) \<Rightarrow> if length rest \<noteq> 1 then OtherError else ErrNotImplemented)"

section \<open>The flags of each command\<close>

definition serve_flags :: flags where
  "serve_flags = map_of [(''listen'', StringFlag DefaultListen), (''mode'', StringFlag DefaultMode),
     (''dokku-binary'', StringFlag DefaultDokku), (''dokku-run-as'', StringFlag DefaultRunAs), (''domain'', StringFlag []),
     (''manage-certificate'', BoolFlag False), (''acme-email'', StringFlag []), (''acme-directory'', StringFlag []),
     (''tls-dir'', StringFlag TLSDir), (''plain-http'', BoolFlag False), (''db'', StringFlag DB)]"

definition install_flags :: flags where
  "install_flags = map_of [(''domain'', StringFlag []), (''cert'', StringFlag []), (''key'', StringFlag []),
     (''acme-email'', StringFlag []), (''acme-directory'', StringFlag []), (''ip'', StringFlag []),
     (''accept-self-signed'', BoolFlag False), (''plain-http'', BoolFlag False), (''listen'', StringFlag DefaultListen),
     (''timeout'', DurationFlag defaultHealthTimeout)]"

definition update_flags :: flags where
  "update_flags = map_of [(''check'', BoolFlag False), (''version'', StringFlag []), (''allow-downgrade'', BoolFlag False),
     (''timeout'', DurationFlag defaultHealthTimeout), (''health-url'', StringFlag [])]"

definition uninstall_flags :: flags where
  "uninstall_flags = [''purge'' \<mapsto> BoolFlag False]"

definition setup_token_flags :: flags where
  "setup_token_flags = map_of [(''db'', StringFlag DB), (''ttl'', DurationFlag TokenLifetime)]"

text \<open>What install and serve make of their flags.\<close>

definition install_config :: "flags \<Rightarrow> installConfig" where
  "install_config fl = \<lparr>cf_domain = flag_string fl ''domain'', cf_cert = flag_string fl ''cert'', cf_key = flag_string fl ''key'',
     cf_acmeEmail = flag_string fl ''acme-email'', cf_acmeDirectory = flag_string fl ''acme-directory'', cf_ip = flag_string fl ''ip'',
     cf_selfSigned = flag_bool fl ''accept-self-signed'', cf_plainHTTP = flag_bool fl ''plain-http'', cf_listen = flag_string fl ''listen''\<rparr>"

record serve_options =
  so_listen :: string
  so_mode :: string
  so_dokkuBinary :: string
  so_dokkuRunAs :: string
  so_domain :: string
  so_manageCert :: bool
  so_acmeEmail :: string
  so_acmeDirectory :: string
  so_tlsDir :: string
  so_plainHTTP :: bool
  so_dbPath :: string

definition serve_options_of :: "flags \<Rightarrow> serve_options" where
  "serve_options_of fl = \<lparr>so_listen = flag_string fl ''listen'', so_mode = flag_string fl ''mode'',
     so_dokkuBinary = flag_string fl ''dokku-binary'', so_dokkuRunAs = flag_string fl ''dokku-run-as'',
     so_domain = flag_string fl ''domain'', so_manageCert = flag_bool fl ''manage-certificate'',
     so_acmeEmail = flag_string fl ''acme-email'', so_acmeDirectory = flag_string fl ''acme-directory'',
     so_tlsDir = flag_string fl ''tls-dir'', so_plainHTTP = flag_bool fl ''plain-http'', so_dbPath = flag_string fl ''db''\<rparr>"

section \<open>Flags that are set one by one\<close>

text \<open>Two dashes and a name, as this program writes them, and a value of its own where there is one.\<close>

definition plain_name :: "string \<Rightarrow> bool" where
  "plain_name name \<longleftrightarrow> name \<noteq> [] \<and> hd name \<noteq> CHR ''-'' \<and> CHR ''='' \<notin> set name"

lemma plain_given:
  assumes "plain_name name"
  shows "flag_name name = name" "flag_inline name = None" "hd name \<noteq> CHR ''=''"
  using assms by (cases name; force simp: plain_name_def flag_name_def flag_inline_def takeWhile_eq_all_conv)+

lemma parse_string_flag:
  assumes "plain_name name" "fl name = Some (StringFlag cur)"
  shows "flag_Parse duration fl ((''--'' @ name) # v # rest) = flag_Parse duration (fl(name \<mapsto> StringFlag v)) rest"
  using plain_given [OF assms(1)] assms by (simp add: plain_name_def is_bool_def set_flag_def Let_def)

lemma parse_bool_flag:
  assumes "plain_name name" "fl name = Some (BoolFlag cur)"
  shows "flag_Parse duration fl ((''--'' @ name) # rest) = flag_Parse duration (fl(name \<mapsto> BoolFlag True)) rest"
  using plain_given [OF assms(1)] assms by (simp add: plain_name_def is_bool_def set_flag_def ParseBool_def Let_def)

end
