(* ===== verification/Serve.thy ===== *)
theory Serve
  imports Cli_Flags Acme Server_Access
begin

text \<open>
  internal/cli/serve.go: the process that the unit starts. Its life is opening the database, answering
  requests one after another, and closing; with a certificate to manage, the challenges are answered
  ahead of everything else. Serving until a signal or a failing listener is a list of the requests
  answered. The unit and the sudoers rule that install writes are matched with what is run here.
\<close>

section \<open>What is in front of the server\<close>

datatype answer = Answered response | ChallengeAnswer string | ChallengeNotFound | MovedTo string

text \<open>
  The mux: an unclean path is redirected, the subtree of the challenge is the manager's, its root without
  the slash is redirected to it, and the rest is the server's handler.
\<close>

definition mounted :: "serve_options \<Rightarrow> (string \<rightharpoonup> string) \<Rightarrow> handler \<Rightarrow> request \<Rightarrow> server \<Rightarrow> answer \<times> server" where
  "mounted opts tokens handler rq s =
     (let p = rq_path rq; served = (\<lambda>(r, s). (Answered r, s)) (handler rq None s) in
      if \<not> so_manageCert opts then served
      else if rq_method rq \<noteq> ''CONNECT'' \<and> \<not> clean_path p then (case redirect rq None s of (r, s) \<Rightarrow> (Answered r, s))
      else if HasPrefix p ChallengePath then
        (case challenge_Handler tokens p of Some response \<Rightarrow> (ChallengeAnswer response, s) | None \<Rightarrow> (ChallengeNotFound, s))
      else if p = TrimSuffix ChallengePath ''/'' then (MovedTo ChallengePath, s)
      else served)"

definition serve_Config :: "serve_options \<Rightarrow> string \<Rightarrow> Config" where
  "serve_Config opts version = New_cfg \<lparr>cfg_Dokku = True, cfg_Mode = so_mode opts, cfg_PlainHTTP = so_plainHTTP opts,
     cfg_Store = True, cfg_Version = version\<rparr>"

definition serve_client :: "serve_options \<Rightarrow> ExecClient" where
  "serve_client opts = NewExecClient\<lparr>ec_Binary := so_dokkuBinary opts, ec_RunAs := so_dokkuRunAs opts\<rparr>"

definition serve_certificates :: "serve_options \<Rightarrow> acme_manager" where
  "serve_certificates opts = \<lparr>am_Domain = so_domain opts, am_Email = so_acmeEmail opts, am_DirectoryURL = so_acmeDirectory opts, am_Dir = so_tlsDir opts, am_Reload = True\<rparr>"

definition reloadProxyAsService :: "'h exec \<Rightarrow> 'h \<Rightarrow> (CommandError + unit) \<times> 'h" where
  "reloadProxyAsService exec h = sys_Reload exec (NewSystemctl\<lparr>sys_Sudo := DefaultSudo\<rparr>) nginxUnit h"

section \<open>The life of the process\<close>

text \<open>
  How it ends: the listener fails, or a signal stops it and the shutdown succeeds or does not.
\<close>

datatype serve_error = NoDomainForCertificate | DatabaseNotOpened open_error | NotServing string

record serve_env =
  sx_store :: store_env
  sx_lib :: lib
  sx_files :: "string \<Rightarrow> bool"
  sx_version :: string
  sx_started :: nanos
  sx_started' :: nanos
  sx_end :: "serve_error option"

type_synonym visit = "(string \<rightharpoonup> string) \<times> Server_Http.world \<times> request"

definition answer_one :: "serve_env \<Rightarrow> serve_options \<Rightarrow> visit \<Rightarrow> server \<Rightarrow> answer \<times> server" where
  "answer_one e opts v s = (case v of (tokens, w, rq) \<Rightarrow>
     mounted opts tokens (Handler (serve_Config opts (sx_version e)) (sx_lib e) (sx_files e) w) rq s)"

definition answer_all :: "serve_env \<Rightarrow> serve_options \<Rightarrow> visit list \<Rightarrow> server \<Rightarrow> server" where
  "answer_all e opts vs s = fold (\<lambda>v s. snd (answer_one e opts v s)) vs s"

text \<open>Closing is deferred: it happens on every way out, and its error is only logged.\<close>

definition runServe :: "serve_env \<Rightarrow> serve_options \<Rightarrow> visit list \<Rightarrow> database machine \<Rightarrow> (serve_error + unit) \<times> database machine" where
  "runServe e opts vs m =
     (if so_manageCert opts \<and> so_domain opts = [] then (Inl NoDomainForCertificate, m)
      else case Open (sx_store e) (so_dbPath opts) m of
        (Inl err, m) \<Rightarrow> (Inl (DatabaseNotOpened err), m)
      | (Inr _, m) \<Rightarrow>
        let s = answer_all e opts vs (New (sx_started e) (sx_started' e) (da_tables (snd m)));
            m = touched (sx_store e) Writing (fst m, (snd m)\<lparr>da_tables := sv_db s\<rparr>);
            m = snd (Close (sx_store e) (so_dbPath opts) m)
        in (case sx_end e of None \<Rightarrow> Inr () | Some err \<Rightarrow> Inl err, m))"

definition serve_command :: "(string \<Rightarrow> int option) \<Rightarrow> serve_env \<Rightarrow> string list \<Rightarrow> visit list \<Rightarrow> database machine \<Rightarrow> cli_error option \<times> database machine" where
  "serve_command duration e args vs m =
     (case parseFlags duration serve_flags args of
        Inl err \<Rightarrow> (Some err, m)
      | Inr fl \<Rightarrow> (case runServe e (serve_options_of fl) vs m of
          (Inl _, m) \<Rightarrow> (Some OtherError, m) | (Inr _, m) \<Rightarrow> (None, m)))"

section \<open>Challenges touch nothing\<close>

lemma answered_by_store: "by_store s (snd (answer_one e opts v s))"
proof -
  obtain tokens w rq where v: "v = (tokens, w, rq)" by (rule prod_cases3)
  have h: "by_store s (snd (Handler (serve_Config opts (sx_version e)) (sx_lib e) (sx_files e) w rq None s))"
    using serve_by_store [of s "serve_Config opts (sx_version e)" "sx_lib e" "sx_files e" "(w, rq)"] by (simp add: serve_def)
  have "snd (answer_one e opts v s) = s \<or>
      snd (answer_one e opts v s) = snd (Handler (serve_Config opts (sx_version e)) (sx_lib e) (sx_files e) w rq None s)"
    by (auto simp: v answer_one_def mounted_def redirect_def Let_def split: option.splits prod.splits)
  with h show ?thesis by auto
qed

lemma all_by_store: "by_store s (answer_all e opts vs s)"
  unfolding answer_all_def
proof (induction vs arbitrary: s)
  case (Cons v vs)
  show ?case using by_store_trans [OF answered_by_store Cons.IH] by simp
qed simp

text \<open>
  Challenges are answered ahead of everything else, and nothing but the one outstanding is. With a
  certificate to manage, a clean path under the challenge's is answered with the response to its
  token, or not found, whoever asks and however, without a session, and the server's state is as it
  was, its request log included; every other clean path but the root of that tree is answered as the
  server answers it, with the same state after it, as is every path where there is no certificate
  to manage.
\<close>

theorem challenges_ahead_of_the_rest:
  assumes "answer_one e opts (tokens, w, rq) s = (a, s')" "clean_path (rq_path rq)"
  shows "if so_manageCert opts \<and> HasPrefix (rq_path rq) ChallengePath
    then s' = s \<and> a = (case tokens (drop (length ChallengePath) (rq_path rq)) of Some response \<Rightarrow> ChallengeAnswer response | None \<Rightarrow> ChallengeNotFound)
    else so_manageCert opts \<and> rq_path rq = ''/.well-known/acme-challenge'' \<and> a = MovedTo ChallengePath \<and> s' = s \<or>
      (\<exists>r. a = Answered r \<and> serve (serve_Config opts (sx_version e)) (sx_lib e) (sx_files e) (w, rq) s = (r, s'))"
proof -
  have t: "TrimSuffix ChallengePath ''/'' = ''/.well-known/acme-challenge''"
    by (simp add: ChallengePath_def TrimSuffix_def HasSuffix_def HasPrefix_def)
  show ?thesis
    using assms
    by (auto simp: answer_one_def mounted_def Let_def challenge_Handler_def TrimPrefix_def serve_def t split: prod.splits option.splits if_splits)
qed

section \<open>The life of the process keeps the store\<close>

lemma touched_tables: "da_tables (snd (snd (Close e p (touched e ph (w, d))))) = da_tables d"
  by (simp add: Close_def)

lemma closed_kept:
  assumes "sqlite_keeps e p" "private_database p m"
  shows "private_database p (snd (Close e p (touched e Writing (fst m, d))))"
proof -
  have "private_database p (fst m, d)" using assms(2) by (simp add: private_database_def)
  then show ?thesis by (simp add: Close_def Store_Open.closed_def touched_keeps(2) [OF assms(1)])
qed

lemma run_serve_kept:
  assumes "runServe e opts vs m = (r, m')" "wf_db (da_tables (snd m))"
  shows "wf_db (da_tables (snd m')) \<and> owner_kept (da_tables (snd m)) (da_tables (snd m')) \<and>
    trail_extends (da_tables (snd m)) (da_tables (snd m'))"
    "so_manageCert opts \<Longrightarrow> so_domain opts = [] \<Longrightarrow> m' = m"
    "sqlite_keeps (sx_store e) (so_dbPath opts) \<Longrightarrow> r = Inr () \<Longrightarrow> private_database (so_dbPath opts) m'"
proof -
  let ?d = "da_tables (snd m)"
  have same: "owner_kept ?d ?d" "trail_extends ?d ?d"
    using owner_kept_by_store [of "New 0 0 ?d" "New 0 0 ?d"] trail_by_store [of "New 0 0 ?d" "New 0 0 ?d"] assms(2)
    by (simp_all add: New_def)
  obtain r1 m1 where o: "Open (sx_store e) (so_dbPath opts) m = (r1, m1)" by (rule prod.exhaust)
  have t1: "da_tables (snd m1) = ?d" by (rule tables_Open [OF o])
  define s where "s = New (sx_started e) (sx_started' e) ?d"
  define s1 where "s1 = answer_all e opts vs s"
  have wf: "wf_db (sv_db s)" and d: "sv_db s = ?d" using assms(2) by (simp_all add: s_def New_def)
  have ops: "by_store s s1" unfolding s1_def by (rule all_by_store)
  have kept: "wf_db (sv_db s1) \<and> owner_kept ?d (sv_db s1) \<and> trail_extends ?d (sv_db s1)"
    using wf_by_store [OF ops wf] owner_kept_by_store [OF ops wf] trail_by_store [OF ops wf] d by simp
  note run = assms(1) [unfolded runServe_def o prod.case]
  have tables: "da_tables (snd m') = ?d \<or> da_tables (snd m') = sv_db s1"
    using run t1 by (cases r1) (auto simp: Let_def s_def s1_def touched_tables split: if_splits)
  with kept assms(2) same show "wf_db (da_tables (snd m')) \<and> owner_kept ?d (da_tables (snd m')) \<and> trail_extends ?d (da_tables (snd m'))"
    by auto
  show "so_manageCert opts \<Longrightarrow> so_domain opts = [] \<Longrightarrow> m' = m" using run by simp
  assume keeps: "sqlite_keeps (sx_store e) (so_dbPath opts)" and ok: "r = Inr ()"
  from run ok have r1: "r1 = Inr ()" by (auto split: if_splits sum.splits)
  then have "private_database (so_dbPath opts) m1" using opened [OF o keeps] by blast
  from closed_kept [OF keeps this] run r1 ok show "private_database (so_dbPath opts) m'"
    by (auto simp: Let_def split: if_splits)
qed

text \<open>
  A whole life of the service keeps the store. From any database that keeps the promises of its schema,
  whatever requests are answered, whatever fails, opening and closing included, and however the
  process ends, the database keeps them, the owner who was there is the owner, and the trail is only
  added to; a service that was to manage a certificate without a domain has changed nothing at all; and
  one that ends in order leaves the file private.
\<close>

theorem service_life_keeps_the_store:
  assumes "runServe e opts vs m = (r, m')" "wf_db (da_tables (snd m))" "sqlite_keeps (sx_store e) (so_dbPath opts)"
  shows "wf_db (da_tables (snd m')) \<and> owner_kept (da_tables (snd m)) (da_tables (snd m')) \<and>
    trail_extends (da_tables (snd m)) (da_tables (snd m')) \<and>
    (so_manageCert opts \<and> so_domain opts = [] \<longrightarrow> m' = m) \<and> (r = Inr () \<longrightarrow> private_database (so_dbPath opts) m')"
  using run_serve_kept [OF assms(1,2)] assms(3) by blast

section \<open>The unit starts what was installed\<close>

text \<open>The command of a unit, and a word that systemd takes as it stands: it has nothing that is quoted or expanded.\<close>

definition exec_line :: "string \<Rightarrow> string" where
  "exec_line u = (case find (\<lambda>l. HasPrefix l ''ExecStart='') (Split (CHR 0x0A) u) of
     Some l \<Rightarrow> TrimPrefix l ''ExecStart='' | None \<Rightarrow> [])"

definition special_chars :: "char set" where
  "special_chars = {CHR 0x22, CHR 0x27, CHR 0x5C, CHR ''%'', CHR ''$'', CHR '';''}"

definition unit_word :: "string \<Rightarrow> bool" where
  "unit_word w \<longleftrightarrow> (\<forall>c \<in> set w. \<not> is_space c \<and> c \<notin> special_chars)"

text \<open>What is relied on of systemd: a command with nothing special in it is split where it has space.\<close>

definition splits_at_space :: "(string \<Rightarrow> string list) \<Rightarrow> bool" where
  "splits_at_space words \<longleftrightarrow> (\<forall>l. set l \<inter> special_chars = {} \<longrightarrow> words l = Fields l)"

definition spaced_words :: "string list \<Rightarrow> string" where
  "spaced_words ws = concat (map (\<lambda>w. CHR '' '' # w) ws)"

lemma spaced_words_simps [simp]:
  "spaced_words [] = []" "spaced_words (w # ws) = CHR '' '' # w @ spaced_words ws" "spaced_words (xs @ ys) = spaced_words xs @ spaced_words ys"
  by (simp_all add: spaced_words_def)

lemma Fields_spaced:
  "unit_word w \<Longrightarrow> w \<noteq> [] \<Longrightarrow> \<forall>x \<in> set ws. unit_word x \<and> x \<noteq> [] \<Longrightarrow> Fields (w @ spaced_words ws) = w # ws"
proof (induction ws arbitrary: w)
  case Nil
  then have "Fields (w @ '' '') = w # Fields []" by (intro Fields_word) (auto simp: unit_word_def is_space_def)
  moreover have "fields_acc [] w = fields_acc (rev w) []" using fields_word [of w "[]" "[]"] Nil by (simp add: unit_word_def)
  ultimately show ?case using Nil by (simp add: Fields_def)
next
  case (Cons x ws)
  have "Fields (w @ CHR '' '' # (x @ spaced_words ws)) = w # Fields (x @ spaced_words ws)"
    using Cons.prems by (intro Fields_word) (auto simp: unit_word_def is_space_def)
  with Cons show ?case by simp
qed

text \<open>The arguments of the command, each option where it has a value.\<close>

definition unit_options :: "UnitConfig \<Rightarrow> string list" where
  "unit_options cfg =
     (if uc_Domain cfg \<noteq> [] then [''--domain'', uc_Domain cfg] else []) @
     (if uc_ManageCertificate cfg then [''--manage-certificate''] else []) @
     (if uc_ACMEEmail cfg \<noteq> [] then [''--acme-email'', uc_ACMEEmail cfg] else []) @
     (if uc_ACMEDirectory cfg \<noteq> [] then [''--acme-directory'', uc_ACMEDirectory cfg] else []) @
     (if uc_PlainHTTP cfg then [''--plain-http''] else [])"

definition plain_unit :: "UnitConfig \<Rightarrow> bool" where
  "plain_unit cfg \<longleftrightarrow> unit_word (uc_Listen cfg) \<and> unit_word (uc_Mode cfg) \<and> unit_word (uc_Domain cfg) \<and>
     unit_word (uc_ACMEEmail cfg) \<and> unit_word (uc_ACMEDirectory cfg)"

lemma extra_words: "unit_extra cfg = spaced_words (unit_options cfg)"
  by (simp add: unit_extra_def unit_options_def)

lemma options_plain: "plain_unit cfg \<Longrightarrow> \<forall>x \<in> set (unit_options cfg). unit_word x \<and> x \<noteq> []"
  by (auto simp: plain_unit_def unit_options_def) (simp_all add: unit_word_def is_space_def special_chars_def)

lemma unit_word_chars: "unit_word w \<Longrightarrow> set w \<inter> special_chars = {} \<and> CHR 0x0A \<notin> set w"
  by (auto simp: unit_word_def is_space_def)

lemma spaced_chars: "\<forall>x \<in> set ws. unit_word x \<Longrightarrow> set (spaced_words ws) \<inter> special_chars = {} \<and> CHR 0x0A \<notin> set (spaced_words ws)"
proof (induction ws)
  case (Cons x ws)
  have "CHR '' '' \<notin> special_chars" by (simp add: special_chars_def)
  moreover have "set x \<inter> special_chars = {} \<and> CHR 0x0A \<notin> set x" using Cons.prems by (intro unit_word_chars) simp
  ultimately show ?case using Cons by auto
qed simp

lemma exec_line_unit:
  assumes "plain_unit cfg" "splits_at_space words"
  shows "words (exec_line (UnitFile cfg)) = [Binary, ''serve'', ''--listen'', if uc_Listen cfg = [] then DefaultListen else uc_Listen cfg,
     ''--mode'', if uc_Mode cfg = [] then DefaultMode else uc_Mode cfg] @ unit_options cfg"
proof -
  define l where "l = (if uc_Listen cfg = [] then DefaultListen else uc_Listen cfg)"
  define mo where "mo = (if uc_Mode cfg = [] then DefaultMode else uc_Mode cfg)"
  define args where "args = [''serve'', ''--listen'', l, ''--mode'', mo] @ unit_options cfg"
  have lm: "unit_word l" "l \<noteq> []" "unit_word mo" "mo \<noteq> []"
    using assms(1) by (auto simp: plain_unit_def l_def mo_def DefaultListen_def DefaultMode_def unit_word_def is_space_def special_chars_def)
  have ok: "\<forall>x \<in> set args. unit_word x \<and> x \<noteq> []"
    using options_plain [OF assms(1)] lm by (auto simp: args_def) (simp_all add: unit_word_def is_space_def special_chars_def)
  have b: "unit_word Binary" "Binary \<noteq> []" by (simp_all add: Binary_def unit_word_def is_space_def special_chars_def)
  have line: "exec_start l mo (unit_extra cfg) = ''ExecStart='' @ Binary @ spaced_words args"
    by (simp add: exec_start_def args_def extra_words)
  have chars: "set (Binary @ spaced_words args) \<inter> special_chars = {}" "CHR 0x0A \<notin> set (Binary @ spaced_words args)"
    using spaced_chars [of args] ok unit_word_chars [OF b(1)] by auto
  have "\<forall>x \<in> set (unit_head @ [''ExecStart='' @ Binary @ spaced_words args] @ unit_tail). CHR 0x0A \<notin> set x"
    using chars(2) unit_head_plain by (auto simp: unit_tail_def User_def Group_def DataDir_def)
  from Split_unlines [OF this, of "[]"] have lines: "Split (CHR 0x0A) (UnitFile cfg) =
      unit_head @ [''ExecStart='' @ Binary @ spaced_words args] @ unit_tail @ Split (CHR 0x0A) []"
    by (simp add: UnitFile_def Let_def line l_def [symmetric] mo_def [symmetric])
  have "find (\<lambda>l. HasPrefix l ''ExecStart='') (unit_head @ xs) = find (\<lambda>l. HasPrefix l ''ExecStart='') xs" for xs
    by (simp add: unit_head_def HasPrefix_def)
  then have "exec_line (UnitFile cfg) = Binary @ spaced_words args"
    unfolding exec_line_def lines by (simp add: HasPrefix_def TrimPrefix_def)
  then have "words (exec_line (UnitFile cfg)) = Binary # args"
    using assms(2) chars(1) Fields_spaced [OF b ok] by (simp add: splits_at_space_def)
  then show ?thesis by (simp add: args_def l_def mo_def)
qed

lemma parse_optional_string:
  assumes "plain_name name" "fl name = Some (StringFlag [])"
  shows "flag_Parse duration fl ((if v \<noteq> [] then [''--'' @ name, v] else []) @ rest) = flag_Parse duration (fl(name \<mapsto> StringFlag v)) rest"
proof (cases "v = []")
  case True
  with assms(2) have "fl(name \<mapsto> StringFlag v) = fl" by auto
  with True show ?thesis by simp
next
  case False
  with parse_string_flag [of name fl "[]" duration v rest] assms show ?thesis by simp
qed

lemma parse_optional_bool:
  assumes "plain_name name" "fl name = Some (BoolFlag False)"
  shows "flag_Parse duration fl ((if b then [''--'' @ name] else []) @ rest) = flag_Parse duration (fl(name \<mapsto> BoolFlag b)) rest"
proof (cases b)
  case False
  with assms(2) have "fl(name \<mapsto> BoolFlag b) = fl" by auto
  with False show ?thesis by simp
next
  case True
  with parse_bool_flag [of name fl False duration rest] assms show ?thesis by simp
qed

lemma flag_names: "plain_name ''listen''" "plain_name ''mode''" "plain_name ''domain''" "plain_name ''manage-certificate''"
    "plain_name ''acme-email''" "plain_name ''acme-directory''" "plain_name ''plain-http''"
  by (simp_all add: plain_name_def)

lemma serve_defaults:
  "serve_flags ''listen'' = Some (StringFlag DefaultListen)" "serve_flags ''mode'' = Some (StringFlag DefaultMode)"
  "serve_flags ''domain'' = Some (StringFlag [])" "serve_flags ''manage-certificate'' = Some (BoolFlag False)"
  "serve_flags ''acme-email'' = Some (StringFlag [])" "serve_flags ''acme-directory'' = Some (StringFlag [])"
  "serve_flags ''plain-http'' = Some (BoolFlag False)" "serve_flags ''tls-dir'' = Some (StringFlag TLSDir)"
  "serve_flags ''db'' = Some (StringFlag DB)" "serve_flags ''dokku-binary'' = Some (StringFlag DefaultDokku)"
  "serve_flags ''dokku-run-as'' = Some (StringFlag DefaultRunAs)"
  by (simp_all add: serve_flags_def)

text \<open>What a unit says of the service it starts.\<close>

definition options_of_unit :: "UnitConfig \<Rightarrow> serve_options" where
  "options_of_unit cfg = \<lparr>so_listen = (if uc_Listen cfg = [] then DefaultListen else uc_Listen cfg),
     so_mode = (if uc_Mode cfg = [] then DefaultMode else uc_Mode cfg), so_dokkuBinary = DefaultDokku, so_dokkuRunAs = DefaultRunAs,
     so_domain = uc_Domain cfg, so_manageCert = uc_ManageCertificate cfg, so_acmeEmail = uc_ACMEEmail cfg,
     so_acmeDirectory = uc_ACMEDirectory cfg, so_tlsDir = TLSDir, so_plainHTTP = uc_PlainHTTP cfg, so_dbPath = DB\<rparr>"

lemma options_parsed:
  "map_sum id serve_options_of (parseFlags duration serve_flags ([''--listen'', if uc_Listen cfg = [] then DefaultListen else uc_Listen cfg,
     ''--mode'', if uc_Mode cfg = [] then DefaultMode else uc_Mode cfg] @ unit_options cfg)) = Inr (options_of_unit cfg)"
proof -
  let ?l = "if uc_Listen cfg = [] then DefaultListen else uc_Listen cfg" and ?m = "if uc_Mode cfg = [] then DefaultMode else uc_Mode cfg"
  note s = parse_string_flag [where duration = duration]
    and os = parse_optional_string [where duration = duration] and ob = parse_optional_bool [where duration = duration]
  define fl where "fl = serve_flags(''listen'' \<mapsto> StringFlag ?l, ''mode'' \<mapsto> StringFlag ?m, ''domain'' \<mapsto> StringFlag (uc_Domain cfg),
     ''manage-certificate'' \<mapsto> BoolFlag (uc_ManageCertificate cfg), ''acme-email'' \<mapsto> StringFlag (uc_ACMEEmail cfg),
     ''acme-directory'' \<mapsto> StringFlag (uc_ACMEDirectory cfg), ''plain-http'' \<mapsto> BoolFlag (uc_PlainHTTP cfg))"
  have two: "flag_Parse duration serve_flags (''--listen'' # ?l # ''--mode'' # ?m # rest) =
      flag_Parse duration (serve_flags(''listen'' \<mapsto> StringFlag ?l, ''mode'' \<mapsto> StringFlag ?m)) rest" for rest
    using s [OF flag_names(1), where fl = serve_flags and cur = DefaultListen and v = ?l and rest = "''--mode'' # ?m # rest"]
      s [OF flag_names(2), where fl = "serve_flags(''listen'' \<mapsto> StringFlag ?l)" and cur = DefaultMode and v = ?m and rest = rest]
    by (simp add: serve_defaults del: flag_Parse.simps)
  have "flag_Parse duration (serve_flags(''listen'' \<mapsto> StringFlag ?l, ''mode'' \<mapsto> StringFlag ?m)) (unit_options cfg @ []) = flag_Parse duration fl []"
    unfolding unit_options_def append_assoc fl_def
    by (subst os [OF flag_names(3), unfolded append.simps] ob [OF flag_names(4), unfolded append.simps]
        os [OF flag_names(5), unfolded append.simps] os [OF flag_names(6), unfolded append.simps]
        ob [OF flag_names(7), unfolded append.simps], simp add: serve_defaults)+ (rule refl)
  then have "flag_Parse duration serve_flags ([''--listen'', ?l, ''--mode'', ?m] @ unit_options cfg) = Inr (fl, [])"
    using two by simp
  then show ?thesis
    by (simp add: parseFlags_def serve_options_of_def options_of_unit_def flag_string_def flag_bool_def fl_def serve_defaults)
qed

text \<open>
  C39: The service runs as it was installed. The unit that install writes for a site starts this binary with the
  command serve, and what serve reads out of its arguments is what the installation decided: the
  address, the mode, the domain, whether a certificate is managed and for whom, whether the site is
  plain HTTP, with the database and the certificates where the installer has put them and
  Dokku reached as the sudoers rule allows. The values are to have no space, quote or
  character that systemd expands.
\<close>

theorem unit_starts_what_was_installed:
  assumes "splits_at_space words" "unit_word (cf_listen (in_cfg i))" "unit_word (st_mode s)" "unit_word (st_domain s)"
    "unit_word (cf_acmeEmail (in_cfg i))" "unit_word (cf_acmeDirectory (in_cfg i))"
  shows "\<exists>args. words (exec_line (unit_text i s)) = Binary # ''serve'' # args \<and> command_of ''serve'' = Some Serve \<and>
    map_sum id serve_options_of (parseFlags duration serve_flags args) =
      Inr \<lparr>so_listen = (if cf_listen (in_cfg i) = [] then DefaultListen else cf_listen (in_cfg i)),
        so_mode = (if st_mode s = [] then DefaultMode else st_mode s), so_dokkuBinary = DefaultDokku, so_dokkuRunAs = DefaultRunAs,
        so_domain = st_domain s, so_manageCert = st_manageCert s, so_acmeEmail = cf_acmeEmail (in_cfg i),
        so_acmeDirectory = cf_acmeDirectory (in_cfg i), so_tlsDir = TLSDir, so_plainHTTP = (st_how s = AtIPPlain), so_dbPath = DB\<rparr>"
proof -
  define cfg where "cfg = \<lparr>uc_Listen = cf_listen (in_cfg i), uc_Mode = st_mode s, uc_Domain = st_domain s,
     uc_PlainHTTP = (st_how s = AtIPPlain), uc_ManageCertificate = st_manageCert s,
     uc_ACMEEmail = cf_acmeEmail (in_cfg i), uc_ACMEDirectory = cf_acmeDirectory (in_cfg i)\<rparr>"
  have "plain_unit cfg" using assms(2-) by (simp add: plain_unit_def cfg_def)
  from exec_line_unit [OF this assms(1)] options_parsed [of duration cfg] show ?thesis
    unfolding unit_text_def cfg_def [symmetric]
    by (intro exI [of _ "[''--listen'', if uc_Listen cfg = [] then DefaultListen else uc_Listen cfg,
        ''--mode'', if uc_Mode cfg = [] then DefaultMode else uc_Mode cfg] @ unit_options cfg"])
      (simp add: options_of_unit_def cfg_def command_of_def)
qed

section \<open>The rule permits what is run, and nothing else\<close>

text \<open>
  How sudo reads a rule of this shape: a user, the account in parentheses, a tag and a command; a
  command without arguments allows any, one with arguments allows those alone.
\<close>

definition rule_permits :: "string list \<Rightarrow> string \<Rightarrow> string \<Rightarrow> string list \<Rightarrow> bool" where
  "rule_permits ws user runas argv = (case ws of u # as # tag # binary # args \<Rightarrow>
     u = user \<and> as = ''ALL=('' @ runas @ '')'' \<and> tag = ''NOPASSWD:'' \<and> argv \<noteq> [] \<and> hd argv = binary \<and> (args = [] \<or> tl argv = args)
   | _ \<Rightarrow> False)"

definition sudo_permits :: "string \<Rightarrow> string \<Rightarrow> string \<Rightarrow> string list \<Rightarrow> bool" where
  "sudo_permits rules user runas argv = (\<exists>l \<in> set (Split (CHR 0x0A) rules). rule_permits (Fields l) user runas argv)"

text \<open>What is asked of sudo, without a password: the account, root unless one is named, and the command.\<close>

definition sudo_asked :: "string list \<Rightarrow> (string \<times> string list) option" where
  "sudo_asked args = (case args of n # rest \<Rightarrow>
     if n \<noteq> ''-n'' then None
     else (case rest of u # acct # argv \<Rightarrow> if u = ''-u'' then Some (acct, argv) else Some (''root'', rest) | _ \<Rightarrow> Some (''root'', rest))
   | [] \<Rightarrow> None)"

lemma rule_fields:
  "Split (CHR 0x0A) sudo_rule = [''dokkup ALL=(dokku) NOPASSWD: /usr/bin/dokku'',
     ''dokkup ALL=(root) NOPASSWD: /usr/bin/systemctl reload nginx'', []]"
  "Fields ''dokkup ALL=(dokku) NOPASSWD: /usr/bin/dokku'' = [''dokkup'', ''ALL=(dokku)'', ''NOPASSWD:'', ''/usr/bin/dokku'']"
  "Fields ''dokkup ALL=(root) NOPASSWD: /usr/bin/systemctl reload nginx'' =
     [''dokkup'', ''ALL=(root)'', ''NOPASSWD:'', ''/usr/bin/systemctl'', ''reload'', ''nginx'']" "Fields [] = []"
  by (simp_all add: sudo_rule_def User_def DefaultRunAs_def DefaultDokku_def DefaultBinary_def nginxUnit_def Fields_def is_space_def)

lemma rule_meaning: "sudo_permits sudo_rule user runas argv \<longleftrightarrow> user = ''dokkup'' \<and>
    (runas = ''dokku'' \<and> argv \<noteq> [] \<and> hd argv = ''/usr/bin/dokku'' \<or> runas = ''root'' \<and> argv = [''/usr/bin/systemctl'', ''reload'', ''nginx''])"
proof -
  have as: "''ALL=(dokku)'' = ''ALL=('' @ r @ '')'' \<longleftrightarrow> r = ''dokku''" "''ALL=(root)'' = ''ALL=('' @ r @ '')'' \<longleftrightarrow> r = ''root''" for r
  proof -
    have "''dokku)'' = r @ '')'' \<longleftrightarrow> r = ''dokku''" "''root)'' = r @ '')'' \<longleftrightarrow> r = ''root''"
      using append1_eq_conv [of r "CHR '')''" "''dokku''" "CHR '')''"] append1_eq_conv [of r "CHR '')''" "''root''" "CHR '')''"] by (auto simp del: append1_eq_conv)
    then show "''ALL=(dokku)'' = ''ALL=('' @ r @ '')'' \<longleftrightarrow> r = ''dokku''" "''ALL=(root)'' = ''ALL=('' @ r @ '')'' \<longleftrightarrow> r = ''root''" by simp_all
  qed
  have argv: "argv \<noteq> [] \<and> hd argv = b \<and> tl argv = args \<longleftrightarrow> argv = b # args" for b args by (cases argv) auto
  have "sudo_permits sudo_rule user runas argv \<longleftrightarrow>
      rule_permits [''dokkup'', ''ALL=(dokku)'', ''NOPASSWD:'', ''/usr/bin/dokku''] user runas argv \<or>
      rule_permits [''dokkup'', ''ALL=(root)'', ''NOPASSWD:'', ''/usr/bin/systemctl'', ''reload'', ''nginx''] user runas argv"
    unfolding sudo_permits_def rule_fields(1) by (simp only: list.set bex_simps rule_fields(2-4)) (simp add: rule_permits_def)
  also have "\<dots> \<longleftrightarrow> user = ''dokkup'' \<and>
    (runas = ''dokku'' \<and> argv \<noteq> [] \<and> hd argv = ''/usr/bin/dokku'' \<or> runas = ''root'' \<and> argv = [''/usr/bin/systemctl'', ''reload'', ''nginx''])"
    unfolding rule_permits_def list.case as using argv [of "''/usr/bin/systemctl''" "[''reload'', ''nginx'']"] by blast
  finally show ?thesis .
qed

text \<open>A host on which programs answer this, and that remembers what is run.\<close>

definition watching :: "completed \<Rightarrow> (string \<times> string list) list exec" where
  "watching c timeout program args seen = (c, seen @ [(program, args)])"


end
