(* ===== verification/Serve_Examples.thy ===== *)
theory Serve_Examples
  imports Serve Install_Examples Server_Examples Acme_Examples
begin

text \<open>
  The process at work: a service with a certificate to manage, one challenge outstanding, and a unit for a
  domain, on which the properties of the theory Serve are applied.
\<close>

definition domain_unit :: UnitConfig where
  "domain_unit = \<lparr>uc_Listen = [], uc_Mode = ''published'', uc_Domain = ''d.example'', uc_PlainHTTP = False, uc_ManageCertificate = True,
     uc_ACMEEmail = [], uc_ACMEDirectory = []\<rparr>"

definition service_env :: serve_env where
  "service_env = \<lparr>sx_store = healthy_store, sx_lib = demo_lib, sx_files = (\<lambda>f. False), sx_version = ''v1'', sx_started = 0, sx_started' = 0, sx_end = None\<rparr>"

definition challenge_request :: request where
  "challenge_request = \<lparr>rq_method = ''GET'', rq_path = ''/.well-known/acme-challenge/t'', rq_csrf = [], rq_cookie = None, rq_body = []\<rparr>"

lemma challenge_clean: "clean_path ''/.well-known/acme-challenge/t''"
  by (simp add: clean_path_def HasPrefix_def)

lemma challenges_ahead_of_the_rest_witness:
  "answer_one service_env (options_of_unit domain_unit) ([''t'' \<mapsto> ''t.print''], demo_world, challenge_request) (New 0 0 demo_db) =
     (ChallengeAnswer ''t.print'', New 0 0 demo_db)"
proof -
  obtain a s' where run: "answer_one service_env (options_of_unit domain_unit) ([''t'' \<mapsto> ''t.print''], demo_world, challenge_request) (New 0 0 demo_db) = (a, s')"
    by (rule prod.exhaust)
  have p: "rq_path challenge_request = ''/.well-known/acme-challenge/t''" by (simp add: challenge_request_def)
  have "clean_path (rq_path challenge_request)" unfolding p by (rule challenge_clean)
  from challenges_ahead_of_the_rest [OF run this] run show ?thesis
    by (simp add: p options_of_unit_def domain_unit_def ChallengePath_def HasPrefix_def)
qed

lemma service_life_keeps_the_store_witness:
  "wf_db (da_tables (snd (snd (runServe service_env (options_of_unit domain_unit) [(Map.empty, demo_world, challenge_request)] open_database)))) \<and>
   trail_extends (da_tables (snd open_database))
     (da_tables (snd (snd (runServe service_env (options_of_unit domain_unit) [(Map.empty, demo_world, challenge_request)] open_database))))"
proof -
  obtain r m' where run: "runServe service_env (options_of_unit domain_unit) [(Map.empty, demo_world, challenge_request)] open_database = (r, m')"
    by (rule prod.exhaust)
  have keeps: "sqlite_keeps (sx_store service_env) (so_dbPath (options_of_unit domain_unit))"
    by (simp add: sqlite_keeps_def service_env_def healthy_store_def)
  have "wf_db (da_tables (snd open_database))" by (simp add: open_database_def wf_empty_db)
  from service_life_keeps_the_store [OF run this keeps] run show ?thesis by simp
qed

definition plain_options :: serve_options where
  "plain_options = \<lparr>so_listen = ''127.0.0.1:8080'', so_mode = ''ip'', so_dokkuBinary = ''/usr/bin/dokku'', so_dokkuRunAs = ''dokku'',
     so_domain = [], so_manageCert = False, so_acmeEmail = [], so_acmeDirectory = [], so_tlsDir = TLSDir, so_plainHTTP = True, so_dbPath = DB\<rparr>"

lemma unit_starts_what_was_installed_witness:
  "\<exists>args. Fields (exec_line (unit_text (test_run (\<lambda>_. Inr ())) plain_at)) = Binary # ''serve'' # args \<and>
     map_sum id serve_options_of (parseFlags (\<lambda>d. None) serve_flags args) = Inr plain_options"
proof -
  have words: "splits_at_space Fields" by (simp add: splits_at_space_def)
  have cfg: "in_cfg (test_run (\<lambda>_. Inr ())) = plain_config" by (simp add: test_run_def test_installer_def)
  have "unit_word (cf_listen (in_cfg (test_run (\<lambda>_. Inr ()))))" "unit_word (st_mode plain_at)" "unit_word (st_domain plain_at)"
    "unit_word (cf_acmeEmail (in_cfg (test_run (\<lambda>_. Inr ()))))" "unit_word (cf_acmeDirectory (in_cfg (test_run (\<lambda>_. Inr ()))))"
    by (simp_all add: cfg plain_config_def plain_at_def plain_site_def unit_word_def is_space_def special_chars_def)
  from unit_starts_what_was_installed [OF words this, of "\<lambda>d. None"] show ?thesis
    by (simp add: cfg plain_config_def plain_at_def plain_site_def plain_options_def DefaultListen_def DefaultDokku_def DefaultRunAs_def)
      blast
qed

end
