(* ===== verification/First_Owner.thy ===== *)
theory First_Owner
  imports Serve_Examples
begin

text \<open>
  From the command line to a session: the token that the command shows, redeemed over HTTP, and the
  sign-in that follows it. The parts are Setup_Token, Server_Setup, Server_Session and the middleware;
  what is shown here is that they meet: a token that is printed does let the first owner in.
\<close>

section \<open>Two requests that nothing stands against\<close>

text \<open>
  A setup and a sign-in that are well formed, let through by their limiter and met by no failing call.
\<close>

definition quiet :: "world \<Rightarrow> bool" where
  "quiet w \<longleftrightarrow> (\<forall>c k. \<not> fails (w_store w c) k)"

definition setting_up :: "lib \<Rightarrow> world \<Rightarrow> request \<Rightarrow> server \<Rightarrow> string \<Rightarrow> string \<Rightarrow> string \<Rightarrow> string \<Rightarrow> bool" where
  "setting_up lib w rq s token email name password \<longleftrightarrow>
     reaches ''/api/setup'' rq \<and> quiet w \<and> fst (fst (take_token (w_limiter w) (sv_setupLimiter s))) \<and>
     lib_setup lib (take setupBodyLimit (rq_body rq)) = Some (token, email, name, password) \<and>
     normaliseEmail email \<noteq> [] \<and> length (normaliseEmail email) \<le> maxEmailBytes \<and>
     minPasswordBytes \<le> length password \<and> length password \<le> maxPasswordBytes \<and>
     (\<exists>salt. w_salt w = Some salt \<and> salt \<noteq> [])"

definition session_token :: "world \<Rightarrow> string" where
  "session_token w = (case w_token w of None \<Rightarrow> [] | Some raw \<Rightarrow> EncodeToString url_alphabet raw)"

definition signing_in :: "lib \<Rightarrow> world \<Rightarrow> request \<Rightarrow> server \<Rightarrow> string \<Rightarrow> string \<Rightarrow> bool" where
  "signing_in lib w rq s email password \<longleftrightarrow>
     reaches ''/api/signin'' rq \<and> quiet w \<and> fst (fst (take_token (w_limiter w) (sv_signinLimiter s))) \<and>
     lib_signin lib (take signinBodyLimit (rq_body rq)) = Some (email, password) \<and>
     session_token w \<noteq> [] \<and> instant (now (w_clock w Write)) < w_now w + sessionLifetime \<and>
     HashToken (lib_sha256 lib) (session_token w) \<notin> ses_token_hash ` set (sessions (sv_db s))"

text \<open>The crypto of the libraries: a digest has bytes, and a derived key the length asked for.\<close>

definition sound_lib :: "lib \<Rightarrow> bool" where
  "sound_lib lib \<longleftrightarrow> (\<forall>x. lib_sha256 lib x \<noteq> []) \<and> idkey_length (lib_idkey lib)"

lemma HashToken_ne: "sound_lib lib \<Longrightarrow> HashToken (lib_sha256 lib) x \<noteq> []"
  using length_hex [of "lib_sha256 lib x"] unfolding HashToken_def sound_lib_def by force

section \<open>The setup\<close>

text \<open>The row that a setup makes: the owner, under the address and the name, whose hash the password opens.\<close>

definition owner_row :: "lib \<Rightarrow> string \<Rightarrow> string \<Rightarrow> string \<Rightarrow> operator \<Rightarrow> bool" where
  "owner_row lib email name password r \<longleftrightarrow> op_is_owner r \<and> op_email r = normaliseEmail email \<and> op_name r = name \<and>
     VerifyPassword (lib_idkey lib) (op_password_hash r) password = Inr True"

lemma setup_makes_owner:
  assumes "setting_up lib w rq s token email name password" "cfg_Store cfg" "sound_lib lib"
    and "operators (sv_db s) = []" "live_token (w_clock w Write) (HashToken (lib_sha256 lib) token) (sv_db s)"
  shows "rs_status (fst (serve cfg lib files (w, rq) s)) = 201"
    and "\<exists>r. operators (sv_db (snd (serve cfg lib files (w, rq) s))) = [r] \<and> owner_row lib email name password r"
proof -
  note a = assms(1) [unfolded setting_up_def reaches_def quiet_def]
  obtain wait where lim: "fst (take_token (w_limiter w) (sv_setupLimiter s)) = (True, wait)" using a by (metis prod.collapse)
  obtain salt where salt: "w_salt w = Some salt" "salt \<noteq> []" using a by blast
  define ctx where "ctx = authenticate cfg lib w rq s"
  have g: "guarded cfg lib files w rq None s = handleSetup cfg lib w rq ctx s"
    unfolding ctx_def by (rule guarded_post(2)) (use a in simp_all)
  have "lib_sha256 lib token \<noteq> []" using assms(3) by (simp add: sound_lib_def)
  then have made: "rs_status (fst (handleSetup cfg lib w rq ctx s)) = 201"
    using setup_answers [OF lim assms(2), of lib rq token email name password salt ctx] a salt(1) assms(4,5)
    by (simp add: Let_def has_owner_def maxEmailBytes_def minPasswordBytes_def maxPasswordBytes_def)
  then show "rs_status (fst (serve cfg lib files (w, rq) s)) = 201" by (simp add: serve_fst g)
  show "\<exists>r. operators (sv_db (snd (serve cfg lib files (w, rq) s))) = [r] \<and> owner_row lib email name password r"
  proof (cases rule: handleSetup_cases [of lib rq s w cfg ctx])
    case other
    with made show ?thesis by simp
  next
    case (redeemed body h t)
    then have body: "body = \<lparr>su_Token = token, su_Email = email, su_Name = name, su_Password = password\<rparr>"
      using a by (auto simp: setup_request_def)
    have opens: "VerifyPassword (lib_idkey lib) h password = Inr True"
      using HashPassword_reads_back [of "lib_idkey lib" salt password] redeemed(3) salt assms(3) body
      by (force simp: VerifyPassword_def sound_lib_def)
    show ?thesis
    proof (cases rule: redeemSetup_cases [of w lib body "normaliseEmail (su_Email body)" h t])
      case (refused err)
      with made redeemed(8) show ?thesis by (auto split: if_splits)
    next
      case (made owner)
      note ok = RedeemSetupToken_ok [OF made(1)]
      have "operators (sv_db (snd (handleSetup cfg lib w rq ctx s))) = [owner]"
        using made(2) ok(2) redeemed(2,8) assms(4) by (simp add: same_access_def)
      with ok(1) opens body show ?thesis by (auto simp: serve_db g owner_row_def)
    qed
  qed
qed

text \<open>Once there is an owner, no request changes who the operators are.\<close>

lemma owned_operators:
  assumes "has_owner (sv_db s)"
  shows "operators (sv_db (snd (serve cfg lib files (w, rq) s))) = operators (sv_db s)"
proof (rule ccontr)
  assume ch: "\<not> ?thesis"
  then have "sv_db (snd (guarded cfg lib files w rq None s)) \<noteq> sv_db s" by (auto simp: serve_db)
  then show False
  proof (cases rule: guarded_changes)
    case signing_in
    then show False using ch handleSignIn_operators by (simp add: serve_db same_operators_def)
  next
    case (signing_out opr)
    then show False using ch handleSignOut_operators by (simp add: serve_db same_operators_def)
  next
    case setting_up
    let ?ctx = "authenticate cfg lib w rq s"
    show False
    proof (cases rule: handleSetup_cases [of lib rq s w cfg ?ctx])
      case other
      then show False using ch setting_up by (simp add: serve_db same_access_def)
    next
      case (redeemed body h t)
      show False
      proof (cases rule: redeemSetup_cases [of w lib body "normaliseEmail (su_Email body)" h t])
        case (refused err)
        then show False using ch setting_up redeemed by (simp add: serve_db same_access_def)
      next
        case (made owner)
        from RedeemSetupToken_ok(4) [OF made(1)] redeemed(2) assms show False by simp
      qed
    qed
  qed
qed

lemma owned_operators_all:
  "has_owner (sv_db s) \<Longrightarrow> operators (sv_db (fold (serve_step cfg lib files) between s)) = operators (sv_db s)"
proof (induction between arbitrary: s)
  case (Cons x between)
  obtain w rq where x: "x = (w, rq)" by (rule prod.exhaust)
  have "operators (sv_db (serve_step cfg lib files x s)) = operators (sv_db s)"
    using owned_operators [OF Cons.prems] by (simp add: serve_step_def x)
  with Cons show ?case by (simp add: has_owner_def)
qed simp


section \<open>The sign-in\<close>

lemma startSession_quiet:
  assumes "quiet w" "sound_lib lib" "session_token w \<noteq> []" "instant (now (w_clock w Write)) < w_now w + sessionLifetime"
    and "HashToken (lib_sha256 lib) (session_token w) \<notin> ses_token_hash ` set (sessions (sv_db s))" "opr \<in> set (operators (sv_db s))"
  obtains x where "signed_in cfg lib w opr (fst (startSession cfg lib w opr s)) x"
    "sessions (sv_db (snd (startSession cfg lib w opr s))) = sessions (sv_db s) @ [x]"
proof -
  obtain raw where raw: "w_token w = Some raw" using assms(3) by (auto simp: session_token_def split: option.splits)
  define hash where "hash = HashToken (lib_sha256 lib) (session_token w)"
  have t: "NewToken (lib_sha256 lib) (w_token w) = Some (session_token w, hash)"
    by (simp add: NewToken_def raw session_token_def hash_def Let_def)
  have "\<not> fails (w_store w Write) 0" using assms(1) by (simp add: quiet_def)
  from StartSession_outcome [OF this, of "w_clock w Write" "op_id opr" hash "w_now w + sessionLifetime" "sv_db s"]
  have "\<exists>x. fst (StartSession (w_store w Write) (w_clock w Write) (op_id opr) hash (w_now w + sessionLifetime) (sv_db s)) = Inr x"
    using assms HashToken_ne [OF assms(2)] by (simp add: hash_def operator_ids_def not_le)
  then obtain x d where "StartSession (w_store w Write) (w_clock w Write) (op_id opr) hash (w_now w + sessionLifetime) (sv_db s) = (Inr x, d)"
    by (metis prod.collapse)
  then have "rs_status (fst (startSession cfg lib w opr s)) = 200"
    by (simp add: startSession_def t Let_def on_db_def [of "StartSession _ _ _ _ _"])
  then show thesis using startSession_cases [of s cfg lib w opr] that by auto
qed

lemma handleSignIn_quiet:
  assumes "signing_in lib w rq s email password" "cfg_Store cfg" "sound_lib lib" "operators (sv_db s) = [opr]"
    and "op_email opr = normaliseEmail email" "normaliseEmail email \<noteq> []" "length (normaliseEmail email) \<le> maxEmailBytes"
    and "length password \<le> maxPasswordBytes" "may_sign_in cfg lib password opr"
  obtains x where "signed_in cfg lib w opr (fst (handleSignIn cfg lib w rq ctx s)) x"
    "sessions (sv_db (snd (handleSignIn cfg lib w rq ctx s))) = sessions (sv_db s) @ [x]"
proof -
  note a = assms(1) [unfolded signing_in_def reaches_def quiet_def]
  obtain wait lim where lim: "take_token (w_limiter w) (sv_signinLimiter s) = ((True, wait), lim)" using a by (metis prod.collapse)
  define s1 where "s1 = s\<lparr>sv_signinLimiter := lim\<rparr>"
  have e: "ToLower (TrimSpace email) = normaliseEmail email" by (simp add: normaliseEmail_def)
  have op: "OperatorByEmail (w_store w ReadOperator) (normaliseEmail email) (sv_db s) = Inr opr"
    using a assms(4,5) by (simp add: OperatorByEmail_def scanOperator_def query_row_def call_ok)
  have h: "handleSignIn cfg lib w rq ctx s = lookupSignIn cfg lib w (normaliseEmail email) password s1"
    using a assms(2,6-8) by (simp add: handleSignIn_def lim Let_def s1_def e del: length_ToLower)
  then have v: "handleSignIn cfg lib w rq ctx s =
      verifiedSignIn cfg lib w (audited 0 auditSessionRejected (normaliseEmail email)) password opr s1"
    using op by (simp add: lookupSignIn_def s1_def Let_def)
  then obtain t where t: "sv_db t = sv_db s" "handleSignIn cfg lib w rq ctx s = startSession cfg lib w opr t"
    using verifiedSignIn_cases [of cfg lib password opr s1 w "audited 0 auditSessionRejected (normaliseEmail email)"] assms(9)
    by (auto simp: s1_def)
  show thesis
    by (rule startSession_quiet [of w lib t opr cfg])
      (use assms(1,3,4) t that in \<open>auto simp: signing_in_def\<close>)
qed

text \<open>What a session is worth: whoever presents its token, until it expires, is that operator to every route.\<close>

definition admits :: "Config \<Rightarrow> lib \<Rightarrow> server \<Rightarrow> string \<Rightarrow> int \<Rightarrow> operator \<Rightarrow> bool" where
  "admits cfg lib s token expiry opr \<longleftrightarrow> (\<forall>w rq. rq_cookie rq = Some token \<longrightarrow> \<not> fails (w_store w Authenticate) 0 \<longrightarrow>
     authenticate cfg lib w rq s = (if now (w_clock w Authenticate) < expiry then Some opr else None))"

lemma session_admits:
  assumes "wf_db (sv_db s)" "cfg_Store cfg" "x \<in> set (sessions (sv_db s))" "ses_operator_id x = op_id opr" "opr \<in> set (operators (sv_db s))"
    and "ses_token_hash x = HashToken (lib_sha256 lib) token" "token \<noteq> []"
  shows "admits cfg lib s token (ses_expires_at x) opr"
  unfolding admits_def
proof (intro allI impI)
  fix w :: Server_Http.world and rq :: request
  assume c: "rq_cookie rq = Some token" and q: "\<not> fails (w_store w Authenticate) 0"
  let ?h = "HashToken (lib_sha256 lib) token" and ?clk = "w_clock w Authenticate"
  note live = SessionOperator_live [OF assms(1) q, of ?clk ?h]
  have uniq: "y = x" if "y \<in> set (sessions (sv_db s))" "ses_token_hash y = ?h" for y
    using that assms(1,3,6) inj_onD [of ses_token_hash "set (sessions (sv_db s))" y x]
    by (simp add: wf_db_def sessions_wf_def distinct_map)
  show "authenticate cfg lib w rq s = (if now ?clk < ses_expires_at x then Some opr else None)"
  proof (cases "now ?clk < ses_expires_at x")
    case True
    then have "live ?clk (sv_db s) ?h = Some (op_id opr)"
      using assms(3,4,6) by (auto simp: live_Some_iff [OF assms(1)])
    with live(1) [of opr] assms(5) have "SessionOperator (w_store w Authenticate) ?clk ?h (sv_db s) = Inr opr" by simp
    with True c assms(2,7) show ?thesis by (simp add: authenticate_def)
  next
    case False
    have "live ?clk (sv_db s) ?h = None"
    proof (rule ccontr)
      assume "live ?clk (sv_db s) ?h \<noteq> None"
      then obtain i where "live ?clk (sv_db s) ?h = Some i" by blast
      then show False using uniq False by (auto simp: live_Some_iff [OF assms(1)])
    qed
    with live(2) False c assms(2) show ?thesis by (simp add: authenticate_def)
  qed
qed

text \<open>And what the command answers when there is an owner.\<close>

lemma owned_mints_nothing:
  assumes "has_owner (da_tables (snd m))" "runSetupToken k h p ttl m = (r, m')"
  shows "(\<exists>err. r = Inl err) \<and> da_tables (snd m') = da_tables (snd m)"
proof (cases r)
  case (Inl err)
  with run_shown [OF assms(2)] assms(1) show ?thesis by simp
next
  case (Inr x)
  obtain issued g where "x = (issued, g)" by (rule prod.exhaust)
  with run_shown [OF assms(2)] Inr assms(1) show ?thesis by (simp add: token_stands_def has_owner_def)
qed

section \<open>The first owner gets in\<close>

lemma minted_wf:
  assumes "runSetupToken k h p ttl m = (Inr (shown, g), m')" "wf_db (da_tables (snd m))"
  shows "wf_db (da_tables (snd m'))"
proof -
  let ?d = "da_tables (snd m)" and ?d' = "da_tables (snd m')"
  have "setupTokenMint k p ttl m = (Inr shown, m')"
    using assms(1) by (auto simp: runSetupToken_def setupTokenIssue_def split: if_splits sum.splits prod.splits)
  from mint_tables(2) [OF this refl] obtain token hash where n: "NewToken (mt_sha256 k) (mt_rand k) = Some (token, hash)"
    and w: "setupTokenWrite k ttl ?d = (Inr shown, ?d')"
    by (auto simp: setupTokenWrite_def split: option.splits)
  define d1 where "d1 = snd (IssueSetupToken (mt_issue k) (mt_issued k) hash (mt_asked k + ttl) ?d)"
  have "\<exists>clk a. ?d' = snd (RecordUnauthenticated (mt_record k) clk a d1)"
    using w n by (auto simp: setupTokenWrite_def d1_def split: prod.splits sum.splits) (metis snd_conv)
  moreover have "wf_db d1" unfolding d1_def by (rule wf_IssueSetupToken [OF assms(2)])
  ultimately show ?thesis using wf_RecordUnauthenticated by auto
qed

lemma token_then_setup:
  assumes "runSetupToken k h p ttl m = (Inr (shown, g), m')" "operators (da_tables (snd m)) = []"
    and "setting_up lib w rq s (si_token shown) email name password" "cfg_Store cfg" "sound_lib lib"
    and "lib_sha256 lib = mt_sha256 k" "sv_db s = da_tables (snd m')" "now (w_clock w Write) < millis (si_expires shown)"
  shows "rs_status (fst (serve cfg lib files (w, rq) s)) = 201"
    and "\<exists>r. operators (sv_db (snd (serve cfg lib files (w, rq) s))) = [r] \<and> owner_row lib email name password r"
proof -
  have "token_stands k shown (da_tables (snd m)) (sv_db s)" using run_shown [OF assms(1)] assms(7) by simp
  then have "operators (sv_db s) = []" "live_token (w_clock w Write) (HashToken (lib_sha256 lib) (si_token shown)) (sv_db s)"
    using assms(2,6,8) by (simp_all add: token_stands_def)
  from setup_makes_owner [OF assms(3-5) this] show "rs_status (fst (serve cfg lib files (w, rq) s)) = 201"
    "\<exists>r. operators (sv_db (snd (serve cfg lib files (w, rq) s))) = [r] \<and> owner_row lib email name password r" by auto
qed

lemma owner_signs_in:
  assumes "signing_in lib w rq s email password" "cfg_Store cfg" "sound_lib lib" "wf_db (sv_db s)"
    and "operators (sv_db s) = [owner]" "owner_row lib email' name password owner" "normaliseEmail email = normaliseEmail email'"
    and "normaliseEmail email' \<noteq> []" "length (normaliseEmail email') \<le> maxEmailBytes" "length password \<le> maxPasswordBytes"
  shows "rs_status (fst (serve cfg lib files (w, rq) s)) = 200 \<and>
    rs_cookies (fst (serve cfg lib files (w, rq) s)) =
      [sessionCookie cfg (session_token w) (time_Sub (w_now w + sessionLifetime) (w_until w))] \<and>
    operators (sv_db (snd (serve cfg lib files (w, rq) s))) = [owner] \<and>
    admits cfg lib (snd (serve cfg lib files (w, rq) s)) (session_token w) (millis (w_now w + sessionLifetime)) owner"
proof -
  define ctx where "ctx = authenticate cfg lib w rq s"
  let ?s' = "snd (serve cfg lib files (w, rq) s)"
  note a = assms(1) [unfolded signing_in_def reaches_def]
  have g: "guarded cfg lib files w rq None s = handleSignIn cfg lib w rq ctx s"
    unfolding ctx_def by (rule guarded_post(1)) (use a in simp_all)
  have may: "may_sign_in cfg lib password owner" and email: "op_email owner = normaliseEmail email"
    using assms(6,7) by (simp_all add: owner_row_def may_sign_in_def)
  obtain x where x: "signed_in cfg lib w owner (fst (handleSignIn cfg lib w rq ctx s)) x"
    "sessions (sv_db (snd (handleSignIn cfg lib w rq ctx s))) = sessions (sv_db s) @ [x]"
    by (rule handleSignIn_quiet [OF assms(1-3,5) email _ _ assms(10) may, of ctx]) (use assms(7-9) in simp_all)
  have owned: "has_owner (sv_db s)" using assms(5,6) by (simp add: has_owner_def owner_row_def)
  have ops: "operators (sv_db ?s') = [owner]" using owned_operators [OF owned] assms(5) by simp
  have wf: "wf_db (sv_db ?s')" using wf_by_store [OF serve_by_store assms(4)] .
  have tok: "EncodeToString url_alphabet raw = session_token w" if "w_token w = Some raw" for raw
    using that by (simp add: session_token_def)
  have row: "ses_operator_id x = op_id owner" "ses_token_hash x = HashToken (lib_sha256 lib) (session_token w)"
    "ses_expires_at x = millis (w_now w + sessionLifetime)"
    using x(1) tok by (auto simp: signed_in_def)
  have "x \<in> set (sessions (sv_db ?s'))" using x(2) by (simp add: serve_db g)
  from session_admits [OF wf assms(2) this row(1) _ row(2)] ops a row(3)
  have "admits cfg lib ?s' (session_token w) (millis (w_now w + sessionLifetime)) owner" by simp
  with x(1) tok ops show ?thesis by (auto simp: signed_in_def serve_fst g)
qed

text \<open>
  C9: The first owner gets in. On an installation with no operators, let the setup-token command have shown a
  token, and let a service over that database, with the same hash, receive a well formed setup with that
  token before the expiry printed, then any requests at all, then a sign-in with the same address,
  however it is written, and the same password, where no call fails and the limiters let both
  through. Then the setup is answered 201 and the one operator there is afterwards is the owner of that
  address; the sign-in is answered 200 with a cookie whose token, from then on and until the
  session expires and no longer, is that owner to every route; the owner is still the one operator;
  and the command shows no second token and leaves the tables as they are. It holds in every mode, the
  one that is restricted to the owner included.
\<close>

theorem first_owner_gets_in:
  assumes "runSetupToken k h p ttl m = (Inr (shown, g), m')" "operators (da_tables (snd m)) = []" "wf_db (da_tables (snd m))"
    and "setting_up lib w rq s (si_token shown) email name password" "cfg_Store cfg" "sound_lib lib"
    and "lib_sha256 lib = mt_sha256 k" "sv_db s = da_tables (snd m')" "now (w_clock w Write) < millis (si_expires shown)"
    and "serve cfg lib files (w, rq) s = (r1, s1)" "s2 = fold (serve_step cfg lib files) between s1"
    and "signing_in lib w' rq' s2 email' password" "normaliseEmail email' = normaliseEmail email"
    and "serve cfg lib files (w', rq') s2 = (r3, s3)"
  shows "rs_status r1 = 201 \<and> rs_status r3 = 200 \<and>
    rs_cookies r3 = [sessionCookie cfg (session_token w') (time_Sub (w_now w' + sessionLifetime) (w_until w'))] \<and>
    (\<exists>owner. operators (sv_db s1) = [owner] \<and> owner_row lib email name password owner \<and> operators (sv_db s3) = [owner] \<and>
       admits cfg lib s3 (session_token w') (millis (w_now w' + sessionLifetime)) owner) \<and>
    (\<exists>err m2. runSetupToken k' h' p' ttl' (fst m', (snd m')\<lparr>da_tables := sv_db s3\<rparr>) = (Inl err, m2) \<and> da_tables (snd m2) = sv_db s3)"
proof -
  obtain owner where o: "operators (sv_db s1) = [owner]" "owner_row lib email name password owner"
    using token_then_setup(2) [OF assms(1,2,4-9), of files] assms(10) by auto
  have made: "rs_status r1 = 201" using token_then_setup(1) [OF assms(1,2,4-9), of files] assms(10) by simp
  have owned: "has_owner (sv_db s1)" using o by (simp add: has_owner_def owner_row_def)
  have s2: "operators (sv_db s2) = [owner]" using owned_operators_all [OF owned] o(1) assms(11) by simp
  have wf: "wf_db (sv_db s)" using minted_wf [OF assms(1,3)] assms(8) by simp
  have wf1: "wf_db (sv_db s1)"
    using wf_by_store [OF serve_by_store wf, of cfg lib files "(w, rq)"] assms(10) by simp
  have wf2: "wf_db (sv_db (fold (serve_step cfg lib files) xs t))" if "wf_db (sv_db t)" for xs t
    using that by (induction xs arbitrary: t) (simp_all add: serve_step_def wf_by_store [OF serve_by_store])
  note a = assms(4) [unfolded setting_up_def]
  have signed: "rs_status r3 = 200 \<and> rs_cookies r3 = [sessionCookie cfg (session_token w') (time_Sub (w_now w' + sessionLifetime) (w_until w'))] \<and>
      operators (sv_db s3) = [owner] \<and> admits cfg lib s3 (session_token w') (millis (w_now w' + sessionLifetime)) owner"
    using owner_signs_in [OF assms(12,5,6) wf2 [OF wf1, of between, folded assms(11)] s2 o(2) assms(13), of files] a assms(14) by simp
  let ?m = "(fst m', (snd m')\<lparr>da_tables := sv_db s3\<rparr>)"
  obtain r4 m4 where run: "runSetupToken k' h' p' ttl' ?m = (r4, m4)" by (rule prod.exhaust)
  have "has_owner (da_tables (snd ?m))" using signed o by (simp add: has_owner_def owner_row_def)
  from owned_mints_nothing [OF this run] run made o signed show ?thesis by auto
qed


definition digest_lib :: lib where
  "digest_lib = \<lparr>lib_idkey = toy_idkey, lib_sha256 = (\<lambda>s. ''digest''), lib_signin = (\<lambda>b. Some ('' o@H'', b)),
     lib_setup = (\<lambda>b. Some (EncodeToString url_alphabet ''random'', ''O@h'', ''O'', b))\<rparr>"

definition first_server :: "database machine \<Rightarrow> server" where
  "first_server m = New 0 0 (da_tables (snd m))"

lemma digest_sound: "sound_lib digest_lib"
  by (simp add: sound_lib_def digest_lib_def toy_idkey_length)

lemma digest_hash: "HashToken (\<lambda>s. ''digest'') token \<noteq> []"
  using length_hex [of "''digest''"] unfolding HashToken_def by force

lemma test_token:
  assumes "runSetupToken test_mint test_root ''/d/a.db'' TokenLifetime open_database = (Inr (shown, g), m')"
  shows "si_token shown = EncodeToString url_alphabet ''random'' \<and> 0 < millis (si_expires shown) \<and> sessions (da_tables (snd m')) = []"
proof -
  have "setupTokenMint test_mint ''/d/a.db'' TokenLifetime open_database = (Inr shown, m')"
    using assms by (auto simp: runSetupToken_def setupTokenIssue_def split: if_splits sum.splits prod.splits)
  from mint_tables(2) [OF this refl] have w: "setupTokenWrite test_mint TokenLifetime empty_db = (Inr shown, da_tables (snd m'))"
    by (simp add: open_database_def)
  from w write_stands [OF w] show ?thesis using digest_hash
    by (auto simp: token_stands_def setupTokenWrite_def test_mint_def NewToken_def Let_def IssueSetupToken_def RecordUnauthenticated_def call_def
      TokenLifetime_def instant_def millis_def now_def empty_db_def sql_delete_setup_tokens_def sql_insert_setup_token_def setupTokenIssuedAction_def
      split: prod.splits)
qed

lemma first_owner_gets_in_witness:
  "\<exists>shown g m'. runSetupToken test_mint test_root ''/d/a.db'' TokenLifetime open_database = (Inr (shown, g), m') \<and>
     (let s1 = snd (serve demo_cfg digest_lib (\<lambda>_. False) (demo_world, setup_demo) (first_server m'));
          (r, s2) = serve demo_cfg digest_lib (\<lambda>_. False) (demo_world, signin_request ''let me in, please'') s1
      in rs_status r = 200 \<and> length (operators (sv_db s2)) = 1)"
proof -
  obtain x m' where "runSetupToken test_mint test_root ''/d/a.db'' TokenLifetime open_database = (Inr x, m')"
    using test_issue by (metis prod.collapse)
  moreover obtain shown g where "x = (shown, g)" by (rule prod.exhaust)
  ultimately have run: "runSetupToken test_mint test_root ''/d/a.db'' TokenLifetime open_database = (Inr (shown, g), m')" by simp
  note tok = test_token [OF run]
  define s where "s = first_server m'"
  obtain r1 s1 where one: "serve demo_cfg digest_lib (\<lambda>_. False) (demo_world, setup_demo) s = (r1, s1)" by (rule prod.exhaust)
  obtain r2 s2 where two: "serve demo_cfg digest_lib (\<lambda>_. False) (demo_world, signin_request ''let me in, please'') s1 = (r2, s2)" by (rule prod.exhaust)
  have s: "sv_db s = da_tables (snd m')" by (simp add: s_def first_server_def)
  have ready: "setting_up digest_lib demo_world setup_demo s (si_token shown) ''O@h'' ''O'' ''let me in, please''"
    using tok by (simp add: setting_up_def reaches_def quiet_def setup_demo_def demo_limiters s_def first_server_def digest_lib_def setupBodyLimit_def
      demo_email maxEmailBytes_def minPasswordBytes_def maxPasswordBytes_def)
  have "guarded demo_cfg digest_lib (\<lambda>_. False) demo_world setup_demo None s =
      handleSetup demo_cfg digest_lib demo_world setup_demo (authenticate demo_cfg digest_lib demo_world setup_demo s) s"
    by (rule guarded_post(2)) (simp_all add: setup_demo_def)
  then have sess: "sessions (sv_db s1) = []"
    using one tok s handleSetup_sessions [of demo_cfg digest_lib demo_world setup_demo _ s] serve_db [of demo_cfg digest_lib "\<lambda>_. False" demo_world setup_demo s]
    by simp
  have "sv_signinLimiter s1 = sv_signinLimiter (New 0 0 (da_tables (snd m')))"
    using serve_limiters [of demo_cfg digest_lib "\<lambda>_. False" demo_world setup_demo s] one
    by (simp add: limiters_def reaches_def setup_demo_def s_def first_server_def)
  then have sign: "signing_in digest_lib demo_world (signin_request ''let me in, please'') s1 '' o@H'' ''let me in, please''"
    using sess by (simp add: signing_in_def reaches_def quiet_def signin_request_def demo_limiters digest_lib_def signinBodyLimit_def
      session_token_def EncodeToString_def url_alphabet_def Let_def instant_def now_def sessionLifetime_def millis_def)
  have "operators (da_tables (snd open_database)) = []" "wf_db (da_tables (snd open_database))"
    by (simp add: open_database_def empty_db_def) (simp add: open_database_def wf_empty_db)
  note start = this
  have same: "lib_sha256 digest_lib = mt_sha256 test_mint" "normaliseEmail '' o@H'' = normaliseEmail ''O@h''"
    and early: "now (w_clock demo_world Write) < millis (si_expires shown)"
    using tok by (simp_all add: digest_lib_def test_mint_def normaliseEmail_def go_simps now_def millis_def)
  have "s1 = fold (serve_step demo_cfg digest_lib (\<lambda>_. False)) [] s1" by simp
  from first_owner_gets_in [OF run start ready _ digest_sound same(1) s early one this sign same(2) two, where k' = test_mint and h' = test_root and p' = "''/d/a.db''" and ttl' = 0]
  have "rs_status r2 = 200 \<and> length (operators (sv_db s2)) = 1" by auto
  with run two one show ?thesis
    by (intro exI [of _ shown] exI [of _ g] exI [of _ m']) (simp add: s_def)
qed

end
