(* ===== verification/Service_Life.thy ===== *)
theory Service_Life
  imports First_Owner
begin

text \<open>
  Everything that dokkup runs against the database at once: the requests of a service, whose handlers run
  beside each other, the setup-token command beside the service, and one life of the service after
  another. Each of their transactions is a step, and whoever takes a step takes it on what the others
  have left. That the handlers, the command and the service take no other step is a refinement; what the steps keep, in
  whatever order they come, is an invariant.
\<close>

section \<open>Steps\<close>

inductive program_step :: "db \<Rightarrow> db \<Rightarrow> bool" where
  request: "program_step d (exec_op op d)" if "request_op op"
| command: "program_step d (snd (IssueSetupToken q clk h e d))"

inductive_cases program_stepE: "program_step d d'"

abbreviation program_steps :: "db \<Rightarrow> db \<Rightarrow> bool" where
  "program_steps \<equiv> program_step\<^sup>*\<^sup>*"

lemma requests_step: "list_all request_op ops \<Longrightarrow> program_steps d (fold exec_op ops d)"
proof (induction ops arbitrary: d)
  case (Cons op ops)
  then have "program_step d (exec_op op d)" "program_steps (exec_op op d) (fold exec_op ops (exec_op op d))"
    by (auto intro: program_step.request)
  then show ?case by simp
qed simp

lemma by_store_steps: "by_store s s' \<Longrightarrow> program_steps (sv_db s) (sv_db s')"
  by (auto simp: by_store_def intro: requests_step)

lemma write_steps: "program_steps d (snd (setupTokenWrite e ttl d))"
proof (cases "NewToken (mt_sha256 e) (mt_rand e)")
  case (Some th)
  obtain token hash where th: "th = (token, hash)" by (rule prod.exhaust)
  obtain r1 d1 where i: "IssueSetupToken (mt_issue e) (mt_issued e) hash (mt_asked e + ttl) d = (r1, d1)" by (rule prod.exhaust)
  define a where "a = \<lparr>req_operator_id = 0, req_action = setupTokenIssuedAction, req_target = [], req_config_key = []\<rparr>"
  have one: "program_steps d d1" using program_step.command [of d "mt_issue e" "mt_issued e" hash "mt_asked e + ttl"] i by auto
  have "program_step d1 (exec_op (OpRecordUnauthenticated (mt_record e) (mt_recorded e) a) d1)" by (rule program_step.request) simp
  with one have two: "program_steps d (snd (RecordUnauthenticated (mt_record e) (mt_recorded e) a d1))" by simp
  have "snd (setupTokenWrite e ttl d) \<in> {d1, snd (RecordUnauthenticated (mt_record e) (mt_recorded e) a d1)}"
    by (auto simp: setupTokenWrite_def Some th i a_def split: sum.splits prod.splits)
  with one two show ?thesis by auto
qed (simp add: setupTokenWrite_def)

lemma mint_steps:
  assumes "setupTokenMint e p ttl m = (r, m')"
  shows "program_steps (da_tables (snd m)) (da_tables (snd m'))"
  using mint_tables(1) [OF assms] write_steps [of "da_tables (snd m)" e ttl] by auto

lemma command_steps: "program_steps (da_tables (snd m)) (da_tables (snd (snd (runSetupToken e h p ttl m))))"
proof -
  obtain r m' where mint: "setupTokenMint e p ttl m = (r, m')" by (rule prod.exhaust)
  from mint_steps [OF this] show ?thesis by (cases r) (simp_all add: runSetupToken_def setupTokenIssue_def mint)
qed

lemma life_steps: "program_steps (da_tables (snd m)) (da_tables (snd (snd (runServe e opts vs m))))"
proof -
  let ?d = "da_tables (snd m)"
  obtain r1 m1 where o: "Open (sx_store e) (so_dbPath opts) m = (r1, m1)" by (rule prod.exhaust)
  have t1: "da_tables (snd m1) = ?d" by (rule tables_Open [OF o])
  have "program_steps ?d (sv_db (answer_all e opts vs (New (sx_started e) (sx_started' e) ?d)))"
    using by_store_steps [OF all_by_store, of "New (sx_started e) (sx_started' e) ?d"] by simp
  then show ?thesis using t1 by (cases r1) (simp_all add: runServe_def o Let_def touched_tables)
qed

text \<open>
  C8: The program moves its database only by these steps. A request, whichever it is and however it is
  answered, a run of the setup-token command and a life of the service, from opening the database
  to closing it, each take the tables from where they find them to where they leave them by a sequence
  of steps, whatever fails on the way: five operations on behalf of requests, and the issue of a token.
\<close>

theorem program_moves_by_steps:
  "program_steps (sv_db s) (sv_db (snd (serve cfg lib files x s))) \<and>
   program_steps (da_tables (snd m)) (da_tables (snd (snd (runSetupToken k h p ttl m)))) \<and>
   program_steps (da_tables (snd m)) (da_tables (snd (snd (runServe e opts vs m))))"
  using by_store_steps [OF serve_by_store] command_steps life_steps by blast

section \<open>What the steps keep\<close>

text \<open>An owner and a token that makes one are never there together.\<close>

definition db_sound :: "db \<Rightarrow> bool" where
  "db_sound d \<longleftrightarrow> wf_db d \<and> (has_owner d \<longrightarrow> setup_tokens d = [])"

definition carried :: "db \<Rightarrow> db \<Rightarrow> bool" where
  "carried d d' \<longleftrightarrow> owner_kept d d' \<and> trail_extends d d' \<and> (has_owner d \<longrightarrow> operators d' = operators d) \<and>
     (operators d' = operators d \<or> (\<exists>r. operators d' = operators d @ [r] \<and> op_is_owner r))"

lemma audit_frame: "operators (sql_insert_audit a d) = operators d" "setup_tokens (sql_insert_audit a d) = setup_tokens d"
  by (simp_all add: sql_insert_audit_def)

lemma Record_access: "wf_db d \<Longrightarrow> operators (snd (Record q clk a d)) = operators d \<and> setup_tokens (snd (Record q clk a d)) = setup_tokens d"
  using Record_db [of d q clk a] by (auto simp: audit_frame)

lemma request_access:
  assumes "wf_db d" "request_op op"
  shows "operators (exec_op op d) = operators d \<and> setup_tokens (exec_op op d) = setup_tokens d \<or>
    \<not> has_owner d \<and> setup_tokens (exec_op op d) = [] \<and> (\<exists>r. operators (exec_op op d) = operators d @ [r] \<and> op_is_owner r)"
proof (cases op)
  case (OpRedeemSetupToken q clk clk' h e n p)
  show ?thesis
  proof (cases "fst (RedeemSetupToken q clk clk' h e n p d)")
    case (Inl err)
    with OpRedeemSetupToken RedeemSetupToken_error show ?thesis by simp
  next
    case (Inr r)
    note ok = RedeemSetupToken_ok [OF Inr]
    have "length (setup_tokens d) \<le> 1" using assms(1) by (simp add: wf_db_def tokens_wf_def)
    moreover obtain t where "t \<in> set (setup_tokens d)" "tok_token_hash t = h \<and> tok_expires_at t > now clk"
      using ok(3) by (auto simp: live_token_def)
    ultimately have "filter (\<lambda>t. \<not> (tok_token_hash t = h \<and> tok_expires_at t > now clk)) (setup_tokens d) = []"
      by (cases "setup_tokens d"; cases "tl (setup_tokens d)") auto
    with ok(1,2,4) OpRedeemSetupToken show ?thesis by simp
  qed
qed (use assms in \<open>simp_all add: StartSession_frame RevokeSession_db sql_delete_sessions_def Record_access RecordUnauthenticated_db audit_frame\<close>)

lemma issue_access:
  "operators (snd (IssueSetupToken q clk h e d)) = operators d \<and>
   (setup_tokens (snd (IssueSetupToken q clk h e d)) = setup_tokens d \<or> \<not> has_owner d)"
  using IssueSetupToken_cases [of q clk h e d] IssueSetupToken_ok [of q clk h e d] by auto

lemma step_as_op: "program_step d d' \<Longrightarrow> \<exists>op. d' = exec_op op d"
  by (auto elim!: program_stepE intro: exI [of _ "OpIssueSetupToken _ _ _ _"])

lemma step_keeps:
  assumes "program_step d d'" "db_sound d"
  shows "db_sound d' \<and> carried d d'"
proof -
  have wf: "wf_db d" using assms(2) by (simp add: db_sound_def)
  obtain op where op: "d' = exec_op op d" using step_as_op [OF assms(1)] by blast
  have general: "wf_db d'" "trail_extends d d'" "owner_kept d d'"
    using wf_exec_op [OF wf] exec_op_trail [OF wf] owner_machine.rel_run [OF wf, of "[op]"] by (simp_all add: op)
  from assms(1) have "(has_owner d' \<longrightarrow> setup_tokens d' = []) \<and> (has_owner d \<longrightarrow> operators d' = operators d) \<and>
      (operators d' = operators d \<or> (\<exists>r. operators d' = operators d @ [r] \<and> op_is_owner r))"
  proof cases
    case (request op)
    with request_access [OF wf request(2)] assms(2) show ?thesis by (auto simp: db_sound_def has_owner_def)
  next
    case (command q clk h e)
    with issue_access [of q clk h e d] assms(2) show ?thesis by (auto simp: db_sound_def has_owner_def)
  qed
  with general show ?thesis by (simp add: db_sound_def carried_def)
qed

lemma carried_refl: "wf_db d \<Longrightarrow> carried d d"
  using trail_machine.rel_run [of d "[]"] by (simp add: carried_def owner_kept_same)

lemma carried_trans:
  assumes "carried d d1" "carried d1 d2"
  shows "carried d d2"
proof -
  have "owner_kept d d2" "trail_extends d d2"
    using assms owner_kept_trans [of d d1 d2] trail_extends_trans [of d d1 d2] by (simp_all add: carried_def)
  moreover have "has_owner d1" if "operators d1 = operators d @ [r]" "op_is_owner r" for r using that by (auto simp: has_owner_def)
  moreover have "has_owner d1" if "has_owner d" "operators d1 = operators d" using that by (simp add: has_owner_def)
  ultimately show ?thesis using assms by (auto simp: carried_def)
qed

text \<open>
  C7: What holds however everything runs beside everything else. In every state that the steps can reach
  from an empty database the promises of the schema hold, and there is never an owner while there is a
  token that makes one. From any such state on, the owner who was there is the owner, the
  trail is only added to, who the operators are changes by one row at most, the owner's, and not at all
  once there is an owner.
\<close>

theorem every_interleaving_is_sound:
  assumes "program_steps empty_db d" "program_steps d d'"
  shows "db_sound d' \<and> owner_kept d d' \<and> trail_extends d d' \<and> (has_owner d \<longrightarrow> operators d' = operators d) \<and>
    (operators d' = operators d \<or> (\<exists>r. operators d' = operators d @ [r] \<and> op_is_owner r))"
proof -
  have keeps: "db_sound y \<and> carried x y" if "program_steps x y" "db_sound x" for x y
    using that
  proof (induction rule: rtranclp_induct)
    case base
    then show ?case using carried_refl by (simp add: db_sound_def)
  next
    case (step y z)
    then show ?case using step_keeps carried_trans by blast
  qed
  have "db_sound empty_db" by (simp add: db_sound_def wf_empty_db) (simp add: empty_db_def has_owner_def)
  with keeps [OF assms(1)] keeps [OF assms(2)] show ?thesis by (simp add: carried_def)
qed

text \<open>A token issued, another issued beside it, and a setup with the second, whichever way it ends.\<close>

definition token_stored :: "string \<Rightarrow> db" where
  "token_stored h = snd (IssueSetupToken healthy 0 h 9000000 empty_db)"

lemma every_interleaving_is_sound_witness:
  "db_sound (exec_op (OpRedeemSetupToken healthy 0 0 ''b'' ''o@h'' ''O'' ''p'') (snd (IssueSetupToken healthy 0 ''b'' 9000000 (token_stored ''a'')))) \<and>
   trail_extends (token_stored ''a'') (exec_op (OpRedeemSetupToken healthy 0 0 ''b'' ''o@h'' ''O'' ''p'') (snd (IssueSetupToken healthy 0 ''b'' 9000000 (token_stored ''a''))))"
proof -
  have "program_steps empty_db (token_stored ''a'')" unfolding token_stored_def by (intro r_into_rtranclp program_step.command)
  moreover have "program_step (token_stored ''a'') (snd (IssueSetupToken healthy 0 ''b'' 9000000 (token_stored ''a'')))"
    by (rule program_step.command)
  moreover have "program_step d (exec_op (OpRedeemSetupToken healthy 0 0 ''b'' ''o@h'' ''O'' ''p'') d)" for d
    by (rule program_step.request) simp
  ultimately show ?thesis
    using every_interleaving_is_sound [OF _ rtranclp.rtrancl_into_rtrancl [OF r_into_rtranclp]] by blast
qed

end
