(* ===== verification/Reports.thy ===== *)
theory Reports
  imports Install_Done Uninstall Setup_Token
begin

text \<open>
  What internal/cli announces before it changes a host and reports afterwards, line by line, and that it is
  what is done: the plans of install, update and uninstall against the runs that follow them. The
  lines are those written to the standard output; a time or a duration is printed by the package
  time, an argument.
\<close>

section \<open>Lines\<close>

text \<open>strconv.Quote of a plain word, and a mode in octal with its leading zero.\<close>

definition quoted :: "string \<Rightarrow> string" where
  "quoted s = CHR 0x22 # s @ [CHR 0x22]"

fun octal_digits :: "nat \<Rightarrow> string" where
  "octal_digits n = (if n < 8 then [] else octal_digits (n div 8)) @ [char_of (48 + n mod 8)]"

declare octal_digits.simps [simp del]

definition octal :: "nat \<Rightarrow> string" where
  "octal n = (if n = 0 then ''0'' else CHR ''0'' # octal_digits n)"

definition indented :: "string \<Rightarrow> string" where
  "indented s = ''    '' @ s"

section \<open>install\<close>

definition certificateAuthority :: "string \<Rightarrow> string" where
  "certificateAuthority directory = (if directory = [] then ''Let's Encrypt'' else directory)"

definition printInstallPlan :: "(int \<Rightarrow> string) \<Rightarrow> installConfig \<Rightarrow> string list" where
  "printInstallPlan lifetime cfg =
     (let ownCertificate = (cf_cert cfg \<noteq> [] \<or> cf_key cfg \<noteq> []) in
     [''dokkup install will:'',
      [],
      ''  Create the system user '' @ quoted User @ '' in the '' @ quoted DokkuGroup @ '' group, with a sudoers rule'',
      ''  permitting exactly one program without a password: the dokku binary.'',
      [],
      ''  Write:''] @
     map indented Owned @
     [[],
      ''  Leave this host's Dokku plugins alone, including a Let's Encrypt plugin'',
      ''  if it has one: other apps depend on it for certificate renewal, and it'',
      ''  issues certificates for apps rather than for dokkup.'',
      []] @
     (if cf_domain cfg \<noteq> [] \<and> ownCertificate then
     [''  Serve dokkup at '' @ cf_domain cfg @ '' with the certificate you supply with --cert and'',
      ''  --key, and renew nothing: that certificate is yours to replace. If the'',
      ''  name does not resolve to this host you will be told, and asked whether'',
      ''  to continue.'',
      []]
     else if cf_domain cfg \<noteq> [] then
     [''  Serve dokkup at '' @ cf_domain cfg @ '', and get a certificate for it from '' @ certificateAuthority (cf_acmeDirectory cfg) @ ''.'',
      ''  That means agreeing to their subscriber agreement on your behalf, and'',
      ''  it means '' @ cf_domain cfg @ '' must reach this host on port 80 from the internet:'',
      ''  that is how a certificate authority proves the name is yours. dokkup'',
      ''  serves a self-signed certificate until the real one arrives, and'',
      ''  renews from then on, thirty days before expiry. Pass --cert and --key'',
      ''  instead to serve one you already have.'',
      []]
     else
     [''  Serve dokkup at this host's IP address. No certificate authority will'',
      ''  vouch for an address, so you will be offered a self-signed certificate'',
      ''  and shown its fingerprint to check in the browser. It is served on'',
      ''  port '' @ Itoa DefaultTLSPort @ '', because port 443 is owned by Dokku's own catch-all. In this'',
      ''  mode dokkup allows only the owner and warns on every screen. Leave it'',
      ''  later with 'dokkup publish <domain>'.'',
      []]) @
     [''  Print the address to reach dokkup at, and a single-use token that expires'',
      ''  in '' @ lifetime TokenLifetime @ '', which is what creates the owner account. It will be on your screen'',
      ''  and in this terminal's scrollback; 'dokkup setup-token' issues another'',
      ''  while no owner exists.'',
      []])"

text \<open>The mode of the data directory, read back off the disk where it can be.\<close>

definition reportDataDir :: "('h, 't) installer \<Rightarrow> 'h machine \<Rightarrow> string list" where
  "reportDataDir i m =
     (let mode = (case dir_at m (path i DataDir) of Some mode \<Rightarrow> mode | None \<Rightarrow> dataDirMode)
      in [DataDir @ '' is '' @ octal mode @ '', owned by '' @ User @ ''.''])"

definition setupTokenPrint :: "(nanos \<Rightarrow> string) \<Rightarrow> (nanos \<Rightarrow> string) \<Rightarrow> setupTokenIssued \<Rightarrow> string \<Rightarrow> string list" where
  "setupTokenPrint stamp left issued where_at =
     (if where_at \<noteq> [] then
     [''  Create the owner account at '' @ where_at @ '', with this token:'',
      []]
     else
     [''  Create the owner account with this token:'',
      []]) @
     [''    '' @ si_token issued,
      [],
      ''  It can be spent once and stops working at '' @ stamp (si_expires issued) @ '','',
      ''  '' @ left (si_expires issued) @ '' from now. That is what makes it safe enough to leave in this'',
      ''  terminal's scrollback: what stays behind is a credential with one use'',
      ''  and a deadline, not a password.'',
      [],
      ''  'dokkup setup-token' issues another and revokes this one, and refuses'',
      ''  once the owner exists.'',
      []]"

text \<open>How issuing the token ended: there is an owner already, another error with its text, or a token.\<close>

datatype token_outcome = OwnerAlready | IssueFailed string | TokenIssued setupTokenIssued

definition install_report :: "(nanos \<Rightarrow> string) \<Rightarrow> (nanos \<Rightarrow> string) \<Rightarrow> ('h, 't) installer \<Rightarrow> site \<Rightarrow> token_outcome \<Rightarrow> string list" where
  "install_report stamp left i s outcome =
     [[],
      ''dokkup '' @ in_version i @ '' is installed and answering.'',
      [],
      ''  Reach it at '' @ st_url s,
      []] @
     (if st_fingerprint s \<noteq> [] then
     [''  Your browser will warn that this certificate is not trusted,'',
      ''  because no certificate authority can vouch for an address. Check'',
      ''  that it shows this fingerprint before going past the warning:'',
      [],
      ''    '' @ st_fingerprint s,
      []]
     else []) @
     (if st_manageCert s then
     [''  dokkup holds this certificate itself and renews it thirty days before'',
      ''  it expires, so nothing here is on a calendar. Renewal needs '' @ cf_domain (in_cfg i),
      ''  to keep reaching this host on port 80; a certificate authority checks'',
      ''  that every time, not only the first.'',
      []] @
     (if cf_acmeEmail (in_cfg i) = [] then
     [''  There is no --acme-email on this installation, so the certificate'',
      ''  authority has nowhere to warn you if renewal starts failing, and'',
      ''  the first sign would be the expiry itself. Re-run install with one.'',
      []]
     else [])
     else []) @
     (if st_how s = AtIPPlain then
     [''  This is plain HTTP. Anyone who can see the network between you and'',
      ''  this host can read everything you do in dokkup, including the token'',
      ''  that creates the owner. Publish at a domain when you have one.'',
      []]
     else []) @
     (if st_mode s = ''ip'' then
     [''  dokkup is in IP mode, so it allows only the owner and says so on'',
      ''  every screen.'',
      []]
     else []) @
     (case outcome of
        OwnerAlready \<Rightarrow>
     [''  This installation already has its owner, so no token was issued and'',
      ''  none is needed. Sign in at the address above.'',
      []]
      | IssueFailed why \<Rightarrow>
     [''  dokkup is installed and answering, and nothing here needs undoing. What'',
      ''  failed is the token that creates the owner account:'',
      [],
      ''    '' @ why,
      [],
      ''  Run 'dokkup setup-token' on this host to get one. Read the reason above'',
      ''  first: it is about '' @ DB @ '', which is where dokkup keeps its own state.'',
      []]
      | TokenIssued issued \<Rightarrow> setupTokenPrint stamp left issued (st_url s))"

section \<open>update\<close>

definition printPlan :: "updater \<Rightarrow> Release \<Rightarrow> string list" where
  "printPlan up rel =
     [''dokkup update will:'',
      [],
      ''  Download '' @ rel_Tag rel @ '' for linux/'' @ up_goarch up @ '', check it against SHA256SUMS, and check its'',
      ''  signature if cosign is installed. Nothing is installed unless both pass.'',
      [],
      ''  Replace '' @ up_binary up @ '', keeping the version it replaces beside it.'',
      [],
      ''  Restart '' @ Name @ '' and wait for it to answer as '' @ Version rel @ ''. If it does not,'',
      ''  the previous version goes back and the service is restarted again.'',
      [],
      ''  It will NOT touch:'',
      [],
      ''    '' @ DataDir @ '' -- operators, audit trail, deploy history'',
      ''    '' @ Unit @ '' -- how the service runs is unchanged'',
      ''    '' @ Sudoers,
      ''    your apps, and nothing they run'',
      []]"

section \<open>uninstall\<close>

definition DokkuStorageRoot :: string where "DokkuStorageRoot = ''/var/lib/dokku/data/storage''"

definition uninstall_report :: "removal \<Rightarrow> string list" where
  "uninstall_report r =
     (if rm_removed r = [] then
     [''There was nothing of dokkup's left on this host.'',
      []]
     else [[], ''Removed:'', []] @ map indented (rm_removed r) @ [[]]) @
     (if rm_kept r \<noteq> [] then [''  Left in place:'', []] @ map indented (rm_kept r) @ [[]] else []) @
     [''  Your apps, your volumes, this host's Dokku plugins and Dokku itself'',
      ''  are as they were.'',
      []]"

definition removalNotes :: "string \<rightharpoonup> string" where
  "removalNotes = [PreviousBinary \<mapsto> ''kept by an update or a reinstall, if there was one'',
     Vhost \<mapsto> ''dokkup's one file under /etc/nginx'', TLSDir \<mapsto> ''the certificate dokkup serves, if it has one'']"

definition removal_line :: "string \<Rightarrow> string" where
  "removal_line p = (case removalNotes p of Some note \<Rightarrow> indented (p @ ''  ('' @ note @ '')'') | None \<Rightarrow> indented p)"

definition PrintRemovalReport :: "bool \<Rightarrow> string list" where
  "PrintRemovalReport purge =
     [''dokkup uninstall will REMOVE:'', []] @ map removal_line removalTargets @ [indented (''system user and group '' @ quoted User)] @
     (if purge then [indented (DataDir @ ''  (--purge given: operators, audit trail and deploy history)'')]
      else [[], ''  and will ASK before removing:'', [], indented (DataDir @ ''  (operators, audit trail, deploy history)'')]) @
     [[],
      ''  It will NOT touch:'',
      [],
      ''    your apps, and nothing they run'',
      ''    volumes under '' @ DokkuStorageRoot @ '' -- your data stays'',
      ''    networks connecting your apps'',
      ''    Dokku plugins, including a Let's Encrypt plugin if this host has'',
      ''      one: removing it would stop certificate renewal for apps that'',
      ''      have nothing to do with dokkup'',
      ''    registry credentials held by Docker'',
      ''    Dokku itself'',
      [],
      ''  You will be asked to authenticate again before anything is removed:'',
      ''  your password, or the host's name if you are already root.'',
      []]"


section \<open>What is announced\<close>

text \<open>The paths that a plan names: the first words of its lines that are indented and begin with a slash.\<close>

definition paths_of :: "string list \<Rightarrow> string list" where
  "paths_of ls = map (hd \<circ> Fields) (filter (\<lambda>l. HasPrefix l ''    /'') ls)"

definition announced :: "string list \<Rightarrow> string list" where
  "announced ls = paths_of (takeWhile (\<lambda>l. l \<noteq> ''  It will NOT touch:'') ls)"

definition promised :: "string list \<Rightarrow> string list" where
  "promised ls = paths_of (dropWhile (\<lambda>l. l \<noteq> ''  It will NOT touch:'') ls)"

lemma paths_of_simps [simp]:
  "paths_of [] = []" "paths_of (l # ls) = (if HasPrefix l ''    /'' then hd (Fields l) # paths_of ls else paths_of ls)"
  "paths_of (xs @ ys) = paths_of xs @ paths_of ys"
  by (simp_all add: paths_of_def)

lemma announced_removal: "announced (PrintRemovalReport purge) = removalTargets @ [DataDir]"
  unfolding announced_def PrintRemovalReport_def removalTargets_def Owned_def Conditional_def removal_line_def removalNotes_def indented_def quoted_def
    Unit_def Sudoers_def Binary_def DataDir_def Vhost_def TLSDir_def PreviousBinary_def PreviousSuffix_def User_def
  by (cases purge) (simp_all add: HasPrefix_def Fields_def is_space_def)

lemma promised_update: "promised (printPlan up rel) = [DataDir, Unit, Sudoers]"
  unfolding promised_def printPlan_def Unit_def Sudoers_def DataDir_def
  by (simp add: HasPrefix_def Fields_def is_space_def)

lemma announced_install: "announced (printInstallPlan lifetime cfg) = Owned"
  unfolding announced_def printInstallPlan_def Owned_def indented_def quoted_def
    Unit_def Sudoers_def Binary_def DataDir_def User_def DokkuGroup_def
  by (simp add: HasPrefix_def Fields_def is_space_def Let_def)


section \<open>An update touches what it says\<close>

lemma swap_leaves:
  assumes "swap up d files = (r, files')" "q \<notin> {up_binary up, up_binary up @ PreviousSuffix, d}"
  shows "files' q = files q"
  using assms
  by (auto simp: swap_def Let_def os_Remove_def os_Link_def os_Rename_def split: if_splits sum.splits prod.splits os_error.splits)

lemma rollback_leaves:
  assumes "rollback u up p files m = Some (err, files', m')" "q \<notin> {up_binary up, p}"
  shows "files' q = files q"
  using assms
  by (auto simp: rollback_def os_Rename_def split: if_splits sum.splits prod.splits option.splits)

lemma prove_leaves:
  assumes "prove u up rel vouched_for p files m = Some (r, files', m')" "q \<notin> {up_binary up, p}"
  shows "files' q = files q"
  using assms rollback_leaves [OF _ assms(2)]
  by (auto simp: prove_def Let_def split: sum.splits prod.splits option.splits)

lemma swept_leaves: "\<forall>name \<in> set entries. q \<noteq> dir @ ''/'' @ name \<Longrightarrow> SweepTemp dir entries files q = files q"
  unfolding SweepTemp_def by (induction entries arbitrary: files) auto

lemma swap_previous: "swap up d files = (Inr p, files') \<Longrightarrow> p = up_binary up @ PreviousSuffix"
  by (auto simp: swap_def Let_def split: sum.splits prod.splits os_error.splits)

context release_source
begin

lemma update_leaves:
  assumes "up_source up = source" "fresh files" "update u up want allow files m = Some (r, files', m')"
    and "q \<notin> {up_binary up, up_binary up @ PreviousSuffix} \<union> temps" "\<forall>name \<in> set (up_entries up). q \<noteq> up_dir up @ ''/'' @ name"
  shows "files' q = files q"
proof -
  define swept where "swept = SweepTemp (up_dir up) (up_entries up) files"
  have sw: "swept q = files q" "fresh swept"
    using swept_leaves [OF assms(5)] still_fresh [OF assms(2), of swept] by (auto simp: swept_def SweepTemp_eq)
  show ?thesis
  proof (cases "files' = files")
    case False
    then obtain rel where go: "target up want = Inr rel"
      "(case rs_Fetch source rel (up_goarch up) swept of
         (Inl err, fs) \<Rightarrow> Some (Inl (FetchFailed err), fs, m)
       | (Inr a, fs) \<Rightarrow> (case swap up (art_Path a) fs of
           (Inl err, fs) \<Rightarrow> Some (Inl err, snd (os_Remove (can_discard (up_calls up)) (art_Path a) fs), m)
         | (Inr previous, fs) \<Rightarrow> prove u up rel (art_Signed a) previous fs m)) = Some (r, files', m')"
      using assms(1,3) by (auto simp: update_def Let_def swept_def [symmetric] split: sum.splits if_splits)
    obtain r1 fs1 where f: "rs_Fetch source rel (up_goarch up) swept = (r1, fs1)" by (rule prod.exhaust)
    show ?thesis
    proof (cases r1)
      case (Inl e)
      then show ?thesis using go(2) f not_fetched [OF sw(2)] sw(1) by auto
    next
      case (Inr a)
      have at: "art_Path a \<in> temps" "fs1 q = swept q" using fetched [OF sw(2) f [unfolded Inr]] assms(4) by auto
      obtain r2 fs2 where s: "swap up (art_Path a) fs1 = (r2, fs2)" by (rule prod.exhaust)
      have q: "q \<notin> {up_binary up, up_binary up @ PreviousSuffix, art_Path a}" using assms(4) at(1) by auto
      have same: "fs2 q = files q" using swap_leaves [OF s q] at(2) sw(1) by simp
      show ?thesis
      proof (cases r2)
        case (Inl e)
        then show ?thesis using go(2) f s same q \<open>r1 = Inr a\<close> by (auto simp: os_simps)
      next
        case (Inr p)
        then have "prove u up rel (art_Signed a) p fs2 m = Some (r, files', m')" "p = up_binary up @ PreviousSuffix"
          using go(2) f s \<open>r1 = Inr a\<close> swap_previous by auto
        then show ?thesis using prove_leaves [of u up rel "art_Signed a" p fs2 m r files' m' q] same q by simp
      qed
    qed
  qed simp
qed

end

text \<open>A directory apart from what the plan promises to leave, as that of the binary is.\<close>

definition apart_from :: "string list \<Rightarrow> string \<Rightarrow> bool" where
  "apart_from ps dir \<longleftrightarrow> (\<forall>p \<in> set ps. \<not> under dir p \<and> \<not> under p dir)"

lemma usual_dir: "apart_from [DataDir, Unit, Sudoers] ''/usr/local/bin''"
  by (simp add: apart_from_def under_def HasPrefix_def DataDir_def Unit_def Sudoers_def)

lemma prefix_chain:
  assumes "HasPrefix x a" "HasPrefix x b" "length a \<le> length b"
  shows "HasPrefix b a"
proof -
  obtain r t where "x = a @ r" "x = b @ t" using assms(1,2) unfolding HasPrefix_iff by blast
  with assms(3) show ?thesis by (auto simp: HasPrefix_iff append_eq_append_conv2)
qed

lemma under_chain:
  assumes "HasPrefix q (a @ ''/'')" "HasPrefix q (b @ ''/'')" "length a \<le> length b"
  shows "under a b"
proof (cases "length a = length b")
  case True
  then have "a = b" using assms(1,2) by (auto simp: HasPrefix_iff)
  then show ?thesis by (simp add: under_def)
next
  case False
  have "HasPrefix q b" using assms(2) by (auto simp: HasPrefix_iff)
  from prefix_chain [OF assms(1) this] assms(3) False show ?thesis by (simp add: under_def)
qed

lemma apart_paths:
  assumes "apart_from ps dir" "p \<in> set ps" "under p q"
  shows "\<not> HasPrefix q (dir @ ''/'')"
proof
  assume d: "HasPrefix q (dir @ ''/'')"
  have a: "\<not> under dir p" "\<not> under p dir" using assms by (simp_all add: apart_from_def)
  have "q \<noteq> p" using d a by (auto simp: under_def)
  then have "HasPrefix q (p @ ''/'')" using assms(3) by (simp add: under_def)
  with under_chain [OF d this] under_chain [OF this d] a show False by linarith
qed



section \<open>A removal takes what it announces\<close>

lemma announced_set:
  "set (announced (PrintRemovalReport purge)) = {Unit, Sudoers, Binary, Vhost, TLSDir, PreviousBinary, DataDir}"
  unfolding announced_removal removalTargets_def Owned_def Conditional_def
  by (auto simp: Unit_def Sudoers_def Binary_def DataDir_def)

lemma taken_is_announced:
  assumes "q \<in> targets u data" "un_root u = []"
  shows "\<exists>p \<in> set (announced (PrintRemovalReport purge)). under p q"
proof -
  have p: "un_path u x = x" for x using assms(2) by (simp add: un_path_def Rooted_def)
  have self: "under x x" for x by (simp add: under_def)
  show ?thesis using assms(1) self unfolding announced_set targets_def p by (auto split: if_splits)
qed

text \<open>
  C28: A removal takes what it has announced, and what it has announced is gone. Whatever calls fail, each
  file and each directory is as it was or at or under a path printed above the line that says what is
  not touched. When the removal reports success, each path printed is gone, the certificate's directory with all that
  was in it; and so is the data directory, printed last, if it was announced as taken rather than as
  asked about.
\<close>

theorem removal_is_as_announced:
  assumes "removing u users groups" "fresh_dir (un_path u TLSDir) (fst m)" "fresh_dir (un_path u DataDir) (fst m)"
    and "un_root u = []" "uninstall u m = (res, r, m')"
  shows "(file_at m' q = file_at m q \<and> dir_at m' q = dir_at m q \<or>
      (\<exists>p \<in> set (announced (PrintRemovalReport (un_purge u))). under p q)) \<and>
    (res = Inr () \<longrightarrow> p \<in> set (announced (PrintRemovalReport (un_purge u))) \<longrightarrow> p \<noteq> DataDir \<or> un_purge u \<longrightarrow>
       file_at m' p = None \<and> (p \<in> {TLSDir, DataDir} \<longrightarrow> all_gone p m'))"
proof -
  have path: "un_path u x = x" for x using assms(4) by (simp add: un_path_def Rooted_def)
  from removing.uninstall_takes [OF assms(1,5,2,3)] consider
      (none) "res \<noteq> Inr ()" "same_host users groups m m'"
    | (some) data stdin where "decideAboutData u m = Inr (data, stdin)" "only_removed users groups (targets u data) m m'"
      "res = Inr () \<longrightarrow> nothing_left u users groups m' \<and> (data \<longrightarrow> all_gone (un_path u DataDir) m')" by blast
  then show ?thesis
  proof cases
    case none
    then show ?thesis by (simp add: same_host_def)
  next
    case some
    have first: "file_at m' q = file_at m q \<and> dir_at m' q = dir_at m q \<or> (\<exists>p \<in> set (announced (PrintRemovalReport (un_purge u))). under p q)"
      using only_removedD(1,2) [OF some(2), of q] taken_is_announced [OF _ assms(4), of q data "un_purge u"] by blast
    have "file_at m' p = None \<and> (p \<in> {TLSDir, DataDir} \<longrightarrow> all_gone p m')"
      if "res = Inr ()" "p \<in> set (announced (PrintRemovalReport (un_purge u)))" "p \<noteq> DataDir \<or> un_purge u"
    proof -
      have gone: "nothing_left u users groups m'" "data \<longrightarrow> all_gone DataDir m'" using some(3) that(1) path by simp_all
      have data: "data" if "un_purge u" using some(1) that by (simp add: decideAboutData_def)
      have "p \<in> {Unit, Sudoers, Binary, Vhost, TLSDir, PreviousBinary, DataDir}"
        using that(2) unfolding announced_set .
      moreover have "all_gone x m' \<Longrightarrow> file_at m' x = None" for x by (simp add: all_gone_def under_def)
      ultimately show ?thesis using gone data that(3) unfolding nothing_left_def path gone_def
        by (auto simp: TLSDir_def DataDir_def Unit_def Sudoers_def Binary_def Vhost_def PreviousBinary_def PreviousSuffix_def)
    qed
    with first show ?thesis by blast
  qed
qed

section \<open>An installation writes more than it announces\<close>

text \<open>
  What an installation that succeeds has changed is at or under a path that its plan names, or a name that it
  works with on the way, or one of two that the plan does not name: the previous binary, and the
  vhost, which every installation writes.
\<close>

lemma install_plan_and_done:
  assumes "installing i users groups" "starts i users groups m" "in_self i \<notin> written i" "in_root i = []"
    and "install i m = Some (Inr (Installed s token), fs, m')"
  shows "announced (printInstallPlan lifetime (in_cfg i)) = Owned \<and> (\<exists>m1. finish i s m1 = Some (token, m') \<and>
    (\<forall>q. file_at m1 q = file_at m q \<or> (\<exists>p \<in> set (announced (printInstallPlan lifetime (in_cfg i))). under p q) \<or>
       q \<in> {Vhost, PreviousBinary} \<union> scratch i) \<and>
    file_at m1 Vhost \<noteq> None) \<and> Vhost \<notin> set (announced (printInstallPlan lifetime (in_cfg i)))"
proof -
  have path: "path i x = x" for x using assms(4) by (simp add: path_def Rooted_def)
  obtain m1 where m1: "finish i s m1 = Some (token, m')" "texts_in_place i s m1" "only_ours i users groups m m1"
    using installing.install_done [OF assms(1,5,2,3)] by blast
  have data: "under DataDir TLSCert" "under DataDir TLSKey"
    by (simp_all add: under_def TLSCert_def TLSKey_def TLSDir_def DataDir_def HasPrefix_def)
  have "file_at m1 q = file_at m q \<or> (\<exists>p \<in> set Owned. under p q) \<or> q \<in> {Vhost, PreviousBinary} \<union> scratch i" for q
    using m1(3) data unfolding only_ours_def written_def path Owned_def by (auto simp: under_def)
  moreover have "file_at m1 Vhost \<noteq> None" using m1(2) by (auto simp: texts_in_place_def path)
  moreover have "Vhost \<notin> set Owned" by (simp add: Owned_def Vhost_def Unit_def Sudoers_def Binary_def DataDir_def)
  ultimately show ?thesis using m1(1) unfolding announced_install by blast
qed

end
