(* ===== verification/Reports_Examples.thy ===== *)
theory Reports_Examples
  imports Reports Update_Examples Removal
begin

text \<open>Runs on which the properties of the theory Reports are applied.\<close>

lemma demo_returns: "update demo_host (demo_updater v) want allow files m \<noteq> None"
proof -
  have rb: "rollback demo_host (demo_updater v) p fs m \<noteq> None" for p fs m
    by (auto simp: rollback_def demo_wait split: sum.splits prod.splits option.splits)
  have pr: "prove demo_host (demo_updater v) rel sg p fs m \<noteq> None" for rel sg p fs m
    by (auto simp: prove_def Let_def rb demo_wait simp del: not_None_eq split: option.splits sum.splits)
  then show ?thesis
    by (auto simp: update_def Let_def pr simp del: not_None_eq split: sum.splits prod.splits)
qed

definition installed_files :: fs where
  "installed_files = demo_files(Unit \<mapsto> \<lparr>f_data = ''unit'', f_mode = 420\<rparr>, DB \<mapsto> \<lparr>f_data = ''tables'', f_mode = 384\<rparr>)"


lemma removal_is_as_announced_witness:
  "\<exists>r m'. uninstall test_uninstaller (dokku_machine True) = (Inr (), r, m') \<and> file_at m' Binary = None \<and>
     Binary \<in> set (announced (PrintRemovalReport True)) \<and> file_at (dokku_machine True) Binary \<noteq> None \<and>
     file_at m' DefaultDokku = file_at (dokku_machine True) DefaultDokku"
proof -
  obtain r m' where run: "uninstall test_uninstaller (dokku_machine True) = (Inr (), r, m')" using test_removal by blast
  have dirs: "fresh_dir (un_path test_uninstaller TLSDir) (fst (dokku_machine True))" "fresh_dir (un_path test_uninstaller DataDir) (fst (dokku_machine True))"
    using test_fresh by (simp_all add: dokku_machine_def)
  have in_it: "Binary \<in> set (announced (PrintRemovalReport True))" unfolding announced_set by simp
  have "Binary \<noteq> DataDir" "file_at (dokku_machine True) Binary \<noteq> None"
    by (simp_all add: dokku_machine_def dokku_world_def Binary_def DataDir_def)
  moreover have "\<not> under p DefaultDokku" if "p \<in> set (announced (PrintRemovalReport True))" for p
    using that unfolding announced_set
    by (auto simp: under_def HasPrefix_def DefaultDokku_def Unit_def Sudoers_def Binary_def Vhost_def TLSDir_def PreviousBinary_def
        PreviousSuffix_def DataDir_def)
  ultimately show ?thesis
    using removal_is_as_announced [OF test_removal.removing_axioms dirs test_uninstaller_fields(7) run, of Binary Binary]
      removal_is_as_announced [OF test_removal.removing_axioms dirs test_uninstaller_fields(7) run, of DefaultDokku Binary]
      run in_it by auto
qed

end
