(* ===== verification/Spec2Isabelle.thy ===== *)
theory Spec2Isabelle
  imports Server_Examples Update_Examples Removal Install_Service Download_Watch Own_Examples Service_Life Reports_Examples
begin

text \<open>
  dokkup puts a web interface on a Dokku host: one binary that installs, updates and removes itself,
  runs as a systemd service behind nginx, signs operators in against a SQLite database, and drives
  Dokku through sudo. This library models that program from its Go sources and proves what makes each
  part, and their composition, correct. Each theory names the files it models; a definition keeps the
  name of the Go function or type it translates wherever Isabelle has not taken it.

  \<^bold>\<open>How the code is modelled.\<close> A Go function that may fail returns a sum, its error on the left, beside
  the state it leaves; every early return of the source is a branch. A struct is a record, a Go
  interface (host.Ops, service.Manager, the release source) a record of functions, and what is relied
  on of it a locale. Every call that may fail for reasons outside the program (a query, a call on a
  file, a program that is run, a read of the clock or of the random source) takes its outcome from an
  environment record, so a theorem that quantifies over the environment holds whichever call fails.
  Instants are nanoseconds or, as stored, milliseconds, both unbounded integers, as the code never comes near the bounds
  of its 64-bit ones; lengths and sizes that are bounded in the code keep their bounds. Strings are lists of
  bytes; trimming and case folding are those of ASCII.

  \<^bold>\<open>The parts, and where they are.\<close>

  \<^item> Prelude, Go_Strings, Go_Net, Base64: state machines with an invariant (locales machine and
    monotone_machine, used by the store and the server), and what is used of strings, strconv, net, encoding/base64 and
    encoding/hex.
  \<^item> internal/store: Store_Schema (tables, constraints, clock), Store_Operator, Store_Session, Store_SetupToken,
    Store_Audit (one operation each of operator.go, session.go, setuptoken.go, audit.go, a transaction with a fault at
    any call), Store (histories of operations), Store_Migrate (migrate.go), Store_Open (the
    file: store.go). The session tables meet the contract of a session authority, a locale.
  \<^item> internal/secret: Secret (password.go's PHC strings and the tokens; argon2id and SHA-256 are arguments).
  \<^item> internal/server: Server_Http (requests, answers, configuration), RateLimit, Server_Session (session.go),
    Server_Setup (setup.go), Server (middleware, routes, the embedded frontend), Server_Access, Server_SignIn and
    Server_Limits (properties of the whole handler), Server_Examples.
  \<^item> internal/release: Release (versions, the policy of the client, fetching and verifying), Download_Watch (the
    watchdog of a transfer, a step relation). internal/hostpaths and
    internal/service: Service (paths, the unit, systemctl, the in-memory manager). internal/dokku: Dokku (names,
    options, both clients). internal/proxy: Proxy (the vhost, the fingerprint), Own_Certificate and
    Own_Examples (cert.go and what meets its certificates later). internal/host: Host (the seam, the
    programs of the host, the in-memory host). internal/authn: Authn. internal/acme: Acme, Acme_Examples.
  \<^item> internal/cli: Update and Update_Examples (update.go, exit codes and dispatch of cli.go), Install (install.go),
    Uninstall (uninstall.go), Setup_Token (setuptoken.go), Cli_Flags (the flags of every command), Serve and
    Serve_Examples (serve.go), First_Owner (from the command's token to a session), Service_Life (the transactions
    of all commands as one step relation), Reports and Reports_Examples (the plans and reports that are printed).

  \<^bold>\<open>How they interact.\<close> The server is a machine on requests whose every step is operations of the store, so what
  is proved of histories of the store holds of any sequence of requests (Server_Access), and of a whole life of
  the process, from the opening of the file to its closing (Serve). An installation acts on a machine (files,
  directories, and the rest of the host) through the seams host.Ops and service.Manager; its properties are
  proved inside locales over those seams, and the in-memory host and manager of the repository are shown to be
  models of them. The token that the command prints, the setup that spends it and the sign-in that follows meet in
  First_Owner; the certificate the installer makes, the check of its fingerprint and the manager that replaces it,
  in Own_Certificate. The unit, the sudoers rule and the vhost that it writes are matched with what the service reads
  and runs: Serve shows that the arguments parse back to what was decided and that sudo permits what is asked. The
  database is shared by the service and the commands run beside it: every transaction either makes is a step of
  one relation (Service_Life), so its invariants hold of any interleaving.

  \<^bold>\<open>What the lemmas show.\<close>

  \<^item> Store: the promises of the schema hold in every history; the owner is permanent and unique; a redemption is all
    or nothing and happens once; the trail is append only; removing an operator leaves nothing of them.
  \<^item> Server: a session is only given for a password, an owner only for a token, and nothing but the four open routes
    is reached without a session; refusals are alike; attempts are bounded by the limiter; the
    database only changes through the guards. First_Owner: a token that is shown lets the first owner in.
  \<^item> Release and Update: only a verified artifact is installed; a failed fetch leaves nothing; only silence cuts a
    transfer off; each exit code of an
    update says what the host is left with; waiting ends; an update that can succeed does.
  \<^item> Dokku: no request reaches Dokku as anything but a name; both clients refine one specification.
  \<^item> Install_Unwind: what fails is undone (a journal of what each undo step restores, inside the locale
    installing). Install_Done: what succeeds is in place, and nothing else is changed. Install_Fakes: an
    installation in which nothing fails reaches its end (the calculus of the predicate succeeds).
    Install_Service: a late failure stops the service also where it was running, which the code's comments do
    not say. Install_Examples applies them.
  \<^item> Authn, Uninstall, Removal: a removal was meant, takes only what is dokkup's, can be run again, and undoes an
    installation.
  \<^item> Store_Open, Setup_Token: the file is private; a token that is shown stands. Service_Life: requests, commands and
    whole lives of the service refine the step relation, whose every reachable database is sound.
  \<^item> Reports: an update leaves alone what its plan promises, a removal takes what it announces and all of it, and what
    an installation writes beyond its plan.
  \<^item> Acme: a renewal never serves a mixed pair, answers only the challenge it is asked for, happens where it can, and
    is not tried too often. Proxy: the vhost is well formed. Own_Certificate: the fingerprint shown
    is of what is served, and the placeholder is seen for one.

  \<^bold>\<open>Loops and bounds.\<close> The loop that waits for health is a partial function with a theorem that it ends once the
  deadline is sure to come; awaiting a certificate is one too, and what a success or a failure of it means is
  stated with its result. The loop of the certificate manager and the life of a server are functions of the list of
  their rounds, of any length, so no fuel is chosen anywhere else. Recursion over arguments and bytes is
  structural or by length.

  \<^bold>\<open>What is an argument.\<close> argon2id, SHA-256, crypto/x509, encoding/json's decoder, time.ParseDuration and how times
  and durations are printed, SQLite beyond the
  statements of the package, x/crypto/acme and the authority, sigstore's verdict, the programs systemctl, sudo,
  visudo, nginx, useradd and their kin, the frontend's files, and how systemd splits a command. What is relied on
  of them is a named hypothesis where a theorem needs one (sqlite_keeps, reads_pem, x509_reads,
  splits_at_space) and the
  assumptions of the locales host_ops and manager otherwise.

  \<^bold>\<open>Not modelled.\<close> The warnings, prompts and lines of progress that are printed around the plans and reports, and
  what is logged, but for the request log; drawing
  keys and encoding certificates; the network below a request or a probe; mutexes and the scheduling of goroutines, as each locked
  section is one step; process groups and signals; the parents that MkdirAll makes; symbolic links; Unicode beyond
  ASCII; text of error messages except where it is what the code decides by. internal/stubprog serves tests only,
  cmd/dokkup only calls the command line, and web, install.sh, scripts and devenv are not Go.
\<close>

section \<open>The parts together\<close>

text \<open>The token that ends an installation changes nothing but the database's own files and their directory.\<close>

lemma issuing_keeps_to_the_database:
  assumes "setupTokenIssue e h p ttl m = (r, m')" "sqlite_keeps (mt_store e) p"
  shows "only_database p m m'"
proof -
  obtain r1 m1 where o: "Open (mt_store e) p m = (r1, m1)" by (rule prod.exhaust)
  have o1: "only_database p m m1" using opened [OF o assms(2)] by blast
  have t: "only_database p m (touched (mt_store e) ph x)" if "only_database p m x" for ph and x :: "database machine"
    by (rule only_database_trans [OF that touched_keeps(1) [OF assms(2)]])
  have w: "only_database p m (fst m1, d)" for d using o1 by (simp add: only_database_def)
  have "only_database p m (snd (setupTokenMint e p ttl m))"
    using o1 t [OF t [OF w]]
    by (auto simp: setupTokenMint_def o on_tables_def Close_def Store_Open.closed_def split: sum.splits prod.splits)
  then show ?thesis using assms(1) by (auto simp: setupTokenIssue_def split: sum.splits prod.splits)
qed

end
